(* ===== verification/Prelude.thy ===== *)
theory Prelude
  imports Main "HOL-Library.Word"
begin

unbundle bit_operations_syntax

text \<open>
  Shared vocabulary of the development: names for the fixed-width integers of the C++ code,
  C strings as \<^typ>\<open>string\<close>, results that may fail as sums, the byte-level representation of
  words, and the list lemmas the components share.

  Conventions used by every theory.
  \<^item> \<open>uintN_t\<close> and \<open>intN_t\<close> are both \<open>N word\<close>; a signed comparison reads the word with \<^const>\<open>sint\<close>.
  \<^item> \<open>size_t\<close> values that only count bytes in memory are \<^typ>\<open>nat\<close>; a subtraction that the code
    performs without knowing that it stays non-negative is \<open>usub64\<close>, which wraps.
  \<^item> A call that may throw, dereference a null pointer or fail an assertion returns
    \<open>'e + 'a\<close>, \<^const>\<open>Inl\<close> carrying the failure.
\<close>

type_synonym u8 = "8 word"
type_synonym u16 = "16 word"
type_synonym u32 = "32 word"
type_synonym u64 = "64 word"

named_theorems inv_intros \<open>preservation of component invariants\<close>
named_theorems bytes_simps \<open>byte-level representation of words\<close>

section \<open>Results that may fail\<close>

definition bindE :: "'e + 'a \<Rightarrow> ('a \<Rightarrow> 'e + 'b) \<Rightarrow> 'e + 'b" where
  "bindE r f = (case r of Inl e \<Rightarrow> Inl e | Inr x \<Rightarrow> f x)"

lemma bindE_simps [simp]:
  "bindE (Inl e) f = Inl e"
  "bindE (Inr x) f = f x"
  by (simp_all add: bindE_def)

lemma bindE_cong [fundef_cong]:
  "r = r' \<Longrightarrow> (\<And>x. r' = Inr x \<Longrightarrow> f x = f' x) \<Longrightarrow> bindE r f = bindE r' f'"
  by (cases r') simp_all

lemma bindE_eq_Inr: "bindE r f = Inr y \<longleftrightarrow> (\<exists>x. r = Inr x \<and> f x = Inr y)"
  by (cases r) simp_all

lemma bindE_eq_Inl: "bindE r f = Inl e \<longleftrightarrow> r = Inl e \<or> (\<exists>x. r = Inr x \<and> f x = Inl e)"
  by (cases r) simp_all

lemma bindE_assoc: "bindE (bindE r f) g = bindE r (\<lambda>x. bindE (f x) g)"
  by (cases r) simp_all

section \<open>Unsigned 64-bit subtraction\<close>

definition usub64 :: "nat \<Rightarrow> nat \<Rightarrow> nat" where
  "usub64 a b = (if b \<le> a then a - b else 2 ^ 64 + a - b)"

lemma usub64_le [simp]: "b \<le> a \<Longrightarrow> usub64 a b = a - b"
  by (simp add: usub64_def)

section \<open>Characters and bytes\<close>

definition byte_of_char :: "char \<Rightarrow> u8" where
  "byte_of_char c = of_nat (of_char c)"

definition char_of_byte :: "u8 \<Rightarrow> char" where
  "char_of_byte b = char_of (unat b)"

lemma char_of_byte_of_char [simp]: "char_of_byte (byte_of_char c) = c"
proof -
  have "unat (of_nat (of_char c) :: u8) = of_char c"
    by (simp add: unat_of_nat take_bit_nat_eq_self)
  then show ?thesis by (simp add: byte_of_char_def char_of_byte_def)
qed

lemma byte_of_char_of_byte [simp]: "byte_of_char (char_of_byte b) = b"
proof -
  have "unat b < 256" using unsigned_less [of b] by simp
  then show ?thesis by (simp add: byte_of_char_def char_of_byte_def of_char_of)
qed

lemma byte_of_char_inject [simp]: "byte_of_char c = byte_of_char d \<longleftrightarrow> c = d"
  by (metis char_of_byte_of_char)

definition bytes_of_string :: "string \<Rightarrow> u8 list" where
  "bytes_of_string s = map byte_of_char s"

definition string_of_bytes :: "u8 list \<Rightarrow> string" where
  "string_of_bytes bs = map char_of_byte bs"

lemma string_of_bytes_of_string [simp]: "string_of_bytes (bytes_of_string s) = s"
  by (simp add: string_of_bytes_def bytes_of_string_def comp_def)

lemma bytes_of_string_of_bytes [simp]: "bytes_of_string (string_of_bytes bs) = bs"
  by (simp add: string_of_bytes_def bytes_of_string_def comp_def)

lemma length_bytes_of_string [simp]: "length (bytes_of_string s) = length s"
  by (simp add: bytes_of_string_def)

lemma length_string_of_bytes [simp]: "length (string_of_bytes bs) = length bs"
  by (simp add: string_of_bytes_def)

lemma unat_drop_bit: "unat (drop_bit n w) = unat w div 2 ^ n"
  unfolding unat_drop_bit_eq by (rule drop_bit_eq_div)

section \<open>The memory representation of a word\<close>

text \<open>
  \<open>word_bytes w\<close> is what \<open>memcpy\<close> copies out of a variable that holds \<open>w\<close> on a little-endian
  machine: its bytes, least significant first. \<open>bytes_word\<close> is the copy back.
\<close>

definition word_bytes :: "'a::len word \<Rightarrow> u8 list" where
  "word_bytes w = map (\<lambda>i. ucast (drop_bit (8 * i) w)) [0..<LENGTH('a) div 8]"

definition bytes_word :: "u8 list \<Rightarrow> 'a::len word" where
  "bytes_word bs = foldr (\<lambda>b w. ucast b OR push_bit 8 w) bs 0"

lemma length_word_bytes [simp]: "length (word_bytes (w :: 'a::len word)) = LENGTH('a) div 8"
  by (simp add: word_bytes_def)

lemma bit_bytes_word:
  "bit (bytes_word bs :: 'a::len word) n \<longleftrightarrow>
     n < LENGTH('a) \<and> n div 8 < length bs \<and> bit (bs ! (n div 8)) (n mod 8)"
proof (induction bs arbitrary: n)
  case Nil
  then show ?case by (simp add: bytes_word_def)
next
  case (Cons b bs)
  have step: "bytes_word (b # bs) = (ucast b OR push_bit 8 (bytes_word bs) :: 'a word)"
    by (simp add: bytes_word_def)
  show ?case
  proof (cases "n < 8")
    case True
    then show ?thesis
      by (auto simp: step bit_simps dest: bit_imp_le_length)
  next
    case False
    then obtain m where m: "n = m + 8" using nat_le_iff_add [of 8 n] by (auto simp: add.commute)
    have d: "(m + 8) div 8 = Suc (m div 8)" by simp
    have "\<not> bit b n" using False by (auto dest: bit_imp_le_length)
    then show ?thesis
      using Cons.IH [of m] by (auto simp: step m d bit_simps)
  qed
qed

lemma bytes_word_of_word_bytes:
  fixes w :: "'a::len word"
  assumes "8 dvd LENGTH('a)"
  shows "bytes_word (word_bytes w) = w"
proof (rule bit_word_eqI)
  fix n
  assume n: "n < LENGTH('a)"
  then have "n div 8 < LENGTH('a) div 8" using assms by (auto elim!: dvdE)
  then show "bit (bytes_word (word_bytes w) :: 'a word) n = bit w n"
    using n by (simp add: bit_bytes_word word_bytes_def bit_simps)
qed

lemma word_bytes_of_bytes_word:
  assumes "length bs = LENGTH('a::len) div 8" and "8 dvd LENGTH('a)"
  shows "word_bytes (bytes_word bs :: 'a word) = bs"
proof (rule nth_equalityI)
  show "length (word_bytes (bytes_word bs :: 'a word)) = length bs"
    using assms by simp
  fix i
  assume "i < length (word_bytes (bytes_word bs :: 'a word))"
  then have i: "i < length bs" using assms by simp
  have "bit (word_bytes (bytes_word bs :: 'a word) ! i) n = bit (bs ! i) n" if n: "n < 8" for n
  proof -
    have "8 * i + n < LENGTH('a)" using i n assms by (auto elim!: dvdE)
    then show ?thesis
      using i n assms by (simp add: word_bytes_def bit_simps bit_bytes_word)
  qed
  then show "word_bytes (bytes_word bs :: 'a word) ! i = bs ! i"
    by (intro bit_word_eqI) simp
qed

lemma bytes_word_widths [bytes_simps, simp]:
  "bytes_word (word_bytes (a :: u16)) = a"
  "bytes_word (word_bytes (b :: u32)) = b"
  "bytes_word (word_bytes (c :: u64)) = c"
  by (simp_all add: bytes_word_of_word_bytes)

section \<open>Overwriting a range of a list\<close>

text \<open>\<open>splice_at p bs xs\<close>: the cells of \<open>xs\<close> from \<open>p\<close> on replaced by \<open>bs\<close> (a \<open>memcpy\<close> into \<open>xs + p\<close>).\<close>

definition splice_at :: "nat \<Rightarrow> 'a list \<Rightarrow> 'a list \<Rightarrow> 'a list" where
  "splice_at p bs xs = take p xs @ bs @ drop (p + length bs) xs"

lemma length_splice_at: "p + length bs \<le> length xs \<Longrightarrow> length (splice_at p bs xs) = length xs"
  by (simp add: splice_at_def)

lemma splice_at_Nil [simp]: "splice_at p [] xs = xs"
  by (simp add: splice_at_def)

lemma drop_take_splice_at:
  "p \<le> length xs \<Longrightarrow> take (length bs) (drop p (splice_at p bs xs)) = bs"
  by (simp add: splice_at_def)

lemma splice_at_append_left:
  "p + length bs \<le> length xs \<Longrightarrow> splice_at p bs (xs @ ys) = splice_at p bs xs @ ys"
  by (simp add: splice_at_def)

lemma splice_at_append_right:
  "splice_at (length xs + p) bs (xs @ ys) = xs @ splice_at p bs ys"
  by (simp add: splice_at_def)

lemma splice_at_split:
  assumes "p + length bs \<le> length xs"
  shows "splice_at (p + length bs) cs (splice_at p bs xs) = splice_at p (bs @ cs) xs"
  using assms by (simp add: splice_at_def add.commute add.left_commute)

lemma concat_equal_length:
  assumes "\<forall>x \<in> set xss. length x = n"
  shows "length (concat xss) = n * length xss"
  using assms by (induction xss) simp_all

lemma concat_split_at:
  assumes "i < length xss"
  shows "concat xss = concat (take i xss) @ (xss ! i) @ concat (drop (Suc i) xss)"
  using id_take_nth_drop [OF assms] by (metis concat.simps(2) concat_append)

lemma concat_update_at:
  assumes "i < length xss"
  shows "concat (xss[i := y]) = concat (take i xss) @ y @ concat (drop (Suc i) xss)"
  using assms by (simp add: upd_conv_take_nth_drop)

section \<open>Printing numbers\<close>

text \<open>What \<open>os << n\<close> prints for an unsigned \<open>n\<close>, in base 10 and (after \<open>std::hex\<close>) in base 16.\<close>

definition digit_char :: "nat \<Rightarrow> char" where
  "digit_char d = (if d < 10 then char_of (48 + d) else char_of (87 + d))"

fun digits :: "nat \<Rightarrow> nat \<Rightarrow> string" where
  "digits b n = (if b < 2 \<or> n < b then [digit_char n] else digits b (n div b) @ [digit_char (n mod b)])"

declare digits.simps [simp del]

definition show_dec :: "nat \<Rightarrow> string" where
  "show_dec n = digits 10 n"

definition show_hex :: "nat \<Rightarrow> string" where
  "show_hex n = digits 16 n"

definition show_int :: "int \<Rightarrow> string" where
  "show_int i = (if i < 0 then CHR ''-'' # show_dec (nat (- i)) else show_dec (nat i))"

section \<open>C strings\<close>

text \<open>The characters a C function sees behind \<open>s.c_str()\<close>, and the first position of a character.\<close>

definition c_str :: "string \<Rightarrow> string" where
  "c_str s = takeWhile (\<lambda>c. c \<noteq> CHR 0x00) s"

fun memchr :: "char \<Rightarrow> string \<Rightarrow> nat option" where
  "memchr c [] = None"
| "memchr c (x # xs) = (if x = c then Some 0 else map_option Suc (memchr c xs))"

end
