(* ===== verification/Endian.thy ===== *)
theory Endian
  imports Prelude
begin

text \<open>
  \<^verbatim>\<open>sylar/endian.h\<close>: the byte-order constants and \<open>byteswap\<close>. The model is of a little-endian
  host (the \<open>#else\<close> branches of the header; the binaries the repository carries are x86-64), so
  \<open>byteswapOnLittleEndian\<close> swaps and \<open>byteswapOnBigEndian\<close> is the identity.
\<close>

definition SYLAR_LITTLE_ENDIAN :: nat where
  "SYLAR_LITTLE_ENDIAN = 1"

definition SYLAR_BIG_ENDIAN :: nat where
  "SYLAR_BIG_ENDIAN = 2"

definition SYLAR_BYTE_ORDER :: nat where
  "SYLAR_BYTE_ORDER = SYLAR_LITTLE_ENDIAN"

definition byteswap :: "'a::len word \<Rightarrow> 'a word" where
  "byteswap value = bytes_word (rev (word_bytes value))"

definition byteswapOnLittleEndian :: "'a::len word \<Rightarrow> 'a word" where
  "byteswapOnLittleEndian t = byteswap t"

definition byteswapOnBigEndian :: "'a::len word \<Rightarrow> 'a word" where
  "byteswapOnBigEndian t = t"

lemmas endian_defs = SYLAR_LITTLE_ENDIAN_def SYLAR_BIG_ENDIAN_def SYLAR_BYTE_ORDER_def

lemma word_bytes_byteswap:
  fixes w :: "'a::len word"
  assumes "8 dvd LENGTH('a)"
  shows "word_bytes (byteswap w) = rev (word_bytes w)"
  using assms by (simp add: byteswap_def word_bytes_of_bytes_word)

lemma byteswap_byteswap:
  fixes w :: "'a::len word"
  assumes "8 dvd LENGTH('a)"
  shows "byteswap (byteswap w) = w"
  using assms
  by (simp add: byteswap_def word_bytes_of_bytes_word bytes_word_of_word_bytes)

lemma byteswap_widths [bytes_simps, simp]:
  "byteswap (byteswap (a :: u16)) = a"
  "byteswap (byteswap (b :: u32)) = b"
  "byteswap (byteswap (c :: u64)) = c"
  by (simp_all add: byteswap_byteswap)

lemma word_bytes_byteswap_widths [bytes_simps]:
  "word_bytes (byteswap (a :: u16)) = rev (word_bytes a)"
  "word_bytes (byteswap (b :: u32)) = rev (word_bytes b)"
  "word_bytes (byteswap (c :: u64)) = rev (word_bytes c)"
  by (simp_all add: word_bytes_byteswap)

end
