(* ===== verification/Byte_Stream.thy ===== *)
theory Byte_Stream
  imports Prelude
begin

text \<open>
  The interface through which the serialisation code uses a positioned byte buffer, and the
  composition rules its clients share. \<open>byte_reader\<close> is what a decoder relies on (read and seek),
  \<open>byte_stream\<close> adds what an encoder relies on (write). \<open>emits m w bs\<close> says that the writer \<open>w\<close>
  appends exactly \<open>bs\<close> at the position of any stream in byte-order mode \<open>m\<close>; \<open>parses e r m bs v\<close>
  that the reader \<open>r\<close> consumes exactly \<open>bs\<close> and returns \<open>v\<close>. The flag \<open>e\<close> marks readers that may
  end in a read of no bytes, for which the stream must have spare capacity behind \<open>bs\<close>.
\<close>

locale byte_reader =
  fixes inv :: "'s \<Rightarrow> bool"
    and dat :: "'s \<Rightarrow> u8 list"
    and pos :: "'s \<Rightarrow> nat"
    and cap :: "'s \<Rightarrow> nat"
    and mode :: "'s \<Rightarrow> nat"
    and get :: "'s \<Rightarrow> nat \<Rightarrow> 'e + u8 list \<times> 's"
    and seek :: "'s \<Rightarrow> nat \<Rightarrow> 'e + 's"
    and short :: 'e
  assumes pos_le: "inv s \<Longrightarrow> pos s \<le> length (dat s)"
    and dat_le: "inv s \<Longrightarrow> length (dat s) \<le> cap s"
    and get_ok: "inv s \<Longrightarrow> pos s + k \<le> length (dat s) \<Longrightarrow> 0 < k \<or> pos s < cap s \<Longrightarrow>
      \<exists>s'. get s k = Inr (take k (drop (pos s) (dat s)), s') \<and> inv s' \<and> dat s' = dat s \<and>
           pos s' = pos s + k \<and> mode s' = mode s \<and> cap s' = cap s"
    and get_short: "inv s \<Longrightarrow> length (dat s) < pos s + k \<Longrightarrow> get s k = Inl short"
    and seek_ok: "inv s \<Longrightarrow> p \<le> length (dat s) \<Longrightarrow>
      \<exists>s'. seek s p = Inr s' \<and> inv s' \<and> dat s' = dat s \<and> pos s' = p \<and> mode s' = mode s \<and>
           cap s' = cap s"
begin

definition ahead :: "'s \<Rightarrow> u8 list \<Rightarrow> bool" where
  "ahead s bs \<longleftrightarrow> inv s \<and> drop (pos s) (dat s) = bs"

definition parses :: "bool \<Rightarrow> ('s \<Rightarrow> 'e + 'v \<times> 's) \<Rightarrow> nat \<Rightarrow> u8 list \<Rightarrow> 'v \<Rightarrow> bool" where
  "parses e r m bs v \<longleftrightarrow>
     (\<forall>s rest. ahead s (bs @ rest) \<longrightarrow> mode s = m \<longrightarrow> (e \<longrightarrow> pos s + length bs < cap s) \<longrightarrow>
        (\<exists>s'. r s = Inr (v, s') \<and> ahead s' rest \<and> mode s' = m \<and> cap s' = cap s \<and>
              dat s' = dat s \<and> pos s' = pos s + length bs))"

lemma ahead_room: "ahead s (bs @ rest) \<Longrightarrow> rest \<noteq> [] \<Longrightarrow> pos s + length bs < cap s"
proof -
  assume "ahead s (bs @ rest)" and "rest \<noteq> []"
  then have "inv s" "length bs < length (drop (pos s) (dat s))"
    by (auto simp: ahead_def)
  then show ?thesis using dat_le [of s] by simp
qed

lemma get_ahead:
  assumes "ahead s (bs @ rest)" and "bs \<noteq> [] \<or> pos s < cap s"
  shows "\<exists>s'. get s (length bs) = Inr (bs, s') \<and> ahead s' rest \<and> mode s' = mode s \<and>
           cap s' = cap s \<and> dat s' = dat s \<and> pos s' = pos s + length bs"
proof -
  have inv: "inv s" and d: "drop (pos s) (dat s) = bs @ rest"
    using assms(1) by (simp_all add: ahead_def)
  have "length (dat s) - pos s = length bs + length rest"
    using arg_cong [OF d, of length] by simp
  then have "pos s + length bs \<le> length (dat s)" using pos_le [OF inv] by simp
  from get_ok [OF inv this] assms(2) obtain s' where s':
      "get s (length bs) = Inr (take (length bs) (drop (pos s) (dat s)), s')"
      "inv s'" "dat s' = dat s" "pos s' = pos s + length bs" "mode s' = mode s" "cap s' = cap s"
    by auto
  moreover have "drop (pos s') (dat s') = rest"
    using s'(3,4) arg_cong [OF d, of "drop (length bs)"] by (simp add: add.commute)
  ultimately show ?thesis using d by (auto simp: ahead_def)
qed

lemma get_ahead_short: "ahead s bs \<Longrightarrow> length bs < k \<Longrightarrow> get s k = Inl short"
  using pos_le [of s] by (intro get_short) (auto simp: ahead_def)

lemma parsesI:
  assumes "\<And>s rest. ahead s (bs @ rest) \<Longrightarrow> mode s = m \<Longrightarrow> (e \<Longrightarrow> pos s + length bs < cap s) \<Longrightarrow>
     \<exists>s'. r s = Inr (v, s') \<and> ahead s' rest \<and> mode s' = m \<and> cap s' = cap s \<and> dat s' = dat s \<and>
          pos s' = pos s + length bs"
  shows "parses e r m bs v"
  using assms by (simp add: parses_def)

lemma parses_get: "parses (bs = []) (\<lambda>s. get s (length bs)) m bs bs"
  by (rule parsesI) (use get_ahead in fastforce)

lemma parses_weaken: "parses False r m bs v \<Longrightarrow> parses e r m bs v"
  by (simp add: parses_def)

lemma parses_return: "parses e (\<lambda>s. Inr (v, s)) m [] v"
  by (simp add: parses_def)

lemma parses_bind:
  assumes "parses e1 r1 m b1 v1" and "parses e2 (r2 v1) m b2 v2" and "e1 \<Longrightarrow> b2 \<noteq> [] \<or> e2"
  shows "parses e2 (\<lambda>s. bindE (r1 s) (\<lambda>(v, s'). r2 v s')) m (b1 @ b2) v2"
proof (rule parsesI)
  fix s rest
  assume a: "ahead s ((b1 @ b2) @ rest)" and m: "mode s = m"
    and e: "e2 \<Longrightarrow> pos s + length (b1 @ b2) < cap s"
  have a': "ahead s (b1 @ (b2 @ rest))" using a by simp
  have "pos s + length b1 < cap s" if "e1"
    using assms(3) [OF that] e ahead_room [OF a'] by auto
  then obtain s' where s': "r1 s = Inr (v1, s')" "ahead s' (b2 @ rest)" "mode s' = m"
      "cap s' = cap s" "dat s' = dat s" "pos s' = pos s + length b1"
    using assms(1) a' m unfolding parses_def by blast
  then obtain s'' where "r2 v1 s' = Inr (v2, s'')" "ahead s'' rest" "mode s'' = m"
      "cap s'' = cap s" "dat s'' = dat s" "pos s'' = pos s' + length b2"
    using assms(2) e unfolding parses_def by (metis add.assoc length_append)
  then show "\<exists>s'. bindE (r1 s) (\<lambda>(v, s'). r2 v s') = Inr (v2, s') \<and> ahead s' rest \<and>
      mode s' = m \<and> cap s' = cap s \<and> dat s' = dat s \<and> pos s' = pos s + length (b1 @ b2)"
    using s' by simp
qed

lemma parses_map:
  assumes "parses e r m bs v"
  shows "parses e (\<lambda>s. bindE (r s) (\<lambda>(x, s'). Inr (f x, s'))) m bs (f v)"
proof (rule parsesI)
  fix s rest
  assume "ahead s (bs @ rest)" "mode s = m" "e \<Longrightarrow> pos s + length bs < cap s"
  then obtain s' where "r s = Inr (v, s')" "ahead s' rest" "mode s' = m" "cap s' = cap s"
      "dat s' = dat s" "pos s' = pos s + length bs"
    using assms unfolding parses_def by blast
  then show "\<exists>s'. bindE (r s) (\<lambda>(x, s'). Inr (f x, s')) = Inr (f v, s') \<and> ahead s' rest \<and>
      mode s' = m \<and> cap s' = cap s \<and> dat s' = dat s \<and> pos s' = pos s + length bs"
    by simp
qed

end

locale byte_stream = byte_reader inv dat pos cap mode get seek short
  for inv :: "'s \<Rightarrow> bool"
    and dat :: "'s \<Rightarrow> u8 list"
    and pos :: "'s \<Rightarrow> nat"
    and cap :: "'s \<Rightarrow> nat"
    and mode :: "'s \<Rightarrow> nat"
    and get :: "'s \<Rightarrow> nat \<Rightarrow> 'e + u8 list \<times> 's"
    and seek :: "'s \<Rightarrow> nat \<Rightarrow> 'e + 's"
    and short :: 'e +
  fixes put :: "'s \<Rightarrow> u8 list \<Rightarrow> 'e + 's"
  assumes put_ok: "inv s \<Longrightarrow>
      \<exists>s'. put s bs = Inr s' \<and> inv s' \<and> dat s' = splice_at (pos s) bs (dat s) \<and>
           pos s' = pos s + length bs \<and> mode s' = mode s"
begin

definition wrote :: "'s \<Rightarrow> u8 list \<Rightarrow> 's \<Rightarrow> bool" where
  "wrote s bs s' \<longleftrightarrow> inv s' \<and> dat s' = splice_at (pos s) bs (dat s) \<and>
     pos s' = pos s + length bs \<and> mode s' = mode s"

definition emits :: "nat \<Rightarrow> ('s \<Rightarrow> 'e + 's) \<Rightarrow> u8 list \<Rightarrow> bool" where
  "emits m w bs \<longleftrightarrow> (\<forall>s. inv s \<longrightarrow> mode s = m \<longrightarrow> (\<exists>s'. w s = Inr s' \<and> wrote s bs s'))"

lemma splice_at_twice:
  "p \<le> length xs \<Longrightarrow> splice_at (p + length bs) cs (splice_at p bs xs) = splice_at p (bs @ cs) xs"
  by (simp add: splice_at_def add.commute add.left_commute)

lemma wrote_trans: "inv s \<Longrightarrow> wrote s a s' \<Longrightarrow> wrote s' b s'' \<Longrightarrow> wrote s (a @ b) s''"
  using splice_at_twice [OF pos_le] by (auto simp: wrote_def)

lemma emits_put: "emits m (\<lambda>s. put s bs) bs"
  using put_ok unfolding emits_def wrote_def by blast

lemma emits_bind:
  assumes "emits m w1 b1" and "emits m w2 b2"
  shows "emits m (\<lambda>s. bindE (w1 s) w2) (b1 @ b2)"
  unfolding emits_def
proof (intro allI impI)
  fix s
  assume inv: "inv s" and m: "mode s = m"
  then obtain s' where s': "w1 s = Inr s'" "wrote s b1 s'" using assms(1) by (auto simp: emits_def)
  then have "inv s'" "mode s' = m" using m by (simp_all add: wrote_def)
  then obtain s'' where s'': "w2 s' = Inr s''" "wrote s' b2 s''"
    using assms(2) by (auto simp: emits_def)
  show "\<exists>s''. bindE (w1 s) w2 = Inr s'' \<and> wrote s (b1 @ b2) s''"
    using s' s'' wrote_trans [OF inv s'(2) s''(2)] by simp
qed

text \<open>What a writer emitted is what a reader finds after seeking back.\<close>

lemma wrote_ahead:
  assumes "inv s" and "wrote s bs s'"
  shows "\<exists>s''. seek s' (pos s) = Inr s'' \<and> dat s'' = dat s' \<and> pos s'' = pos s \<and>
      mode s'' = mode s \<and> cap s'' = cap s' \<and>
      ahead s'' (bs @ drop (pos s + length bs) (dat s))"
proof -
  have "inv s'" "pos s \<le> length (dat s')"
    using assms pos_le by (auto simp: wrote_def splice_at_def)
  from seek_ok [OF this] show ?thesis
    using assms pos_le [OF assms(1)] by (auto simp: wrote_def ahead_def splice_at_def)
qed

lemma round_trip:
  assumes "emits m w bs" and "parses e r m bs v" and "inv s" and "mode s = m"
  shows "\<exists>s1 s2. w s = Inr s1 \<and> inv s1 \<and> seek s1 (pos s) = Inr s2 \<and>
      ((e \<longrightarrow> pos s1 < cap s1) \<longrightarrow>
        (\<exists>s3. r s2 = Inr (v, s3) \<and> inv s3 \<and> dat s3 = dat s1 \<and> pos s3 = pos s1))"
proof -
  obtain s1 where s1: "w s = Inr s1" "wrote s bs s1"
    using assms by (auto simp: emits_def)
  from wrote_ahead [OF assms(3) s1(2)] obtain s2 where s2: "seek s1 (pos s) = Inr s2"
      "dat s2 = dat s1" "pos s2 = pos s" "mode s2 = mode s" "cap s2 = cap s1"
      "ahead s2 (bs @ drop (pos s + length bs) (dat s))"
    by blast
  have pos: "pos s1 = pos s + length bs" "inv s1" using s1(2) by (simp_all add: wrote_def)
  have m2: "mode s2 = m" using s2(4) assms(4) by simp
  have "\<exists>s3. r s2 = Inr (v, s3) \<and> inv s3 \<and> dat s3 = dat s1 \<and> pos s3 = pos s1"
    if "e \<longrightarrow> pos s1 < cap s1"
  proof -
    have "e \<longrightarrow> pos s2 + length bs < cap s2" using that s2 pos by simp
    then have "\<exists>s3. r s2 = Inr (v, s3) \<and> ahead s3 (drop (pos s + length bs) (dat s)) \<and> mode s3 = m \<and>
        cap s3 = cap s2 \<and> dat s3 = dat s2 \<and> pos s3 = pos s2 + length bs"
      using assms(2) s2(6) m2 unfolding parses_def by blast
    then show ?thesis using s2 pos by (auto simp: ahead_def)
  qed
  then show ?thesis using s1 s2 pos by blast
qed

end

end
