(* ===== verification/Byte_Array.thy ===== *)
theory Byte_Array
  imports Endian Byte_Stream
begin

text \<open>
  \<^verbatim>\<open>sylar/bytearray.h\<close> and \<^verbatim>\<open>sylar/bytearray.cc\<close>: the chunked buffer \<open>ByteArray\<close>.

  The chain \<open>m_root -> next -> ...\<close> is the list \<open>m_nodes\<close> (its head is \<open>m_root\<close>); a \<open>Node*\<close>
  such as \<open>m_cur\<close> is an index into that list, \<^const>\<open>None\<close> being the null pointer. A read through
  a null pointer is the failure \<open>null_deref\<close>. \<open>new char[s]\<close> leaves the bytes of a new node
  unspecified: \<open>m_uninit k\<close> is what the allocator hands out for the \<open>k\<close>-th node, and no theorem
  assumes anything about it. \<open>ceil(1.0 * size / m_baseSize)\<close> is the exact integer ceiling, which
  the double computation returns for every \<open>size\<close> below \<open>2^53\<close>.

  The operations return the new state, or the failure; the state an operation leaves behind when
  it throws is not modelled.
\<close>

section \<open>State\<close>

datatype ba_error = out_of_range string | null_deref | negative_count | loops_forever

record node =
  ptr :: "u8 list"
  node_size :: nat

record byte_array =
  m_baseSize :: nat
  m_position :: nat
  m_capacity :: nat
  m_size :: nat
  m_endian :: nat
  m_nodes :: "node list"
  m_cur :: "nat option"
  m_uninit :: "nat \<Rightarrow> nat \<Rightarrow> u8"

definition Node_new :: "(nat \<Rightarrow> u8) \<Rightarrow> nat \<Rightarrow> node" where
  "Node_new junk s = \<lparr>ptr = map junk [0..<s], node_size = s\<rparr>"

definition ByteArray_new :: "(nat \<Rightarrow> nat \<Rightarrow> u8) \<Rightarrow> nat \<Rightarrow> byte_array" where
  "ByteArray_new junk base_size =
     \<lparr>m_baseSize = base_size, m_position = 0, m_capacity = base_size, m_size = 0,
      m_endian = SYLAR_BIG_ENDIAN, m_nodes = [Node_new (junk 0) base_size], m_cur = Some 0,
      m_uninit = junk\<rparr>"

definition next_node :: "node list \<Rightarrow> nat \<Rightarrow> nat option" where
  "next_node ns c = (if Suc c < length ns then Some (Suc c) else None)"

definition ByteArray_getPosition :: "byte_array \<Rightarrow> nat" where
  "ByteArray_getPosition ba = m_position ba"

definition ByteArray_getSize :: "byte_array \<Rightarrow> nat" where
  "ByteArray_getSize ba = m_size ba"

definition ByteArray_getReadSize :: "byte_array \<Rightarrow> nat" where
  "ByteArray_getReadSize ba = usub64 (m_size ba) (m_position ba)"

definition ByteArray_getCapacity :: "byte_array \<Rightarrow> nat" where
  "ByteArray_getCapacity ba = usub64 (m_capacity ba) (m_position ba)"

definition ByteArray_isLittleEndian :: "byte_array \<Rightarrow> bool" where
  "ByteArray_isLittleEndian ba = (m_endian ba = SYLAR_LITTLE_ENDIAN)"

definition ByteArray_setIsLittleEndian :: "byte_array \<Rightarrow> bool \<Rightarrow> byte_array" where
  "ByteArray_setIsLittleEndian ba val =
     (if val then ba\<lparr>m_endian := SYLAR_LITTLE_ENDIAN\<rparr> else ba\<lparr>m_endian := SYLAR_BIG_ENDIAN\<rparr>)"

section \<open>Capacity, positions, raw reads and writes\<close>

definition ceil_div :: "nat \<Rightarrow> nat \<Rightarrow> nat" where
  "ceil_div a b = (a + b - 1) div b"

text \<open>The loop of \<open>addCapacity\<close> that hangs \<open>count\<close> new nodes on the end of the chain.\<close>

primrec append_nodes :: "nat \<Rightarrow> byte_array \<Rightarrow> byte_array" where
  "append_nodes 0 ba = ba"
| "append_nodes (Suc i) ba =
     append_nodes i (ba\<lparr>m_nodes := m_nodes ba @
                          [Node_new (m_uninit ba (length (m_nodes ba))) (m_baseSize ba)],
                        m_capacity := m_capacity ba + m_baseSize ba\<rparr>)"

definition ByteArray_addCapacity :: "byte_array \<Rightarrow> nat \<Rightarrow> byte_array" where
  "ByteArray_addCapacity ba sz =
     (if sz = 0 then ba
      else let old_cap = ByteArray_getCapacity ba in
        if old_cap \<ge> sz then ba
        else let count = ceil_div (sz - old_cap) (m_baseSize ba);
                 first = (if count = 0 then None else Some (length (m_nodes ba)));
                 ba' = append_nodes count ba
             in if old_cap = 0 then ba'\<lparr>m_cur := first\<rparr> else ba')"

definition memcpy_to :: "node \<Rightarrow> nat \<Rightarrow> u8 list \<Rightarrow> node" where
  "memcpy_to n off bs = n\<lparr>ptr := splice_at off bs (ptr n)\<rparr>"

definition memcpy_from :: "node \<Rightarrow> nat \<Rightarrow> nat \<Rightarrow> u8 list" where
  "memcpy_from n off len = take len (drop off (ptr n))"

text \<open>The \<open>while\<close> loop of \<open>write\<close>; \<open>bs\<close> is what remains of the source buffer.\<close>

function write_loop ::
    "node list \<Rightarrow> nat option \<Rightarrow> nat \<Rightarrow> nat \<Rightarrow> nat \<Rightarrow> u8 list \<Rightarrow> ba_error + node list \<times> nat option \<times> nat"
  where
  "write_loop ns cur npos ncap pos bs =
     (if bs = [] then Inr (ns, cur, pos)
      else case cur of
        None \<Rightarrow> Inl null_deref
      | Some c \<Rightarrow>
          (if ncap \<ge> length bs then
             Inr (ns[c := memcpy_to (ns ! c) npos bs],
                  if node_size (ns ! c) = npos + length bs then next_node ns c else Some c,
                  pos + length bs)
           else case next_node ns c of
             None \<Rightarrow> Inl null_deref
           | Some c' \<Rightarrow>
               write_loop (ns[c := memcpy_to (ns ! c) npos (take ncap bs)]) (Some c') 0
                 (node_size (ns ! c')) (pos + ncap) (drop ncap bs)))"
  by pat_completeness auto
termination
  by (relation "measure (\<lambda>(ns, cur, _). case cur of None \<Rightarrow> 0 | Some c \<Rightarrow> length ns - c)")
     (auto simp: next_node_def split: if_splits)

definition ByteArray_write :: "byte_array \<Rightarrow> u8 list \<Rightarrow> ba_error + byte_array" where
  "ByteArray_write ba buf =
     (if length buf = 0 then Inr ba
      else let ba = ByteArray_addCapacity ba (length buf) in
        case m_cur ba of
          None \<Rightarrow> Inl null_deref
        | Some c \<Rightarrow>
            let npos = m_position ba mod m_baseSize ba;
                ncap = node_size (m_nodes ba ! c) - npos
            in bindE (write_loop (m_nodes ba) (m_cur ba) npos ncap (m_position ba) buf)
                 (\<lambda>(ns, cur, pos).
                    Inr (ba\<lparr>m_nodes := ns, m_cur := cur, m_position := pos,
                            m_size := (if pos > m_size ba then pos else m_size ba)\<rparr>)))"

text \<open>The loop both overloads of \<open>read\<close> run: the bytes copied and the node pointer after them.\<close>

function read_loop ::
    "node list \<Rightarrow> nat option \<Rightarrow> nat \<Rightarrow> nat \<Rightarrow> nat \<Rightarrow> ba_error + u8 list \<times> nat option"
  where
  "read_loop ns cur npos ncap sz =
     (if sz = 0 then Inr ([], cur)
      else case cur of
        None \<Rightarrow> Inl null_deref
      | Some c \<Rightarrow>
          (if ncap \<ge> sz then
             Inr (memcpy_from (ns ! c) npos sz,
                  if node_size (ns ! c) = npos + sz then next_node ns c else Some c)
           else case next_node ns c of
             None \<Rightarrow> Inl null_deref
           | Some c' \<Rightarrow>
               bindE (read_loop ns (Some c') 0 (node_size (ns ! c')) (sz - ncap))
                 (\<lambda>(bs, cur'). Inr (memcpy_from (ns ! c) npos ncap @ bs, cur'))))"
  by pat_completeness auto
termination
  by (relation "measure (\<lambda>(ns, cur, _). case cur of None \<Rightarrow> 0 | Some c \<Rightarrow> length ns - c)")
     (auto simp: next_node_def split: if_splits)

declare write_loop.simps [simp del]
declare read_loop.simps [simp del]

definition ByteArray_read :: "byte_array \<Rightarrow> nat \<Rightarrow> ba_error + u8 list \<times> byte_array" where
  "ByteArray_read ba sz =
     (if sz > ByteArray_getReadSize ba then Inl (out_of_range ''not enough len'')
      else case m_cur ba of
        None \<Rightarrow> Inl null_deref
      | Some c \<Rightarrow>
          let npos = m_position ba mod m_baseSize ba;
              ncap = node_size (m_nodes ba ! c) - npos
          in bindE (read_loop (m_nodes ba) (m_cur ba) npos ncap sz)
               (\<lambda>(bs, cur). Inr (bs, ba\<lparr>m_position := m_position ba + sz, m_cur := cur\<rparr>)))"

definition ByteArray_read_position ::
    "byte_array \<Rightarrow> nat \<Rightarrow> nat \<Rightarrow> ba_error + u8 list" where
  "ByteArray_read_position ba sz position =
     (if sz > usub64 (m_size ba) position then Inl (out_of_range ''not enough len'')
      else case m_cur ba of
        None \<Rightarrow> Inl null_deref
      | Some c \<Rightarrow>
          let npos = position mod m_baseSize ba;
              ncap = node_size (m_nodes ba ! c) - npos
          in bindE (read_loop (m_nodes ba) (m_cur ba) npos ncap sz) (\<lambda>(bs, cur). Inr bs))"

function setPosition_loop :: "node list \<Rightarrow> nat option \<Rightarrow> nat \<Rightarrow> ba_error + nat \<times> nat" where
  "setPosition_loop ns cur v =
     (case cur of
        None \<Rightarrow> Inl null_deref
      | Some c \<Rightarrow>
          (if v > node_size (ns ! c)
           then setPosition_loop ns (next_node ns c) (v - node_size (ns ! c))
           else Inr (c, v)))"
  by pat_completeness auto
termination
  by (relation "measure (\<lambda>(ns, cur, _). case cur of None \<Rightarrow> 0 | Some c \<Rightarrow> Suc (length ns - c))")
     (auto simp: next_node_def split: if_splits)

declare setPosition_loop.simps [simp del]

definition ByteArray_setPosition :: "byte_array \<Rightarrow> nat \<Rightarrow> ba_error + byte_array" where
  "ByteArray_setPosition ba v =
     (if v > m_capacity ba then Inl (out_of_range ''set_position out of range'')
      else bindE (setPosition_loop (m_nodes ba) (Some 0) v)
        (\<lambda>(c, v').
           Inr (ba\<lparr>m_position := v, m_size := (if v > m_size ba then v else m_size ba),
                   m_cur := (if v' = node_size (m_nodes ba ! c) then next_node (m_nodes ba) c
                             else Some c)\<rparr>)))"

definition ByteArray_clear :: "byte_array \<Rightarrow> byte_array" where
  "ByteArray_clear ba =
     ba\<lparr>m_position := 0, m_size := 0, m_capacity := m_baseSize ba,
        m_nodes := take 1 (m_nodes ba), m_cur := Some 0\<rparr>"


section \<open>Representation invariant and abstraction\<close>

text \<open>
  \<open>contents\<close> is the chain read as one flat array, \<open>data\<close> its readable prefix. The invariant ties
  the cached fields to the chain: the capacity is the sum of the node sizes, and \<open>m_cur\<close> is the
  node that holds \<open>m_position\<close>, null exactly when the position is the capacity.
\<close>

definition chunked :: "nat \<Rightarrow> node list \<Rightarrow> bool" where
  "chunked base ns \<longleftrightarrow> (\<forall>n \<in> set ns. node_size n = base \<and> length (ptr n) = base)"

definition flat :: "node list \<Rightarrow> u8 list" where
  "flat ns = concat (map ptr ns)"

definition cur_at :: "nat \<Rightarrow> nat \<Rightarrow> nat \<Rightarrow> nat option" where
  "cur_at base n p = (if p div base < n then Some (p div base) else None)"

definition ba_inv :: "byte_array \<Rightarrow> bool" where
  "ba_inv ba \<longleftrightarrow>
     0 < m_baseSize ba \<and> m_nodes ba \<noteq> [] \<and> chunked (m_baseSize ba) (m_nodes ba) \<and>
     m_capacity ba = m_baseSize ba * length (m_nodes ba) \<and>
     m_position ba \<le> m_size ba \<and> m_size ba \<le> m_capacity ba \<and>
     m_cur ba = cur_at (m_baseSize ba) (length (m_nodes ba)) (m_position ba)"

definition contents :: "byte_array \<Rightarrow> u8 list" where
  "contents ba = flat (m_nodes ba)"

definition ba_data :: "byte_array \<Rightarrow> u8 list" where
  "ba_data ba = take (m_size ba) (contents ba)"

lemma chunked_nth:
  "chunked base ns \<Longrightarrow> c < length ns \<Longrightarrow> node_size (ns ! c) = base \<and> length (ptr (ns ! c)) = base"
  by (simp add: chunked_def)

lemma chunked_append [simp]: "chunked base (ns @ ms) \<longleftrightarrow> chunked base ns \<and> chunked base ms"
  by (auto simp: chunked_def)

lemma flat_append [simp]: "flat (ns @ ms) = flat ns @ flat ms"
  by (simp add: flat_def)

lemma length_flat: "chunked base ns \<Longrightarrow> length (flat ns) = base * length ns"
  unfolding flat_def by (subst concat_equal_length [of _ base]) (auto simp: chunked_def)

lemma chunked_take: "chunked base ns \<Longrightarrow> chunked base (take c ns)"
  by (auto simp: chunked_def dest: in_set_takeD)

lemma flat_split:
  assumes "c < length ns"
  shows "flat ns = flat (take c ns) @ ptr (ns ! c) @ flat (drop (Suc c) ns)"
  using concat_split_at [of c "map ptr ns"] assms by (simp add: flat_def take_map drop_map)

lemma flat_update:
  assumes "c < length ns"
  shows "flat (ns[c := n]) = flat (take c ns) @ ptr n @ flat (drop (Suc c) ns)"
  using concat_update_at [of c "map ptr ns"] assms
  by (simp add: flat_def take_map drop_map map_update)

lemma chunked_update:
  assumes "chunked base ns" and "node_size n = base" and "length (ptr n) = base"
  shows "chunked base (ns[c := n])"
  using assms set_update_subset_insert [of ns c n] by (auto simp: chunked_def)

lemma length_flat_take:
  "chunked base ns \<Longrightarrow> c < length ns \<Longrightarrow> length (flat (take c ns)) = base * c"
  by (simp add: length_flat [OF chunked_take])

lemma flat_memcpy_to:
  assumes "chunked base ns" and "c < length ns" and "npos + length bs \<le> base"
  shows "flat (ns[c := memcpy_to (ns ! c) npos bs]) = splice_at (base * c + npos) bs (flat ns)"
    and "chunked base (ns[c := memcpy_to (ns ! c) npos bs])"
proof -
  have len: "length (ptr (ns ! c)) = base" "node_size (ns ! c) = base"
    using chunked_nth [OF assms(1,2)] by simp_all
  have "splice_at (base * c + npos) bs (flat ns) =
      flat (take c ns) @ splice_at npos bs (ptr (ns ! c) @ flat (drop (Suc c) ns))"
    unfolding flat_split [OF assms(2)] length_flat_take [OF assms(1,2), symmetric]
    by (rule splice_at_append_right)
  then show "flat (ns[c := memcpy_to (ns ! c) npos bs]) = splice_at (base * c + npos) bs (flat ns)"
    using assms len by (simp add: flat_update memcpy_to_def splice_at_append_left)
  show "chunked base (ns[c := memcpy_to (ns ! c) npos bs])"
    using assms len by (intro chunked_update) (simp_all add: memcpy_to_def length_splice_at)
qed

lemma flat_memcpy_from:
  assumes "chunked base ns" and "c < length ns" and "npos + k \<le> base"
  shows "memcpy_from (ns ! c) npos k = take k (drop (base * c + npos) (flat ns))"
proof -
  have len: "length (ptr (ns ! c)) = base" using chunked_nth [OF assms(1,2)] by simp
  show ?thesis
    unfolding flat_split [OF assms(2)] memcpy_from_def
    using assms len by (simp add: length_flat_take)
qed

lemma cur_at_inside:
  assumes "c < n" and "base * c \<le> p" and "p < base * c + base"
  shows "cur_at base n p = Some c"
proof -
  have "p div base = c" using assms(2,3) by (intro div_nat_eqI) (simp_all add: mult.commute)
  then show ?thesis using assms(1) by (simp add: cur_at_def)
qed

lemma cur_at_next:
  assumes "0 < base"
  shows "cur_at base (length ns) (base * c + base) = next_node ns c"
proof -
  have "(base * c + base) div base = Suc c" using assms by simp
  then show ?thesis by (simp add: cur_at_def next_node_def)
qed

section \<open>The loops on the flat array\<close>

lemma write_loop_correct:
  assumes "chunked base ns" and "c < length ns" and "npos < base"
    and "base * c + npos + length bs \<le> base * length ns"
  shows "\<exists>ns'. write_loop ns (Some c) npos (base - npos) pos bs =
             Inr (ns', cur_at base (length ns) (base * c + npos + length bs), pos + length bs) \<and>
           chunked base ns' \<and> length ns' = length ns \<and>
           flat ns' = splice_at (base * c + npos) bs (flat ns)"
  using assms
proof (induction "length ns - c" arbitrary: ns c npos pos bs rule: less_induct)
  case less
  note ch = less.prems(1) and c = less.prems(2) and npos = less.prems(3) and fits = less.prems(4)
  have node: "node_size (ns ! c) = base" using chunked_nth [OF ch c] by simp
  consider "bs = []" | "bs \<noteq> []" "length bs \<le> base - npos" | "length bs > base - npos"
    by fastforce
  then show ?case
  proof cases
    case 1
    then show ?thesis
      using ch c npos by (auto simp: write_loop.simps intro!: cur_at_inside [symmetric])
  next
    case 2
    let ?ns = "ns[c := memcpy_to (ns ! c) npos bs]"
    have "cur_at base (length ns) (base * c + npos + length bs) =
        (if base = npos + length bs then next_node ns c else Some c)"
      using 2 c npos cur_at_next [of base ns c] by (auto simp: add.assoc intro!: cur_at_inside)
    then show ?thesis
      using 2 npos node flat_memcpy_to [OF ch c, of npos bs]
      by (auto simp: write_loop.simps)
  next
    case 3
    let ?k = "base - npos" and ?ns = "ns[c := memcpy_to (ns ! c) npos (take (base - npos) bs)]"
    have "base * Suc c < base * length ns" using 3 fits npos by simp
    then have c': "Suc c < length ns" by (simp only: mult_less_cancel1)
    then have node': "node_size (ns ! Suc c) = base" using chunked_nth [OF ch] by blast
    have tk: "length (take ?k bs) = ?k" using 3 by simp
    have at: "base * c + npos + ?k + length (drop ?k bs) = base * c + npos + length bs"
        "pos + ?k + length (drop ?k bs) = pos + length bs"
      and rest: "base * Suc c + 0 = base * c + npos + ?k"
      using 3 npos by simp_all
    have ch': "chunked base ?ns"
      and fl: "flat ?ns = splice_at (base * c + npos) (take ?k bs) (flat ns)"
      using flat_memcpy_to [OF ch c, of npos "take ?k bs"] npos tk by simp_all
    have "\<exists>ns'. write_loop ?ns (Some (Suc c)) 0 (base - 0) (pos + ?k) (drop ?k bs) =
             Inr (ns', cur_at base (length ?ns) (base * Suc c + 0 + length (drop ?k bs)),
                  pos + ?k + length (drop ?k bs)) \<and>
           chunked base ns' \<and> length ns' = length ?ns \<and>
           flat ns' = splice_at (base * Suc c + 0) (drop ?k bs) (flat ?ns)"
      using c c' ch' npos fits 3 by (intro less.hyps) simp_all
    then obtain ns' where w: "write_loop ?ns (Some (Suc c)) 0 base (pos + ?k) (drop ?k bs) =
             Inr (ns', cur_at base (length ns) (base * c + npos + length bs), pos + length bs)"
        and ch'': "chunked base ns'" and len: "length ns' = length ns"
        and fl': "flat ns' = splice_at (base * c + npos + ?k) (drop ?k bs) (flat ?ns)"
      unfolding at rest diff_zero length_list_update by blast
    have "flat ns' = splice_at (base * c + npos) bs (flat ns)"
      unfolding fl' fl
      using splice_at_split [of "base * c + npos" "take ?k bs" "flat ns" "drop ?k bs"] tk fits 3
      by (simp add: length_flat [OF ch])
    moreover have "write_loop ns (Some c) npos ?k pos bs =
        write_loop ?ns (Some (Suc c)) 0 base (pos + ?k) (drop ?k bs)"
      using 3 c' node' by (subst write_loop.simps) (auto simp: next_node_def)
    ultimately show ?thesis using w ch'' len by auto
  qed
qed

lemma read_loop_correct:
  assumes "chunked base ns" and "c < length ns" and "npos < base"
    and "base * c + npos + k \<le> base * length ns"
  shows "read_loop ns (Some c) npos (base - npos) k =
           Inr (take k (drop (base * c + npos) (flat ns)),
                cur_at base (length ns) (base * c + npos + k))"
  using assms
proof (induction "length ns - c" arbitrary: c npos k rule: less_induct)
  case less
  note ch = less.prems(1) and c = less.prems(2) and npos = less.prems(3) and fits = less.prems(4)
  have node: "node_size (ns ! c) = base" using chunked_nth [OF ch c] by simp
  consider "k = 0" | "0 < k" "k \<le> base - npos" | "k > base - npos" by fastforce
  then show ?case
  proof cases
    case 1
    then show ?thesis
      using c npos by (auto simp: read_loop.simps intro!: cur_at_inside [symmetric])
  next
    case 2
    have "cur_at base (length ns) (base * c + npos + k) =
        (if base = npos + k then next_node ns c else Some c)"
      using 2 c npos cur_at_next [of base ns c] by (auto simp: add.assoc intro!: cur_at_inside)
    then show ?thesis
      using 2 npos node flat_memcpy_from [OF ch c, of npos k] by (auto simp: read_loop.simps)
  next
    case 3
    let ?k = "base - npos"
    have "base * Suc c < base * length ns" using 3 fits npos by simp
    then have c': "Suc c < length ns" by (simp only: mult_less_cancel1)
    then have node': "node_size (ns ! Suc c) = base" using chunked_nth [OF ch] by blast
    have at: "base * c + npos + ?k + (k - ?k) = base * c + npos + k"
      and rest: "base * Suc c + 0 = base * c + npos + ?k"
      using 3 npos by simp_all
    have "read_loop ns (Some (Suc c)) 0 (base - 0) (k - ?k) =
        Inr (take (k - ?k) (drop (base * Suc c + 0) (flat ns)),
             cur_at base (length ns) (base * Suc c + 0 + (k - ?k)))"
      using c c' ch npos fits 3 by (intro less.hyps) simp_all
    then have r: "read_loop ns (Some (Suc c)) 0 base (k - ?k) =
        Inr (take (k - ?k) (drop (base * c + npos + ?k) (flat ns)),
             cur_at base (length ns) (base * c + npos + k))"
      unfolding at rest diff_zero .
    have "take ?k (drop (base * c + npos) (flat ns)) @
        take (k - ?k) (drop (base * c + npos + ?k) (flat ns)) =
        take k (drop (base * c + npos) (flat ns))"
      using 3 take_add [of ?k "k - ?k" "drop (base * c + npos) (flat ns)"]
      by (simp add: add.commute)
    then show ?thesis
      using 3 c' node' r npos flat_memcpy_from [OF ch c, of npos ?k]
      by (subst read_loop.simps) (auto simp: next_node_def)
  qed
qed

section \<open>The operations under the invariant\<close>

lemma ba_inv_new [inv_intros]: "0 < base \<Longrightarrow> ba_inv (ByteArray_new junk base)"
  by (simp add: ba_inv_def ByteArray_new_def chunked_def Node_new_def cur_at_def)

lemma ba_data_new [simp]: "ba_data (ByteArray_new junk base) = []"
  by (simp add: ba_data_def ByteArray_new_def)

lemma length_contents: "ba_inv ba \<Longrightarrow> length (contents ba) = m_capacity ba"
  by (simp add: ba_inv_def contents_def length_flat)

lemma length_ba_data: "ba_inv ba \<Longrightarrow> length (ba_data ba) = m_size ba"
  using length_contents [of ba] by (simp add: ba_data_def ba_inv_def)

lemma cur_at_None_iff: "0 < base \<Longrightarrow> cur_at base n p = None \<longleftrightarrow> base * n \<le> p"
  by (auto simp: cur_at_def less_mult_imp_div_less mult.commute not_less div_less_iff_less_mult)

lemma m_cur_None_iff: "ba_inv ba \<Longrightarrow> m_cur ba = None \<longleftrightarrow> m_position ba = m_capacity ba"
  by (auto simp: ba_inv_def cur_at_None_iff)

lemma ceil_div_ge: "0 < b \<Longrightarrow> a \<le> b * ceil_div a b"
proof -
  assume b: "0 < b"
  have "(a + b - 1) div b * b + (a + b - 1) mod b = a + b - 1" by simp
  moreover have "(a + b - 1) mod b < b" using b by simp
  ultimately have "a \<le> (a + b - 1) div b * b" using b by linarith
  then show ?thesis by (simp add: ceil_div_def mult.commute)
qed

lemma append_nodes_fields [simp]:
  "m_baseSize (append_nodes n ba) = m_baseSize ba"
  "m_position (append_nodes n ba) = m_position ba"
  "m_size (append_nodes n ba) = m_size ba"
  "m_endian (append_nodes n ba) = m_endian ba"
  "m_cur (append_nodes n ba) = m_cur ba"
  "m_capacity (append_nodes n ba) = m_capacity ba + n * m_baseSize ba"
  by (induction n arbitrary: ba) simp_all

lemma append_nodes_chain:
  "\<exists>ms. m_nodes (append_nodes n ba) = m_nodes ba @ ms \<and> length ms = n \<and>
        chunked (m_baseSize ba) ms"
proof (induction n arbitrary: ba)
  case 0
  then show ?case by (simp add: chunked_def)
next
  case (Suc n)
  let ?new = "Node_new (m_uninit ba (length (m_nodes ba))) (m_baseSize ba)"
  let ?ba = "ba\<lparr>m_nodes := m_nodes ba @ [?new], m_capacity := m_capacity ba + m_baseSize ba\<rparr>"
  obtain ms where "m_nodes (append_nodes n ?ba) = m_nodes ?ba @ ms" "length ms = n"
      "chunked (m_baseSize ?ba) ms"
    using Suc.IH [of ?ba] by blast
  then show ?case
    by (intro exI [of _ "?new # ms"]) (auto simp: chunked_def Node_new_def)
qed

text \<open>
  The contract of \<open>addCapacity\<close>: the invariant holds again, at least \<open>sz\<close> bytes fit behind the
  position, nothing that was stored moves, and when room was asked for \<open>m_cur\<close> points at a node.
\<close>

lemma addCapacity_correct:
  fixes sz :: nat
  assumes "ba_inv ba"
  defines "ba' \<equiv> ByteArray_addCapacity ba sz"
  shows "ba_inv ba'" and "m_position ba + sz \<le> m_capacity ba'"
    and "\<exists>ys. contents ba' = contents ba @ ys"
    and "m_position ba' = m_position ba" and "m_size ba' = m_size ba"
    and "m_endian ba' = m_endian ba" and "m_baseSize ba' = m_baseSize ba"
proof -
  let ?old = "ByteArray_getCapacity ba" and ?n = "length (m_nodes ba)" and ?b = "m_baseSize ba"
  have old: "?old = m_capacity ba - m_position ba" and b: "0 < ?b"
    and cap: "m_capacity ba = ?b * ?n"
    and cur: "m_cur ba = cur_at ?b ?n (m_position ba)"
    using assms(1) by (simp_all add: ByteArray_getCapacity_def ba_inv_def)
  have all: "ba_inv ba' \<and> m_position ba + sz \<le> m_capacity ba' \<and>
      (\<exists>ys. contents ba' = contents ba @ ys) \<and> m_position ba' = m_position ba \<and>
      m_size ba' = m_size ba \<and> m_endian ba' = m_endian ba \<and> m_baseSize ba' = m_baseSize ba"
  proof (cases "sz \<le> ?old")
    case True
    then have "ba' = ba" by (simp add: ba'_def ByteArray_addCapacity_def Let_def)
    then show ?thesis using True old assms(1) by (auto simp: ba_inv_def)
  next
    case False
    let ?count = "ceil_div (sz - ?old) ?b"
    have ge: "sz - ?old \<le> ?b * ?count" using ceil_div_ge [OF b] .
    then have pos: "0 < ?count" using False by (cases ?count) auto
    obtain ms where ms: "m_nodes (append_nodes ?count ba) = m_nodes ba @ ms"
        "length ms = ?count" "chunked ?b ms"
      using append_nodes_chain [of ?count ba] by blast
    have ba': "ba' = (if ?old = 0 then (append_nodes ?count ba)\<lparr>m_cur := Some ?n\<rparr>
        else append_nodes ?count ba)"
      using False pos by (auto simp: ba'_def ByteArray_addCapacity_def Let_def)
    have "cur_at ?b (?n + ?count) (m_position ba) =
        (if ?old = 0 then Some ?n else m_cur ba)"
    proof (cases "?old = 0")
      case True
      then have "m_position ba = ?b * ?n"
        using old cap assms(1) by (simp add: ba_inv_def)
      then show ?thesis using True pos b by (simp add: cur_at_def)
    next
      case False
      then have "m_position ba < ?n * ?b" using old cap by (simp add: mult.commute)
      then have "m_position ba div ?b < ?n" using less_mult_imp_div_less by blast
      then show ?thesis using False cur by (simp add: cur_at_def)
    qed
    then have "ba_inv ba'"
      using assms(1) ms b by (auto simp: ba' ba_inv_def algebra_simps)
    moreover have "m_position ba + sz \<le> m_capacity ba + ?b * ?count"
      using ge old assms(1) by (simp add: ba_inv_def)
    then have "m_position ba + sz \<le> m_capacity ba'" unfolding ba' by (auto simp: mult.commute)
    ultimately show ?thesis using ms by (auto simp: ba' contents_def)
  qed
  then show "ba_inv ba'" and "m_position ba + sz \<le> m_capacity ba'"
    and "\<exists>ys. contents ba' = contents ba @ ys"
    and "m_position ba' = m_position ba" and "m_size ba' = m_size ba"
    and "m_endian ba' = m_endian ba" and "m_baseSize ba' = m_baseSize ba"
    by simp_all
qed

lemma position_split:
  "m_baseSize ba * (m_position ba div m_baseSize ba) + m_position ba mod m_baseSize ba
     = m_position ba"
  by simp

lemma ba_data_splice:
  assumes "p \<le> s" and "s \<le> length xs" and "p + length bs \<le> length (xs @ ys)"
  shows "take (max s (p + length bs)) (splice_at p bs (xs @ ys)) = splice_at p bs (take s xs)"
  using assms by (auto simp: splice_at_def min_def max_def take_drop)

text \<open>A write never fails; it overwrites or extends the data at the position and moves behind it.\<close>

lemma write_correct:
  assumes "ba_inv ba"
  shows "\<exists>ba'. ByteArray_write ba bs = Inr ba' \<and> ba_inv ba' \<and>
           ba_data ba' = splice_at (m_position ba) bs (ba_data ba) \<and>
           m_position ba' = m_position ba + length bs \<and>
           m_endian ba' = m_endian ba \<and> m_baseSize ba' = m_baseSize ba"
proof (cases "bs = []")
  case True
  then show ?thesis using assms by (simp add: ByteArray_write_def)
next
  case False
  let ?ba = "ByteArray_addCapacity ba (length bs)"
  let ?b = "m_baseSize ba" and ?ns = "m_nodes ?ba" and ?p = "m_position ba"
  note cap = addCapacity_correct [OF assms, of "length bs"]
  obtain ys where ys: "contents ?ba = contents ba @ ys" using cap(3) by blast
  have inv: "0 < ?b" "chunked ?b ?ns" "m_capacity ?ba = ?b * length ?ns"
      "m_cur ?ba = cur_at ?b (length ?ns) ?p" "?p \<le> m_size ba"
    using cap(1,4,7) assms by (simp_all add: ba_inv_def)
  let ?c = "?p div ?b"
  have fits: "?p + length bs \<le> ?b * length ?ns" using cap(2) inv(3) by simp
  have "0 < length bs" using False by simp
  then have "?p < ?b * length ?ns" using fits by linarith
  then have c: "?c < length ?ns" by (simp add: less_mult_imp_div_less mult.commute)
  have cur: "m_cur ?ba = Some ?c" using inv(4) c by (simp add: cur_at_def)
  have size: "node_size (?ns ! ?c) = ?b" using chunked_nth [OF inv(2) c] by simp
  obtain ns' where w: "write_loop ?ns (Some ?c) (?p mod ?b) (?b - ?p mod ?b) ?p bs =
        Inr (ns', cur_at ?b (length ?ns) (?p + length bs), ?p + length bs)"
      and ns': "chunked ?b ns'" "length ns' = length ?ns" "flat ns' = splice_at ?p bs (flat ?ns)"
    using write_loop_correct [OF inv(2) c, of "?p mod ?b" bs ?p] inv(1) fits
    by (auto simp: position_split)
  let ?ba' = "?ba\<lparr>m_nodes := ns', m_cur := cur_at ?b (length ?ns) (?p + length bs),
      m_position := ?p + length bs,
      m_size := (if ?p + length bs > m_size ba then ?p + length bs else m_size ba)\<rparr>"
  have op: "ByteArray_write ba bs = Inr ?ba'"
    using False cur size w cap(4,5,7) by (simp add: ByteArray_write_def Let_def)
  have "m_capacity ?ba \<ge> m_size ba" using cap(1,5) by (simp add: ba_inv_def)
  then have "ba_inv ?ba'"
    using cap(1) ns' fits inv cap(4,5,7) by (auto simp: ba_inv_def)
  moreover have "ba_data ?ba' = splice_at ?p bs (ba_data ba)"
  proof -
    have "ba_data ?ba' = take (max (m_size ba) (?p + length bs)) (splice_at ?p bs (flat ?ns))"
      by (simp add: ba_data_def contents_def ns' max_def)
    also have "\<dots> = splice_at ?p bs (take (m_size ba) (contents ba))"
      using ys ba_data_splice [of ?p "m_size ba" "contents ba" bs ys] inv(5) assms fits
        length_contents [OF assms] length_contents [OF cap(1)] inv(3)
      by (simp add: contents_def ba_inv_def)
    finally show ?thesis by (simp add: ba_data_def)
  qed
  ultimately show ?thesis using op cap by (intro exI [of _ ?ba']) simp
qed

text \<open>
  A read of \<open>k\<close> bytes returns the next \<open>k\<close> bytes of the data and moves behind them; it throws
  \<open>out_of_range\<close> when fewer are left. The precondition on empty reads excludes the one case in
  which the code reads through the null pointer.
\<close>

lemma read_correct:
  assumes "ba_inv ba" and "m_position ba + k \<le> m_size ba"
    and "k > 0 \<or> m_position ba < m_capacity ba"
  shows "\<exists>ba'. ByteArray_read ba k = Inr (take k (drop (m_position ba) (ba_data ba)), ba') \<and>
           ba_inv ba' \<and> ba_data ba' = ba_data ba \<and> m_position ba' = m_position ba + k \<and>
           m_endian ba' = m_endian ba \<and> m_capacity ba' = m_capacity ba"
proof -
  let ?b = "m_baseSize ba" and ?ns = "m_nodes ba" and ?p = "m_position ba"
  let ?c = "?p div ?b"
  have inv: "0 < ?b" "chunked ?b ?ns" "m_capacity ba = ?b * length ?ns"
      "m_cur ba = cur_at ?b (length ?ns) ?p" "m_size ba \<le> m_capacity ba" "?p \<le> m_size ba"
    using assms(1) by (simp_all add: ba_inv_def)
  have "?p < length ?ns * ?b" using assms(2,3) inv by (auto simp: mult.commute)
  then have c: "?c < length ?ns" using less_mult_imp_div_less by blast
  have cur: "m_cur ba = Some ?c" using inv(4) c by (simp add: cur_at_def)
  have size: "node_size (?ns ! ?c) = ?b" using chunked_nth [OF inv(2) c] by simp
  let ?cur = "cur_at ?b (length ?ns) (?p + k)"
  have r: "read_loop ?ns (Some ?c) (?p mod ?b) (?b - ?p mod ?b) k =
        Inr (take k (drop ?p (flat ?ns)), ?cur)"
    using read_loop_correct [OF inv(2) c, of "?p mod ?b" k] inv assms(2)
    by (simp add: position_split)
  have bytes: "take k (drop ?p (flat ?ns)) = take k (drop ?p (ba_data ba))"
    using assms(2) by (simp add: ba_data_def contents_def drop_take min_def)
  let ?ba' = "ba\<lparr>m_position := ?p + k, m_cur := ?cur\<rparr>"
  have "ByteArray_read ba k = Inr (take k (drop ?p (ba_data ba)), ?ba')"
  proof -
    have "\<not> k > ByteArray_getReadSize ba"
      using assms(2) inv by (simp add: ByteArray_getReadSize_def)
    then show ?thesis using cur size r bytes by (simp add: ByteArray_read_def Let_def)
  qed
  moreover have "ba_inv ?ba'" using assms inv by (simp add: ba_inv_def)
  moreover have "ba_data ?ba' = ba_data ba" by (simp add: ba_data_def contents_def)
  ultimately show ?thesis by (intro exI [of _ ?ba']) simp
qed

lemma read_short:
  assumes "ba_inv ba" and "m_size ba < m_position ba + k"
  shows "ByteArray_read ba k = Inl (out_of_range ''not enough len'')"
proof -
  have "k > ByteArray_getReadSize ba"
    using assms by (auto simp: ByteArray_getReadSize_def ba_inv_def)
  then show ?thesis by (simp add: ByteArray_read_def)
qed

lemma read_null:
  assumes "ba_inv ba" and "m_position ba = m_capacity ba"
  shows "ByteArray_read ba 0 = Inl null_deref"
  using assms m_cur_None_iff [OF assms(1)] by (simp add: ByteArray_read_def)

lemma setPosition_loop_correct:
  assumes "chunked base ns" and "0 < base" and "c < length ns" and "v \<le> base * (length ns - c)"
  shows "\<exists>c' v'. setPosition_loop ns (Some c) v = Inr (c', v') \<and> c \<le> c' \<and> c' < length ns \<and>
           v' \<le> base \<and> base * c + v = base * c' + v'"
  using assms
proof (induction "length ns - c" arbitrary: c v rule: less_induct)
  case less
  note ch = less.prems(1) and b = less.prems(2) and c = less.prems(3) and v = less.prems(4)
  have node: "node_size (ns ! c) = base" using chunked_nth [OF ch c] by simp
  show ?case
  proof (cases "v > base")
    case False
    then show ?thesis using c node by (subst setPosition_loop.simps) auto
  next
    case True
    have "base * 1 < base * (length ns - c)" using True v by linarith
    then have "1 < length ns - c" by (simp only: mult_less_cancel1)
    then have c': "Suc c < length ns" by simp
    have "length ns - c = Suc (length ns - Suc c)" using c' by simp
    then have v': "v - base \<le> base * (length ns - Suc c)" and dec: "length ns - Suc c < length ns - c"
      using v by simp_all
    from less.hyps [OF dec ch b c' v'] obtain c'' v'' where "setPosition_loop ns (Some (Suc c)) (v - base) = Inr (c'', v'')"
        "Suc c \<le> c''" "c'' < length ns" "v'' \<le> base" "base * Suc c + (v - base) = base * c'' + v''"
      by blast
    moreover have "setPosition_loop ns (Some c) v = setPosition_loop ns (Some (Suc c)) (v - base)"
      using True node c' by (subst setPosition_loop.simps) (simp add: next_node_def)
    ultimately show ?thesis using True by auto
  qed
qed

text \<open>
  \<open>setPosition\<close> accepts every position up to the capacity. Moving past the end makes the bytes in
  between readable (whatever the nodes hold there); moving back keeps the data.
\<close>

lemma setPosition_correct:
  assumes "ba_inv ba" and "v \<le> m_capacity ba"
  shows "\<exists>ba'. ByteArray_setPosition ba v = Inr ba' \<and> ba_inv ba' \<and> m_position ba' = v \<and>
           m_size ba' = max v (m_size ba) \<and> contents ba' = contents ba \<and>
           m_endian ba' = m_endian ba \<and> m_capacity ba' = m_capacity ba"
proof -
  let ?b = "m_baseSize ba" and ?ns = "m_nodes ba"
  have inv: "0 < ?b" "?ns \<noteq> []" "chunked ?b ?ns" "m_capacity ba = ?b * length ?ns"
    using assms(1) by (simp_all add: ba_inv_def)
  obtain c w where l: "setPosition_loop ?ns (Some 0) v = Inr (c, w)" and c: "c < length ?ns"
      and w: "w \<le> ?b" "v = ?b * c + w"
    using setPosition_loop_correct [OF inv(3,1), of 0 v] inv(2,4) assms(2) by auto
  have size: "node_size (?ns ! c) = ?b" using chunked_nth [OF inv(3) c] by simp
  have cur: "(if w = ?b then next_node ?ns c else Some c) = cur_at ?b (length ?ns) v"
  proof (cases "w = ?b")
    case True
    then show ?thesis using w(2) cur_at_next [OF inv(1), of ?ns c] by simp
  next
    case False
    then have "cur_at ?b (length ?ns) v = Some c"
      using w c by (intro cur_at_inside) simp_all
    then show ?thesis using False by simp
  qed
  let ?ba' = "ba\<lparr>m_position := v, m_size := (if v > m_size ba then v else m_size ba),
      m_cur := cur_at ?b (length ?ns) v\<rparr>"
  have "ByteArray_setPosition ba v = Inr ?ba'"
    using assms(2) l size cur by (simp add: ByteArray_setPosition_def)
  moreover have "ba_inv ?ba'" using assms by (auto simp: ba_inv_def)
  ultimately show ?thesis by (intro exI [of _ ?ba']) (simp add: contents_def max_def)
qed

lemma setPosition_back:
  assumes "ba_inv ba" and "v \<le> m_size ba"
  shows "\<exists>ba'. ByteArray_setPosition ba v = Inr ba' \<and> ba_inv ba' \<and> m_position ba' = v \<and>
           ba_data ba' = ba_data ba \<and> m_endian ba' = m_endian ba \<and> m_capacity ba' = m_capacity ba"
proof -
  have "v \<le> m_capacity ba" using assms by (simp add: ba_inv_def)
  from setPosition_correct [OF assms(1) this] show ?thesis
    using assms(2) by (auto simp: ba_data_def max_def)
qed

lemma setPosition_short:
  "m_capacity ba < v \<Longrightarrow>
     ByteArray_setPosition ba v = Inl (out_of_range ''set_position out of range'')"
  by (simp add: ByteArray_setPosition_def)

lemma clear_correct:
  assumes "ba_inv ba"
  shows "ba_inv (ByteArray_clear ba)" and "ba_data (ByteArray_clear ba) = []"
    and "m_position (ByteArray_clear ba) = 0" and "m_endian (ByteArray_clear ba) = m_endian ba"
  using assms
  by (auto simp: ba_inv_def ByteArray_clear_def ba_data_def cur_at_def chunked_def
        dest: in_set_takeD simp flip: length_greater_0_conv)

lemma setIsLittleEndian_correct:
  "ba_inv (ByteArray_setIsLittleEndian ba val) = ba_inv ba"
  "ba_data (ByteArray_setIsLittleEndian ba val) = ba_data ba"
  "m_position (ByteArray_setIsLittleEndian ba val) = m_position ba"
  by (simp_all add: ByteArray_setIsLittleEndian_def ba_inv_def ba_data_def contents_def)

section \<open>A byte array is a byte stream\<close>

interpretation ba: byte_stream ba_inv ba_data m_position m_capacity m_endian ByteArray_read
  ByteArray_setPosition "out_of_range ''not enough len''" ByteArray_write
proof unfold_locales
  fix ba :: byte_array and k p :: nat and bs :: "u8 list"
  assume inv: "ba_inv ba"
  show "m_position ba \<le> length (ba_data ba)" "length (ba_data ba) \<le> m_capacity ba"
    using inv by (simp_all add: length_ba_data) (simp_all add: ba_inv_def)
  show "\<exists>ba'. ByteArray_read ba k = Inr (take k (drop (m_position ba) (ba_data ba)), ba') \<and>
      ba_inv ba' \<and> ba_data ba' = ba_data ba \<and> m_position ba' = m_position ba + k \<and>
      m_endian ba' = m_endian ba \<and> m_capacity ba' = m_capacity ba"
    if "m_position ba + k \<le> length (ba_data ba)" "0 < k \<or> m_position ba < m_capacity ba"
    using read_correct [OF inv] that by (simp add: length_ba_data [OF inv])
  show "ByteArray_read ba k = Inl (out_of_range ''not enough len'')"
    if "length (ba_data ba) < m_position ba + k"
    using read_short [OF inv] that by (simp add: length_ba_data [OF inv])
  show "\<exists>ba'. ByteArray_setPosition ba p = Inr ba' \<and> ba_inv ba' \<and> ba_data ba' = ba_data ba \<and>
      m_position ba' = p \<and> m_endian ba' = m_endian ba \<and> m_capacity ba' = m_capacity ba"
    if "p \<le> length (ba_data ba)"
    using setPosition_back [OF inv, of p] that by (auto simp: length_ba_data [OF inv])
  show "\<exists>ba'. ByteArray_write ba bs = Inr ba' \<and> ba_inv ba' \<and>
      ba_data ba' = splice_at (m_position ba) bs (ba_data ba) \<and>
      m_position ba' = m_position ba + length bs \<and> m_endian ba' = m_endian ba"
    using write_correct [OF inv] by blast
qed

section \<open>Sequences of operations\<close>

text \<open>The public operations that change a byte array, and the states they can reach.\<close>

datatype ba_op = Op_write "u8 list" | Op_read nat | Op_setPosition nat | Op_clear
  | Op_setIsLittleEndian bool

fun run_op :: "ba_op \<Rightarrow> byte_array \<Rightarrow> ba_error + byte_array" where
  "run_op (Op_write bs) ba = ByteArray_write ba bs"
| "run_op (Op_read k) ba = bindE (ByteArray_read ba k) (\<lambda>(bs, ba'). Inr ba')"
| "run_op (Op_setPosition v) ba = ByteArray_setPosition ba v"
| "run_op Op_clear ba = Inr (ByteArray_clear ba)"
| "run_op (Op_setIsLittleEndian val) ba = Inr (ByteArray_setIsLittleEndian ba val)"

inductive ba_reachable :: "byte_array \<Rightarrow> bool" where
  ba_start: "0 < base \<Longrightarrow> ba_reachable (ByteArray_new junk base)"
| ba_step: "ba_reachable ba \<Longrightarrow> run_op oper ba = Inr ba' \<Longrightarrow> ba_reachable ba'"

lemma run_op_inv:
  assumes "ba_inv ba" and "run_op oper ba = Inr ba'"
  shows "ba_inv ba'"
proof (cases oper)
  case (Op_write bs)
  then show ?thesis using write_correct [OF assms(1), of bs] assms(2) by auto
next
  case (Op_read k)
  then obtain bs where r: "ByteArray_read ba k = Inr (bs, ba')"
    using assms(2) by (auto simp: bindE_eq_Inr)
  have "m_position ba + k \<le> m_size ba"
    using r read_short [OF assms(1), of k] by (force simp: not_less [symmetric])
  moreover have "k > 0 \<or> m_position ba < m_capacity ba"
  proof (rule ccontr)
    assume "\<not> ?thesis"
    then have "k = 0" "m_position ba = m_capacity ba" using assms(1) by (auto simp: ba_inv_def)
    then show False using r read_null [OF assms(1)] by simp
  qed
  ultimately show ?thesis using r read_correct [OF assms(1), of k] by auto
next
  case (Op_setPosition v)
  then have "v \<le> m_capacity ba" using setPosition_short [of ba v] assms(2) by fastforce
  from setPosition_correct [OF assms(1) this] show ?thesis using Op_setPosition assms(2) by auto
next
  case Op_clear
  then show ?thesis using clear_correct [OF assms(1)] assms(2) by auto
next
  case (Op_setIsLittleEndian val)
  then show ?thesis using setIsLittleEndian_correct assms by auto
qed

lemma ba_reachable_inv: "ba_reachable ba \<Longrightarrow> ba_inv ba"
  by (induction rule: ba_reachable.induct) (auto intro: ba_inv_new run_op_inv)

section \<open>Properties\<close>

text \<open>
  C1. Refinement of \<open>ByteArray::write\<close>: on every array whose fields are consistent a write succeeds,
  whatever nodes it has to allocate and cross; the readable data is the old data with the bytes at
  the position replaced (and extended past the end), the position moves behind them, and the array
  is consistent again.
\<close>

theorem ByteArray_write_refines:
  assumes "ba_inv ba"
  shows "\<exists>ba'. ByteArray_write ba bs = Inr ba' \<and> ba_inv ba' \<and>
           ba_data ba' = splice_at (m_position ba) bs (ba_data ba) \<and>
           m_position ba' = m_position ba + length bs \<and>
           m_endian ba' = m_endian ba \<and> m_baseSize ba' = m_baseSize ba"
  by (rule write_correct [OF assms])

theorem ByteArray_write_refines_witness:
  "\<exists>ba'. ByteArray_write (ByteArray_new (\<lambda>_ _. 0) 2) [1, 2, 3] = Inr ba' \<and> ba_inv ba' \<and>
     ba_data ba' = [1, 2, 3] \<and> m_position ba' = 3"
  using ByteArray_write_refines [of "ByteArray_new (\<lambda>_ _. 0) 2" "[1, 2, 3]"]
  by (simp add: ba_inv_new splice_at_def) (auto simp: ByteArray_new_def)

text \<open>
  C2. Refinement of \<open>ByteArray::read\<close> on every branch: when enough bytes are left it returns the next
  \<open>k\<close> bytes of the data and moves behind them, otherwise it throws \<open>out_of_range\<close>; only an empty
  read with the position at the very end of the capacity goes through the null pointer.
\<close>

theorem ByteArray_read_refines:
  assumes "ba_inv ba"
  shows "(m_position ba + k \<le> m_size ba \<and> (k > 0 \<or> m_position ba < m_capacity ba) \<longrightarrow>
            (\<exists>ba'. ByteArray_read ba k = Inr (take k (drop (m_position ba) (ba_data ba)), ba') \<and>
               ba_inv ba' \<and> ba_data ba' = ba_data ba \<and> m_position ba' = m_position ba + k)) \<and>
         (m_size ba < m_position ba + k \<longrightarrow>
            ByteArray_read ba k = Inl (out_of_range ''not enough len'')) \<and>
         (k = 0 \<and> m_position ba = m_capacity ba \<longrightarrow> ByteArray_read ba k = Inl null_deref)"
  using read_correct [OF assms, of k] read_short [OF assms, of k] read_null [OF assms] by blast

theorem ByteArray_read_refines_witness:
  "ByteArray_read (ByteArray_new (\<lambda>_ _. 0) 2) 1 = Inl (out_of_range ''not enough len'')"
  using ByteArray_read_refines [of "ByteArray_new (\<lambda>_ _. 0) 2" 1]
  by (simp add: ba_inv_new) (simp add: ByteArray_new_def)



text \<open>
  \<open>ByteArray::setPosition\<close> on both branches: every position up to the capacity is accepted, the
  size grows to it when it lies beyond, the stored bytes stay; a larger one throws.
\<close>

theorem ByteArray_setPosition_spec:
  assumes "ba_inv ba"
  shows "(v \<le> m_capacity ba \<longrightarrow>
            (\<exists>ba'. ByteArray_setPosition ba v = Inr ba' \<and> ba_inv ba' \<and> m_position ba' = v \<and>
               m_size ba' = max v (m_size ba) \<and> contents ba' = contents ba)) \<and>
         (m_capacity ba < v \<longrightarrow>
            ByteArray_setPosition ba v = Inl (out_of_range ''set_position out of range''))"
  using setPosition_correct [OF assms, of v] setPosition_short [of ba v] by blast

theorem ByteArray_setPosition_spec_witness:
  "\<exists>ba'. ByteArray_setPosition (ByteArray_new (\<lambda>_ _. 0) 4) 3 = Inr ba' \<and> m_size ba' = 3"
  using ByteArray_setPosition_spec [of "ByteArray_new (\<lambda>_ _. 0) 4" 3]
  by (auto simp: ba_inv_new) (auto simp: ByteArray_new_def)

end
