(* ===== verification/Byte_Array_Codec.thy ===== *)
theory Byte_Array_Codec
  imports Byte_Array
begin

text \<open>
  \<^verbatim>\<open>sylar/bytearray.cc\<close>: the typed readers and writers of \<open>ByteArray\<close>: fixed-width integers
  in the array's byte order, base-128 varints, zigzag-coded signed varints, floating-point values
  (as the bit patterns \<open>memcpy\<close> copies) and the four string formats. \<open>intN_t\<close> and \<open>uintN_t\<close> are the
  same \<open>N word\<close>; memory for the strings that are read is unlimited.

  For every pair the theory shows which bytes the writer emits and that the reader inverts it,
  through the composition rules of the interpretation \<open>ba\<close>.
\<close>

section \<open>Fixed-width integers\<close>

definition swap_order :: "nat \<Rightarrow> 'a::len word \<Rightarrow> 'a word" where
  "swap_order m v = (if m \<noteq> SYLAR_BYTE_ORDER then byteswap v else v)"

definition ByteArray_writeFint8 :: "byte_array \<Rightarrow> u8 \<Rightarrow> ba_error + byte_array" where
  "ByteArray_writeFint8 ba v = ByteArray_write ba [v]"

definition ByteArray_writeFuint8 :: "byte_array \<Rightarrow> u8 \<Rightarrow> ba_error + byte_array" where
  "ByteArray_writeFuint8 ba v = ByteArray_write ba [v]"

definition ByteArray_writeFint16 :: "byte_array \<Rightarrow> u16 \<Rightarrow> ba_error + byte_array" where
  "ByteArray_writeFint16 ba v = ByteArray_write ba (word_bytes (swap_order (m_endian ba) v))"

definition ByteArray_writeFuint16 :: "byte_array \<Rightarrow> u16 \<Rightarrow> ba_error + byte_array" where
  "ByteArray_writeFuint16 ba v = ByteArray_write ba (word_bytes (swap_order (m_endian ba) v))"

definition ByteArray_writeFint32 :: "byte_array \<Rightarrow> u32 \<Rightarrow> ba_error + byte_array" where
  "ByteArray_writeFint32 ba v = ByteArray_write ba (word_bytes (swap_order (m_endian ba) v))"

definition ByteArray_writeFuint32 :: "byte_array \<Rightarrow> u32 \<Rightarrow> ba_error + byte_array" where
  "ByteArray_writeFuint32 ba v = ByteArray_write ba (word_bytes (swap_order (m_endian ba) v))"

definition ByteArray_writeFint64 :: "byte_array \<Rightarrow> u64 \<Rightarrow> ba_error + byte_array" where
  "ByteArray_writeFint64 ba v = ByteArray_write ba (word_bytes (swap_order (m_endian ba) v))"

definition ByteArray_writeFuint64 :: "byte_array \<Rightarrow> u64 \<Rightarrow> ba_error + byte_array" where
  "ByteArray_writeFuint64 ba v = ByteArray_write ba (word_bytes (swap_order (m_endian ba) v))"

definition ByteArray_readFint8 :: "byte_array \<Rightarrow> ba_error + u8 \<times> byte_array" where
  "ByteArray_readFint8 ba = bindE (ByteArray_read ba 1) (\<lambda>(bs, ba'). Inr (hd bs, ba'))"

definition ByteArray_readFuint8 :: "byte_array \<Rightarrow> ba_error + u8 \<times> byte_array" where
  "ByteArray_readFuint8 ba = bindE (ByteArray_read ba 1) (\<lambda>(bs, ba'). Inr (hd bs, ba'))"

definition ByteArray_readFint16 :: "byte_array \<Rightarrow> ba_error + u16 \<times> byte_array" where
  "ByteArray_readFint16 ba =
     bindE (ByteArray_read ba 2) (\<lambda>(bs, ba'). Inr (swap_order (m_endian ba) (bytes_word bs), ba'))"

definition ByteArray_readFuint16 :: "byte_array \<Rightarrow> ba_error + u16 \<times> byte_array" where
  "ByteArray_readFuint16 ba =
     bindE (ByteArray_read ba 2) (\<lambda>(bs, ba'). Inr (swap_order (m_endian ba) (bytes_word bs), ba'))"

definition ByteArray_readFint32 :: "byte_array \<Rightarrow> ba_error + u32 \<times> byte_array" where
  "ByteArray_readFint32 ba =
     bindE (ByteArray_read ba 4) (\<lambda>(bs, ba'). Inr (swap_order (m_endian ba) (bytes_word bs), ba'))"

definition ByteArray_readFuint32 :: "byte_array \<Rightarrow> ba_error + u32 \<times> byte_array" where
  "ByteArray_readFuint32 ba =
     bindE (ByteArray_read ba 4) (\<lambda>(bs, ba'). Inr (swap_order (m_endian ba) (bytes_word bs), ba'))"

definition ByteArray_readFint64 :: "byte_array \<Rightarrow> ba_error + u64 \<times> byte_array" where
  "ByteArray_readFint64 ba =
     bindE (ByteArray_read ba 8) (\<lambda>(bs, ba'). Inr (swap_order (m_endian ba) (bytes_word bs), ba'))"

definition ByteArray_readFuint64 :: "byte_array \<Rightarrow> ba_error + u64 \<times> byte_array" where
  "ByteArray_readFuint64 ba =
     bindE (ByteArray_read ba 8) (\<lambda>(bs, ba'). Inr (swap_order (m_endian ba) (bytes_word bs), ba'))"

section \<open>Zigzag and varints\<close>

definition EncodeZigzag32 :: "u32 \<Rightarrow> u32" where
  "EncodeZigzag32 v = (if sint v < 0 then (- v) * 2 - 1 else v * 2)"

definition EncodeZigzag64 :: "u64 \<Rightarrow> u64" where
  "EncodeZigzag64 v = (if sint v < 0 then (- v) * 2 - 1 else v * 2)"

definition DecodeZigzag32 :: "u32 \<Rightarrow> u32" where
  "DecodeZigzag32 v = drop_bit 1 v XOR (- (v AND 1))"

definition DecodeZigzag64 :: "u64 \<Rightarrow> u64" where
  "DecodeZigzag64 v = drop_bit 1 v XOR (- (v AND 1))"

text \<open>The loop that fills \<open>tmp\<close>, the same text in \<open>writeUint32\<close> and \<open>writeUint64\<close>.\<close>

function varint_bytes :: "'a::len word \<Rightarrow> u8 list" where
  "varint_bytes v =
     (if unat v \<ge> 128 then ucast ((v AND 127) OR 128) # varint_bytes (drop_bit 7 v)
      else [ucast v])"
  by pat_completeness auto
termination
  by (relation "measure unat") (auto simp: unat_drop_bit)

declare varint_bytes.simps [simp del]

definition ByteArray_writeUint32 :: "byte_array \<Rightarrow> u32 \<Rightarrow> ba_error + byte_array" where
  "ByteArray_writeUint32 ba v = ByteArray_write ba (varint_bytes v)"

definition ByteArray_writeUint64 :: "byte_array \<Rightarrow> u64 \<Rightarrow> ba_error + byte_array" where
  "ByteArray_writeUint64 ba v = ByteArray_write ba (varint_bytes v)"

definition ByteArray_writeInt32 :: "byte_array \<Rightarrow> u32 \<Rightarrow> ba_error + byte_array" where
  "ByteArray_writeInt32 ba v = ByteArray_writeUint32 ba (EncodeZigzag32 v)"

definition ByteArray_writeInt64 :: "byte_array \<Rightarrow> u64 \<Rightarrow> ba_error + byte_array" where
  "ByteArray_writeInt64 ba v = ByteArray_writeUint64 ba (EncodeZigzag64 v)"

text \<open>The loop of \<open>readUint32\<close> and \<open>readUint64\<close>; the width of the result is its bound.\<close>

function varint_read_loop :: "nat \<Rightarrow> 'a::len word \<Rightarrow> byte_array \<Rightarrow> ba_error + 'a word \<times> byte_array"
  where
  "varint_read_loop i result ba =
     (if i < LENGTH('a) then
        bindE (ByteArray_readFuint8 ba)
          (\<lambda>(b, ba'). if b < 128 then Inr (result OR push_bit i (ucast b), ba')
                     else varint_read_loop (i + 7) (result OR push_bit i (ucast (b AND 127))) ba')
      else Inr (result, ba))"
  by pat_completeness auto
termination
  by (relation "measure (\<lambda>(i, result :: 'a word, ba). LENGTH('a) - i)") auto

declare varint_read_loop.simps [simp del]

definition ByteArray_readUint32 :: "byte_array \<Rightarrow> ba_error + u32 \<times> byte_array" where
  "ByteArray_readUint32 ba = varint_read_loop 0 0 ba"

definition ByteArray_readUint64 :: "byte_array \<Rightarrow> ba_error + u64 \<times> byte_array" where
  "ByteArray_readUint64 ba = varint_read_loop 0 0 ba"

definition ByteArray_readInt32 :: "byte_array \<Rightarrow> ba_error + u32 \<times> byte_array" where
  "ByteArray_readInt32 ba =
     bindE (ByteArray_readUint32 ba) (\<lambda>(v, ba'). Inr (DecodeZigzag32 v, ba'))"

definition ByteArray_readInt64 :: "byte_array \<Rightarrow> ba_error + u64 \<times> byte_array" where
  "ByteArray_readInt64 ba =
     bindE (ByteArray_readUint64 ba) (\<lambda>(v, ba'). Inr (DecodeZigzag64 v, ba'))"

section \<open>Floating point and strings\<close>

definition ByteArray_writeFloat :: "byte_array \<Rightarrow> u32 \<Rightarrow> ba_error + byte_array" where
  "ByteArray_writeFloat ba v = ByteArray_writeFuint32 ba v"

definition ByteArray_writeDouble :: "byte_array \<Rightarrow> u64 \<Rightarrow> ba_error + byte_array" where
  "ByteArray_writeDouble ba v = ByteArray_writeFuint64 ba v"

definition ByteArray_readFloat :: "byte_array \<Rightarrow> ba_error + u32 \<times> byte_array" where
  "ByteArray_readFloat ba = ByteArray_readFuint32 ba"

definition ByteArray_readDouble :: "byte_array \<Rightarrow> ba_error + u64 \<times> byte_array" where
  "ByteArray_readDouble ba = ByteArray_readFuint64 ba"

definition ByteArray_writeStringWithoutLength :: "byte_array \<Rightarrow> string \<Rightarrow> ba_error + byte_array" where
  "ByteArray_writeStringWithoutLength ba s = ByteArray_write ba (bytes_of_string s)"

definition ByteArray_writeStringF16 :: "byte_array \<Rightarrow> string \<Rightarrow> ba_error + byte_array" where
  "ByteArray_writeStringF16 ba s =
     bindE (ByteArray_writeFuint16 ba (of_nat (length s)))
       (\<lambda>ba. ByteArray_write ba (bytes_of_string s))"

definition ByteArray_writeStringF32 :: "byte_array \<Rightarrow> string \<Rightarrow> ba_error + byte_array" where
  "ByteArray_writeStringF32 ba s =
     bindE (ByteArray_writeFuint32 ba (of_nat (length s)))
       (\<lambda>ba. ByteArray_write ba (bytes_of_string s))"

definition ByteArray_writeStringF64 :: "byte_array \<Rightarrow> string \<Rightarrow> ba_error + byte_array" where
  "ByteArray_writeStringF64 ba s =
     bindE (ByteArray_writeFuint64 ba (of_nat (length s)))
       (\<lambda>ba. ByteArray_write ba (bytes_of_string s))"

definition ByteArray_writeStringVint :: "byte_array \<Rightarrow> string \<Rightarrow> ba_error + byte_array" where
  "ByteArray_writeStringVint ba s =
     bindE (ByteArray_writeUint64 ba (of_nat (length s)))
       (\<lambda>ba. ByteArray_write ba (bytes_of_string s))"

definition read_string :: "byte_array \<Rightarrow> nat \<Rightarrow> ba_error + string \<times> byte_array" where
  "read_string ba len = bindE (ByteArray_read ba len) (\<lambda>(bs, ba). Inr (string_of_bytes bs, ba))"

definition ByteArray_readStringF16 :: "byte_array \<Rightarrow> ba_error + string \<times> byte_array" where
  "ByteArray_readStringF16 ba =
     bindE (ByteArray_readFuint16 ba) (\<lambda>(len, ba). read_string ba (unat len))"

definition ByteArray_readStringF32 :: "byte_array \<Rightarrow> ba_error + string \<times> byte_array" where
  "ByteArray_readStringF32 ba =
     bindE (ByteArray_readFuint32 ba) (\<lambda>(len, ba). read_string ba (unat len))"

definition ByteArray_readStringF64 :: "byte_array \<Rightarrow> ba_error + string \<times> byte_array" where
  "ByteArray_readStringF64 ba =
     bindE (ByteArray_readFuint64 ba) (\<lambda>(len, ba). read_string ba (unat len))"

definition ByteArray_readStringVint :: "byte_array \<Rightarrow> ba_error + string \<times> byte_array" where
  "ByteArray_readStringVint ba =
     bindE (ByteArray_readUint64 ba) (\<lambda>(len, ba). read_string ba (unat len))"

section \<open>Zigzag is a bijection\<close>

lemma zigzag_word:
  fixes v :: "'a::len word"
  shows "drop_bit 1 (if sint v < 0 then (- v) * 2 - 1 else v * 2) XOR
         (- ((if sint v < 0 then (- v) * 2 - 1 else v * 2) AND 1)) = v"
proof (cases "sint v < 0")
  case True
  then have msb: "bit v (LENGTH('a) - 1)" by (simp add: bit_last_iff)
  have "(- v) * 2 - 1 = push_bit 1 (NOT v) OR 1"
  proof -
    have "(- v) * 2 - 1 = push_bit 1 (NOT v) + 1"
      by (simp add: push_bit_eq_mult not_eq_complement)
    also have "\<dots> = push_bit 1 (NOT v) OR 1"
      by (rule disjunctive_add) (simp only: bit_push_bit_iff bit_1_iff, simp)
    finally show ?thesis .
  qed
  then have e: "(if sint v < 0 then (- v) * 2 - 1 else v * 2) = push_bit 1 (NOT v) OR 1"
    using True by simp
  have one: "(push_bit 1 (NOT v) OR 1) AND 1 = (1 :: 'a word)"
    by (rule bit_word_eqI) (auto simp: bit_simps)
  have "drop_bit 1 (push_bit 1 (NOT v) OR 1) = NOT v"
  proof (rule bit_word_eqI)
    fix n assume "n < LENGTH('a)"
    then show "bit (drop_bit 1 (push_bit 1 (NOT v) OR 1)) n \<longleftrightarrow> bit (NOT v) n"
      using msb by (cases "n = LENGTH('a) - 1") (auto simp: bit_simps simp del: push_bit_Suc)
  qed
  then show ?thesis unfolding e one by simp
next
  case False
  then have msb: "\<not> bit v (LENGTH('a) - 1)" by (simp add: bit_last_iff)
  have e: "(if sint v < 0 then (- v) * 2 - 1 else v * 2) = push_bit 1 v"
    using False by (simp add: push_bit_eq_mult)
  have zero: "push_bit 1 v AND 1 = 0"
    by (rule bit_word_eqI) (auto simp: bit_simps simp del: push_bit_Suc)
  have "drop_bit 1 (push_bit 1 v) = v"
  proof (rule bit_word_eqI)
    fix n assume "n < LENGTH('a)"
    then show "bit (drop_bit 1 (push_bit 1 v)) n \<longleftrightarrow> bit v n"
      using msb by (cases "n = LENGTH('a) - 1") (auto simp: bit_simps simp del: push_bit_Suc)
  qed
  then show ?thesis unfolding e zero by simp
qed

lemma zigzag_decode_encode [simp]:
  "DecodeZigzag32 (EncodeZigzag32 a) = a"
  "DecodeZigzag64 (EncodeZigzag64 b) = b"
  unfolding DecodeZigzag32_def EncodeZigzag32_def DecodeZigzag64_def EncodeZigzag64_def
  by (rule zigzag_word)+

section \<open>Fixed-width integers: bytes and round trips\<close>

definition fixed_bytes :: "nat \<Rightarrow> 'a::len word \<Rightarrow> u8 list" where
  "fixed_bytes m v = word_bytes (swap_order m v)"

lemma swap_order_widths [simp]:
  "swap_order m (swap_order m (a :: u16)) = a"
  "swap_order m (swap_order m (b :: u32)) = b"
  "swap_order m (swap_order m (c :: u64)) = c"
  by (simp_all add: swap_order_def)

lemma length_fixed_bytes [simp]:
  "length (fixed_bytes m (v :: 'a::len word)) = LENGTH('a) div 8"
  by (simp add: fixed_bytes_def)

lemma fixed_bytes_order:
  "fixed_bytes SYLAR_LITTLE_ENDIAN (v :: u16) = word_bytes v"
  "fixed_bytes SYLAR_BIG_ENDIAN (v :: u16) = rev (word_bytes v)"
  "fixed_bytes SYLAR_LITTLE_ENDIAN (w :: u32) = word_bytes w"
  "fixed_bytes SYLAR_BIG_ENDIAN (w :: u32) = rev (word_bytes w)"
  "fixed_bytes SYLAR_LITTLE_ENDIAN (x :: u64) = word_bytes x"
  "fixed_bytes SYLAR_BIG_ENDIAN (x :: u64) = rev (word_bytes x)"
  by (simp_all add: fixed_bytes_def swap_order_def endian_defs word_bytes_byteswap_widths)

lemma emits_mode:
  "ba.emits m (\<lambda>ba. ByteArray_write ba (f (m_endian ba))) (f m)"
  using ba.emits_put [of m "f m"] by (auto simp: ba.emits_def)

lemma emits_fixed:
  "ba.emits m (\<lambda>ba. ByteArray_writeFint8 ba a) [a]"
  "ba.emits m (\<lambda>ba. ByteArray_writeFuint8 ba a) [a]"
  "ba.emits m (\<lambda>ba. ByteArray_writeFint16 ba b) (fixed_bytes m b)"
  "ba.emits m (\<lambda>ba. ByteArray_writeFuint16 ba b) (fixed_bytes m b)"
  "ba.emits m (\<lambda>ba. ByteArray_writeFint32 ba c) (fixed_bytes m c)"
  "ba.emits m (\<lambda>ba. ByteArray_writeFuint32 ba c) (fixed_bytes m c)"
  "ba.emits m (\<lambda>ba. ByteArray_writeFint64 ba d) (fixed_bytes m d)"
  "ba.emits m (\<lambda>ba. ByteArray_writeFuint64 ba d) (fixed_bytes m d)"
  unfolding ByteArray_writeFint8_def ByteArray_writeFuint8_def ByteArray_writeFint16_def
    ByteArray_writeFuint16_def ByteArray_writeFint32_def ByteArray_writeFuint32_def
    ByteArray_writeFint64_def ByteArray_writeFuint64_def fixed_bytes_def
  by (rule ba.emits_put emits_mode [where f = "\<lambda>m. word_bytes (swap_order m v)" for v])+

lemma parses_read_map:
  assumes "length bs = k" and "0 < k" and "f m bs = v"
  shows "ba.parses False
           (\<lambda>ba. bindE (ByteArray_read ba k) (\<lambda>(xs, ba'). Inr (f (m_endian ba) xs, ba'))) m bs v"
proof (rule ba.parsesI)
  fix ba rest
  assume a: "ba.ahead ba (bs @ rest)" and m: "m_endian ba = m"
  have "bs \<noteq> []" using assms by auto
  then obtain ba' where "ByteArray_read ba k = Inr (bs, ba')" "ba.ahead ba' rest"
      "m_endian ba' = m" "m_capacity ba' = m_capacity ba" "ba_data ba' = ba_data ba"
      "m_position ba' = m_position ba + length bs"
    using ba.get_ahead [OF a] m assms(1) by auto
  then show "\<exists>s'. bindE (ByteArray_read ba k) (\<lambda>(xs, ba'). Inr (f (m_endian ba) xs, ba')) =
      Inr (v, s') \<and> ba.ahead s' rest \<and> m_endian s' = m \<and> m_capacity s' = m_capacity ba \<and>
      ba_data s' = ba_data ba \<and> m_position s' = m_position ba + length bs"
    using assms m by simp
qed

lemma parses_fixed:
  "ba.parses False ByteArray_readFint8 m [a] a"
  "ba.parses False ByteArray_readFuint8 m [a] a"
  "ba.parses False ByteArray_readFint16 m (fixed_bytes m b) b"
  "ba.parses False ByteArray_readFuint16 m (fixed_bytes m b) b"
  "ba.parses False ByteArray_readFint32 m (fixed_bytes m c) c"
  "ba.parses False ByteArray_readFuint32 m (fixed_bytes m c) c"
  "ba.parses False ByteArray_readFint64 m (fixed_bytes m d) d"
  "ba.parses False ByteArray_readFuint64 m (fixed_bytes m d) d"
  unfolding ByteArray_readFint8_def ByteArray_readFuint8_def ByteArray_readFint16_def
    ByteArray_readFuint16_def ByteArray_readFint32_def ByteArray_readFuint32_def
    ByteArray_readFint64_def ByteArray_readFuint64_def
  by (rule parses_read_map [where f = "\<lambda>m. hd"]
        parses_read_map [where f = "\<lambda>m bs. swap_order m (bytes_word bs)"],
      simp_all add: fixed_bytes_def)+

section \<open>Varints: length and round trips\<close>

lemma length_varint_bytes: "0 < n \<Longrightarrow> unat v < 128 ^ n \<Longrightarrow> length (varint_bytes v) \<le> n"
proof (induction v arbitrary: n rule: varint_bytes.induct)
  case (1 v n)
  show ?case
  proof (cases "unat v \<ge> 128")
    case True
    have "n \<noteq> 1" using 1(3) True by auto
    then obtain k where n: "n = Suc k" "0 < k" using 1(2) by (cases n) auto
    have "unat v div 2 ^ 7 < 128 ^ k"
      using 1(3) n by (intro less_mult_imp_div_less) (simp add: mult.commute)
    then have "unat (drop_bit 7 v) < 128 ^ k" by (simp add: unat_drop_bit)
    then have "length (varint_bytes (drop_bit 7 v)) \<le> k" using 1(1) [OF True n(2)] by simp
    then show ?thesis using True n by (subst varint_bytes.simps) simp
  next
    case False
    then show ?thesis using 1(2) by (subst varint_bytes.simps) simp
  qed
qed

lemma varint_bytes_not_Nil [simp]: "varint_bytes v \<noteq> []"
  by (subst varint_bytes.simps) simp

lemma bit_lit_127: "bit (127 :: int) n \<longleftrightarrow> n < 7"
proof -
  have "(127 :: int) = mask 7" by (simp add: mask_eq_exp_minus_1)
  then show ?thesis by (simp only: bit_mask_iff) simp
qed

lemma bit_lit_128: "bit (128 :: int) n \<longleftrightarrow> n = 7"
proof -
  have "(128 :: int) = 2 ^ 7" by simp
  then show ?thesis by (simp only: bit_exp_iff) auto
qed

lemma bit_above: "unat v < 2 ^ k \<Longrightarrow> k \<le> n \<Longrightarrow> \<not> bit (v :: 'a::len word) n"
proof -
  assume "unat v < 2 ^ k" "k \<le> n"
  moreover have "(2 :: nat) ^ k \<le> 2 ^ n" using \<open>k \<le> n\<close> by (intro power_increasing) simp_all
  ultimately have "unat v < 2 ^ n" by linarith
  then have "drop_bit n v = 0" by (simp flip: unat_eq_zero add: unat_drop_bit)
  then show ?thesis by (simp add: bit_iff_odd_drop_bit)
qed

lemma low_group:
  fixes v :: "'a::len word"
  assumes "8 \<le> LENGTH('a)"
  shows "ucast ((ucast ((v AND 127) OR 128) :: u8) AND 127) = v AND 127"
proof (rule bit_word_eqI)
  fix n assume "n < LENGTH('a)"
  then show "bit (ucast ((ucast ((v AND 127) OR 128) :: u8) AND 127) :: 'a word) n \<longleftrightarrow>
      bit (v AND 127) n"
    using assms by (auto simp: bit_simps bit_lit_127 bit_lit_128)
qed

lemma continuation_bit:
  fixes v :: "'a::len word"
  assumes "8 \<le> LENGTH('a)"
  shows "\<not> (ucast ((v AND 127) OR 128) :: u8) < 128"
proof
  let ?b = "ucast ((v AND 127) OR 128) :: u8"
  assume "?b < 128"
  then have "unat ?b < 2 ^ 7" by (simp add: word_less_nat_alt)
  then have "\<not> bit ?b 7" by (rule bit_above) simp
  then show False using assms by (simp add: bit_simps bit_lit_128)
qed

lemma last_group:
  fixes v :: "'a::len word"
  assumes "8 \<le> LENGTH('a)" and "unat v < 128"
  shows "ucast (ucast v :: u8) = v" and "(ucast v :: u8) < 128"
proof -
  have hi: "\<not> bit v n" if "7 \<le> n" for n using assms(2) that bit_above [of v 7 n] by simp
  show "ucast (ucast v :: u8) = v"
    using hi by (intro bit_word_eqI) (auto simp: bit_simps not_le [symmetric])
  have "unat (ucast v :: u8) \<le> unat v" by (simp add: unsigned_ucast_eq take_bit_nat_less_eq_self)
  then show "(ucast v :: u8) < 128" using assms(2) by (simp add: word_less_nat_alt)
qed

lemma group_join:
  fixes v :: "'a::len word"
  shows "push_bit i (v AND 127) OR push_bit (i + 7) (drop_bit 7 v) = push_bit i v"
proof (rule bit_word_eqI)
  fix n assume n: "n < LENGTH('a)"
  have "7 + (n - (i + 7)) = n - i" if "7 \<le> n - i" using that by simp
  then show "bit (push_bit i (v AND 127) OR push_bit (i + 7) (drop_bit 7 v)) n \<longleftrightarrow>
      bit (push_bit i v) n"
    using n by (cases "7 \<le> n - i") (auto simp: bit_push_bit_iff bit_or_iff bit_and_iff bit_lit_127 bit_drop_bit_eq)
qed

lemma parses_varint_loop:
  fixes v :: "'a::len word"
  assumes "8 \<le> LENGTH('a)" and "i < LENGTH('a)" and "unat v < 2 ^ (LENGTH('a) - i)"
  shows "ba.parses False (varint_read_loop i r) m (varint_bytes v) (r OR push_bit i v)"
  using assms
proof (induction v arbitrary: i r rule: varint_bytes.induct)
  case (1 v i r)
  have start: "varint_read_loop i r = (\<lambda>ba. bindE (ByteArray_readFuint8 ba)
      (\<lambda>(b, ba'). if b < 128 then Inr (r OR push_bit i (ucast b), ba')
         else varint_read_loop (i + 7) (r OR push_bit i (ucast (b AND 127))) ba'))"
    by (rule ext, subst varint_read_loop.simps) (use 1(3) in simp)
  show ?case
  proof (cases "unat v \<ge> 128")
    case True
    let ?b = "ucast ((v AND 127) OR 128) :: u8"
    have "7 < LENGTH('a) - i"
    proof (rule ccontr)
      assume "\<not> 7 < LENGTH('a) - i"
      then have "(2 :: nat) ^ (LENGTH('a) - i) \<le> 2 ^ 7" by (intro power_increasing) simp_all
      then show False using True 1(4) by simp
    qed
    then have i7: "i + 7 < LENGTH('a)" and "LENGTH('a) - i = LENGTH('a) - (i + 7) + 7" by simp_all
    then have "unat v < 2 ^ (LENGTH('a) - (i + 7)) * 2 ^ 7"
      using 1(4) by (metis power_add)
    then have small: "unat (drop_bit 7 v) < 2 ^ (LENGTH('a) - (i + 7))"
      unfolding unat_drop_bit by (rule less_mult_imp_div_less)
    have rest: "ba.parses False (varint_read_loop (i + 7) (r OR push_bit i (v AND 127))) m
        (varint_bytes (drop_bit 7 v)) ((r OR push_bit i (v AND 127)) OR push_bit (i + 7) (drop_bit 7 v))"
      by (rule 1(1) [OF True 1(2) i7 small])
    have "ba.parses False (varint_read_loop i r) m ([?b] @ varint_bytes (drop_bit 7 v))
        ((r OR push_bit i (v AND 127)) OR push_bit (i + 7) (drop_bit 7 v))"
      unfolding start
      by (rule ba.parses_bind [OF parses_fixed(2)])
        (use rest in \<open>simp_all add: continuation_bit [OF 1(2)] low_group [OF 1(2)]\<close>)
    then show ?thesis
      unfolding or.assoc group_join using True by (subst varint_bytes.simps) simp
  next
    case False
    then have v: "ucast (ucast v :: u8) = v" "(ucast v :: u8) < 128"
      using last_group [OF 1(2)] by simp_all
    have "ba.parses False (varint_read_loop i r) m ([ucast v] @ []) (r OR push_bit i v)"
      unfolding start
      by (rule ba.parses_bind [OF parses_fixed(2)]) (simp_all add: v ba.parses_return)
    then show ?thesis using False by (subst varint_bytes.simps) simp
  qed
qed

lemma emits_varint:
  "ba.emits m (\<lambda>ba. ByteArray_writeUint32 ba a) (varint_bytes a)"
  "ba.emits m (\<lambda>ba. ByteArray_writeUint64 ba b) (varint_bytes b)"
  "ba.emits m (\<lambda>ba. ByteArray_writeInt32 ba a) (varint_bytes (EncodeZigzag32 a))"
  "ba.emits m (\<lambda>ba. ByteArray_writeInt64 ba b) (varint_bytes (EncodeZigzag64 b))"
  unfolding ByteArray_writeUint32_def ByteArray_writeUint64_def ByteArray_writeInt32_def
    ByteArray_writeInt64_def
  by (rule ba.emits_put)+

lemma parses_uvarint:
  "ba.parses False ByteArray_readUint32 m (varint_bytes a) a"
  "ba.parses False ByteArray_readUint64 m (varint_bytes b) b"
  using parses_varint_loop [of 0 a 0 m] parses_varint_loop [of 0 b 0 m]
  by (simp_all add: ByteArray_readUint32_def [abs_def] ByteArray_readUint64_def [abs_def]
        unsigned_less [of a, simplified] unsigned_less [of b, simplified])

lemma parses_varint:
  "ba.parses False ByteArray_readInt32 m (varint_bytes (EncodeZigzag32 a)) a"
  "ba.parses False ByteArray_readInt64 m (varint_bytes (EncodeZigzag64 b)) b"
  using ba.parses_map [OF parses_uvarint(1) [of m "EncodeZigzag32 a"], of DecodeZigzag32]
    ba.parses_map [OF parses_uvarint(2) [of m "EncodeZigzag64 b"], of DecodeZigzag64]
  by (simp_all add: ByteArray_readInt32_def [abs_def] ByteArray_readInt64_def [abs_def])

section \<open>Strings: bytes and round trips\<close>

lemma emits_float:
  "ba.emits m (\<lambda>ba. ByteArray_writeFloat ba a) (fixed_bytes m a)"
  "ba.emits m (\<lambda>ba. ByteArray_writeDouble ba b) (fixed_bytes m b)"
  unfolding ByteArray_writeFloat_def ByteArray_writeDouble_def by (rule emits_fixed)+

lemma parses_float:
  "ba.parses False ByteArray_readFloat m (fixed_bytes m a) a"
  "ba.parses False ByteArray_readDouble m (fixed_bytes m b) b"
  using parses_fixed [of m]
  by (simp_all add: ByteArray_readFloat_def [abs_def] ByteArray_readDouble_def [abs_def])

definition stringF16_bytes :: "nat \<Rightarrow> string \<Rightarrow> u8 list" where
  "stringF16_bytes m s = fixed_bytes m (of_nat (length s) :: u16) @ bytes_of_string s"

definition stringF32_bytes :: "nat \<Rightarrow> string \<Rightarrow> u8 list" where
  "stringF32_bytes m s = fixed_bytes m (of_nat (length s) :: u32) @ bytes_of_string s"

definition stringF64_bytes :: "nat \<Rightarrow> string \<Rightarrow> u8 list" where
  "stringF64_bytes m s = fixed_bytes m (of_nat (length s) :: u64) @ bytes_of_string s"

definition stringVint_bytes :: "string \<Rightarrow> u8 list" where
  "stringVint_bytes s = varint_bytes (of_nat (length s) :: u64) @ bytes_of_string s"

lemmas string_bytes_defs =
  stringF16_bytes_def stringF32_bytes_def stringF64_bytes_def stringVint_bytes_def

lemma emits_string:
  "ba.emits m (\<lambda>ba. ByteArray_writeStringF16 ba s) (stringF16_bytes m s)"
  "ba.emits m (\<lambda>ba. ByteArray_writeStringF32 ba s) (stringF32_bytes m s)"
  "ba.emits m (\<lambda>ba. ByteArray_writeStringF64 ba s) (stringF64_bytes m s)"
  "ba.emits m (\<lambda>ba. ByteArray_writeStringVint ba s) (stringVint_bytes s)"
  "ba.emits m (\<lambda>ba. ByteArray_writeStringWithoutLength ba s) (bytes_of_string s)"
  unfolding ByteArray_writeStringF16_def ByteArray_writeStringF32_def ByteArray_writeStringF64_def
    ByteArray_writeStringVint_def ByteArray_writeStringWithoutLength_def string_bytes_defs
  by (intro ba.emits_bind ba.emits_put emits_fixed emits_varint)+

lemma bytes_of_string_Nil [simp]: "bytes_of_string s = [] \<longleftrightarrow> s = []"
  by (simp add: bytes_of_string_def)

lemma parses_read_string:
  "n = length s \<Longrightarrow> ba.parses (s = []) (\<lambda>ba. read_string ba n) m (bytes_of_string s) s"
  using ba.parses_map [OF ba.parses_get [of "bytes_of_string s" m], of string_of_bytes]
  by (simp add: read_string_def [abs_def])

lemma parses_length_string:
  assumes "ba.parses False r m bs l" and "unat l = length s"
  shows "ba.parses (s = []) (\<lambda>ba. bindE (r ba) (\<lambda>(len, ba). read_string ba (unat len))) m
           (bs @ bytes_of_string s) s"
  by (rule ba.parses_bind [OF assms(1) parses_read_string]) (use assms(2) in simp_all)

lemma unat_length_word:
  "length s < 2 ^ 16 \<Longrightarrow> unat (of_nat (length s) :: u16) = length s"
  "length s < 2 ^ 32 \<Longrightarrow> unat (of_nat (length s) :: u32) = length s"
  "length s < 2 ^ 64 \<Longrightarrow> unat (of_nat (length s) :: u64) = length s"
  by (simp_all add: unat_of_nat take_bit_nat_eq_self)

lemma parses_string:
  "length s < 2 ^ 16 \<Longrightarrow> ba.parses (s = []) ByteArray_readStringF16 m (stringF16_bytes m s) s"
  "length s < 2 ^ 32 \<Longrightarrow> ba.parses (s = []) ByteArray_readStringF32 m (stringF32_bytes m s) s"
  "length s < 2 ^ 64 \<Longrightarrow> ba.parses (s = []) ByteArray_readStringF64 m (stringF64_bytes m s) s"
  "length s < 2 ^ 64 \<Longrightarrow> ba.parses (s = []) ByteArray_readStringVint m (stringVint_bytes s) s"
  unfolding ByteArray_readStringF16_def [abs_def] ByteArray_readStringF32_def [abs_def]
    ByteArray_readStringF64_def [abs_def] ByteArray_readStringVint_def [abs_def] string_bytes_defs
  by (rule parses_length_string, rule parses_fixed parses_uvarint, erule unat_length_word)+

section \<open>Properties\<close>

text \<open>
  \<open>round_trips w r v ba\<close>: the writer \<open>w\<close> succeeds on \<open>ba\<close>; after seeking back to where it started,
  the reader \<open>r\<close> returns \<open>v\<close> and stands where the writer stopped, in a consistent array.
\<close>

definition round_trips ::
    "(byte_array \<Rightarrow> ba_error + byte_array) \<Rightarrow> (byte_array \<Rightarrow> ba_error + 'v \<times> byte_array) \<Rightarrow>
     'v \<Rightarrow> byte_array \<Rightarrow> bool" where
  "round_trips w r v ba \<longleftrightarrow>
     (\<exists>ba1 ba2 ba3. w ba = Inr ba1 \<and> ByteArray_setPosition ba1 (m_position ba) = Inr ba2 \<and>
        r ba2 = Inr (v, ba3) \<and> m_position ba3 = m_position ba1 \<and> ba_data ba3 = ba_data ba1 \<and>
        ba_inv ba3)"

lemma round_tripsI:
  assumes "\<And>m. ba.emits m w (bs m)" and "\<And>m. ba.parses False r m (bs m) v" and "ba_inv ba"
  shows "round_trips w r v ba"
  using ba.round_trip [OF assms(1,2,3) refl] by (auto simp: round_trips_def)

lemma round_tripsI_room:
  assumes "\<And>m. ba.emits m w (bs m)" and "\<And>m. ba.parses e r m (bs m) v" and "ba_inv ba"
    and "e \<Longrightarrow> \<forall>ba1. w ba = Inr ba1 \<longrightarrow> m_position ba1 < m_capacity ba1"
  shows "round_trips w r v ba"
  using ba.round_trip [OF assms(1,2,3) refl] assms(4) by (auto simp: round_trips_def)

text \<open>
  C4. Round trip of the fixed-width integers, \<open>float\<close> and \<open>double\<close> in both byte orders, at any
  position of any consistent array, across node boundaries.
\<close>

theorem ByteArray_fixed_round_trip:
  assumes "ba_inv ba"
  shows "round_trips (\<lambda>ba. ByteArray_writeFuint8 ba a) ByteArray_readFuint8 a ba \<and>
         round_trips (\<lambda>ba. ByteArray_writeFuint16 ba b) ByteArray_readFuint16 b ba \<and>
         round_trips (\<lambda>ba. ByteArray_writeFuint32 ba c) ByteArray_readFuint32 c ba \<and>
         round_trips (\<lambda>ba. ByteArray_writeFuint64 ba d) ByteArray_readFuint64 d ba \<and>
         round_trips (\<lambda>ba. ByteArray_writeFint8 ba a) ByteArray_readFint8 a ba \<and>
         round_trips (\<lambda>ba. ByteArray_writeFint16 ba b) ByteArray_readFint16 b ba \<and>
         round_trips (\<lambda>ba. ByteArray_writeFint32 ba c) ByteArray_readFint32 c ba \<and>
         round_trips (\<lambda>ba. ByteArray_writeFint64 ba d) ByteArray_readFint64 d ba \<and>
         round_trips (\<lambda>ba. ByteArray_writeFloat ba c) ByteArray_readFloat c ba \<and>
         round_trips (\<lambda>ba. ByteArray_writeDouble ba d) ByteArray_readDouble d ba"
  by (intro conjI; rule round_tripsI [OF emits_fixed(2) parses_fixed(2) assms]
      round_tripsI [OF emits_fixed(4) parses_fixed(4) assms]
      round_tripsI [OF emits_fixed(6) parses_fixed(6) assms]
      round_tripsI [OF emits_fixed(8) parses_fixed(8) assms]
      round_tripsI [OF emits_fixed(1) parses_fixed(1) assms]
      round_tripsI [OF emits_fixed(3) parses_fixed(3) assms]
      round_tripsI [OF emits_fixed(5) parses_fixed(5) assms]
      round_tripsI [OF emits_fixed(7) parses_fixed(7) assms]
      round_tripsI [OF emits_float(1) parses_float(1) assms]
      round_tripsI [OF emits_float(2) parses_float(2) assms])

theorem ByteArray_fixed_round_trip_witness:
  "round_trips (\<lambda>ba. ByteArray_writeFuint32 ba 305419896) ByteArray_readFuint32 305419896
     (ByteArray_new (\<lambda>_ _. 0) 3)"
  using ByteArray_fixed_round_trip [of "ByteArray_new (\<lambda>_ _. 0) 3" 0 0 305419896 0]
  by (simp add: ba_inv_new)



lemma zigzag32_uint: "uint (EncodeZigzag32 a) = (if sint a < 0 then - 2 * sint a - 1 else 2 * sint a)"
proof -
  have enc: "EncodeZigzag32 a = word_of_int (if sint a < 0 then - 2 * sint a - 1 else 2 * sint a)"
    by (simp add: EncodeZigzag32_def algebra_simps)
  have "- (2 ^ 31) \<le> sint a" "sint a < 2 ^ 31"
    using sint_greater_eq [of a] sint_less [of a] by simp_all
  then show ?thesis unfolding enc by (auto simp: uint_word_of_int_eq take_bit_int_eq_self)
qed

text \<open>
  Bounds of the varint encoder: what \<open>writeUint32\<close> and \<open>writeUint64\<close> collect fits the local
  arrays \<open>tmp[5]\<close> and \<open>tmp[10]\<close> and is never empty; and zigzag keeps magnitudes small: a value in
  \<open>[-64, 64)\<close> takes a single byte.
\<close>

theorem varint_bytes_bounds:
  fixes a :: u32 and b :: u64
  shows "0 < length (varint_bytes a) \<and> length (varint_bytes a) \<le> 5 \<and>
         0 < length (varint_bytes b) \<and> length (varint_bytes b) \<le> 10 \<and>
         (- 64 \<le> sint a \<and> sint a < 64 \<longrightarrow> length (varint_bytes (EncodeZigzag32 a)) = 1)"
proof -
  have "unat a < 128 ^ 5" using unsigned_less [of a, where 'a = nat] by simp
  moreover have "unat b < 128 ^ 10" using unsigned_less [of b, where 'a = nat] by simp
  moreover have "length (varint_bytes (EncodeZigzag32 a)) = 1" if "- 64 \<le> sint a" "sint a < 64"
  proof -
    have "unat (EncodeZigzag32 a) < 128"
      using zigzag32_uint [of a] that by (simp add: unat_eq_nat_uint nat_less_iff split: if_splits)
    then show ?thesis by (subst varint_bytes.simps) simp
  qed
  ultimately show ?thesis
    using length_varint_bytes [of 5 a] length_varint_bytes [of 10 b] by simp
qed

theorem varint_bytes_bounds_witness:
  "length (varint_bytes (EncodeZigzag32 (- 3))) = 1"
  using varint_bytes_bounds [of "- 3" 0] by simp



text \<open>
  Without that spare capacity the round trip fails: an empty string whose prefix fills the last
  node is written, but reading it back goes through the null \<open>m_cur\<close>, because \<open>read\<close> loads
  \<open>m_cur->size\<close> before it looks at the number of bytes.
\<close>

theorem ByteArray_empty_string_null:
  "case ByteArray_writeStringF16 (ByteArray_new (\<lambda>_ _. 0) 2) [] of Inl _ \<Rightarrow> False
   | Inr ba1 \<Rightarrow> (case ByteArray_setPosition ba1 0 of Inl _ \<Rightarrow> False
     | Inr ba2 \<Rightarrow> (case ByteArray_readStringF16 ba2 of Inl e \<Rightarrow> e = null_deref | Inr _ \<Rightarrow> False))"
  by code_simp

end
