(* ===== verification/Byte_Array_IO.thy ===== *)
theory Byte_Array_IO
  imports Byte_Array_Codec
begin

text \<open>
  \<^verbatim>\<open>sylar/bytearray.cc\<close>: views of a \<open>ByteArray\<close> for the outside: strings, hex dumps, scatter/gather
  vectors for \<open>readv\<close>/\<open>writev\<close>, and files. An \<open>iovec\<close> points into a node, so its base address is a
  node and an offset in it; \<open>iov_addrs\<close> reads it as positions of the flat array. The contents of a
  file is a byte list, \<^const>\<open>None\<close> when it cannot be opened.
\<close>

section \<open>Strings\<close>

definition ByteArray_toString :: "byte_array \<Rightarrow> ba_error + string" where
  "ByteArray_toString ba =
     (if ByteArray_getReadSize ba = 0 then Inr []
      else bindE (ByteArray_read_position ba (ByteArray_getReadSize ba) (m_position ba))
             (\<lambda>bs. Inr (string_of_bytes bs)))"

definition hex_digit :: "nat \<Rightarrow> char" where
  "hex_digit d = ''0123456789abcdef'' ! d"

definition hex_byte :: "u8 \<Rightarrow> string" where
  "hex_byte b = [hex_digit (unat b div 16), hex_digit (unat b mod 16)]"

definition hex_cell :: "nat \<Rightarrow> char \<Rightarrow> string" where
  "hex_cell i c = (if i > 0 \<and> i mod 32 = 0 then [CHR 0x0A] else []) @ hex_byte (byte_of_char c) @ '' ''"

definition ByteArray_toHexString :: "byte_array \<Rightarrow> ba_error + string" where
  "ByteArray_toHexString ba =
     bindE (ByteArray_toString ba)
       (\<lambda>str. Inr (concat (map (\<lambda>(i, c). hex_cell i c) (zip [0..<length str] str))))"

section \<open>Scatter/gather vectors\<close>

record iovec =
  iov_node :: nat
  iov_off :: nat
  iov_len :: nat

text \<open>The loop the three functions below share.\<close>

function iovec_loop :: "node list \<Rightarrow> nat option \<Rightarrow> nat \<Rightarrow> nat \<Rightarrow> nat \<Rightarrow> ba_error + iovec list" where
  "iovec_loop ns cur npos ncap len =
     (if len = 0 then Inr []
      else case cur of
        None \<Rightarrow> Inl null_deref
      | Some c \<Rightarrow>
          (if ncap \<ge> len then Inr [\<lparr>iov_node = c, iov_off = npos, iov_len = len\<rparr>]
           else case next_node ns c of
             None \<Rightarrow> Inl null_deref
           | Some c' \<Rightarrow>
               bindE (iovec_loop ns (Some c') 0 (node_size (ns ! c')) (len - ncap))
                 (\<lambda>vs. Inr (\<lparr>iov_node = c, iov_off = npos, iov_len = ncap\<rparr> # vs))))"
  by pat_completeness auto
termination
  by (relation "measure (\<lambda>(ns, cur, _). case cur of None \<Rightarrow> 0 | Some c \<Rightarrow> length ns - c)")
     (auto simp: next_node_def split: if_splits)

declare iovec_loop.simps [simp del]

definition ByteArray_getReadBuffers :: "byte_array \<Rightarrow> nat \<Rightarrow> ba_error + nat \<times> iovec list" where
  "ByteArray_getReadBuffers ba len =
     (let len = (if len > ByteArray_getReadSize ba then ByteArray_getReadSize ba else len) in
      if len = 0 then Inr (0, [])
      else case m_cur ba of
        None \<Rightarrow> Inl null_deref
      | Some c \<Rightarrow>
          let npos = m_position ba mod m_baseSize ba;
              ncap = node_size (m_nodes ba ! c) - npos
          in bindE (iovec_loop (m_nodes ba) (Some c) npos ncap len) (\<lambda>vs. Inr (len, vs)))"

definition ByteArray_getReadBuffers_position ::
    "byte_array \<Rightarrow> nat \<Rightarrow> nat \<Rightarrow> ba_error + nat \<times> iovec list" where
  "ByteArray_getReadBuffers_position ba len position =
     (let len = (if len > ByteArray_getReadSize ba then ByteArray_getReadSize ba else len) in
      if len = 0 then Inr (0, [])
      else
        let npos = position mod m_baseSize ba;
            count = position div m_baseSize ba
        in if length (m_nodes ba) \<le> count then Inl null_deref
           else bindE (iovec_loop (m_nodes ba) (Some count) npos
                         (node_size (m_nodes ba ! count) - npos) len)
                  (\<lambda>vs. Inr (len, vs)))"

definition ByteArray_getWriteBuffers ::
    "byte_array \<Rightarrow> nat \<Rightarrow> ba_error + nat \<times> iovec list \<times> byte_array" where
  "ByteArray_getWriteBuffers ba len =
     (if len = 0 then Inr (0, [], ba)
      else let ba = ByteArray_addCapacity ba len in
        case m_cur ba of
          None \<Rightarrow> Inl null_deref
        | Some c \<Rightarrow>
            let npos = m_position ba mod m_baseSize ba;
                ncap = node_size (m_nodes ba ! c) - npos
            in bindE (iovec_loop (m_nodes ba) (Some c) npos ncap len) (\<lambda>vs. Inr (len, vs, ba)))"

section \<open>Files\<close>

text \<open>
  The loop of \<open>writeToFile\<close>. The subtraction is done in \<open>size_t\<close> and converted back to \<open>int64_t\<close>,
  which is the subtraction of integers; a negative count handed to \<open>ostream::write\<close> is the failure
  \<open>negative_count\<close>. The chain pointer moves on in every round, whatever was written.
\<close>

function writeToFile_loop ::
    "nat \<Rightarrow> node list \<Rightarrow> nat option \<Rightarrow> int \<Rightarrow> int \<Rightarrow> ba_error + u8 list" where
  "writeToFile_loop base ns cur pos read_size =
     (if read_size > 0 then
        let diff = pos mod int base;
            len = (if read_size > int base then int base else read_size) - diff
        in case cur of
             None \<Rightarrow> Inl null_deref
           | Some c \<Rightarrow>
               if len < 0 then Inl negative_count
               else bindE (writeToFile_loop base ns (next_node ns c) (pos + len) (read_size - len))
                      (\<lambda>bs. Inr (memcpy_from (ns ! c) (nat diff) (nat len) @ bs))
      else Inr [])"
  by pat_completeness auto
termination
  by (relation "measure (\<lambda>(_, ns, cur, _). case cur of None \<Rightarrow> 0 | Some c \<Rightarrow> Suc (length ns - c))")
     (auto simp: next_node_def split: if_splits option.splits)

declare writeToFile_loop.simps [simp del]

text \<open>\<open>opened\<close>: whether the file could be opened for writing; the result is the value returned and
  what the file holds then.\<close>

definition ByteArray_writeToFile :: "bool \<Rightarrow> byte_array \<Rightarrow> ba_error + bool \<times> u8 list option" where
  "ByteArray_writeToFile opened ba =
     (if \<not> opened then Inr (False, None)
      else bindE (writeToFile_loop (m_baseSize ba) (m_nodes ba) (m_cur ba) (int (m_position ba))
                    (int (ByteArray_getReadSize ba)))
             (\<lambda>bs. Inr (True, Some bs)))"

text \<open>\<open>ifs.read\<close> of \<open>m_baseSize\<close> bytes reaches the end of the file exactly when fewer are left.\<close>

function readFromFile_loop :: "nat \<Rightarrow> u8 list \<Rightarrow> byte_array \<Rightarrow> ba_error + byte_array" where
  "readFromFile_loop base rest ba =
     (if length rest < base then ByteArray_write ba rest
      else if base = 0 then Inl loops_forever
      else bindE (ByteArray_write ba (take base rest)) (readFromFile_loop base (drop base rest)))"
  by pat_completeness auto
termination
  by (relation "measure (\<lambda>(_, rest, _). length rest)") auto

declare readFromFile_loop.simps [simp del]

definition ByteArray_readFromFile ::
    "u8 list option \<Rightarrow> byte_array \<Rightarrow> ba_error + bool \<times> byte_array" where
  "ByteArray_readFromFile file ba =
     (case file of
        None \<Rightarrow> Inr (False, ba)
      | Some content \<Rightarrow>
          bindE (readFromFile_loop (m_baseSize ba) content ba) (\<lambda>ba. Inr (True, ba)))"

section \<open>Correctness of the views\<close>

lemma toString_correct:
  assumes "ba_inv ba"
  shows "ByteArray_toString ba = Inr (string_of_bytes (drop (m_position ba) (ba_data ba)))"
proof (cases "m_position ba = m_size ba")
  case True
  then show ?thesis
    using length_ba_data [OF assms]
    by (simp add: ByteArray_toString_def ByteArray_getReadSize_def string_of_bytes_def)
next
  case False
  let ?k = "m_size ba - m_position ba"
  have k: "0 < ?k" "m_position ba + ?k \<le> m_size ba" "m_position ba \<le> m_size ba"
    using False assms by (auto simp: ba_inv_def)
  have len: "length (drop (m_position ba) (ba_data ba)) = ?k"
    by (simp add: length_ba_data [OF assms])
  obtain ba' where "ByteArray_read ba ?k = Inr (drop (m_position ba) (ba_data ba), ba')"
    using read_correct [OF assms k(2)] k(1) len by (metis take_all order_refl)
  then have "ByteArray_read_position ba ?k (m_position ba) =
      Inr (drop (m_position ba) (ba_data ba))"
    by (auto simp: ByteArray_read_def ByteArray_read_position_def ByteArray_getReadSize_def Let_def
        bindE_eq_Inr split: if_splits option.splits)
  then show ?thesis using k by (simp add: ByteArray_toString_def ByteArray_getReadSize_def)
qed

definition iov_addrs :: "nat \<Rightarrow> iovec list \<Rightarrow> nat list" where
  "iov_addrs base vs =
     concat (map (\<lambda>v. [base * iov_node v + iov_off v ..< base * iov_node v + iov_off v + iov_len v]) vs)"

definition iov_in_node :: "nat \<Rightarrow> nat \<Rightarrow> iovec \<Rightarrow> bool" where
  "iov_in_node base n v \<longleftrightarrow> iov_node v < n \<and> 0 < iov_len v \<and> iov_off v + iov_len v \<le> base"

lemma iovec_loop_correct:
  assumes "chunked base ns" and "c < length ns" and "npos < base"
    and "base * c + npos + len \<le> base * length ns"
  shows "\<exists>vs. iovec_loop ns (Some c) npos (base - npos) len = Inr vs \<and>
           iov_addrs base vs = [base * c + npos ..< base * c + npos + len] \<and>
           (\<forall>v \<in> set vs. iov_in_node base (length ns) v)"
  using assms
proof (induction "length ns - c" arbitrary: c npos len rule: less_induct)
  case less
  note ch = less.prems(1) and c = less.prems(2) and npos = less.prems(3) and fits = less.prems(4)
  consider "len = 0" | "0 < len" "len \<le> base - npos" | "len > base - npos" by fastforce
  then show ?case
  proof cases
    case 1
    then show ?thesis by (simp add: iovec_loop.simps iov_addrs_def)
  next
    case 2
    then show ?thesis
      using c npos by (auto simp: iovec_loop.simps iov_addrs_def iov_in_node_def)
  next
    case 3
    let ?k = "base - npos"
    have "base * Suc c < base * length ns" using 3 fits npos by simp
    then have c': "Suc c < length ns" by (simp only: mult_less_cancel1)
    then have node': "node_size (ns ! Suc c) = base" using chunked_nth [OF ch] by blast
    have rest: "base * Suc c + 0 = base * c + npos + ?k"
      and fits': "base * Suc c + 0 + (len - ?k) \<le> base * length ns"
      and ends: "base * c + npos + ?k + (len - ?k) = base * c + npos + len"
      using npos 3 fits by simp_all
    have dec: "length ns - Suc c < length ns - c" "0 < base" using c npos by simp_all
    from less.hyps [OF dec(1) ch c' dec(2) fits'] obtain vs where
        vs: "iovec_loop ns (Some (Suc c)) 0 base (len - ?k) = Inr vs"
          "iov_addrs base vs = [base * c + npos + ?k ..< base * c + npos + len]"
          "\<forall>v \<in> set vs. iov_in_node base (length ns) v"
      unfolding rest ends diff_zero by blast
    have "iovec_loop ns (Some c) npos ?k len =
        Inr (\<lparr>iov_node = c, iov_off = npos, iov_len = ?k\<rparr> # vs)"
      using 3 c' node' vs(1) by (subst iovec_loop.simps) (simp add: next_node_def)
    moreover have "[base * c + npos ..< base * c + npos + ?k] @
        [base * c + npos + ?k ..< base * c + npos + len] = [base * c + npos ..< base * c + npos + len]"
      using upt_add_eq_append [of "base * c + npos" "base * c + npos + ?k" "len - ?k"] ends
      by simp
    ultimately show ?thesis
      using vs c npos by (auto simp: iov_addrs_def iov_in_node_def)
  qed
qed

lemma flat_at_addrs:
  "p + len \<le> length xs \<Longrightarrow> map ((!) xs) [p ..< p + len] = take len (drop p xs)"
  by (rule nth_equalityI) simp_all

text \<open>The read vectors cover exactly the next bytes of the data, in order.\<close>

lemma getReadBuffers_correct:
  fixes len :: nat
  assumes "ba_inv ba"
  defines "k \<equiv> min len (m_size ba - m_position ba)"
  shows "\<exists>vs. ByteArray_getReadBuffers ba len = Inr (k, vs) \<and>
           iov_addrs (m_baseSize ba) vs = [m_position ba ..< m_position ba + k] \<and>
           (\<forall>v \<in> set vs. iov_in_node (m_baseSize ba) (length (m_nodes ba)) v)"
proof -
  have k: "(if len > ByteArray_getReadSize ba then ByteArray_getReadSize ba else len) = k"
    using assms by (auto simp: k_def ByteArray_getReadSize_def ba_inv_def)
  show ?thesis
  proof (cases "k = 0")
    case True
    then show ?thesis by (simp add: ByteArray_getReadBuffers_def k Let_def iov_addrs_def)
  next
    case False
    let ?b = "m_baseSize ba" and ?ns = "m_nodes ba" and ?p = "m_position ba"
    let ?c = "?p div ?b"
    have inv: "0 < ?b" "chunked ?b ?ns" "m_capacity ba = ?b * length ?ns"
        "m_cur ba = cur_at ?b (length ?ns) ?p" "m_size ba \<le> m_capacity ba"
      using assms(1) by (simp_all add: ba_inv_def)
    have fits: "?p + k \<le> ?b * length ?ns" using inv False unfolding k_def by linarith
    then have "?p < ?b * length ?ns" using False by linarith
    then have c: "?c < length ?ns" by (simp add: less_mult_imp_div_less mult.commute)
    have cur: "m_cur ba = Some ?c" using inv(4) c by (simp add: cur_at_def)
    have size: "node_size (?ns ! ?c) = ?b" using chunked_nth [OF inv(2) c] by simp
    from iovec_loop_correct [OF inv(2) c, of "?p mod ?b" k] show ?thesis
      using False inv(1) fits cur size
      by (auto simp: ByteArray_getReadBuffers_def k Let_def position_split)
  qed
qed

text \<open>
  The write vectors cover the \<open>len\<close> cells behind the position, each inside one node, and the array
  keeps its data and position; the caller moves the position once the cells are filled.
\<close>

lemma getWriteBuffers_correct:
  assumes "ba_inv ba"
  shows "\<exists>vs ba'. ByteArray_getWriteBuffers ba len = Inr (len, vs, ba') \<and> ba_inv ba' \<and>
           ba_data ba' = ba_data ba \<and> m_position ba' = m_position ba \<and>
           m_position ba + len \<le> m_capacity ba' \<and>
           iov_addrs (m_baseSize ba) vs = [m_position ba ..< m_position ba + len] \<and>
           (\<forall>v \<in> set vs. iov_in_node (m_baseSize ba) (length (m_nodes ba')) v)"
proof (cases "len = 0")
  case True
  then show ?thesis
    using assms by (simp add: ByteArray_getWriteBuffers_def iov_addrs_def ba_inv_def)
next
  case False
  let ?ba = "ByteArray_addCapacity ba len"
  note cap = addCapacity_correct [OF assms, of len]
  let ?b = "m_baseSize ba" and ?ns = "m_nodes ?ba" and ?p = "m_position ba"
  let ?c = "?p div ?b"
  have inv: "0 < ?b" "chunked ?b ?ns" "m_capacity ?ba = ?b * length ?ns"
      "m_cur ?ba = cur_at ?b (length ?ns) ?p" "m_size ba \<le> m_capacity ba"
    using cap(1,4,7) assms by (simp_all add: ba_inv_def)
  have fits: "?p + len \<le> ?b * length ?ns" using cap(2) inv(3) by simp
  then have "?p < ?b * length ?ns" using False by linarith
  then have c: "?c < length ?ns" by (simp add: less_mult_imp_div_less mult.commute)
  have cur: "m_cur ?ba = Some ?c" using inv(4) c by (simp add: cur_at_def)
  have size: "node_size (?ns ! ?c) = ?b" using chunked_nth [OF inv(2) c] by simp
  obtain vs where vs: "iovec_loop ?ns (Some ?c) (?p mod ?b) (?b - ?p mod ?b) len = Inr vs"
      "iov_addrs ?b vs = [?p ..< ?p + len]" "\<forall>v \<in> set vs. iov_in_node ?b (length ?ns) v"
    using iovec_loop_correct [OF inv(2) c, of "?p mod ?b" len] inv(1) fits
    by (auto simp: position_split)
  have "ByteArray_getWriteBuffers ba len = Inr (len, vs, ?ba)"
    using False cur size vs(1) cap(4,7) by (simp add: ByteArray_getWriteBuffers_def Let_def)
  moreover have "ba_data ?ba = ba_data ba"
    using cap(3,5) inv(5) length_contents [OF assms] by (auto simp: ba_data_def)
  ultimately show ?thesis using cap vs(2,3) by auto
qed

section \<open>Correctness of the file operations\<close>

lemma readFromFile_loop_emits:
  "0 < base \<Longrightarrow> ba.emits m (readFromFile_loop base content) content"
proof (induction "length content" arbitrary: content rule: less_induct)
  case less
  show ?case
  proof (cases "length content < base")
    case True
    then have "readFromFile_loop base content = (\<lambda>ba. ByteArray_write ba content)"
      by (intro ext) (simp add: readFromFile_loop.simps)
    then show ?thesis by (simp add: ba.emits_put)
  next
    case False
    then have step: "readFromFile_loop base content = (\<lambda>ba. bindE (ByteArray_write ba (take base content))
        (readFromFile_loop base (drop base content)))"
      using less.prems by (intro ext) (subst readFromFile_loop.simps, simp)
    have "ba.emits m (readFromFile_loop base (drop base content)) (drop base content)"
      using less.prems False by (intro less.hyps) simp_all
    then have "ba.emits m (readFromFile_loop base content) (take base content @ drop base content)"
      unfolding step by (rule ba.emits_bind [OF ba.emits_put])
    then show ?thesis by simp
  qed
qed

lemma readFromFile_correct:
  assumes "ba_inv ba"
  shows "\<exists>ba'. ByteArray_readFromFile (Some content) ba = Inr (True, ba') \<and> ba_inv ba' \<and>
           ba_data ba' = splice_at (m_position ba) content (ba_data ba) \<and>
           m_position ba' = m_position ba + length content"
proof -
  have "0 < m_baseSize ba" using assms by (simp add: ba_inv_def)
  from readFromFile_loop_emits [OF this, of "m_endian ba" content] show ?thesis
    using assms by (auto simp: ba.emits_def ba.wrote_def ByteArray_readFromFile_def)
qed

text \<open>
  From a position at the start of a node, \<open>writeToFile\<close> writes the unread bytes.
\<close>

lemma writeToFile_loop_aligned:
  assumes "chunked base ns" and "0 < base" and "c \<le> length ns" and "base * c + k \<le> base * length ns"
  shows "writeToFile_loop base ns (if c < length ns then Some c else None) (int (base * c)) (int k) =
           Inr (take k (drop (base * c) (flat ns)))"
  using assms
proof (induction k arbitrary: c rule: less_induct)
  case (less k)
  note ch = less.prems(1) and b = less.prems(2) and fits = less.prems(4)
  show ?case
  proof (cases "k = 0")
    case True
    then show ?thesis by (simp add: writeToFile_loop.simps)
  next
    case False
    then have "base * c < base * length ns" using fits by linarith
    then have c: "c < length ns" by (simp only: mult_less_cancel1)
    let ?len = "min k base"
    have len: "(if int k > int base then int base else int k) - int (base * c) mod int base = int ?len"
      by (simp add: min_def flip: zmod_int)
    have bytes: "memcpy_from (ns ! c) 0 ?len = take ?len (drop (base * c) (flat ns))"
      using flat_memcpy_from [OF ch c, of 0 ?len] by simp
    have step: "writeToFile_loop base ns (Some c) (int (base * c)) (int k) =
        bindE (writeToFile_loop base ns (next_node ns c) (int (base * c) + int ?len) (int k - int ?len))
          (\<lambda>bs. Inr (take ?len (drop (base * c) (flat ns)) @ bs))"
      using False len bytes by (subst writeToFile_loop.simps) (simp add: Let_def flip: zmod_int)
    have "writeToFile_loop base ns (next_node ns c) (int (base * c) + int ?len) (int k - int ?len) =
        Inr (take (k - ?len) (drop (base * c + ?len) (flat ns)))"
    proof (cases "k \<le> base")
      case True
      then show ?thesis by (simp add: writeToFile_loop.simps)
    next
      case False
      have *: "k - base < k" "Suc c \<le> length ns" "base * Suc c + (k - base) \<le> base * length ns"
        using False b c fits by simp_all
      have "next_node ns c = (if Suc c < length ns then Some (Suc c) else None)"
        by (simp add: next_node_def)
      then show ?thesis
        using less.IH [OF *(1) ch b *(2,3)] False by (simp add: add.commute of_nat_diff)
    qed
    then show ?thesis
      using step c take_add [of ?len "k - ?len" "drop (base * c) (flat ns)"]
      by (simp add: add.commute)
  qed
qed

lemma writeToFile_aligned:
  assumes "ba_inv ba" and "m_position ba mod m_baseSize ba = 0"
  shows "ByteArray_writeToFile True ba = Inr (True, Some (drop (m_position ba) (ba_data ba)))"
proof -
  let ?b = "m_baseSize ba" and ?ns = "m_nodes ba" and ?c = "m_position ba div m_baseSize ba"
  have inv: "chunked ?b ?ns" "0 < ?b" "m_capacity ba = ?b * length ?ns" "m_size ba \<le> m_capacity ba"
      "m_position ba \<le> m_size ba" "m_cur ba = (if ?c < length ?ns then Some ?c else None)"
    using assms(1) by (simp_all add: ba_inv_def cur_at_def)
  have p: "?b * ?c = m_position ba" using assms(2) by (simp add: mult_div_mod_eq minus_mod_eq_mult_div [symmetric])
  have "?b * ?c \<le> ?b * length ?ns" using p inv by simp
  then have c: "?c \<le> length ?ns" using inv(2) by (simp only: mult_le_cancel1)
  have "?b * ?c + (m_size ba - m_position ba) \<le> ?b * length ?ns" using p inv by simp
  from writeToFile_loop_aligned [OF inv(1,2) c this] show ?thesis
    using inv by (simp add: p ByteArray_writeToFile_def ByteArray_getReadSize_def ba_data_def
        contents_def drop_take)
qed

section \<open>Properties\<close>

text \<open>
  Scatter/gather: the vectors of \<open>getReadBuffers\<close> designate, in order, exactly the bytes a read
  of that length would return; those of \<open>getWriteBuffers\<close> designate the cells behind the position,
  each vector inside one allocated node, and leave data and position as they were.
\<close>

theorem ByteArray_iovec_exact:
  assumes "ba_inv ba"
  shows "(\<exists>k vs. ByteArray_getReadBuffers ba len = Inr (k, vs) \<and>
            k = min len (m_size ba - m_position ba) \<and>
            map ((!) (contents ba)) (iov_addrs (m_baseSize ba) vs) =
              take len (drop (m_position ba) (ba_data ba))) \<and>
         (\<exists>vs ba'. ByteArray_getWriteBuffers ba len = Inr (len, vs, ba') \<and> ba_inv ba' \<and>
            ba_data ba' = ba_data ba \<and> m_position ba' = m_position ba \<and>
            iov_addrs (m_baseSize ba) vs = [m_position ba ..< m_position ba + len] \<and>
            (\<forall>v \<in> set vs. iov_in_node (m_baseSize ba) (length (m_nodes ba')) v))"
proof
  let ?k = "min len (m_size ba - m_position ba)"
  have le: "m_position ba + ?k \<le> length (contents ba)"
    using assms by (simp add: length_contents) (auto simp: ba_inv_def min_def)
  have "take ?k (drop (m_position ba) (contents ba)) = take len (drop (m_position ba) (ba_data ba))"
    by (simp add: ba_data_def drop_take)
  then show "\<exists>k vs. ByteArray_getReadBuffers ba len = Inr (k, vs) \<and>
      k = min len (m_size ba - m_position ba) \<and>
      map ((!) (contents ba)) (iov_addrs (m_baseSize ba) vs) =
        take len (drop (m_position ba) (ba_data ba))"
    using getReadBuffers_correct [OF assms, of len] flat_at_addrs [OF le] by auto
  show "\<exists>vs ba'. ByteArray_getWriteBuffers ba len = Inr (len, vs, ba') \<and> ba_inv ba' \<and>
      ba_data ba' = ba_data ba \<and> m_position ba' = m_position ba \<and>
      iov_addrs (m_baseSize ba) vs = [m_position ba ..< m_position ba + len] \<and>
      (\<forall>v \<in> set vs. iov_in_node (m_baseSize ba) (length (m_nodes ba')) v)"
    using getWriteBuffers_correct [OF assms, of len] by blast
qed

theorem ByteArray_iovec_exact_witness:
  "\<exists>vs ba'. ByteArray_getWriteBuffers (ByteArray_new (\<lambda>_ _. 0) 2) 5 = Inr (5, vs, ba') \<and>
     iov_addrs 2 vs = [0 ..< 5]"
  using ByteArray_iovec_exact [of "ByteArray_new (\<lambda>_ _. 0) 2" 5]
  by (simp add: ba_inv_new) (auto simp: ByteArray_new_def)

text \<open>
  Files: what \<open>writeToFile\<close> stores from a position at a node boundary is the unread data, and
  \<open>readFromFile\<close> into a fresh array of any base size makes it the data again.
\<close>

theorem ByteArray_file_round_trip:
  assumes "ba_inv ba" and "m_position ba mod m_baseSize ba = 0" and "0 < base"
  shows "\<exists>content ba'. ByteArray_writeToFile True ba = Inr (True, Some content) \<and>
           ByteArray_readFromFile (Some content) (ByteArray_new junk base) = Inr (True, ba') \<and>
           ba_inv ba' \<and> ba_data ba' = drop (m_position ba) (ba_data ba)"
  using writeToFile_aligned [OF assms(1,2)]
    readFromFile_correct [OF ba_inv_new [OF assms(3), of junk]]
  by (auto simp: splice_at_def)

theorem ByteArray_file_round_trip_witness:
  "\<exists>content ba'. ByteArray_writeToFile True (ByteArray_new (\<lambda>_ _. 0) 4) = Inr (True, Some content) \<and>
     ByteArray_readFromFile (Some content) (ByteArray_new (\<lambda>_ _. 0) 3) = Inr (True, ba') \<and> ba_inv ba'"
proof -
  have "m_position (ByteArray_new (\<lambda>_ _. 0) 4) mod m_baseSize (ByteArray_new (\<lambda>_ _. 0) 4) = 0"
    by (simp add: ByteArray_new_def)
  then show ?thesis
    using ByteArray_file_round_trip [of "ByteArray_new (\<lambda>_ _. 0) 4" 3 "\<lambda>_ _. 0"]
    by (auto simp: ba_inv_new)
qed

text \<open>
  From a position inside a node \<open>writeToFile\<close> goes wrong: with base size 4, five bytes and the
  position at 2, it computes \<open>3 - 2\<close> bytes for the first node although it holds two more unread
  ones, moves on to the next node with the position still inside the first, and then asks for a
  negative number of bytes.
\<close>

theorem ByteArray_writeToFile_unaligned:
  "case ByteArray_write (ByteArray_new (\<lambda>_ _. 0) 4) [1, 2, 3, 4, 5] of Inl _ \<Rightarrow> False
   | Inr ba1 \<Rightarrow> (case ByteArray_setPosition ba1 2 of Inl _ \<Rightarrow> False
     | Inr ba2 \<Rightarrow> ByteArray_writeToFile True ba2 = Inl negative_count \<and>
                  ByteArray_toString ba2 = Inr (string_of_bytes [3, 4, 5]))"
  by code_simp

end
