(* ===== verification/Protocol.thy ===== *)
theory Protocol
  imports Byte_Array_Codec
begin

text \<open>
  \<^verbatim>\<open>sylar/protocol.h\<close> and \<^verbatim>\<open>sylar/protocol.cc\<close>: the message classes \<open>Request\<close>, \<open>Response\<close> and
  \<open>Notify\<close>, their wire format and its round trip. \<open>getType\<close> is pure virtual in the classes of the
  source, so the type a message writes is an argument \<open>ty\<close>. The type byte is written by
  \<open>serializeToByteArray\<close> but read by the (abstract) decoder that picks the class, not by
  \<open>parseFromByteArray\<close>; the round trips read it first. Both operations return \<open>true\<close> whenever they
  return, so their results here are the new state or the exception of the byte array.
\<close>

datatype MessageType = REQUEST | RESPONSE | NOTIFY

definition message_type_code :: "MessageType \<Rightarrow> u32" where
  "message_type_code t = (case t of REQUEST \<Rightarrow> 1 | RESPONSE \<Rightarrow> 2 | NOTIFY \<Rightarrow> 3)"

record Request =
  req_m_sn :: u32
  req_m_cmd :: u32

record Response =
  rsp_m_sn :: u32
  rsp_m_cmd :: u32
  rsp_m_result :: u32
  rsp_m_resultStr :: string

record Notify =
  m_notify :: u32

definition Request_new :: Request where
  "Request_new = \<lparr>req_m_sn = 0, req_m_cmd = 0\<rparr>"

definition Response_new :: Response where
  "Response_new = \<lparr>rsp_m_sn = 0, rsp_m_cmd = 0, rsp_m_result = 404, rsp_m_resultStr = ''unhandle''\<rparr>"

definition Notify_new :: Notify where
  "Notify_new = \<lparr>m_notify = 0\<rparr>"

definition Request_serializeToByteArray ::
    "u32 \<Rightarrow> Request \<Rightarrow> byte_array \<Rightarrow> ba_error + byte_array" where
  "Request_serializeToByteArray ty r ba =
     bindE (ByteArray_writeFuint8 ba (ucast ty)) (\<lambda>ba.
     bindE (ByteArray_writeUint32 ba (req_m_sn r)) (\<lambda>ba.
     ByteArray_writeUint32 ba (req_m_cmd r)))"

definition Request_parseFromByteArray ::
    "Request \<Rightarrow> byte_array \<Rightarrow> ba_error + Request \<times> byte_array" where
  "Request_parseFromByteArray r ba =
     bindE (ByteArray_readUint32 ba) (\<lambda>(sn, ba).
     bindE (ByteArray_readUint32 ba) (\<lambda>(cmd, ba).
     Inr (r\<lparr>req_m_sn := sn, req_m_cmd := cmd\<rparr>, ba)))"

definition Response_serializeToByteArray ::
    "u32 \<Rightarrow> Response \<Rightarrow> byte_array \<Rightarrow> ba_error + byte_array" where
  "Response_serializeToByteArray ty r ba =
     bindE (ByteArray_writeFuint8 ba (ucast ty)) (\<lambda>ba.
     bindE (ByteArray_writeUint32 ba (rsp_m_sn r)) (\<lambda>ba.
     bindE (ByteArray_writeUint32 ba (rsp_m_cmd r)) (\<lambda>ba.
     bindE (ByteArray_writeUint32 ba (rsp_m_result r)) (\<lambda>ba.
     ByteArray_writeStringVint ba (rsp_m_resultStr r)))))"

definition Response_parseFromByteArray ::
    "Response \<Rightarrow> byte_array \<Rightarrow> ba_error + Response \<times> byte_array" where
  "Response_parseFromByteArray r ba =
     bindE (ByteArray_readUint32 ba) (\<lambda>(sn, ba).
     bindE (ByteArray_readUint32 ba) (\<lambda>(cmd, ba).
     bindE (ByteArray_readUint32 ba) (\<lambda>(result, ba).
     bindE (ByteArray_readStringVint ba) (\<lambda>(str, ba).
     Inr (r\<lparr>rsp_m_sn := sn, rsp_m_cmd := cmd, rsp_m_result := result,
            rsp_m_resultStr := str\<rparr>, ba)))))"

definition Notify_serializeToByteArray ::
    "u32 \<Rightarrow> Notify \<Rightarrow> byte_array \<Rightarrow> ba_error + byte_array" where
  "Notify_serializeToByteArray ty n ba =
     bindE (ByteArray_writeFuint8 ba (ucast ty)) (\<lambda>ba.
     ByteArray_writeUint32 ba (m_notify n))"

definition Notify_parseFromByteArray ::
    "Notify \<Rightarrow> byte_array \<Rightarrow> ba_error + Notify \<times> byte_array" where
  "Notify_parseFromByteArray n ba =
     bindE (ByteArray_readUint32 ba) (\<lambda>(v, ba). Inr (n\<lparr>m_notify := v\<rparr>, ba))"

text \<open>\<open>Message::toByteArray\<close>: a fresh array of the default base size 4096.\<close>

definition Message_toByteArray ::
    "(nat \<Rightarrow> nat \<Rightarrow> u8) \<Rightarrow> (byte_array \<Rightarrow> ba_error + byte_array) \<Rightarrow> ba_error + byte_array" where
  "Message_toByteArray junk serialize = serialize (ByteArray_new junk 4096)"

section \<open>The wire format\<close>

definition request_bytes :: "u32 \<Rightarrow> Request \<Rightarrow> u8 list" where
  "request_bytes ty r = [ucast ty] @ varint_bytes (req_m_sn r) @ varint_bytes (req_m_cmd r)"

definition response_bytes :: "u32 \<Rightarrow> Response \<Rightarrow> u8 list" where
  "response_bytes ty r =
     [ucast ty] @ varint_bytes (rsp_m_sn r) @ varint_bytes (rsp_m_cmd r) @
     varint_bytes (rsp_m_result r) @ stringVint_bytes (rsp_m_resultStr r)"

definition notify_bytes :: "u32 \<Rightarrow> Notify \<Rightarrow> u8 list" where
  "notify_bytes ty n = [ucast ty] @ varint_bytes (m_notify n)"

lemma emits_request: "ba.emits m (Request_serializeToByteArray ty r) (request_bytes ty r)"
  unfolding Request_serializeToByteArray_def [abs_def] request_bytes_def
  by (intro ba.emits_bind emits_fixed emits_varint)

lemma emits_response: "ba.emits m (Response_serializeToByteArray ty r) (response_bytes ty r)"
  unfolding Response_serializeToByteArray_def [abs_def] response_bytes_def
  by (intro ba.emits_bind emits_fixed emits_varint emits_string)

lemma emits_notify: "ba.emits m (Notify_serializeToByteArray ty n) (notify_bytes ty n)"
  unfolding Notify_serializeToByteArray_def [abs_def] notify_bytes_def
  by (intro ba.emits_bind emits_fixed emits_varint)

lemma record_refill [simp]:
  "r0\<lparr>req_m_sn := req_m_sn q, req_m_cmd := req_m_cmd q\<rparr> = (q :: Request)"
  "p0\<lparr>rsp_m_sn := rsp_m_sn p, rsp_m_cmd := rsp_m_cmd p, rsp_m_result := rsp_m_result p,
      rsp_m_resultStr := rsp_m_resultStr p\<rparr> = (p :: Response)"
  "n0\<lparr>m_notify := m_notify n\<rparr> = (n :: Notify)"
  by (cases r0, cases q, simp, cases p0, cases p, simp, cases n0, cases n, simp)

lemma parses_request:
  "ba.parses False (Request_parseFromByteArray r0) m
     (varint_bytes (req_m_sn r) @ varint_bytes (req_m_cmd r)) r"
  using ba.parses_bind [OF parses_uvarint(1) [of m "req_m_sn r"]
      ba.parses_map [OF parses_uvarint(1) [of m "req_m_cmd r"]],
      of "\<lambda>sn cmd. r0\<lparr>req_m_sn := sn, req_m_cmd := cmd\<rparr>"]
  by (simp add: Request_parseFromByteArray_def [abs_def])

lemma parses_response:
  assumes "length (rsp_m_resultStr r) < 2 ^ 64"
  shows "ba.parses (rsp_m_resultStr r = []) (Response_parseFromByteArray r0) m
     (varint_bytes (rsp_m_sn r) @ varint_bytes (rsp_m_cmd r) @ varint_bytes (rsp_m_result r) @
      stringVint_bytes (rsp_m_resultStr r)) r"
  unfolding Response_parseFromByteArray_def [abs_def]
  using ba.parses_map [OF parses_string(4) [OF assms, of m],
      of "\<lambda>str. r0\<lparr>rsp_m_sn := rsp_m_sn r, rsp_m_cmd := rsp_m_cmd r,
        rsp_m_result := rsp_m_result r, rsp_m_resultStr := str\<rparr>"]
  by (intro ba.parses_bind [OF parses_uvarint(1)]) simp_all

lemma parses_notify:
  "ba.parses False (Notify_parseFromByteArray n0) m (varint_bytes (m_notify n)) n"
  using ba.parses_map [OF parses_uvarint(1) [of m "m_notify n"], of "\<lambda>v. n0\<lparr>m_notify := v\<rparr>"]
  by (simp add: Notify_parseFromByteArray_def [abs_def])

lemma request_wire_length:
  "length (request_bytes ty r) \<le> 11" "length (notify_bytes ty n) \<le> 6"
proof -
  have u32: "unat v < 128 ^ 5" for v :: u32 using unsigned_less [of v, where 'a = nat] by simp
  have len: "length (varint_bytes v) \<le> 5" for v :: u32 by (rule length_varint_bytes [OF _ u32]) simp
  show "length (request_bytes ty r) \<le> 11" "length (notify_bytes ty n) \<le> 6"
    using len [of "req_m_sn r"] len [of "req_m_cmd r"] len [of "m_notify n"]
    by (simp_all add: request_bytes_def notify_bytes_def)
qed

text \<open>A whole message: the decoder reads the type byte and then the class parses the rest.\<close>

definition read_message ::
    "(byte_array \<Rightarrow> ba_error + 'm \<times> byte_array) \<Rightarrow> byte_array \<Rightarrow> ba_error + (u8 \<times> 'm) \<times> byte_array"
  where
  "read_message parse ba =
     bindE (ByteArray_readFuint8 ba) (\<lambda>(ty, ba).
     bindE (parse ba) (\<lambda>(msg, ba). Inr ((ty, msg), ba)))"

lemma parses_message:
  "ba.parses e parse m bs msg \<Longrightarrow> bs \<noteq> [] \<or> e \<Longrightarrow>
     ba.parses e (read_message parse) m ([ty] @ bs) (ty, msg)"
  unfolding read_message_def [abs_def]
  by (rule ba.parses_bind [OF parses_fixed(2)]) (auto dest: ba.parses_map [of _ _ _ _ _ "Pair ty"])

section \<open>Properties\<close>



end
