(* ===== verification/Fiber.thy ===== *)
theory Fiber
  imports Prelude
begin

text \<open>
  \<^verbatim>\<open>sylar/fiber.h\<close> and \<^verbatim>\<open>sylar/fiber.cc\<close>: coroutines on \<open>ucontext\<close>.

  The state is that of one thread: the heap of fiber objects (a \<open>Fiber*\<close> is an address), the global
  counter and the thread-local pointers of \<open>fiber.cc\<close> and \<open>scheduler.cc\<close>. A \<open>ucontext_t\<close> is
  modelled by the flow of control it resumes: the thread's own stack, or the stack of a fiber.
  \<open>swapcontext(&a, &b)\<close> stores the running flow in \<open>a\<close> and continues with the one stored in \<open>b\<close>; the
  model keeps the running flow in \<open>t_flow\<close>. \<open>getcontext\<close> and \<open>swapcontext\<close> do not fail. A failing
  \<open>SYLAR_ASSERT\<close> is \<open>assert_failed\<close>, a null dereference \<open>null_pointer\<close>. Logging is left out.
\<close>

section \<open>State\<close>

datatype State = Fiber_INIT | Fiber_HOLD | Fiber_EXEC | Fiber_TERM | Fiber_READY | Fiber_EXCEPT

datatype flow = Thread_stack | Fiber_stack nat

datatype entry = No_entry | Entry_MainFunc | Entry_CallerMainFunc

datatype fiber_error = assert_failed string | null_pointer

record 'cb fiber =
  m_id :: u64
  m_stacksize :: u32
  m_state :: State
  m_ctx :: flow
  m_entry :: entry
  m_stack :: bool
  m_cb :: "'cb option"

record 'cb fiber_env =
  fibers :: "nat \<Rightarrow> 'cb fiber option"
  s_fiber_count :: u64
  t_fiber :: "nat option"
  t_threadFiber :: "nat option"
  t_scheduler_fiber :: "nat option"
  t_flow :: flow

definition get_fiber :: "'cb fiber_env \<Rightarrow> nat \<Rightarrow> fiber_error + 'cb fiber" where
  "get_fiber env p = (case fibers env p of None \<Rightarrow> Inl null_pointer | Some f \<Rightarrow> Inr f)"

definition put_fiber :: "'cb fiber_env \<Rightarrow> nat \<Rightarrow> 'cb fiber \<Rightarrow> 'cb fiber_env" where
  "put_fiber env p f = env\<lparr>fibers := (fibers env)(p \<mapsto> f)\<rparr>"

definition SYLAR_ASSERT :: "bool \<Rightarrow> string \<Rightarrow> fiber_error + unit" where
  "SYLAR_ASSERT x what = (if x then Inr () else Inl (assert_failed what))"

definition the_ptr :: "nat option \<Rightarrow> fiber_error + nat" where
  "the_ptr p = (case p of None \<Rightarrow> Inl null_pointer | Some a \<Rightarrow> Inr a)"

definition swapcontext :: "'cb fiber_env \<Rightarrow> nat \<Rightarrow> nat \<Rightarrow> fiber_error + 'cb fiber_env" where
  "swapcontext env a b =
     bindE (get_fiber env a) (\<lambda>fa.
     bindE (get_fiber (put_fiber env a (fa\<lparr>m_ctx := t_flow env\<rparr>)) b) (\<lambda>fb.
     Inr ((put_fiber env a (fa\<lparr>m_ctx := t_flow env\<rparr>))\<lparr>t_flow := m_ctx fb\<rparr>)))"

section \<open>Operations\<close>

definition Fiber_SetThis :: "'cb fiber_env \<Rightarrow> nat option \<Rightarrow> 'cb fiber_env" where
  "Fiber_SetThis env f = env\<lparr>t_fiber := f\<rparr>"

definition Fiber_GetFiberId :: "'cb fiber_env \<Rightarrow> fiber_error + u64" where
  "Fiber_GetFiberId env =
     (case t_fiber env of None \<Rightarrow> Inr 0 | Some p \<Rightarrow> bindE (get_fiber env p) (\<lambda>f. Inr (m_id f)))"

definition Fiber_TotalFibers :: "'cb fiber_env \<Rightarrow> u64" where
  "Fiber_TotalFibers env = s_fiber_count env"

text \<open>The private default constructor (the main fiber of a thread), at the address \<open>p\<close>.\<close>

definition Fiber_main :: "'cb fiber_env \<Rightarrow> nat \<Rightarrow> 'cb fiber_env" where
  "Fiber_main env p =
     (Fiber_SetThis (put_fiber env p
        \<lparr>m_id = 0, m_stacksize = 0, m_state = Fiber_EXEC, m_ctx = t_flow env, m_entry = No_entry,
         m_stack = False, m_cb = None\<rparr>) (Some p))\<lparr>s_fiber_count := s_fiber_count env + 1\<rparr>"

text \<open>\<open>stack_size\<close> is the configured default \<open>fiber.stack_size\<close>.\<close>

definition Fiber_new ::
    "u32 \<Rightarrow> 'cb fiber_env \<Rightarrow> nat \<Rightarrow> 'cb option \<Rightarrow> u64 \<Rightarrow> bool \<Rightarrow> 'cb fiber_env" where
  "Fiber_new stack_size env p cb stacksize use_caller =
     (let count = s_fiber_count env + 1 in
      (put_fiber env p
        \<lparr>m_id = count, m_stacksize = (if stacksize \<noteq> 0 then ucast stacksize else stack_size),
         m_state = Fiber_INIT, m_ctx = Fiber_stack p,
         m_entry = (if \<not> use_caller then Entry_MainFunc else Entry_CallerMainFunc),
         m_stack = True, m_cb = cb\<rparr>)\<lparr>s_fiber_count := count + 1\<rparr>)"

definition Fiber_destroy :: "'cb fiber_env \<Rightarrow> nat \<Rightarrow> fiber_error + 'cb fiber_env" where
  "Fiber_destroy env p =
     bindE (get_fiber env p) (\<lambda>f.
     let env = env\<lparr>s_fiber_count := s_fiber_count env - 1\<rparr> in
     if m_stack f then
       bindE (SYLAR_ASSERT (m_state f = Fiber_TERM \<or> m_state f = Fiber_EXCEPT \<or> m_state f = Fiber_INIT)
                ''m_state == TERM || m_state == EXCEPT || m_state == INIT'') (\<lambda>_.
       Inr (env\<lparr>fibers := (fibers env)(p := None)\<rparr>))
     else
       bindE (SYLAR_ASSERT (m_cb f = None) ''!m_cb'') (\<lambda>_.
       bindE (SYLAR_ASSERT (m_state f = Fiber_EXEC) ''m_state == EXEC'') (\<lambda>_.
       let env = (if t_fiber env = Some p then Fiber_SetThis env None else env)
       in Inr (env\<lparr>fibers := (fibers env)(p := None)\<rparr>))))"

definition Fiber_reset :: "'cb fiber_env \<Rightarrow> nat \<Rightarrow> 'cb option \<Rightarrow> fiber_error + 'cb fiber_env" where
  "Fiber_reset env p cb =
     bindE (get_fiber env p) (\<lambda>f.
     bindE (SYLAR_ASSERT (m_stack f) ''m_stack'') (\<lambda>_.
     bindE (SYLAR_ASSERT (m_state f = Fiber_TERM \<or> m_state f = Fiber_EXCEPT \<or> m_state f = Fiber_INIT)
              ''m_state == TERM || m_state == EXCEPT || m_state == INIT'') (\<lambda>_.
     Inr (put_fiber env p (f\<lparr>m_cb := cb, m_ctx := Fiber_stack p, m_entry := Entry_MainFunc,
                             m_state := Fiber_INIT\<rparr>)))))"

definition Fiber_call :: "'cb fiber_env \<Rightarrow> nat \<Rightarrow> fiber_error + 'cb fiber_env" where
  "Fiber_call env p =
     (let env = Fiber_SetThis env (Some p) in
      bindE (get_fiber env p) (\<lambda>f.
      let env = put_fiber env p (f\<lparr>m_state := Fiber_EXEC\<rparr>) in
      bindE (the_ptr (t_threadFiber env)) (\<lambda>m. swapcontext env m p)))"

definition Fiber_back :: "'cb fiber_env \<Rightarrow> nat \<Rightarrow> fiber_error + 'cb fiber_env" where
  "Fiber_back env p =
     (let env = Fiber_SetThis env (t_threadFiber env) in
      bindE (the_ptr (t_threadFiber env)) (\<lambda>m. swapcontext env p m))"

definition Fiber_swapIn :: "'cb fiber_env \<Rightarrow> nat \<Rightarrow> fiber_error + 'cb fiber_env" where
  "Fiber_swapIn env p =
     (let env = Fiber_SetThis env (Some p) in
      bindE (get_fiber env p) (\<lambda>f.
      bindE (SYLAR_ASSERT (m_state f \<noteq> Fiber_EXEC) ''m_state != EXEC'') (\<lambda>_.
      let env = put_fiber env p (f\<lparr>m_state := Fiber_EXEC\<rparr>) in
      bindE (the_ptr (t_scheduler_fiber env)) (\<lambda>m. swapcontext env m p))))"

definition Fiber_swapOut :: "'cb fiber_env \<Rightarrow> nat \<Rightarrow> fiber_error + 'cb fiber_env" where
  "Fiber_swapOut env p =
     (let env = Fiber_SetThis env (t_scheduler_fiber env) in
      bindE (the_ptr (t_scheduler_fiber env)) (\<lambda>m. swapcontext env p m))"

text \<open>\<open>GetThis\<close>: \<open>fresh\<close> is the address \<open>new Fiber\<close> returns when the thread has no fiber yet.\<close>

definition Fiber_GetThis :: "'cb fiber_env \<Rightarrow> nat \<Rightarrow> nat \<times> 'cb fiber_env" where
  "Fiber_GetThis env fresh =
     (case t_fiber env of
        Some p \<Rightarrow> (p, env)
      | None \<Rightarrow> (fresh, (Fiber_main env fresh)\<lparr>t_threadFiber := Some fresh\<rparr>))"

definition Fiber_YieldToReady :: "'cb fiber_env \<Rightarrow> nat \<Rightarrow> fiber_error + 'cb fiber_env" where
  "Fiber_YieldToReady env fresh =
     (let (cur, env) = Fiber_GetThis env fresh in
      bindE (get_fiber env cur) (\<lambda>f.
      bindE (SYLAR_ASSERT (m_state f = Fiber_EXEC) ''cur->m_state == EXEC'') (\<lambda>_.
      Fiber_swapOut (put_fiber env cur (f\<lparr>m_state := Fiber_READY\<rparr>)) cur)))"

definition Fiber_YieldToHold :: "'cb fiber_env \<Rightarrow> nat \<Rightarrow> fiber_error + 'cb fiber_env" where
  "Fiber_YieldToHold env fresh =
     (let (cur, env) = Fiber_GetThis env fresh in
      bindE (get_fiber env cur) (\<lambda>f.
      bindE (SYLAR_ASSERT (m_state f = Fiber_EXEC) ''cur->m_state == EXEC'') (\<lambda>_.
      Fiber_swapOut env cur)))"

text \<open>How the callback of a fiber ends, and the rest of the two entry functions after it.\<close>

datatype outcome = Returned | Threw_std_exception | Threw_other

definition Fiber_MainFunc ::
    "'cb fiber_env \<Rightarrow> nat \<Rightarrow> outcome \<Rightarrow> fiber_error + 'cb fiber_env" where
  "Fiber_MainFunc env fresh oc =
     (let (cur, env) = Fiber_GetThis env fresh in
      bindE (get_fiber env cur) (\<lambda>f.
      let f = (case oc of Returned \<Rightarrow> f\<lparr>m_cb := None, m_state := Fiber_TERM\<rparr>
               | Threw_std_exception \<Rightarrow> f
               | Threw_other \<Rightarrow> f\<lparr>m_state := Fiber_EXCEPT\<rparr>)
      in Fiber_swapOut (put_fiber env cur f) cur))"

definition Fiber_CallerMainFunc ::
    "'cb fiber_env \<Rightarrow> nat \<Rightarrow> outcome \<Rightarrow> fiber_error + 'cb fiber_env" where
  "Fiber_CallerMainFunc env fresh oc =
     (let (cur, env) = Fiber_GetThis env fresh in
      bindE (get_fiber env cur) (\<lambda>f.
      let f = (case oc of Returned \<Rightarrow> f\<lparr>m_cb := None, m_state := Fiber_TERM\<rparr>
               | Threw_std_exception \<Rightarrow> f\<lparr>m_state := Fiber_EXCEPT\<rparr>
               | Threw_other \<Rightarrow> f\<lparr>m_state := Fiber_EXCEPT\<rparr>)
      in Fiber_back (put_fiber env cur f) cur))"

definition fiber_env_new :: "'cb fiber_env" where
  "fiber_env_new = \<lparr>fibers = Map.empty, s_fiber_count = 0, t_fiber = None, t_threadFiber = None,
     t_scheduler_fiber = None, t_flow = Thread_stack\<rparr>"

lemmas fiber_step_defs = get_fiber_def put_fiber_def SYLAR_ASSERT_def the_ptr_def swapcontext_def
  Fiber_SetThis_def Let_def

section \<open>Lifecycle\<close>

lemma swapIn_effect:
  assumes "t_scheduler_fiber env = Some m" and "fibers env m = Some fm"
    and "fibers env p = Some f" and "p \<noteq> m" and "m_state f \<noteq> Fiber_EXEC"
  shows "\<exists>env'. Fiber_swapIn env p = Inr env' \<and> t_fiber env' = Some p \<and> t_flow env' = m_ctx f \<and>
           fibers env' p = Some (f\<lparr>m_state := Fiber_EXEC\<rparr>) \<and>
           fibers env' m = Some (fm\<lparr>m_ctx := t_flow env\<rparr>) \<and>
           (\<forall>q. q \<noteq> p \<longrightarrow> q \<noteq> m \<longrightarrow> fibers env' q = fibers env q) \<and>
           t_scheduler_fiber env' = Some m \<and> t_threadFiber env' = t_threadFiber env \<and>
           s_fiber_count env' = s_fiber_count env"
  using assms by (auto simp: Fiber_swapIn_def fiber_step_defs)

lemma swapIn_running:
  assumes "fibers env p = Some f" and "m_state f = Fiber_EXEC"
  shows "Fiber_swapIn env p = Inl (assert_failed ''m_state != EXEC'')"
  using assms by (simp add: Fiber_swapIn_def fiber_step_defs)

lemma swapOut_effect:
  assumes "t_scheduler_fiber env = Some m" and "fibers env m = Some fm"
    and "fibers env p = Some f" and "p \<noteq> m"
  shows "Fiber_swapOut env p =
           Inr (env\<lparr>t_fiber := Some m, fibers := (fibers env)(p \<mapsto> f\<lparr>m_ctx := t_flow env\<rparr>),
                    t_flow := m_ctx fm\<rparr>)"
  using assms by (simp add: Fiber_swapOut_def fiber_step_defs)

text \<open>How a fiber leaves the processor: by a yield or at the end of its callback.\<close>

datatype leave = Yield_ready | Yield_hold | Finish outcome

definition leave_op :: "leave \<Rightarrow> 'cb fiber_env \<Rightarrow> nat \<Rightarrow> fiber_error + 'cb fiber_env" where
  "leave_op l env fresh =
     (case l of Yield_ready \<Rightarrow> Fiber_YieldToReady env fresh
      | Yield_hold \<Rightarrow> Fiber_YieldToHold env fresh
      | Finish oc \<Rightarrow> Fiber_MainFunc env fresh oc)"

fun left_state :: "leave \<Rightarrow> State" where
  "left_state Yield_ready = Fiber_READY"
| "left_state Yield_hold = Fiber_EXEC"
| "left_state (Finish Returned) = Fiber_TERM"
| "left_state (Finish Threw_std_exception) = Fiber_EXEC"
| "left_state (Finish Threw_other) = Fiber_EXCEPT"

lemma leave_effect:
  assumes "t_scheduler_fiber env = Some m" and "fibers env m = Some fm"
    and "fibers env p = Some f" and "p \<noteq> m" and "t_fiber env = Some p" and "m_state f = Fiber_EXEC"
  shows "\<exists>env' f'. leave_op l env fresh = Inr env' \<and> t_fiber env' = Some m \<and>
           t_flow env' = m_ctx fm \<and> fibers env' p = Some f' \<and> m_state f' = left_state l \<and>
           m_ctx f' = t_flow env \<and> m_stack f' = m_stack f \<and> m_id f' = m_id f \<and>
           m_cb f' = (if l = Finish Returned then None else m_cb f) \<and>
           (\<forall>q. q \<noteq> p \<longrightarrow> fibers env' q = fibers env q) \<and>
           t_scheduler_fiber env' = Some m \<and> s_fiber_count env' = s_fiber_count env"
  using assms
  by (cases l rule: left_state.cases)
    (auto simp: leave_op_def Fiber_YieldToReady_def Fiber_YieldToHold_def Fiber_MainFunc_def
      Fiber_GetThis_def Fiber_swapOut_def fiber_step_defs)

section \<open>Properties\<close>


definition example_fibers :: "string fiber_env" where
  "example_fibers = Fiber_new 131072
     ((snd (Fiber_GetThis fiber_env_new 1))\<lparr>t_scheduler_fiber := Some 1\<rparr>) 2 (Some ''task'') 0 False"


definition reuse_ids :: "fiber_error + string fiber_env" where
  "reuse_ids =
     (let env = Fiber_new 0 fiber_env_new 1 (Some ''a'') 0 False;
          env = Fiber_new 0 env 2 (Some ''b'') 0 False;
          env = Fiber_new 0 env 3 (Some ''c'') 0 False
      in bindE (Fiber_destroy env 1) (\<lambda>env. bindE (Fiber_destroy env 2) (\<lambda>env.
         Inr (Fiber_new 0 env 4 (Some ''d'') 0 False))))"

text \<open>
  Fiber identifiers are not unique: \<open>m_id\<close> is taken from the counter of live fibers, which the
  constructor raises twice and the destructor lowers once, so that after three creations and two
  destructions a new fiber gets the identifier of a live one.
\<close>

theorem Fiber_ids_collide:
  "case reuse_ids of Inl _ \<Rightarrow> False
   | Inr env \<Rightarrow> map_option m_id (fibers env 3) = Some 5 \<and> map_option m_id (fibers env 4) = Some 5"
  by code_simp

end
