(* ===== verification/Scheduler.thy ===== *)
theory Scheduler
  imports Fiber
begin

text \<open>
  \<^verbatim>\<open>sylar/scheduler.h\<close> and \<^verbatim>\<open>sylar/scheduler.cc\<close>: the N:M scheduler.

  The first part models the scheduler object, the task queue and every piece of \<open>Scheduler::run\<close> that
  runs without giving up the processor or a lock, as functions. The fibers are seen through their
  states only (\<open>fstate\<close>, \<^const>\<open>None\<close> when there is no fiber at that address); \<open>m_tickles\<close> counts the
  calls of the virtual \<open>tickle\<close>. The second part composes the pieces into a step relation of a pool
  of threads: every atomic section of \<open>run\<close> is one step, and the steps of different threads and of
  the rest of the program interleave freely.
\<close>

section \<open>State and operations\<close>

record 'cb FiberAndThread =
  fiber :: "nat option"
  cb :: "'cb option"
  thread :: int

record 'cb scheduler =
  m_name :: string
  m_fibers :: "'cb FiberAndThread list"
  m_rootFiber :: "nat option"
  m_threads :: nat
  m_threadIds :: "int list"
  m_threadCount :: nat
  m_activeThreadCount :: nat
  m_idleThreadCount :: nat
  m_stopping :: bool
  m_autoStop :: bool
  m_rootThread :: int
  m_tickles :: nat
  fstate :: "nat \<Rightarrow> State option"

definition FiberAndThread_fiber :: "nat option \<Rightarrow> int \<Rightarrow> 'cb FiberAndThread" where
  "FiberAndThread_fiber f thr = \<lparr>fiber = f, cb = None, thread = thr\<rparr>"

definition FiberAndThread_cb :: "'cb option \<Rightarrow> int \<Rightarrow> 'cb FiberAndThread" where
  "FiberAndThread_cb f thr = \<lparr>fiber = None, cb = f, thread = thr\<rparr>"

definition FiberAndThread_reset :: "'cb FiberAndThread" where
  "FiberAndThread_reset = \<lparr>fiber = None, cb = None, thread = - 1\<rparr>"

text \<open>
  The constructor: \<open>root\<close> is the address of the fiber made for the caller thread, \<open>tid\<close> that thread,
  \<open>other\<close> whether the thread already has a scheduler.
\<close>

definition Scheduler_new ::
    "nat \<Rightarrow> bool \<Rightarrow> string \<Rightarrow> nat \<Rightarrow> int \<Rightarrow> bool \<Rightarrow> fiber_error + 'cb scheduler" where
  "Scheduler_new threads use_caller name root tid other =
     bindE (SYLAR_ASSERT (threads > 0) ''threads > 0'') (\<lambda>_.
     let s = \<lparr>m_name = name, m_fibers = [], m_rootFiber = None, m_threads = 0, m_threadIds = [],
              m_threadCount = threads, m_activeThreadCount = 0, m_idleThreadCount = 0,
              m_stopping = True, m_autoStop = False, m_rootThread = - 1, m_tickles = 0,
              fstate = Map.empty\<rparr> in
     if use_caller then
       bindE (SYLAR_ASSERT (\<not> other) ''GetThis() == nullptr'') (\<lambda>_.
       Inr (s\<lparr>m_rootFiber := Some root, m_rootThread := tid, m_threadIds := [tid],
              m_threadCount := threads - 1, fstate := [root \<mapsto> Fiber_INIT]\<rparr>))
     else Inr s)"

definition Scheduler_tickle :: "'cb scheduler \<Rightarrow> 'cb scheduler" where
  "Scheduler_tickle s = s\<lparr>m_tickles := m_tickles s + 1\<rparr>"

text \<open>\<open>ids\<close> are the thread ids the new threads report.\<close>

definition Scheduler_start :: "'cb scheduler \<Rightarrow> int list \<Rightarrow> fiber_error + 'cb scheduler" where
  "Scheduler_start s ids =
     (if \<not> m_stopping s then Inr s
      else bindE (SYLAR_ASSERT (m_threads s = 0) ''m_threads.empty()'') (\<lambda>_.
        Inr (s\<lparr>m_stopping := False, m_threads := m_threadCount s,
               m_threadIds := m_threadIds s @ take (m_threadCount s) ids\<rparr>)))"

definition Scheduler_schedulerNoLock ::
    "'cb scheduler \<Rightarrow> 'cb FiberAndThread \<Rightarrow> bool \<times> 'cb scheduler" where
  "Scheduler_schedulerNoLock s ft =
     (m_fibers s = [],
      if fiber ft \<noteq> None \<or> cb ft \<noteq> None then s\<lparr>m_fibers := m_fibers s @ [ft]\<rparr> else s)"

definition Scheduler_schedule :: "'cb scheduler \<Rightarrow> 'cb FiberAndThread \<Rightarrow> 'cb scheduler" where
  "Scheduler_schedule s ft =
     (let (need_tickle, s) = Scheduler_schedulerNoLock s ft
      in if need_tickle then Scheduler_tickle s else s)"

fun schedule_loop ::
    "'cb FiberAndThread list \<Rightarrow> bool \<Rightarrow> 'cb scheduler \<Rightarrow> bool \<times> 'cb scheduler" where
  "schedule_loop [] need_tickle s = (need_tickle, s)"
| "schedule_loop (ft # fts) need_tickle s =
     (let (b, s) = Scheduler_schedulerNoLock s ft in schedule_loop fts (b \<or> need_tickle) s)"

definition Scheduler_schedule_range :: "'cb scheduler \<Rightarrow> 'cb FiberAndThread list \<Rightarrow> 'cb scheduler" where
  "Scheduler_schedule_range s fts =
     (let (need_tickle, s) = schedule_loop fts False s
      in if need_tickle then Scheduler_tickle s else s)"

definition Scheduler_stopping :: "'cb scheduler \<Rightarrow> bool" where
  "Scheduler_stopping s \<longleftrightarrow>
     m_autoStop s \<and> m_stopping s \<and> m_fibers s = [] \<and> m_activeThreadCount s = 0"

definition Scheduler_hasIdleThreads :: "'cb scheduler \<Rightarrow> bool" where
  "Scheduler_hasIdleThreads s \<longleftrightarrow> m_idleThreadCount s > 0"

text \<open>
  \<open>stop\<close> up to the point where it runs the root fiber and joins the threads: \<open>is_this\<close> says whether
  the calling thread belongs to this scheduler. The second result says whether it calls the root
  fiber, the third whether it returned early.
\<close>

definition Scheduler_stop :: "'cb scheduler \<Rightarrow> bool \<Rightarrow> fiber_error + 'cb scheduler \<times> bool \<times> bool" where
  "Scheduler_stop s is_this =
     (let s = s\<lparr>m_autoStop := True\<rparr>;
          quick = (case m_rootFiber s of None \<Rightarrow> False
                   | Some r \<Rightarrow> m_threadCount s = 0 \<and>
                       (fstate s r = Some Fiber_TERM \<or> fstate s r = Some Fiber_INIT));
          s = (if quick then s\<lparr>m_stopping := True\<rparr> else s)
      in if quick \<and> Scheduler_stopping s then Inr (s, False, True)
         else
           bindE (if m_rootThread s \<noteq> - 1 then SYLAR_ASSERT is_this ''GetThis() == this''
                  else SYLAR_ASSERT (\<not> is_this) ''GetThis() != this'') (\<lambda>_.
           let s = s\<lparr>m_stopping := True\<rparr>;
               s = (Scheduler_tickle ^^ m_threadCount s) s;
               s = (if m_rootFiber s \<noteq> None then Scheduler_tickle s else s)
           in Inr (s\<lparr>m_threads := 0\<rparr>, m_rootFiber s \<noteq> None \<and> \<not> Scheduler_stopping s, False)))"

definition Scheduler_switchTo ::
    "'cb scheduler \<Rightarrow> bool \<Rightarrow> bool \<Rightarrow> int \<Rightarrow> int \<Rightarrow> nat \<Rightarrow> fiber_error + bool \<times> 'cb scheduler" where
  "Scheduler_switchTo s has_this is_this tid thr cur =
     bindE (SYLAR_ASSERT has_this ''Scheduler::GetThis() != nullptr'') (\<lambda>_.
     if is_this \<and> (thr = - 1 \<or> thr = tid) then Inr (False, s)
     else Inr (True, Scheduler_schedule s (FiberAndThread_fiber (Some cur) thr)))"

section \<open>The pieces of run\<close>

text \<open>The search of the queue under the lock: the task taken, the queue left, and \<open>tickle_me\<close>.\<close>

fun pick_loop ::
    "(nat \<Rightarrow> State option) \<Rightarrow> int \<Rightarrow> 'cb FiberAndThread list \<Rightarrow> bool \<Rightarrow>
     fiber_error + 'cb FiberAndThread option \<times> 'cb FiberAndThread list \<times> bool" where
  "pick_loop st tid [] tickle_me = Inr (None, [], tickle_me)"
| "pick_loop st tid (it # its) tickle_me =
     (if thread it \<noteq> - 1 \<and> thread it \<noteq> tid then
        bindE (pick_loop st tid its True) (\<lambda>(ft, rest, b). Inr (ft, it # rest, b))
      else
        bindE (SYLAR_ASSERT (fiber it \<noteq> None \<or> cb it \<noteq> None) ''it->fiber || it->cb'') (\<lambda>_.
        if (case fiber it of Some p \<Rightarrow> st p = Some Fiber_EXEC | None \<Rightarrow> False) then
          bindE (pick_loop st tid its tickle_me) (\<lambda>(ft, rest, b). Inr (ft, it # rest, b))
        else Inr (Some it, its, tickle_me \<or> its \<noteq> [])))"

definition run_take ::
    "'cb scheduler \<Rightarrow> int \<Rightarrow> fiber_error + 'cb FiberAndThread option \<times> 'cb scheduler" where
  "run_take s tid =
     bindE (pick_loop (fstate s) tid (m_fibers s) False) (\<lambda>(ft, rest, tickle_me).
     let s = (case ft of None \<Rightarrow> s
              | Some _ \<Rightarrow> s\<lparr>m_fibers := rest, m_activeThreadCount := m_activeThreadCount s + 1\<rparr>)
     in Inr (ft, if tickle_me then Scheduler_tickle s else s))"

text \<open>What \<open>run\<close> does with the task: resume a fiber, run a callback, or drop it.\<close>

datatype 'cb dispatch = Do_fiber nat | Do_cb 'cb | Do_nothing

definition run_dispatch :: "'cb scheduler \<Rightarrow> 'cb FiberAndThread \<Rightarrow> 'cb dispatch" where
  "run_dispatch s ft =
     (case fiber ft of
        Some p \<Rightarrow>
          if fstate s p \<noteq> Some Fiber_TERM \<and> fstate s p \<noteq> Some Fiber_EXCEPT then Do_fiber p
          else (case cb ft of Some f \<Rightarrow> Do_cb f | None \<Rightarrow> Do_nothing)
      | None \<Rightarrow> (case cb ft of Some f \<Rightarrow> Do_cb f | None \<Rightarrow> Do_nothing))"

definition set_state :: "'cb scheduler \<Rightarrow> nat \<Rightarrow> State \<Rightarrow> 'cb scheduler" where
  "set_state s p st = s\<lparr>fstate := (fstate s)(p \<mapsto> st)\<rparr>"

definition run_swapIn :: "'cb scheduler \<Rightarrow> nat \<Rightarrow> fiber_error + 'cb scheduler" where
  "run_swapIn s p =
     bindE (SYLAR_ASSERT (fstate s p \<noteq> Some Fiber_EXEC) ''m_state != EXEC'') (\<lambda>_.
     Inr (set_state s p Fiber_EXEC))"

text \<open>Before a callback runs: the thread's cached fiber is reset, or a new one made at \<open>fresh\<close>.\<close>

definition run_prepare_cb ::
    "'cb scheduler \<Rightarrow> nat option \<Rightarrow> nat \<Rightarrow> fiber_error + nat \<times> 'cb scheduler" where
  "run_prepare_cb s cb_fiber fresh =
     (case cb_fiber of
        Some q \<Rightarrow>
          bindE (SYLAR_ASSERT (fstate s q \<in> {Some Fiber_TERM, Some Fiber_EXCEPT, Some Fiber_INIT})
                   ''m_state == TERM || m_state == EXCEPT || m_state == INIT'') (\<lambda>_.
          Inr (q, set_state s q Fiber_INIT))
      | None \<Rightarrow> Inr (fresh, set_state s fresh Fiber_INIT))"

definition run_leave_active :: "'cb scheduler \<Rightarrow> 'cb scheduler" where
  "run_leave_active s = s\<lparr>m_activeThreadCount := m_activeThreadCount s - 1\<rparr>"

text \<open>After a fiber of the queue came back.\<close>

definition run_after_fiber :: "'cb scheduler \<Rightarrow> nat \<Rightarrow> 'cb scheduler" where
  "run_after_fiber s p =
     (if fstate s p = Some Fiber_READY then Scheduler_schedule s (FiberAndThread_fiber (Some p) (- 1))
      else if fstate s p \<noteq> Some Fiber_TERM \<and> fstate s p \<noteq> Some Fiber_EXCEPT
      then set_state s p Fiber_HOLD else s)"

text \<open>
  After the fiber of a callback came back: it is put into the queue, kept for the next callback, or
  let go. \<open>shared\<close> says whether somebody else owns it (an event or a timer that will resume it); if
  not, letting it go runs the destructor, whose assertion is the last one below.
\<close>

definition run_after_cb ::
    "'cb scheduler \<Rightarrow> nat \<Rightarrow> bool \<Rightarrow> fiber_error + nat option \<times> 'cb scheduler" where
  "run_after_cb s q shared =
     (if fstate s q = Some Fiber_READY then
        Inr (None, Scheduler_schedule s (FiberAndThread_fiber (Some q) (- 1)))
      else if fstate s q = Some Fiber_EXCEPT \<or> fstate s q = Some Fiber_TERM then
        Inr (Some q, set_state s q Fiber_INIT)
      else
        let s = set_state s q Fiber_HOLD in
        bindE (SYLAR_ASSERT (shared \<or> fstate s q \<in> {Some Fiber_TERM, Some Fiber_EXCEPT, Some Fiber_INIT})
                 ''m_state == TERM || m_state == EXCEPT || m_state == INIT'') (\<lambda>_.
        Inr (None, s)))"

definition run_enter_idle :: "'cb scheduler \<Rightarrow> 'cb scheduler" where
  "run_enter_idle s = s\<lparr>m_idleThreadCount := m_idleThreadCount s + 1\<rparr>"

definition run_leave_idle :: "'cb scheduler \<Rightarrow> 'cb scheduler" where
  "run_leave_idle s = s\<lparr>m_idleThreadCount := m_idleThreadCount s - 1\<rparr>"

section \<open>The queue\<close>

text \<open>\<open>runnable st tid it\<close>: the task may run on thread \<open>tid\<close> now.\<close>

definition runnable :: "(nat \<Rightarrow> State option) \<Rightarrow> int \<Rightarrow> 'cb FiberAndThread \<Rightarrow> bool" where
  "runnable st tid it \<longleftrightarrow> (thread it = - 1 \<or> thread it = tid) \<and>
     \<not> (case fiber it of Some p \<Rightarrow> st p = Some Fiber_EXEC | None \<Rightarrow> False)"

definition wellformed_task :: "'cb FiberAndThread \<Rightarrow> bool" where
  "wellformed_task it \<longleftrightarrow> fiber it \<noteq> None \<or> cb it \<noteq> None"

lemma pick_loop_correct:
  assumes "\<forall>it \<in> set its. wellformed_task it"
  shows "(if \<exists>it \<in> set its. runnable st tid it
          then \<exists>pre it post b. its = pre @ it # post \<and> (\<forall>x \<in> set pre. \<not> runnable st tid x) \<and>
                 runnable st tid it \<and> pick_loop st tid its t = Inr (Some it, pre @ post, b)
          else \<exists>b. pick_loop st tid its t = Inr (None, its, b))"
  using assms
proof (induction its arbitrary: t)
  case Nil
  then show ?case by simp
next
  case (Cons it its)
  show ?case
  proof (cases "runnable st tid it")
    case True
    then have "pick_loop st tid (it # its) t = Inr (Some it, [] @ its, t \<or> its \<noteq> [])"
      using Cons.prems by (auto simp: runnable_def wellformed_task_def SYLAR_ASSERT_def)
    then show ?thesis using True by (simp del: pick_loop.simps) (metis append_Nil empty_iff empty_set)
  next
    case False
    then have step: "pick_loop st tid (it # its) t =
        bindE (pick_loop st tid its (t \<or> (thread it \<noteq> - 1 \<and> thread it \<noteq> tid)))
          (\<lambda>(ft, rest, b). Inr (ft, it # rest, b))"
      using Cons.prems by (auto simp: runnable_def wellformed_task_def SYLAR_ASSERT_def)
    note IH = Cons.IH [of "t \<or> (thread it \<noteq> - 1 \<and> thread it \<noteq> tid)"]
    show ?thesis
    proof (cases "\<exists>x \<in> set its. runnable st tid x")
      case True
      then obtain pre x post b where "its = pre @ x # post" "\<forall>y \<in> set pre. \<not> runnable st tid y"
          "runnable st tid x" "pick_loop st tid its (t \<or> (thread it \<noteq> - 1 \<and> thread it \<noteq> tid)) =
             Inr (Some x, pre @ post, b)"
        using IH Cons.prems by auto
      then show ?thesis
        using step False True
        by (simp del: pick_loop.simps)
          (rule exI [of _ "it # pre"], auto)
    next
      case none: False
      then show ?thesis
        using IH Cons.prems step False by (auto simp del: pick_loop.simps)
    qed
  qed
qed

lemma schedule_queue:
  "m_fibers (Scheduler_schedule s ft) =
     (if wellformed_task ft then m_fibers s @ [ft] else m_fibers s)"
  "m_tickles (Scheduler_schedule s ft) = (if m_fibers s = [] then m_tickles s + 1 else m_tickles s)"
  "fstate (Scheduler_schedule s ft) = fstate s"
  "m_activeThreadCount (Scheduler_schedule s ft) = m_activeThreadCount s"
  "m_idleThreadCount (Scheduler_schedule s ft) = m_idleThreadCount s"
  "m_stopping (Scheduler_schedule s ft) = m_stopping s"
  "m_autoStop (Scheduler_schedule s ft) = m_autoStop s"
  by (simp_all add: Scheduler_schedule_def Scheduler_schedulerNoLock_def Scheduler_tickle_def
      wellformed_task_def)

lemma schedule_loop_queue:
  "snd (schedule_loop fts b s) = s\<lparr>m_fibers := m_fibers s @ filter wellformed_task fts\<rparr> \<and>
   (fst (schedule_loop fts b s) \<longleftrightarrow> b \<or> (fts \<noteq> [] \<and> m_fibers s = []))"
  by (induction fts arbitrary: b s)
    (auto simp: Scheduler_schedulerNoLock_def wellformed_task_def split: prod.splits)

section \<open>The thread pool\<close>

text \<open>
  Where a thread stands in \<open>run\<close>; \<open>idle_term\<close> says that its idle fiber has ended. The \<^typ>\<open>nat option\<close> is the thread's \<open>cb_fiber\<close>; for a thread that
  executes a callback (flag \<^const>\<open>True\<close>) it is the executed fiber itself.
\<close>

datatype 'cb phase =
    Loop "nat option"
  | Taken_fiber nat "nat option"
  | Taken_cb 'cb "nat option"
  | Exec nat "nat option" bool
  | Left nat "nat option" bool
  | After nat "nat option" bool
  | Idling "nat option"
  | Finished

record 'cb pool =
  sch :: "'cb scheduler"
  ph :: "int \<Rightarrow> 'cb phase"
  idle_term :: "int \<Rightarrow> bool"

fun busy :: "'cb phase \<Rightarrow> bool" where
  "busy (Taken_fiber p c) = True"
| "busy (Taken_cb f c) = True"
| "busy (Exec p c k) = True"
| "busy (Left p c k) = True"
| "busy _ = False"

fun cached :: "'cb phase \<Rightarrow> nat set" where
  "cached (Loop c) = set_option c"
| "cached (Taken_fiber p c) = set_option c"
| "cached (Taken_cb f c) = set_option c"
| "cached (Exec p c k) = set_option c"
| "cached (Left p c k) = set_option c"
| "cached (After p c k) = set_option c"
| "cached (Idling c) = set_option c"
| "cached Finished = {}"

fun current :: "'cb phase \<Rightarrow> nat set" where
  "current (Taken_fiber p c) = {p}"
| "current (Exec p c k) = {p}"
| "current (Left p c k) = {p}"
| "current (After p c k) = {p}"
| "current _ = {}"

abbreviation owned :: "'cb phase \<Rightarrow> nat set" where
  "owned f \<equiv> cached f \<union> current f"

definition queued :: "'cb scheduler \<Rightarrow> nat list" where
  "queued s = List.map_filter fiber (m_fibers s)"

definition set_phase :: "'cb pool \<Rightarrow> int \<Rightarrow> 'cb phase \<Rightarrow> 'cb scheduler \<Rightarrow> 'cb pool" where
  "set_phase w tid f s = w\<lparr>sch := s, ph := (ph w)(tid := f)\<rparr>"

text \<open>
  The rest of the program may schedule a callback at any time. It may schedule a fiber that exists,
  is not queued yet, is not kept by a thread for its next callback, and, if a thread has it, is one
  that thread executes and that has not declared itself ready or finished.
\<close>

definition may_schedule :: "'cb pool \<Rightarrow> nat \<Rightarrow> bool" where
  "may_schedule w q \<longleftrightarrow> fstate (sch w) q \<noteq> None \<and> q \<notin> set (queued (sch w)) \<and>
     (\<forall>tid. q \<in> owned (ph w tid) \<longrightarrow>
        q \<notin> cached (ph w tid) \<and> (\<forall>c. ph w tid \<noteq> Taken_fiber q c) \<and>
        fstate (sch w) q = Some Fiber_EXEC)"

text \<open>The steps; \<open>tids\<close> are the threads of the pool.\<close>

inductive pool_step :: "int set \<Rightarrow> 'cb pool \<Rightarrow> 'cb pool \<Rightarrow> bool" for tids where
  take_fiber:
    "tid \<in> tids \<Longrightarrow> ph w tid = Loop c \<Longrightarrow> run_take (sch w) tid = Inr (Some ft, s) \<Longrightarrow>
     run_dispatch s ft = Do_fiber p \<Longrightarrow> pool_step tids w (set_phase w tid (Taken_fiber p c) s)"
| take_cb:
    "tid \<in> tids \<Longrightarrow> ph w tid = Loop c \<Longrightarrow> run_take (sch w) tid = Inr (Some ft, s) \<Longrightarrow>
     run_dispatch s ft = Do_cb f \<Longrightarrow> pool_step tids w (set_phase w tid (Taken_cb f c) s)"
| take_dead:
    "tid \<in> tids \<Longrightarrow> ph w tid = Loop c \<Longrightarrow> run_take (sch w) tid = Inr (Some ft, s) \<Longrightarrow>
     run_dispatch s ft = Do_nothing \<Longrightarrow>
     pool_step tids w (set_phase w tid (Loop c) (run_leave_active s))"
| go_idle:
    "tid \<in> tids \<Longrightarrow> ph w tid = Loop c \<Longrightarrow> run_take (sch w) tid = Inr (None, s) \<Longrightarrow>
     \<not> idle_term w tid \<Longrightarrow> pool_step tids w (set_phase w tid (Idling c) (run_enter_idle s))"
| exit_loop:
    "tid \<in> tids \<Longrightarrow> ph w tid = Loop c \<Longrightarrow> run_take (sch w) tid = Inr (None, s) \<Longrightarrow>
     idle_term w tid \<Longrightarrow> pool_step tids w (set_phase w tid Finished s)"
| wake:
    "tid \<in> tids \<Longrightarrow> ph w tid = Idling c \<Longrightarrow>
     pool_step tids w (set_phase w tid (Loop c) (run_leave_idle (sch w)))"
| idle_ends:
    "tid \<in> tids \<Longrightarrow> ph w tid = Idling c \<Longrightarrow> Scheduler_stopping (sch w) \<Longrightarrow>
     pool_step tids w ((set_phase w tid (Loop c) (run_leave_idle (sch w)))
       \<lparr>idle_term := (idle_term w)(tid := True)\<rparr>)"
| resume:
    "tid \<in> tids \<Longrightarrow> ph w tid = Taken_fiber p c \<Longrightarrow> run_swapIn (sch w) p = Inr s \<Longrightarrow>
     pool_step tids w (set_phase w tid (Exec p c False) s)"
| start_cb:
    "tid \<in> tids \<Longrightarrow> ph w tid = Taken_cb f c \<Longrightarrow> fstate (sch w) fresh = None \<Longrightarrow>
     run_prepare_cb (sch w) c fresh = Inr (q, s) \<Longrightarrow> run_swapIn s q = Inr s' \<Longrightarrow>
     pool_step tids w (set_phase w tid (Exec q None True) s')"
| leave:
    "tid \<in> tids \<Longrightarrow> ph w tid = Exec p c k \<Longrightarrow> p \<notin> set (queued (sch w)) \<or> l = Yield_hold \<Longrightarrow>
     pool_step tids w (set_phase w tid (Left p c k) (set_state (sch w) p (left_state l)))"
| inactive:
    "tid \<in> tids \<Longrightarrow> ph w tid = Left p c k \<Longrightarrow>
     pool_step tids w (set_phase w tid (After p c k) (run_leave_active (sch w)))"
| after_fiber:
    "tid \<in> tids \<Longrightarrow> ph w tid = After p c False \<Longrightarrow>
     pool_step tids w (set_phase w tid (Loop c) (run_after_fiber (sch w) p))"
| after_cb:
    "tid \<in> tids \<Longrightarrow> ph w tid = After q None True \<Longrightarrow> run_after_cb (sch w) q shared = Inr (c, s) \<Longrightarrow>
     pool_step tids w (set_phase w tid (Loop c) s)"
| env_cb:
    "pool_step tids w (w\<lparr>sch := Scheduler_schedule (sch w) (FiberAndThread_cb (Some f) thr)\<rparr>)"
| env_fiber:
    "may_schedule w q \<Longrightarrow>
     pool_step tids w (w\<lparr>sch := Scheduler_schedule (sch w) (FiberAndThread_fiber (Some q) thr)\<rparr>)"
| env_new:
    "fstate (sch w) q = None \<Longrightarrow> pool_step tids w (w\<lparr>sch := set_state (sch w) q Fiber_INIT\<rparr>)"

section \<open>Invariant of the pool\<close>

fun phase_ok :: "'cb scheduler \<Rightarrow> 'cb phase \<Rightarrow> bool" where
  "phase_ok s (Taken_fiber p c) =
     (p \<notin> set (queued s) \<and> fstate s p \<noteq> Some Fiber_EXEC \<and> fstate s p \<noteq> None)"
| "phase_ok s (Exec p c k) = (fstate s p = Some Fiber_EXEC \<and> (k \<longrightarrow> c = None))"
| "phase_ok s (Left p c k) =
     ((fstate s p = Some Fiber_EXEC \<or> p \<notin> set (queued s)) \<and> fstate s p \<noteq> None \<and> (k \<longrightarrow> c = None))"
| "phase_ok s (After p c k) =
     ((fstate s p = Some Fiber_EXEC \<or> p \<notin> set (queued s)) \<and> fstate s p \<noteq> None \<and> (k \<longrightarrow> c = None))"
| "phase_ok s _ = True"

definition counts_ok :: "int set \<Rightarrow> 'cb pool \<Rightarrow> bool" where
  "counts_ok tids w \<longleftrightarrow> m_activeThreadCount (sch w) = card {tid \<in> tids. busy (ph w tid)} \<and>
     m_idleThreadCount (sch w) = card {tid \<in> tids. \<exists>c. ph w tid = Idling c}"

definition queue_ok :: "'cb scheduler \<Rightarrow> bool" where
  "queue_ok s \<longleftrightarrow> distinct (queued s) \<and> (\<forall>p \<in> set (queued s). fstate s p \<noteq> None) \<and>
     (\<forall>it \<in> set (m_fibers s). wellformed_task it)"

definition owners_ok :: "'cb pool \<Rightarrow> bool" where
  "owners_ok w \<longleftrightarrow>
     (\<forall>t1 t2. t1 \<noteq> t2 \<longrightarrow> owned (ph w t1) \<inter> owned (ph w t2) = {}) \<and>
     (\<forall>t. phase_ok (sch w) (ph w t) \<and> cached (ph w t) \<inter> current (ph w t) = {} \<and>
        (\<forall>q \<in> cached (ph w t). q \<notin> set (queued (sch w)) \<and> fstate (sch w) q = Some Fiber_INIT))"

definition pool_inv :: "int set \<Rightarrow> 'cb pool \<Rightarrow> bool" where
  "pool_inv tids w \<longleftrightarrow> finite tids \<and> counts_ok tids w \<and> queue_ok (sch w) \<and> owners_ok w"

lemma card_phase:
  assumes "finite tids" and "tid \<in> tids"
  shows "card {t \<in> tids. P ((f(tid := x)) t)} + (if P (f tid) then 1 else 0) =
         card {t \<in> tids. P (f t)} + (if P x then 1 else 0)"
proof -
  let ?A = "{t \<in> tids - {tid}. P (f t)}"
  have "{t \<in> tids. P ((f(tid := x)) t)} = (if P x then insert tid ?A else ?A)"
    and "{t \<in> tids. P (f t)} = (if P (f tid) then insert tid ?A else ?A)"
    using assms(2) by auto
  then show ?thesis using assms(1) by simp
qed

lemma counts_ok_set_phase:
  assumes "finite tids" and "tid \<in> tids" and "counts_ok tids w"
    and "m_activeThreadCount s + (if busy (ph w tid) then 1 else 0) =
         m_activeThreadCount (sch w) + (if busy f then 1 else 0)"
    and "m_idleThreadCount s + (if \<exists>c. ph w tid = Idling c then 1 else 0) =
         m_idleThreadCount (sch w) + (if \<exists>c. f = Idling c then 1 else 0)"
  shows "counts_ok tids (set_phase w tid f s)"
  using card_phase [OF assms(1,2), of busy "ph w" f]
    card_phase [OF assms(1,2), of "\<lambda>x. \<exists>c. x = Idling c" "ph w" f] assms(3-5)
  by (simp add: counts_ok_def set_phase_def)

lemma queued_append: "List.map_filter fiber (xs @ ys) = List.map_filter fiber xs @ List.map_filter fiber ys"
  by (simp add: map_filter_def)

lemma queued_schedule:
  "wellformed_task ft \<Longrightarrow>
     queued (Scheduler_schedule s ft) = queued s @ (case fiber ft of None \<Rightarrow> [] | Some p \<Rightarrow> [p])"
  by (simp add: queued_def schedule_queue queued_append map_filter_def split: option.splits)

lemma run_take_Some:
  assumes "run_take s tid = Inr (Some ft, s')" and "queue_ok s"
  shows "\<exists>pre post. m_fibers s = pre @ ft # post \<and> m_fibers s' = pre @ post" and "runnable (fstate s) tid ft"
    and "m_activeThreadCount s' = m_activeThreadCount s + 1"
    and "m_idleThreadCount s' = m_idleThreadCount s" and "fstate s' = fstate s"
proof -
  have wf: "\<forall>it \<in> set (m_fibers s). wellformed_task it" using assms(2) by (simp add: queue_ok_def)
  obtain rest b where pick: "pick_loop (fstate s) tid (m_fibers s) False = Inr (Some ft, rest, b)"
      and s': "m_fibers s' = rest" "m_activeThreadCount s' = m_activeThreadCount s + 1"
        "m_idleThreadCount s' = m_idleThreadCount s" "fstate s' = fstate s"
    using assms(1) by (auto simp: run_take_def bindE_eq_Inr Let_def Scheduler_tickle_def)
  have "\<exists>pre post. m_fibers s = pre @ ft # post \<and> rest = pre @ post \<and> runnable (fstate s) tid ft"
    using pick_loop_correct [OF wf, of "fstate s" tid False] unfolding pick by (auto split: if_splits)
  then show "\<exists>pre post. m_fibers s = pre @ ft # post \<and> m_fibers s' = pre @ post"
    and "runnable (fstate s) tid ft"
    using s' by auto
  show "m_activeThreadCount s' = m_activeThreadCount s + 1"
    "m_idleThreadCount s' = m_idleThreadCount s" "fstate s' = fstate s"
    using s' by simp_all
qed

lemma run_take_None:
  assumes "run_take s tid = Inr (None, s')"
  shows "m_fibers s' = m_fibers s" and "m_activeThreadCount s' = m_activeThreadCount s"
    and "m_idleThreadCount s' = m_idleThreadCount s" and "fstate s' = fstate s"
  using assms
  by (auto simp: run_take_def bindE_eq_Inr Let_def Scheduler_tickle_def split: if_splits option.splits)

lemma take_queue:
  assumes "run_take s tid = Inr (Some ft, s')" and "queue_ok s"
  shows "queue_ok s'" and "set (queued s') \<subseteq> set (queued s)"
    and "fiber ft = Some p \<Longrightarrow> p \<in> set (queued s) \<and> p \<notin> set (queued s') \<and>
           fstate s p \<noteq> Some Fiber_EXEC \<and> fstate s p \<noteq> None"
proof -
  obtain pre post where q: "m_fibers s = pre @ ft # post" "m_fibers s' = pre @ post"
    using run_take_Some(1) [OF assms] by blast
  have st: "fstate s' = fstate s" "runnable (fstate s) tid ft"
    using run_take_Some [OF assms] by simp_all
  have ft: "queued s = List.map_filter fiber pre @ (case fiber ft of None \<Rightarrow> [] | Some p \<Rightarrow> [p]) @
      List.map_filter fiber post" "queued s' = List.map_filter fiber pre @ List.map_filter fiber post"
    using q by (simp_all add: queued_def queued_append map_filter_def split: option.splits)
  show "queue_ok s'" "set (queued s') \<subseteq> set (queued s)"
    using assms(2) ft q st by (auto simp: queue_ok_def split: option.splits)
  show "p \<in> set (queued s) \<and> p \<notin> set (queued s') \<and> fstate s p \<noteq> Some Fiber_EXEC \<and> fstate s p \<noteq> None"
    if "fiber ft = Some p"
    using assms(2) ft st that by (auto simp: queue_ok_def runnable_def)
qed

lemma phase_ok_mono:
  assumes "phase_ok s f"
    and "\<And>q. q \<in> current f \<Longrightarrow> fstate s' q = fstate s q \<and> (q \<in> set (queued s') \<longrightarrow> q \<in> set (queued s))"
  shows "phase_ok s' f"
  using assms by (cases f) auto

lemma owners_okD:
  assumes "owners_ok w"
  shows "phase_ok (sch w) (ph w t)" and "cached (ph w t) \<inter> current (ph w t) = {}"
    and "q \<in> cached (ph w t) \<Longrightarrow> q \<notin> set (queued (sch w))"
    and "q \<in> cached (ph w t) \<Longrightarrow> fstate (sch w) q = Some Fiber_INIT"
  using assms by (simp_all add: owners_ok_def)

lemma owners_ok_set_phase:
  assumes "owners_ok w"
    and "phase_ok s f" and "cached f \<inter> current f = {}"
    and "\<And>q. q \<in> cached f \<Longrightarrow> q \<notin> set (queued s) \<and> fstate s q = Some Fiber_INIT"
    and "\<And>t q. t \<noteq> tid \<Longrightarrow> q \<in> owned (ph w t) \<Longrightarrow>
           q \<notin> owned f \<and> fstate s q = fstate (sch w) q \<and>
           (q \<in> set (queued s) \<longrightarrow> q \<in> set (queued (sch w)))"
  shows "owners_ok (set_phase w tid f s)"
proof -
  have "phase_ok s (ph w t)" if "t \<noteq> tid" for t
    by (rule phase_ok_mono [OF owners_okD(1) [OF assms(1)]]) (use assms(5) [OF that] in blast)
  moreover have "phase_ok s f \<and> cached f \<inter> current f = {} \<and>
      (\<forall>q \<in> cached f. q \<notin> set (queued s) \<and> fstate s q = Some Fiber_INIT)"
    using assms(2-4) by blast
  moreover have "cached (ph w t) \<inter> current (ph w t) = {} \<and>
      (\<forall>q \<in> cached (ph w t). q \<notin> set (queued s) \<and> fstate s q = Some Fiber_INIT)" if "t \<noteq> tid" for t
    using owners_okD [OF assms(1), where t = t] assms(5) [OF that] by auto
  moreover have "owned f \<inter> owned (ph w t) = {}" if "t \<noteq> tid" for t using assms(5) [OF that] by blast
  moreover have "owned (ph w t1) \<inter> owned (ph w t2) = {}" if "t1 \<noteq> t2" for t1 t2
    using assms(1) that by (simp add: owners_ok_def)
  ultimately show ?thesis
    unfolding owners_ok_def set_phase_def by (simp add: Int_commute)
qed

lemma owned_not_queued:
  assumes "owners_ok w" and "q \<in> set (queued (sch w))" and "fstate (sch w) q \<noteq> Some Fiber_EXEC"
  shows "q \<notin> owned (ph w t)"
  using owners_okD [OF assms(1), where t = t] assms(2,3) by (cases "ph w t") auto

lemma owned_exists:
  assumes "owners_ok w" and "q \<in> owned (ph w t)"
  shows "fstate (sch w) q \<noteq> None"
  using owners_okD [OF assms(1), where t = t] assms(2) by (cases "ph w t") auto

lemma owned_unique: "owners_ok w \<Longrightarrow> q \<in> owned (ph w t) \<Longrightarrow> q \<in> owned (ph w t') \<Longrightarrow> t = t'"
  unfolding owners_ok_def by blast

lemma pool_invD:
  assumes "pool_inv tids w"
  shows "finite tids" and "counts_ok tids w" and "queue_ok (sch w)" and "owners_ok w"
  using assms by (simp_all add: pool_inv_def)

lemma pool_inv_set_phase:
  assumes "pool_inv tids w" and "tid \<in> tids" and "queue_ok s"
    and "m_activeThreadCount s + (if busy (ph w tid) then 1 else 0) =
         m_activeThreadCount (sch w) + (if busy f then 1 else 0)"
    and "m_idleThreadCount s + (if \<exists>c. ph w tid = Idling c then 1 else 0) =
         m_idleThreadCount (sch w) + (if \<exists>c. f = Idling c then 1 else 0)"
    and "phase_ok s f" and "cached f \<inter> current f = {}"
    and "\<And>q. q \<in> cached f \<Longrightarrow> q \<notin> set (queued s) \<and> fstate s q = Some Fiber_INIT"
    and "\<And>t q. t \<noteq> tid \<Longrightarrow> q \<in> owned (ph w t) \<Longrightarrow> q \<notin> owned (ph w tid) \<Longrightarrow>
           q \<notin> owned f \<and> fstate s q = fstate (sch w) q \<and>
           (q \<in> set (queued s) \<longrightarrow> q \<in> set (queued (sch w)))"
  shows "pool_inv tids (set_phase w tid f s)"
proof -
  note inv = pool_invD [OF assms(1)]
  have "owners_ok (set_phase w tid f s)"
    using assms(6-9) owned_unique [OF inv(4)] by (intro owners_ok_set_phase [OF inv(4)]) blast+
  moreover have "counts_ok tids (set_phase w tid f s)"
    using counts_ok_set_phase [OF inv(1) assms(2) inv(2) assms(4,5)] .
  ultimately show ?thesis using inv(1) assms(3) by (simp add: pool_inv_def set_phase_def)
qed

lemma pool_busy_pos:
  assumes "pool_inv tids w" and "tid \<in> tids" and "busy (ph w tid)"
  shows "0 < m_activeThreadCount (sch w)"
proof -
  have "finite {t \<in> tids. busy (ph w t)}" using pool_invD(1) [OF assms(1)] by simp
  then show ?thesis
    using pool_invD(2) [OF assms(1)] assms(2,3) by (auto simp: counts_ok_def card_gt_0_iff)
qed

lemma pool_idle_pos:
  assumes "pool_inv tids w" and "tid \<in> tids" and "ph w tid = Idling c"
  shows "0 < m_idleThreadCount (sch w)"
proof -
  have "finite {t \<in> tids. \<exists>c. ph w t = Idling c}" using pool_invD(1) [OF assms(1)] by simp
  then show ?thesis
    using pool_invD(2) [OF assms(1)] assms(2,3) by (auto simp: counts_ok_def card_gt_0_iff)
qed

lemma dispatch_fiber: "run_dispatch s ft = Do_fiber p \<Longrightarrow> fiber ft = Some p"
  by (auto simp: run_dispatch_def split: option.splits if_splits)

lemma set_state_fields [simp]:
  "m_fibers (set_state s p st) = m_fibers s" "queued (set_state s p st) = queued s"
  "fstate (set_state s p st) = (fstate s)(p \<mapsto> st)"
  "m_activeThreadCount (set_state s p st) = m_activeThreadCount s"
  "m_idleThreadCount (set_state s p st) = m_idleThreadCount s"
  by (simp_all add: set_state_def queued_def)

lemma queue_ok_set_state: "queue_ok s \<Longrightarrow> queue_ok (set_state s p st)"
  by (simp add: queue_ok_def)

lemma count_fields [simp]:
  "queued (run_leave_active s) = queued s" "fstate (run_leave_active s) = fstate s"
  "queued (run_leave_idle s) = queued s" "fstate (run_leave_idle s) = fstate s"
  "queued (run_enter_idle s) = queued s" "fstate (run_enter_idle s) = fstate s"
  "queue_ok (run_leave_active s) = queue_ok s" "queue_ok (run_leave_idle s) = queue_ok s"
  "queue_ok (run_enter_idle s) = queue_ok s"
  "m_activeThreadCount (run_leave_active s) = m_activeThreadCount s - 1"
  "m_idleThreadCount (run_leave_active s) = m_idleThreadCount s"
  "m_activeThreadCount (run_leave_idle s) = m_activeThreadCount s"
  "m_idleThreadCount (run_leave_idle s) = m_idleThreadCount s - 1"
  "m_activeThreadCount (run_enter_idle s) = m_activeThreadCount s"
  "m_idleThreadCount (run_enter_idle s) = m_idleThreadCount s + 1"
  by (simp_all add: run_leave_active_def run_leave_idle_def run_enter_idle_def queue_ok_def queued_def)

lemma pool_inv_take:
  assumes "pool_inv tids w" and "tid \<in> tids" and "ph w tid = Loop c"
    and "run_take (sch w) tid = Inr (Some ft, s)"
  shows "run_dispatch s ft = Do_fiber p \<Longrightarrow> pool_inv tids (set_phase w tid (Taken_fiber p c) s)"
    and "pool_inv tids (set_phase w tid (Taken_cb f c) s)"
    and "pool_inv tids (set_phase w tid (Loop c) (run_leave_active s))"
proof -
  note inv = pool_invD [OF assms(1)]
  note take = run_take_Some [OF assms(4) inv(3)] and queue = take_queue [OF assms(4) inv(3)]
  have c: "q \<notin> set (queued (sch w))" "fstate (sch w) q = Some Fiber_INIT" if "q \<in> set_option c" for q
    using owners_okD(3,4) [OF inv(4), of q tid] assms(3) that by simp_all
  show "pool_inv tids (set_phase w tid (Taken_cb f c) s)"
    using assms(3) take queue c by (intro pool_inv_set_phase [OF assms(1,2)]) auto
  show "pool_inv tids (set_phase w tid (Loop c) (run_leave_active s))"
    using assms(3) take queue c
    by (intro pool_inv_set_phase [OF assms(1,2)]) auto
  show "pool_inv tids (set_phase w tid (Taken_fiber p c) s)" if "run_dispatch s ft = Do_fiber p"
  proof -
    have p: "p \<in> set (queued (sch w))" "p \<notin> set (queued s)" "fstate (sch w) p \<noteq> Some Fiber_EXEC"
        "fstate (sch w) p \<noteq> None"
      using queue(3) dispatch_fiber [OF that] by auto
    show ?thesis
      using assms(3) take queue(1,2) c p owned_not_queued [OF inv(4) p(1,3)]
      by (intro pool_inv_set_phase [OF assms(1,2)]) auto
  qed
qed

lemma pool_inv_idle:
  assumes "pool_inv tids w" and "tid \<in> tids"
  shows "ph w tid = Loop c \<Longrightarrow> run_take (sch w) tid = Inr (None, s) \<Longrightarrow>
           pool_inv tids (set_phase w tid (Idling c) (run_enter_idle s)) \<and>
           pool_inv tids (set_phase w tid Finished s)"
    and "ph w tid = Idling c \<Longrightarrow> pool_inv tids (set_phase w tid (Loop c) (run_leave_idle (sch w)))"
proof -
  note inv = pool_invD [OF assms(1)]
  have c: "q \<notin> set (queued (sch w))" "fstate (sch w) q = Some Fiber_INIT" if "q \<in> cached (ph w tid)" for q
    using owners_okD(3,4) [OF inv(4) that] by simp_all
  show "pool_inv tids (set_phase w tid (Idling c) (run_enter_idle s)) \<and>
      pool_inv tids (set_phase w tid Finished s)"
    if "ph w tid = Loop c" "run_take (sch w) tid = Inr (None, s)"
  proof -
    have s: "queued s = queued (sch w)" "queue_ok s" "fstate s = fstate (sch w)"
        "m_activeThreadCount s = m_activeThreadCount (sch w)"
        "m_idleThreadCount s = m_idleThreadCount (sch w)"
      using run_take_None [OF that(2)] inv(3) by (simp_all add: queued_def queue_ok_def)
    show ?thesis
      using that(1) s c
      by (intro conjI pool_inv_set_phase [OF assms]) auto
  qed
  show "pool_inv tids (set_phase w tid (Loop c) (run_leave_idle (sch w)))" if "ph w tid = Idling c"
    using that c inv(3) pool_idle_pos [OF assms that]
    by (intro pool_inv_set_phase [OF assms]) auto
qed

lemma pool_inv_resume:
  assumes "pool_inv tids w" and "tid \<in> tids" and "ph w tid = Taken_fiber p c"
    and "run_swapIn (sch w) p = Inr s"
  shows "pool_inv tids (set_phase w tid (Exec p c False) s)"
proof -
  note inv = pool_invD [OF assms(1)]
  have s: "s = set_state (sch w) p Fiber_EXEC"
    using assms(4) by (auto simp: run_swapIn_def SYLAR_ASSERT_def split: if_splits)
  have c: "q \<notin> set (queued (sch w))" "fstate (sch w) q = Some Fiber_INIT" "q \<noteq> p" if "q \<in> set_option c" for q
    using owners_okD [OF inv(4), where t = tid] assms(3) that by auto
  show ?thesis
    using assms(3) c inv(3) unfolding s
    by (intro pool_inv_set_phase [OF assms(1,2)]) (auto simp: queue_ok_set_state)
qed

lemma pool_inv_start_cb:
  assumes "pool_inv tids w" and "tid \<in> tids" and "ph w tid = Taken_cb f c"
    and "fstate (sch w) fresh = None" and "run_prepare_cb (sch w) c fresh = Inr (q, s)"
    and "run_swapIn s q = Inr s'"
  shows "pool_inv tids (set_phase w tid (Exec q None True) s')"
proof -
  note inv = pool_invD [OF assms(1)]
  have q: "c = Some q \<or> q = fresh" and s: "s = set_state (sch w) q Fiber_INIT"
    using assms(5)
    by (auto simp: run_prepare_cb_def SYLAR_ASSERT_def bindE_eq_Inr split: option.splits if_splits)
  have s': "s' = set_state s q Fiber_EXEC"
    using assms(6) by (auto simp: run_swapIn_def SYLAR_ASSERT_def split: if_splits)
  have other: "r \<noteq> q" if "r \<in> owned (ph w t)" "r \<notin> owned (ph w tid)" for t r
    using q owned_exists [OF inv(4) that(1)] assms(3,4) that(2) by auto
  show ?thesis
    using assms(3) inv(3) other unfolding s' s
    by (intro pool_inv_set_phase [OF assms(1,2)]) (auto simp: queue_ok_set_state)
qed

lemma pool_inv_leave:
  assumes "pool_inv tids w" and "tid \<in> tids"
  shows "ph w tid = Exec p c k \<Longrightarrow> p \<notin> set (queued (sch w)) \<or> l = Yield_hold \<Longrightarrow>
           pool_inv tids (set_phase w tid (Left p c k) (set_state (sch w) p (left_state l)))"
    and "ph w tid = Left p c k \<Longrightarrow>
           pool_inv tids (set_phase w tid (After p c k) (run_leave_active (sch w)))"
proof -
  note inv = pool_invD [OF assms(1)]
  note own = owners_okD [OF inv(4), where t = tid]
  show "pool_inv tids (set_phase w tid (Left p c k) (set_state (sch w) p (left_state l)))"
    if "ph w tid = Exec p c k" "p \<notin> set (queued (sch w)) \<or> l = Yield_hold"
    using that own inv(3)
    by (intro pool_inv_set_phase [OF assms]) (auto simp: queue_ok_set_state)
  show "pool_inv tids (set_phase w tid (After p c k) (run_leave_active (sch w)))"
    if "ph w tid = Left p c k"
    using that own inv(3) pool_busy_pos [OF assms]
    by (intro pool_inv_set_phase [OF assms]) auto
qed

lemma queue_ok_schedule:
  "queue_ok s \<Longrightarrow> p \<notin> set (queued s) \<Longrightarrow> fstate s p \<noteq> None \<Longrightarrow>
     queue_ok (Scheduler_schedule s (FiberAndThread_fiber (Some p) thr))"
  using queued_schedule [of "FiberAndThread_fiber (Some p) thr" s]
  by (auto simp: queue_ok_def schedule_queue FiberAndThread_fiber_def wellformed_task_def)

lemma queued_schedule_fiber [simp]:
  "queued (Scheduler_schedule s (FiberAndThread_fiber (Some p) thr)) = queued s @ [p]"
  "queued (Scheduler_schedule s (FiberAndThread_cb (Some f) thr)) = queued s"
  using queued_schedule [of "FiberAndThread_fiber (Some p) thr" s]
    queued_schedule [of "FiberAndThread_cb (Some f) thr" s]
  by (simp_all add: FiberAndThread_fiber_def FiberAndThread_cb_def wellformed_task_def)

lemma pool_inv_after_fiber:
  assumes "pool_inv tids w" and "tid \<in> tids" and "ph w tid = After p c False"
  shows "pool_inv tids (set_phase w tid (Loop c) (run_after_fiber (sch w) p))"
proof -
  note inv = pool_invD [OF assms(1)]
  note own = owners_okD [OF inv(4), where t = tid]
  have p: "fstate (sch w) p = Some Fiber_EXEC \<or> p \<notin> set (queued (sch w))" "fstate (sch w) p \<noteq> None"
    "p \<notin> set_option c"
    using own(1,2) assms(3) by auto
  show ?thesis
  proof (cases "fstate (sch w) p = Some Fiber_READY")
    case True
    then have "p \<notin> set (queued (sch w))" using p by simp
    then show ?thesis
      using True p own assms(3) inv(3) queue_ok_schedule [OF inv(3), of p]
      by (intro pool_inv_set_phase [OF assms(1,2)]) (auto simp: run_after_fiber_def schedule_queue)
  next
    case False
    then show ?thesis
      using p own assms(3) inv(3)
      by (intro pool_inv_set_phase [OF assms(1,2)])
        (auto simp: run_after_fiber_def queue_ok_set_state)
  qed
qed

lemma pool_inv_after_cb:
  assumes "pool_inv tids w" and "tid \<in> tids" and "ph w tid = After q None True"
    and "run_after_cb (sch w) q shared = Inr (c, s)"
  shows "pool_inv tids (set_phase w tid (Loop c) s)"
proof -
  note inv = pool_invD [OF assms(1)]
  have q: "fstate (sch w) q = Some Fiber_EXEC \<or> q \<notin> set (queued (sch w))" "fstate (sch w) q \<noteq> None"
    using owners_okD(1) [OF inv(4), where t = tid] assms(3) by auto
  consider "fstate (sch w) q = Some Fiber_READY" "c = None"
      "s = Scheduler_schedule (sch w) (FiberAndThread_fiber (Some q) (- 1))"
    | "fstate (sch w) q \<noteq> Some Fiber_EXEC" "c = Some q" "s = set_state (sch w) q Fiber_INIT"
    | "c = None" "s = set_state (sch w) q Fiber_HOLD"
    using assms(4) by (auto simp: run_after_cb_def Let_def SYLAR_ASSERT_def bindE_eq_Inr split: if_splits)
  then show ?thesis
  proof cases
    case 1
    then show ?thesis
      using q assms(3) inv(3) queue_ok_schedule [OF inv(3), of q]
      by (intro pool_inv_set_phase [OF assms(1,2)]) (auto simp: schedule_queue)
  next
    case 2
    then show ?thesis
      using q assms(3) inv(3)
      by (intro pool_inv_set_phase [OF assms(1,2)]) (auto simp: queue_ok_set_state)
  next
    case 3
    then show ?thesis
      using q assms(3) inv(3)
      by (intro pool_inv_set_phase [OF assms(1,2)]) (auto simp: queue_ok_set_state)
  qed
qed

lemma counts_ok_sch:
  "m_activeThreadCount s = m_activeThreadCount (sch w) \<Longrightarrow>
   m_idleThreadCount s = m_idleThreadCount (sch w) \<Longrightarrow> counts_ok tids w \<Longrightarrow> counts_ok tids (w\<lparr>sch := s\<rparr>)"
  by (simp add: counts_ok_def)

lemma pool_inv_env_cb:
  assumes "pool_inv tids w"
  shows "pool_inv tids (w\<lparr>sch := Scheduler_schedule (sch w) (FiberAndThread_cb (Some f) thr)\<rparr>)"
proof -
  note inv = pool_invD [OF assms]
  let ?s = "Scheduler_schedule (sch w) (FiberAndThread_cb (Some f) thr)"
  have "phase_ok ?s (ph w t)" for t
    by (rule phase_ok_mono [OF owners_okD(1) [OF inv(4)]]) (simp add: schedule_queue)
  then have "owners_ok (w\<lparr>sch := ?s\<rparr>)" using inv(4) by (simp add: owners_ok_def schedule_queue)
  moreover have "queue_ok ?s"
    using inv(3) by (auto simp: queue_ok_def schedule_queue FiberAndThread_cb_def wellformed_task_def)
      (auto simp: queued_def schedule_queue queued_append map_filter_def wellformed_task_def)
  ultimately show ?thesis
    using inv(1,2) by (simp add: pool_inv_def counts_ok_sch schedule_queue)
qed

lemma pool_inv_env_fiber:
  assumes "pool_inv tids w" and "may_schedule w q"
  shows "pool_inv tids (w\<lparr>sch := Scheduler_schedule (sch w) (FiberAndThread_fiber (Some q) thr)\<rparr>)"
proof -
  note inv = pool_invD [OF assms(1)]
  let ?s = "Scheduler_schedule (sch w) (FiberAndThread_fiber (Some q) thr)"
  have q: "fstate (sch w) q \<noteq> None" "q \<notin> set (queued (sch w))"
    "\<And>t. q \<in> owned (ph w t) \<Longrightarrow> q \<notin> cached (ph w t) \<and> (\<forall>c. ph w t \<noteq> Taken_fiber q c) \<and>
       fstate (sch w) q = Some Fiber_EXEC"
    using assms(2) by (auto simp: may_schedule_def)
  have "phase_ok ?s (ph w t)" for t
    using owners_okD(1) [OF inv(4), of t] q(3) [of t] by (cases "ph w t") (auto simp: schedule_queue)
  moreover have "q \<notin> cached (ph w t)" for t using q(3) [of t] by auto
  ultimately have "owners_ok (w\<lparr>sch := ?s\<rparr>)"
    using inv(4) by (auto simp: owners_ok_def schedule_queue)
  then show ?thesis
    using inv(1,2) queue_ok_schedule [OF inv(3) q(2,1)]
    by (simp add: pool_inv_def counts_ok_sch schedule_queue)
qed

lemma pool_inv_env_new:
  assumes "pool_inv tids w" and "fstate (sch w) q = None"
  shows "pool_inv tids (w\<lparr>sch := set_state (sch w) q Fiber_INIT\<rparr>)"
proof -
  note inv = pool_invD [OF assms(1)]
  have q: "q \<notin> owned (ph w t)" for t using owned_exists [OF inv(4)] assms(2) by blast
  have "phase_ok (set_state (sch w) q Fiber_INIT) (ph w t)" for t
    by (rule phase_ok_mono [OF owners_okD(1) [OF inv(4)]]) (use q [of t] in auto)
  then have "owners_ok (w\<lparr>sch := set_state (sch w) q Fiber_INIT\<rparr>)"
    using inv(4) by (simp add: owners_ok_def)
  then show ?thesis using inv by (simp add: pool_inv_def counts_ok_sch queue_ok_set_state)
qed

lemma pool_step_inv: "pool_step tids w w' \<Longrightarrow> pool_inv tids w \<Longrightarrow> pool_inv tids w'"
proof (induction rule: pool_step.induct)
  case (idle_ends tid w c)
  then have "pool_inv tids (set_phase w tid (Loop c) (run_leave_idle (sch w)))"
    using pool_inv_idle(2) by blast
  then show ?case by (simp add: pool_inv_def counts_ok_def owners_ok_def)
qed (simp_all add: pool_inv_take pool_inv_idle pool_inv_resume pool_inv_start_cb pool_inv_leave
      pool_inv_after_fiber pool_inv_after_cb pool_inv_env_cb pool_inv_env_fiber pool_inv_env_new)

inductive pool_reachable :: "int set \<Rightarrow> 'cb pool \<Rightarrow> bool" for tids where
  pool_start:
    "finite tids \<Longrightarrow> Scheduler_new threads use_caller name root tid other = Inr s \<Longrightarrow>
     pool_reachable tids \<lparr>sch = s, ph = \<lambda>_. Loop None, idle_term = \<lambda>_. False\<rparr>"
| pool_next: "pool_reachable tids w \<Longrightarrow> pool_step tids w w' \<Longrightarrow> pool_reachable tids w'"
| pool_flags:
    "pool_reachable tids w \<Longrightarrow> pool_reachable tids (w\<lparr>sch := (sch w)\<lparr>m_autoStop := a, m_stopping := b\<rparr>\<rparr>)"

lemma pool_reachable_inv: "pool_reachable tids w \<Longrightarrow> pool_inv tids w"
proof (induction rule: pool_reachable.induct)
  case (pool_start threads use_caller name root tid other s)
  then have "m_fibers s = []" "m_activeThreadCount s = 0" "m_idleThreadCount s = 0"
    by (auto simp: Scheduler_new_def SYLAR_ASSERT_def Let_def split: if_splits)
  then show ?case
    using pool_start(1)
    by (simp add: pool_inv_def counts_ok_def queue_ok_def owners_ok_def queued_def map_filter_def)
next
  case (pool_next w w')
  then show ?case using pool_step_inv by blast
next
  case (pool_flags w b a)
  have q: "queued ((sch w)\<lparr>m_autoStop := a, m_stopping := b\<rparr>) = queued (sch w)"
    by (simp add: queued_def)
  have "phase_ok ((sch w)\<lparr>m_autoStop := a, m_stopping := b\<rparr>) f = phase_ok (sch w) f" for f
    by (cases f) (simp_all add: q)
  then show ?case
    using pool_flags.IH by (simp add: pool_inv_def counts_ok_def queue_ok_def owners_ok_def q)
qed

section \<open>The interface of the task producers\<close>

text \<open>
  What the event loop, the timers and the hooked calls rely on when they hand work to a scheduler:
  tasks are kept in the order in which they were submitted, none is lost, and empty ones vanish.
\<close>

locale task_sink =
  fixes tasks :: "'s \<Rightarrow> 't list"
    and submit :: "'s \<Rightarrow> 't \<Rightarrow> 's"
    and valid :: "'t \<Rightarrow> bool"
  assumes submit_valid: "valid t \<Longrightarrow> tasks (submit s t) = tasks s @ [t]"
    and submit_invalid: "\<not> valid t \<Longrightarrow> tasks (submit s t) = tasks s"
begin

lemma submit_tasks: "tasks (submit s t) = tasks s @ filter valid [t]"
  using submit_valid submit_invalid by simp

lemma submit_all: "tasks (fold (\<lambda>t s. submit s t) ts s) = tasks s @ filter valid ts"
  by (induction ts arbitrary: s) (simp_all add: submit_tasks)

end

interpretation sq: task_sink m_fibers Scheduler_schedule wellformed_task
  by unfold_locales (simp_all add: schedule_queue)

lemma schedule_range_queue:
  "m_fibers (Scheduler_schedule_range s fts) = m_fibers s @ filter wellformed_task fts"
  "m_tickles (Scheduler_schedule_range s fts) =
     m_tickles s + (if fts \<noteq> [] \<and> m_fibers s = [] then 1 else 0)"
  "fstate (Scheduler_schedule_range s fts) = fstate s"
proof -
  obtain b s' where r: "schedule_loop fts False s = (b, s')" by (cases "schedule_loop fts False s")
  then have "s' = s\<lparr>m_fibers := m_fibers s @ filter wellformed_task fts\<rparr>"
      "b \<longleftrightarrow> fts \<noteq> [] \<and> m_fibers s = []"
    using schedule_loop_queue [of fts False s] by simp_all
  then show "m_fibers (Scheduler_schedule_range s fts) = m_fibers s @ filter wellformed_task fts"
    "m_tickles (Scheduler_schedule_range s fts) =
       m_tickles s + (if fts \<noteq> [] \<and> m_fibers s = [] then 1 else 0)"
    "fstate (Scheduler_schedule_range s fts) = fstate s"
    using r by (simp_all add: Scheduler_schedule_range_def Scheduler_tickle_def)
qed

section \<open>Properties\<close>


definition example_pool :: "string pool" where
  "example_pool =
     \<lparr>sch = \<lparr>m_name = ''main'', m_fibers = [], m_rootFiber = None, m_threads = 0, m_threadIds = [],
        m_threadCount = 2, m_activeThreadCount = 0, m_idleThreadCount = 0, m_stopping = True,
        m_autoStop = False, m_rootThread = - 1, m_tickles = 0, fstate = Map.empty\<rparr>,
      ph = \<lambda>_. Loop None, idle_term = \<lambda>_. False\<rparr>"

lemma example_pool_reachable: "pool_reachable {1, 2} example_pool"
  unfolding example_pool_def
  by (rule pool_start [where threads = 2 and use_caller = False and name = "''main''"])
    (simp_all add: Scheduler_new_def SYLAR_ASSERT_def)




text \<open>
  The queue is served in order: a thread takes the first task that is bound to it or to no
  thread and whose fiber is not executing, leaves all others in place, and takes nothing only if
  there is no such task; scheduling appends at the end and drops only empty tasks.
\<close>

theorem Scheduler_queue_fifo:
  assumes "\<forall>it \<in> set (m_fibers s). wellformed_task it"
  shows "\<exists>r s'. run_take s tid = Inr (r, s') \<and>
           (case r of
              None \<Rightarrow> (\<forall>it \<in> set (m_fibers s). \<not> runnable (fstate s) tid it) \<and> m_fibers s' = m_fibers s
            | Some ft \<Rightarrow> \<exists>pre post. m_fibers s = pre @ ft # post \<and> m_fibers s' = pre @ post \<and>
                runnable (fstate s) tid ft \<and> (\<forall>it \<in> set pre. \<not> runnable (fstate s) tid it)) \<and>
           m_fibers (Scheduler_schedule_range s fts) = m_fibers s @ filter wellformed_task fts \<and>
           m_fibers (fold (\<lambda>t s. Scheduler_schedule s t) fts s) = m_fibers s @ filter wellformed_task fts"
proof (cases "\<exists>it \<in> set (m_fibers s). runnable (fstate s) tid it")
  case True
  then obtain pre it post b where "m_fibers s = pre @ it # post"
      "\<forall>x \<in> set pre. \<not> runnable (fstate s) tid x" "runnable (fstate s) tid it"
      "pick_loop (fstate s) tid (m_fibers s) False = Inr (Some it, pre @ post, b)"
    using pick_loop_correct [OF assms, of "fstate s" tid False] by auto
  then show ?thesis
    using sq.submit_all [of fts s]
    by (auto simp: run_take_def Let_def Scheduler_tickle_def schedule_range_queue)
next
  case False
  then obtain b where "pick_loop (fstate s) tid (m_fibers s) False = Inr (None, m_fibers s, b)"
    using pick_loop_correct [OF assms, of "fstate s" tid False] by auto
  then show ?thesis
    using False sq.submit_all [of fts s]
    by (auto simp: run_take_def Let_def Scheduler_tickle_def schedule_range_queue)
qed

theorem Scheduler_queue_fifo_witness:
  "\<exists>r s'. run_take (Scheduler_schedule (sch example_pool) (FiberAndThread_cb (Some ''job'') (- 1))) 1 =
     Inr (r, s')"
proof -
  let ?s = "Scheduler_schedule (sch example_pool) (FiberAndThread_cb (Some ''job'') (- 1))"
  have "\<forall>it \<in> set (m_fibers ?s). wellformed_task it"
    by (simp add: schedule_queue example_pool_def FiberAndThread_cb_def wellformed_task_def)
  from Scheduler_queue_fifo [OF this, of 1 "[]"] show ?thesis by blast
qed

text \<open>
  An exception derived from \<open>std::exception\<close> that leaves a scheduled callback ends the process:
  \<open>Fiber::MainFunc\<close> does not record it in the state, so \<open>run\<close> marks the finished fiber as holding and
  drops it, and the destructor's assertion fails. Other exceptions are survived, and the fiber is
  kept for the next callback.
\<close>

theorem Scheduler_callback_exception:
  assumes "fstate s q = Some (left_state (Finish oc))"
  shows "run_after_cb s q False =
     (if oc = Threw_std_exception
      then Inl (assert_failed ''m_state == TERM || m_state == EXCEPT || m_state == INIT'')
      else Inr (Some q, set_state s q Fiber_INIT))"
  using assms by (cases oc) (simp_all add: run_after_cb_def SYLAR_ASSERT_def)

theorem Scheduler_callback_exception_witness:
  "run_after_cb (set_state (sch example_pool) 5 Fiber_EXEC) 5 False =
     Inl (assert_failed ''m_state == TERM || m_state == EXCEPT || m_state == INIT'')"
  using Scheduler_callback_exception
    [of "set_state (sch example_pool) 5 Fiber_EXEC" 5 Threw_std_exception]
  by simp

end
