(* ===== verification/Timer.thy ===== *)
theory Timer
  imports Prelude
begin

text \<open>
  \<^verbatim>\<open>sylar/timer.h\<close> and \<^verbatim>\<open>sylar/timer.cc\<close>: timers and the timer manager.

  A \<open>Timer::ptr\<close> is an address (\<^typ>\<open>nat\<close>) of a heap \<open>tm_heap\<close> of timer objects, because the same
  object is reached from the manager's set and from the caller's handle, and because the set's
  comparator breaks ties by address. \<open>std::set<Timer::ptr, Comparator>\<close> is the list of its elements
  in iteration order; \<open>insert\<close>, \<open>find\<close>, \<open>lower_bound\<close> and \<open>erase\<close> go through the comparator as the
  library does. \<open>m_cb\<close> is \<^const>\<open>None\<close> for a null \<open>std::function\<close>. The clock \<open>GetCurrentMS()\<close> and the
  address \<open>new\<close> returns are arguments. Every operation runs under the manager's lock, so it is one
  step; \<open>erase(end())\<close>, which is undefined, is the failure \<open>erase_end\<close>.
\<close>

section \<open>State\<close>

record 'cb timer =
  m_recurring :: bool
  m_ms :: u64
  m_next :: u64
  m_cb :: "'cb option"

record 'cb timer_manager =
  tm_heap :: "nat \<Rightarrow> 'cb timer option"
  m_timers :: "nat list"
  m_tickled :: bool
  m_previousTime :: u64

datatype timer_error = erase_end

definition Timer_at :: "u64 \<Rightarrow> 'cb timer" where
  "Timer_at nxt = \<lparr>m_recurring = False, m_ms = 0, m_next = nxt, m_cb = None\<rparr>"

definition Timer_new :: "u64 \<Rightarrow> u64 \<Rightarrow> 'cb option \<Rightarrow> bool \<Rightarrow> 'cb timer" where
  "Timer_new now ms cb recurring =
     \<lparr>m_recurring = recurring, m_ms = ms, m_next = now + ms, m_cb = cb\<rparr>"

definition deref :: "(nat \<Rightarrow> 'cb timer option) \<Rightarrow> nat \<Rightarrow> 'cb timer" where
  "deref h p = (case h p of Some t \<Rightarrow> t | None \<Rightarrow> Timer_at 0)"

definition Timer_Comparator ::
    "(nat \<Rightarrow> 'cb timer option) \<Rightarrow> nat option \<Rightarrow> nat option \<Rightarrow> bool" where
  "Timer_Comparator h lhs rhs =
     (case lhs of
        None \<Rightarrow> rhs \<noteq> None
      | Some p \<Rightarrow>
          (case rhs of
             None \<Rightarrow> False
           | Some q \<Rightarrow>
               if m_next (deref h p) < m_next (deref h q) then True
               else if m_next (deref h q) < m_next (deref h p) then False
               else p < q))"

section \<open>The ordered set\<close>

definition tless :: "(nat \<Rightarrow> 'cb timer option) \<Rightarrow> nat \<Rightarrow> nat \<Rightarrow> bool" where
  "tless h p q = Timer_Comparator h (Some p) (Some q)"

fun set_insert :: "(nat \<Rightarrow> 'cb timer option) \<Rightarrow> nat \<Rightarrow> nat list \<Rightarrow> nat list" where
  "set_insert h p [] = [p]"
| "set_insert h p (q # qs) =
     (if tless h p q then p # q # qs
      else if tless h q p then q # set_insert h p qs
      else q # qs)"

definition set_find :: "(nat \<Rightarrow> 'cb timer option) \<Rightarrow> nat \<Rightarrow> nat list \<Rightarrow> nat option" where
  "set_find h p qs = List.find (\<lambda>q. \<not> tless h q p \<and> \<not> tless h p q) qs"

definition set_erase :: "nat option \<Rightarrow> nat list \<Rightarrow> timer_error + nat list" where
  "set_erase it qs = (case it of None \<Rightarrow> Inl erase_end | Some q \<Rightarrow> Inr (remove1 q qs))"

section \<open>Timer manager\<close>

definition TimerManager_new :: "u64 \<Rightarrow> 'cb timer_manager" where
  "TimerManager_new now =
     \<lparr>tm_heap = Map.empty, m_timers = [], m_tickled = False, m_previousTime = now\<rparr>"

text \<open>
  The protected \<open>addTimer(val, lock)\<close>. The second result says whether \<open>onTimerInsertedAtFront\<close>, the
  virtual function that wakes the event loop, is called.
\<close>

definition TimerManager_addTimer_locked ::
    "'cb timer_manager \<Rightarrow> nat \<Rightarrow> 'cb timer_manager \<times> bool" where
  "TimerManager_addTimer_locked tm p =
     (let ts = set_insert (tm_heap tm) p (m_timers tm);
          at_front = (hd ts = p \<and> \<not> m_tickled tm)
      in (tm\<lparr>m_timers := ts, m_tickled := (if at_front then True else m_tickled tm)\<rparr>, at_front))"

definition TimerManager_addTimer ::
    "'cb timer_manager \<Rightarrow> nat \<Rightarrow> u64 \<Rightarrow> u64 \<Rightarrow> 'cb option \<Rightarrow> bool \<Rightarrow> 'cb timer_manager \<times> bool" where
  "TimerManager_addTimer tm p now ms cb recurring =
     TimerManager_addTimer_locked
       (tm\<lparr>tm_heap := (tm_heap tm)(p \<mapsto> Timer_new now ms cb recurring)\<rparr>) p"

text \<open>\<open>OnTimer\<close>: the callback a condition timer wraps runs only while the condition object lives.\<close>

definition OnTimer :: "'c option \<Rightarrow> ('s \<Rightarrow> 's) \<Rightarrow> 's \<Rightarrow> 's" where
  "OnTimer locked cb s = (case locked of Some tmp \<Rightarrow> cb s | None \<Rightarrow> s)"

definition TimerManager_addConditionTimer ::
    "('s \<Rightarrow> 's) timer_manager \<Rightarrow> nat \<Rightarrow> u64 \<Rightarrow> u64 \<Rightarrow> ('s \<Rightarrow> 's) \<Rightarrow> ('s \<Rightarrow> 'c option) \<Rightarrow> bool \<Rightarrow>
     ('s \<Rightarrow> 's) timer_manager \<times> bool" where
  "TimerManager_addConditionTimer tm p now ms cb weak_cond recurring =
     TimerManager_addTimer tm p now ms (Some (\<lambda>s. OnTimer (weak_cond s) cb s)) recurring"

definition TimerManager_getNextTimer :: "'cb timer_manager \<Rightarrow> u64 \<Rightarrow> u64 \<times> 'cb timer_manager" where
  "TimerManager_getNextTimer tm now_ms =
     (let tm = tm\<lparr>m_tickled := False\<rparr> in
      case m_timers tm of
        [] \<Rightarrow> (NOT 0, tm)
      | p # _ \<Rightarrow>
          let nxt = m_next (deref (tm_heap tm) p) in
          (if now_ms \<ge> nxt then 0 else nxt - now_ms, tm))"

definition TimerManager_detectClockRollover ::
    "'cb timer_manager \<Rightarrow> u64 \<Rightarrow> bool \<times> 'cb timer_manager" where
  "TimerManager_detectClockRollover tm now_ms =
     (now_ms < m_previousTime tm \<and> now_ms < m_previousTime tm - 60 * 60 * 1000,
      tm\<lparr>m_previousTime := now_ms\<rparr>)"

text \<open>The body and the loop of the \<open>for\<close> of \<open>listExpiredCb\<close> over the expired timers.\<close>

definition expire_one :: "u64 \<Rightarrow> nat \<Rightarrow> 'cb timer_manager \<Rightarrow> 'cb timer_manager" where
  "expire_one now_ms p tm =
     (let t = deref (tm_heap tm) p in
      if m_recurring t then
        let h = (tm_heap tm)(p \<mapsto> t\<lparr>m_next := now_ms + m_ms t\<rparr>)
        in tm\<lparr>tm_heap := h, m_timers := set_insert h p (m_timers tm)\<rparr>
      else tm\<lparr>tm_heap := (tm_heap tm)(p \<mapsto> t\<lparr>m_cb := None\<rparr>)\<rparr>)"

fun expire_loop ::
    "u64 \<Rightarrow> nat list \<Rightarrow> 'cb timer_manager \<Rightarrow> 'cb option list \<times> 'cb timer_manager" where
  "expire_loop now_ms [] tm = ([], tm)"
| "expire_loop now_ms (p # ps) tm =
     (let (cbs, tm') = expire_loop now_ms ps (expire_one now_ms p tm)
      in (m_cb (deref (tm_heap tm) p) # cbs, tm'))"

text \<open>
  \<open>now_ptr\<close> is the address of the temporary timer that \<open>lower_bound\<close> compares with. The function
  appends to \<open>cbs\<close>; the result is what it appends.
\<close>

definition expired_split ::
    "'cb timer_manager \<Rightarrow> bool \<Rightarrow> nat \<Rightarrow> u64 \<Rightarrow> nat list \<times> nat list" where
  "expired_split tm rollover now_ptr now_ms =
     (let h = (tm_heap tm)(now_ptr \<mapsto> Timer_at now_ms);
          below = (if rollover then m_timers tm else takeWhile (\<lambda>q. tless h q now_ptr) (m_timers tm));
          rest = drop (length below) (m_timers tm);
          same = takeWhile (\<lambda>q. m_next (deref (tm_heap tm) q) = now_ms) rest
      in (below @ same, drop (length same) rest))"

definition TimerManager_listExpiredCb ::
    "'cb timer_manager \<Rightarrow> nat \<Rightarrow> u64 \<Rightarrow> 'cb option list \<times> 'cb timer_manager" where
  "TimerManager_listExpiredCb tm now_ptr now_ms =
     (if m_timers tm = [] then ([], tm)
      else
        let (rollover, tm) = TimerManager_detectClockRollover tm now_ms in
        if \<not> rollover \<and> m_next (deref (tm_heap tm) (hd (m_timers tm))) > now_ms then ([], tm)
        else
          let (expired, rest) = expired_split tm rollover now_ptr now_ms
          in expire_loop now_ms expired (tm\<lparr>m_timers := rest\<rparr>))"

definition TimerManager_hasTimer :: "'cb timer_manager \<Rightarrow> bool" where
  "TimerManager_hasTimer tm \<longleftrightarrow> m_timers tm \<noteq> []"

section \<open>Operations of a timer handle\<close>

definition Timer_cancel :: "'cb timer_manager \<Rightarrow> nat \<Rightarrow> timer_error + bool \<times> 'cb timer_manager" where
  "Timer_cancel tm p =
     (let t = deref (tm_heap tm) p in
      if m_cb t \<noteq> None then
        let h = (tm_heap tm)(p \<mapsto> t\<lparr>m_cb := None\<rparr>)
        in bindE (set_erase (set_find h p (m_timers tm)) (m_timers tm))
             (\<lambda>ts. Inr (True, tm\<lparr>tm_heap := h, m_timers := ts\<rparr>))
      else Inr (False, tm))"

definition Timer_refresh ::
    "'cb timer_manager \<Rightarrow> nat \<Rightarrow> u64 \<Rightarrow> timer_error + bool \<times> 'cb timer_manager" where
  "Timer_refresh tm p now =
     (let t = deref (tm_heap tm) p in
      if m_cb t = None then Inr (False, tm)
      else case set_find (tm_heap tm) p (m_timers tm) of
        None \<Rightarrow> Inr (False, tm)
      | Some it \<Rightarrow>
          bindE (set_erase (Some it) (m_timers tm)) (\<lambda>ts.
            let h = (tm_heap tm)(p \<mapsto> t\<lparr>m_next := now + m_ms t\<rparr>)
            in Inr (True, tm\<lparr>tm_heap := h, m_timers := set_insert h p ts\<rparr>)))"

text \<open>The third result of \<open>reset\<close>: whether \<open>onTimerInsertedAtFront\<close> is called.\<close>

definition Timer_reset ::
    "'cb timer_manager \<Rightarrow> nat \<Rightarrow> u64 \<Rightarrow> u64 \<Rightarrow> bool \<Rightarrow> timer_error + bool \<times> 'cb timer_manager \<times> bool"
  where
  "Timer_reset tm p now ms from_now =
     (let t = deref (tm_heap tm) p in
      if ms = m_ms t \<and> \<not> from_now then Inr (True, tm, False)
      else if m_cb t = None then Inr (False, tm, False)
      else case set_find (tm_heap tm) p (m_timers tm) of
        None \<Rightarrow> Inr (False, tm, False)
      | Some it \<Rightarrow>
          bindE (set_erase (Some it) (m_timers tm)) (\<lambda>ts.
            let start = (if from_now then now else m_next t - m_ms t);
                h = (tm_heap tm)(p \<mapsto> t\<lparr>m_ms := ms, m_next := start + ms\<rparr>);
                (tm', at_front) = TimerManager_addTimer_locked (tm\<lparr>tm_heap := h, m_timers := ts\<rparr>) p
            in Inr (True, tm', at_front)))"

section \<open>The comparator is a strict total order\<close>

lemma tless_iff:
  "tless h p q \<longleftrightarrow> m_next (deref h p) < m_next (deref h q) \<or>
     m_next (deref h p) = m_next (deref h q) \<and> p < q"
  by (auto simp: tless_def Timer_Comparator_def)

lemma tless_irrefl [simp]: "\<not> tless h p p"
  by (simp add: tless_iff)

lemma tless_asym: "tless h p q \<Longrightarrow> \<not> tless h q p"
  by (auto simp: tless_iff)

lemma tless_trans: "tless h p q \<Longrightarrow> tless h q r \<Longrightarrow> tless h p r"
  by (auto simp: tless_iff)

lemma tless_total: "p \<noteq> q \<Longrightarrow> \<not> tless h p q \<Longrightarrow> tless h q p"
  by (auto simp: tless_iff)

lemma tless_equiv: "\<not> tless h p q \<and> \<not> tless h q p \<longleftrightarrow> p = q"
  by (auto dest: tless_total)

abbreviation tsorted :: "(nat \<Rightarrow> 'cb timer option) \<Rightarrow> nat list \<Rightarrow> bool" where
  "tsorted h ts \<equiv> sorted_wrt (tless h) ts"

lemma tsorted_distinct: "tsorted h ts \<Longrightarrow> distinct ts"
  by (induction ts) auto

lemma set_insert_set [simp]: "set (set_insert h p ts) = insert p (set ts)"
  by (induction ts) (auto dest: tless_total)

lemma set_insert_sorted: "tsorted h ts \<Longrightarrow> tsorted h (set_insert h p ts)"
  by (induction ts) (auto intro: tless_trans)

lemma set_insert_Cons: "\<exists>q qs. set_insert h p ts = q # qs"
  by (cases ts) auto

lemma set_find_mem: "set_find h p ts = (if p \<in> set ts then Some p else None)"
  unfolding set_find_def by (induction ts) (auto simp: tless_equiv)

lemma tsorted_remove1: "tsorted h ts \<Longrightarrow> tsorted h (remove1 p ts)"
  by (induction ts) (auto dest: notin_set_remove1)

lemma tsorted_cong:
  assumes "\<And>p. p \<in> set ts \<Longrightarrow> m_next (deref h' p) = m_next (deref h p)"
  shows "tsorted h' ts = tsorted h ts"
  using assms by (intro iffI; elim sorted_wrt_mono_rel [rotated]) (auto simp: tless_iff)

lemma deref_update: "deref (h(p \<mapsto> t)) q = (if q = p then t else deref h q)"
  by (simp add: deref_def)

section \<open>Invariant\<close>

text \<open>
  The set is in comparator order, and a timer is in the set exactly while it has a callback: a
  handle whose callback is gone was cancelled or has fired.
\<close>

definition timer_inv :: "'cb timer_manager \<Rightarrow> bool" where
  "timer_inv tm \<longleftrightarrow> tsorted (tm_heap tm) (m_timers tm) \<and>
     (\<forall>p. p \<in> set (m_timers tm) \<longleftrightarrow> m_cb (deref (tm_heap tm) p) \<noteq> None)"

lemma timer_inv_new [inv_intros]: "timer_inv (TimerManager_new now)"
  by (simp add: timer_inv_def TimerManager_new_def deref_def Timer_at_def)

lemma timer_inv_put:
  assumes "tsorted (tm_heap tm) ts" and "p \<notin> set ts" and "m_cb t \<noteq> None"
    and "\<And>q. q \<noteq> p \<Longrightarrow> q \<in> set ts \<longleftrightarrow> m_cb (deref (tm_heap tm) q) \<noteq> None"
  shows "timer_inv (tm\<lparr>tm_heap := (tm_heap tm)(p \<mapsto> t),
           m_timers := set_insert ((tm_heap tm)(p \<mapsto> t)) p ts, m_tickled := b\<rparr>)"
proof -
  have "tsorted ((tm_heap tm)(p \<mapsto> t)) ts"
    using assms(1,2) by (subst tsorted_cong [where h = "tm_heap tm"]) (auto simp: deref_update)
  then show ?thesis
    using assms by (auto simp: timer_inv_def set_insert_sorted deref_update)
qed

lemma timer_inv_drop:
  assumes "timer_inv tm" and "m_cb t = None" and "m_next t = m_next (deref (tm_heap tm) p)"
  shows "timer_inv (tm\<lparr>tm_heap := (tm_heap tm)(p \<mapsto> t), m_timers := remove1 p (m_timers tm)\<rparr>)"
proof -
  have s: "tsorted (tm_heap tm) (m_timers tm)" using assms(1) by (simp add: timer_inv_def)
  have "tsorted ((tm_heap tm)(p \<mapsto> t)) (remove1 p (m_timers tm))"
    using tsorted_remove1 [OF s] assms(3)
    by (subst tsorted_cong [where h = "tm_heap tm"]) (auto simp: deref_update)
  then show ?thesis
    using assms tsorted_distinct [OF s] by (auto simp: timer_inv_def deref_update set_remove1_eq)
qed

lemma addTimer_locked_eq:
  "TimerManager_addTimer_locked tm p =
     (tm\<lparr>m_timers := set_insert (tm_heap tm) p (m_timers tm),
         m_tickled := m_tickled tm \<or> hd (set_insert (tm_heap tm) p (m_timers tm)) = p\<rparr>,
      hd (set_insert (tm_heap tm) p (m_timers tm)) = p \<and> \<not> m_tickled tm)"
  by (auto simp: TimerManager_addTimer_locked_def Let_def)

lemma timer_inv_addTimer [inv_intros]:
  assumes "timer_inv tm" and "tm_heap tm p = None" and "cb \<noteq> None"
  shows "timer_inv (fst (TimerManager_addTimer tm p now ms cb recurring))"
proof -
  have "p \<notin> set (m_timers tm)"
    using assms(1,2) by (auto simp: timer_inv_def deref_def Timer_at_def)
  then show ?thesis
    using timer_inv_put [of tm "m_timers tm" p "Timer_new now ms cb recurring"] assms
    by (simp add: TimerManager_addTimer_def addTimer_locked_eq timer_inv_def Timer_new_def)
qed

lemma timer_inv_getNextTimer [inv_intros]:
  "timer_inv tm \<Longrightarrow> timer_inv (snd (TimerManager_getNextTimer tm now))"
  by (auto simp: TimerManager_getNextTimer_def timer_inv_def Let_def split: list.splits)

text \<open>\<open>cancel\<close> finds the timer in the set whenever it has to erase it.\<close>

lemma cancel_correct:
  assumes "timer_inv tm"
  shows "\<exists>tm'. Timer_cancel tm p = Inr (p \<in> set (m_timers tm), tm') \<and> timer_inv tm' \<and>
           m_timers tm' = remove1 p (m_timers tm) \<and> m_cb (deref (tm_heap tm') p) = None"
proof (cases "m_cb (deref (tm_heap tm) p) = None")
  case True
  then have "p \<notin> set (m_timers tm)" using assms by (simp add: timer_inv_def)
  then show ?thesis using True assms by (simp add: Timer_cancel_def remove1_idem)
next
  case False
  then have "p \<in> set (m_timers tm)" using assms by (simp add: timer_inv_def)
  then show ?thesis
    using False timer_inv_drop [OF assms, of "(deref (tm_heap tm) p)\<lparr>m_cb := None\<rparr>" p]
    by (simp add: Timer_cancel_def Let_def set_find_mem set_erase_def deref_update)
qed

lemma rearm_inv:
  assumes "timer_inv tm" and "p \<in> set (m_timers tm)" and "m_cb t = m_cb (deref (tm_heap tm) p)"
  shows "timer_inv (tm\<lparr>tm_heap := (tm_heap tm)(p \<mapsto> t),
           m_timers := set_insert ((tm_heap tm)(p \<mapsto> t)) p (remove1 p (m_timers tm)), m_tickled := b\<rparr>)"
proof -
  have s: "tsorted (tm_heap tm) (m_timers tm)" using assms(1) by (simp add: timer_inv_def)
  have d: "distinct (m_timers tm)" using tsorted_distinct [OF s] .
  show ?thesis
    using assms tsorted_remove1 [OF s] d
    by (intro timer_inv_put) (auto simp: timer_inv_def set_remove1_eq)
qed

lemma set_insert_remove1_set:
  "distinct ts \<Longrightarrow> p \<in> set ts \<Longrightarrow> set (set_insert h p (remove1 p ts)) = set ts"
  by (auto simp: set_remove1_eq)

lemma refresh_correct:
  assumes "timer_inv tm"
  shows "\<exists>tm'. Timer_refresh tm p now = Inr (p \<in> set (m_timers tm), tm') \<and> timer_inv tm' \<and>
           set (m_timers tm') = set (m_timers tm) \<and>
           (p \<in> set (m_timers tm) \<longrightarrow>
              m_next (deref (tm_heap tm') p) = now + m_ms (deref (tm_heap tm) p))"
proof (cases "p \<in> set (m_timers tm)")
  case False
  then show ?thesis using assms by (simp add: Timer_refresh_def timer_inv_def)
next
  case True
  let ?t = "(deref (tm_heap tm) p)\<lparr>m_next := now + m_ms (deref (tm_heap tm) p)\<rparr>"
  have "distinct (m_timers tm)" using assms tsorted_distinct by (auto simp: timer_inv_def)
  moreover have "m_cb (deref (tm_heap tm) p) \<noteq> None" using True assms by (simp add: timer_inv_def)
  ultimately show ?thesis
    using True rearm_inv [OF assms True, of ?t "m_tickled tm"]
    by (simp add: Timer_refresh_def Let_def set_find_mem set_erase_def deref_update
        insert_absorb set_remove1_eq)
qed

lemma reset_correct:
  assumes "timer_inv tm" and "ms \<noteq> m_ms (deref (tm_heap tm) p) \<or> from_now"
  shows "\<exists>tm' front. Timer_reset tm p now ms from_now = Inr (p \<in> set (m_timers tm), tm', front) \<and>
           timer_inv tm' \<and> set (m_timers tm') = set (m_timers tm) \<and>
           (p \<in> set (m_timers tm) \<longrightarrow>
              m_ms (deref (tm_heap tm') p) = ms \<and>
              m_next (deref (tm_heap tm') p) =
                (if from_now then now else m_next (deref (tm_heap tm) p) - m_ms (deref (tm_heap tm) p)) + ms)"
proof (cases "p \<in> set (m_timers tm)")
  case False
  then show ?thesis using assms by (auto simp: Timer_reset_def timer_inv_def)
next
  case True
  let ?d = "deref (tm_heap tm) p"
  let ?t = "?d\<lparr>m_ms := ms, m_next := (if from_now then now else m_next ?d - m_ms ?d) + ms\<rparr>"
  have "distinct (m_timers tm)" using assms tsorted_distinct by (auto simp: timer_inv_def)
  moreover have "m_cb ?d \<noteq> None" using True assms by (simp add: timer_inv_def)
  moreover have "\<not> (ms = m_ms ?d \<and> \<not> from_now)" using assms(2) by blast
  moreover note rearm_inv [OF assms(1) True, of ?t "m_tickled tm \<or>
      hd (set_insert ((tm_heap tm)(p \<mapsto> ?t)) p (remove1 p (m_timers tm))) = p"]
  ultimately show ?thesis
    using True
    by (auto simp add: Timer_reset_def Let_def set_find_mem set_erase_def deref_update
        addTimer_locked_eq insert_absorb set_remove1_eq)
qed

section \<open>Expiry\<close>

abbreviation next_of :: "'cb timer_manager \<Rightarrow> nat \<Rightarrow> u64" where
  "next_of tm p \<equiv> m_next (deref (tm_heap tm) p)"

lemma takeWhile_same:
  assumes "tsorted h ts" and "\<And>q. q \<in> set ts \<Longrightarrow> n \<le> m_next (deref h q)"
  shows "takeWhile (\<lambda>q. m_next (deref h q) = n) ts = filter (\<lambda>q. m_next (deref h q) \<le> n) ts"
  using assms
proof (induction ts)
  case (Cons q qs)
  show ?case
  proof (cases "m_next (deref h q) = n")
    case True
    then show ?thesis using Cons by simp
  next
    case False
    then have "n < m_next (deref h q)" using Cons.prems(2) [of q] by simp
    moreover from this have "n < m_next (deref h r)" if "r \<in> set qs" for r
      using Cons.prems(1) that by (fastforce simp: tless_iff)
    ultimately show ?thesis using False by (auto simp: filter_empty_conv not_le)
  qed
qed simp

lemma split_le:
  assumes "tsorted h ts"
    and "\<And>q. P q \<longleftrightarrow> m_next (deref h q) < n \<or> m_next (deref h q) = n \<and> q < a"
  shows "takeWhile P ts @
           takeWhile (\<lambda>q. m_next (deref h q) = n) (drop (length (takeWhile P ts)) ts) =
         filter (\<lambda>q. m_next (deref h q) \<le> n) ts"
  using assms(1)
proof (induction ts)
  case (Cons q qs)
  show ?case
  proof (cases "P q")
    case True
    then have "m_next (deref h q) \<le> n" using assms(2) by auto
    then show ?thesis using True Cons by simp
  next
    case False
    then have "n \<le> m_next (deref h q)" using assms(2) [of q] by auto
    then have "n \<le> m_next (deref h r)" if "r \<in> set (q # qs)" for r
      using that Cons.prems(1) by (fastforce simp: tless_iff)
    from takeWhile_same [OF Cons.prems(1) this] show ?thesis using False by simp
  qed
qed simp

lemma filter_prefix:
  assumes "tsorted h ts"
  shows "filter (\<lambda>q. m_next (deref h q) \<le> n) ts @
           drop (length (filter (\<lambda>q. m_next (deref h q) \<le> n) ts)) ts = ts"
  using assms
proof (induction ts)
  case (Cons q qs)
  show ?case
  proof (cases "m_next (deref h q) \<le> n")
    case False
    then have "n < m_next (deref h r)" if "r \<in> set qs" for r
      using Cons.prems that by (fastforce simp: tless_iff)
    then have "filter (\<lambda>q. m_next (deref h q) \<le> n) qs = []" by (auto simp: filter_empty_conv not_le)
    then show ?thesis using False by simp
  qed (use Cons in simp)
qed simp

lemma expired_split_correct:
  assumes "tsorted (tm_heap tm) (m_timers tm)" and "now_ptr \<notin> set (m_timers tm)"
  shows "expired_split tm False now_ptr now =
           (filter (\<lambda>q. next_of tm q \<le> now) (m_timers tm),
            drop (length (filter (\<lambda>q. next_of tm q \<le> now) (m_timers tm))) (m_timers tm))"
proof -
  let ?h = "(tm_heap tm)(now_ptr \<mapsto> Timer_at now)"
  let ?P = "\<lambda>q. next_of tm q < now \<or> next_of tm q = now \<and> q < now_ptr"
  let ?below = "takeWhile ?P (m_timers tm)"
  let ?same = "takeWhile (\<lambda>q. next_of tm q = now) (drop (length ?below) (m_timers tm))"
  have below: "takeWhile (\<lambda>q. tless ?h q now_ptr) (m_timers tm) = ?below"
    using assms(2) by (intro takeWhile_cong) (auto simp: tless_iff deref_update Timer_at_def)
  have f: "?below @ ?same = filter (\<lambda>q. next_of tm q \<le> now) (m_timers tm)"
    by (rule split_le [OF assms(1)]) simp
  show ?thesis
    unfolding f [symmetric] by (simp add: expired_split_def Let_def below add.commute)
qed

lemma expired_split_rollover: "expired_split tm True now_ptr now = (m_timers tm, [])"
  by (simp add: expired_split_def)

text \<open>
  The expiry loop, started on a set from which the expired timers \<open>ps\<close> were taken: it returns
  their callbacks in order, keeps the recurring ones armed for \<open>now + m_ms\<close>, disarms the others and
  touches nothing else.
\<close>

definition expire_ready :: "'cb timer_manager \<Rightarrow> nat list \<Rightarrow> bool" where
  "expire_ready tm ps \<longleftrightarrow> tsorted (tm_heap tm) (m_timers tm) \<and> distinct ps \<and>
     set ps \<inter> set (m_timers tm) = {} \<and>
     (\<forall>p. p \<in> set (m_timers tm) \<union> set ps \<longleftrightarrow> m_cb (deref (tm_heap tm) p) \<noteq> None)"

lemma expire_one_correct:
  assumes "expire_ready tm (p # ps)"
  defines "t \<equiv> deref (tm_heap tm) p"
  shows "expire_ready (expire_one now p tm) ps"
    and "q \<noteq> p \<Longrightarrow> deref (tm_heap (expire_one now p tm)) q = deref (tm_heap tm) q"
    and "set (m_timers (expire_one now p tm)) =
           set (m_timers tm) \<union> (if m_recurring t then {p} else {})"
    and "m_recurring t \<Longrightarrow> deref (tm_heap (expire_one now p tm)) p = t\<lparr>m_next := now + m_ms t\<rparr>"
    and "m_tickled (expire_one now p tm) = m_tickled tm"
    and "m_previousTime (expire_one now p tm) = m_previousTime tm"
proof -
  have cb: "m_cb t \<noteq> None" and p: "p \<notin> set (m_timers tm)"
    using assms(1) by (auto simp: expire_ready_def t_def)
  have s: "tsorted ((tm_heap tm)(p \<mapsto> u)) (m_timers tm)" for u
    using assms(1) p
    by (subst tsorted_cong [where h = "tm_heap tm"]) (auto simp: expire_ready_def deref_update)
  show "expire_ready (expire_one now p tm) ps"
    using assms(1) cb s p
    by (auto simp: expire_ready_def expire_one_def t_def Let_def deref_update set_insert_sorted
        split: if_splits)
qed (auto simp: expire_one_def t_def Let_def deref_update)

lemma expire_loop_correct:
  assumes "expire_ready tm ps"
  shows "\<exists>tm'. expire_loop now ps tm = (map (\<lambda>p. m_cb (deref (tm_heap tm) p)) ps, tm') \<and>
           timer_inv tm' \<and>
           set (m_timers tm') =
             set (m_timers tm) \<union> {p \<in> set ps. m_recurring (deref (tm_heap tm) p)} \<and>
           (\<forall>q. q \<notin> set ps \<longrightarrow> deref (tm_heap tm') q = deref (tm_heap tm) q) \<and>
           (\<forall>q \<in> set ps. m_recurring (deref (tm_heap tm) q) \<longrightarrow>
              m_next (deref (tm_heap tm') q) = now + m_ms (deref (tm_heap tm) q)) \<and>
           m_tickled tm' = m_tickled tm \<and> m_previousTime tm' = m_previousTime tm"
  using assms
proof (induction ps arbitrary: tm)
  case Nil
  then show ?case by (auto simp: expire_ready_def timer_inv_def)
next
  case (Cons p ps)
  let ?tm = "expire_one now p tm"
  note step = expire_one_correct [OF Cons.prems, where now = now]
  have p: "p \<notin> set ps" using Cons.prems by (simp add: expire_ready_def)
  have old: "deref (tm_heap ?tm) q = deref (tm_heap tm) q" if "q \<in> set ps" for q
    by (rule step(2)) (use p that in auto)
  obtain tm' where tm': "expire_loop now ps ?tm = (map (\<lambda>p. m_cb (deref (tm_heap ?tm) p)) ps, tm')"
      "timer_inv tm'"
      "set (m_timers tm') = set (m_timers ?tm) \<union> {p \<in> set ps. m_recurring (deref (tm_heap ?tm) p)}"
      "\<forall>q. q \<notin> set ps \<longrightarrow> deref (tm_heap tm') q = deref (tm_heap ?tm) q"
      "\<forall>q \<in> set ps. m_recurring (deref (tm_heap ?tm) q) \<longrightarrow>
         m_next (deref (tm_heap tm') q) = now + m_ms (deref (tm_heap ?tm) q)"
      "m_tickled tm' = m_tickled ?tm" "m_previousTime tm' = m_previousTime ?tm"
    using Cons.IH [OF step(1)] by blast
  have "expire_loop now (p # ps) tm =
      (m_cb (deref (tm_heap tm) p) # map (\<lambda>p. m_cb (deref (tm_heap tm) p)) ps, tm')"
    using tm'(1) old by (simp add: Let_def cong: map_cong)
  moreover have "set (m_timers tm') =
      set (m_timers tm) \<union> {q \<in> set (p # ps). m_recurring (deref (tm_heap tm) q)}"
    unfolding tm'(3) step(3) using old by auto
  moreover have "\<forall>q. q \<notin> set (p # ps) \<longrightarrow> deref (tm_heap tm') q = deref (tm_heap tm) q"
    using tm'(4) step(2) by auto
  moreover have "\<forall>q \<in> set (p # ps). m_recurring (deref (tm_heap tm) q) \<longrightarrow>
      m_next (deref (tm_heap tm') q) = now + m_ms (deref (tm_heap tm) q)"
    using tm'(4,5) step(4) old p by auto
  moreover have "m_tickled tm' = m_tickled tm" "m_previousTime tm' = m_previousTime tm"
    using tm'(6,7) step(5,6) by simp_all
  ultimately show ?case using tm'(2) by (intro exI [of _ tm']) simp
qed

definition rolled_over :: "'cb timer_manager \<Rightarrow> u64 \<Rightarrow> bool" where
  "rolled_over tm now \<longleftrightarrow> fst (TimerManager_detectClockRollover tm now)"

definition due :: "'cb timer_manager \<Rightarrow> u64 \<Rightarrow> nat list" where
  "due tm now =
     (if rolled_over tm now then m_timers tm else filter (\<lambda>p. next_of tm p \<le> now) (m_timers tm))"

lemma due_Nil: 
  assumes "timer_inv tm" and "\<not> rolled_over tm now" and "m_timers tm \<noteq> []"
    and "next_of tm (hd (m_timers tm)) > now"
  shows "due tm now = []"
proof -
  obtain q qs where q: "m_timers tm = q # qs" using assms(3) by (cases "m_timers tm") auto
  have "now < next_of tm r" if "r \<in> set qs" for r
    using assms(1,4) q that by (fastforce simp: timer_inv_def tless_iff)
  then show ?thesis using assms(2,4) q by (auto simp: due_def filter_empty_conv not_le)
qed

lemma listExpiredCb_correct:
  assumes "timer_inv tm" and "now_ptr \<notin> set (m_timers tm)"
  shows "\<exists>tm'. TimerManager_listExpiredCb tm now_ptr now =
             (map (\<lambda>p. m_cb (deref (tm_heap tm) p)) (due tm now), tm') \<and> timer_inv tm' \<and>
           set (m_timers tm') =
             set (m_timers tm) - {p \<in> set (due tm now). \<not> m_recurring (deref (tm_heap tm) p)} \<and>
           (\<forall>q. q \<notin> set (due tm now) \<longrightarrow> deref (tm_heap tm') q = deref (tm_heap tm) q) \<and>
           (\<forall>q \<in> set (due tm now). m_recurring (deref (tm_heap tm) q) \<longrightarrow>
              next_of tm' q = now + m_ms (deref (tm_heap tm) q))"
proof -
  let ?tm = "tm\<lparr>m_previousTime := now\<rparr>"
  have roll: "TimerManager_detectClockRollover tm now = (rolled_over tm now, ?tm)"
    by (simp add: rolled_over_def TimerManager_detectClockRollover_def)
  have s: "tsorted (tm_heap tm) (m_timers tm)" using assms(1) by (simp add: timer_inv_def)
  have inv: "timer_inv ?tm" using assms(1) by (simp add: timer_inv_def)
  consider "m_timers tm = []"
    | "m_timers tm \<noteq> []" "\<not> rolled_over tm now" "next_of tm (hd (m_timers tm)) > now"
    | "m_timers tm \<noteq> []" "rolled_over tm now \<or> \<not> next_of tm (hd (m_timers tm)) > now"
    by blast
  then show ?thesis
  proof cases
    case 1
    then show ?thesis using assms(1) by (simp add: TimerManager_listExpiredCb_def due_def)
  next
    case 2
    then show ?thesis
      using inv due_Nil [OF assms(1) 2(2,1,3)] by (simp add: TimerManager_listExpiredCb_def roll)
  next
    case 3
    let ?rest = "drop (length (due tm now)) (m_timers tm)"
    have split: "expired_split ?tm (rolled_over tm now) now_ptr now = (due tm now, ?rest)"
      using expired_split_correct [of ?tm now_ptr now] s assms(2)
      by (cases "rolled_over tm now") (simp_all add: expired_split_rollover due_def)
    have app: "due tm now @ ?rest = m_timers tm"
      using filter_prefix [OF s, of now] by (simp add: due_def)
    have d: "distinct (due tm now @ ?rest)" using tsorted_distinct [OF s] by (simp add: app)
    have "tsorted (tm_heap tm) (due tm now @ ?rest)" using s by (simp only: app)
    then have "expire_ready (?tm\<lparr>m_timers := ?rest\<rparr>) (due tm now)"
      using assms(1) d arg_cong [OF app, of set]
      by (auto simp: expire_ready_def sorted_wrt_append timer_inv_def)
    from expire_loop_correct [OF this, of now] obtain tm' where tm':
        "expire_loop now (due tm now) (?tm\<lparr>m_timers := ?rest\<rparr>) =
           (map (\<lambda>p. m_cb (deref (tm_heap tm) p)) (due tm now), tm')" "timer_inv tm'"
        "set (m_timers tm') = set ?rest \<union> {p \<in> set (due tm now). m_recurring (deref (tm_heap tm) p)}"
        "\<forall>q. q \<notin> set (due tm now) \<longrightarrow> deref (tm_heap tm') q = deref (tm_heap tm) q"
        "\<forall>q \<in> set (due tm now). m_recurring (deref (tm_heap tm) q) \<longrightarrow>
           next_of tm' q = now + m_ms (deref (tm_heap tm) q)"
      by auto
    have "TimerManager_listExpiredCb tm now_ptr now =
        expire_loop now (due tm now) (?tm\<lparr>m_timers := ?rest\<rparr>)"
      using 3 split by (auto simp: TimerManager_listExpiredCb_def roll)
    moreover have "set (m_timers tm') =
        set (m_timers tm) - {p \<in> set (due tm now). \<not> m_recurring (deref (tm_heap tm) p)}"
      using tm'(3) d arg_cong [OF app, of set] by auto
    ultimately show ?thesis using tm' by simp
  qed
qed

lemma getNextTimer_value:
  "fst (TimerManager_getNextTimer tm now) =
     (case m_timers tm of [] \<Rightarrow> NOT 0
      | p # _ \<Rightarrow> if now \<ge> next_of tm p then 0 else next_of tm p - now)"
  by (auto simp: TimerManager_getNextTimer_def Let_def split: list.splits)

lemma hd_earliest:
  assumes "timer_inv tm" and "p \<in> set (m_timers tm)"
  shows "next_of tm (hd (m_timers tm)) \<le> next_of tm p"
proof -
  obtain q qs where q: "m_timers tm = q # qs" using assms(2) by (cases "m_timers tm") auto
  have "tsorted (tm_heap tm) (q # qs)" using assms(1) q by (simp add: timer_inv_def)
  then show ?thesis using assms(2) q by (fastforce simp: tless_iff)
qed

section \<open>The interface of the event loop\<close>

text \<open>
  What an event loop relies on: \<open>deadline\<close> is the abstract state (the armed timers and when they are
  due), \<open>next_timeout\<close> how long it may sleep, \<open>expire\<close> what it runs when it wakes. A loop that sleeps
  as long as \<open>next_timeout\<close> allows finds something to run.
\<close>

locale timer_queue =
  fixes tinv :: "'s \<Rightarrow> bool"
    and deadline :: "'s \<Rightarrow> nat \<Rightarrow> u64 option"
    and next_timeout :: "'s \<Rightarrow> u64 \<Rightarrow> u64 \<times> 's"
    and expire :: "'s \<Rightarrow> nat \<Rightarrow> u64 \<Rightarrow> 'c list \<times> 's"
  assumes next_keeps: "tinv s \<Longrightarrow> tinv (snd (next_timeout s now))"
    and next_deadlines: "deadline (snd (next_timeout s now)) = deadline s"
    and next_none: "tinv s \<Longrightarrow> (\<And>p. deadline s p = None) \<Longrightarrow> fst (next_timeout s now) = NOT 0"
    and next_some: "tinv s \<Longrightarrow> deadline s p = Some d \<Longrightarrow>
      \<exists>q e. deadline s q = Some e \<and> (\<forall>r f. deadline s r = Some f \<longrightarrow> e \<le> f) \<and>
            fst (next_timeout s now) = (if now \<ge> e then 0 else e - now)"
    and expire_due: "tinv s \<Longrightarrow> deadline s a = None \<Longrightarrow> deadline s p = Some d \<Longrightarrow> d \<le> now \<Longrightarrow>
      fst (expire s a now) \<noteq> []"
    and expire_keeps: "tinv s \<Longrightarrow> deadline s a = None \<Longrightarrow> tinv (snd (expire s a now))"
begin

lemma wake_on_time:
  assumes "tinv s" and "deadline s p = Some d" and "deadline s a = None"
  shows "fst (expire (snd (next_timeout s now)) a (now + fst (next_timeout s now))) \<noteq> []"
proof -
  obtain q e where q: "deadline s q = Some e"
      "fst (next_timeout s now) = (if now \<ge> e then 0 else e - now)"
    using next_some [OF assms(1,2), of now] by blast
  then have "e \<le> now + fst (next_timeout s now)" by simp
  then show ?thesis
    using assms q next_keeps next_deadlines by (intro expire_due [of _ a q e]) simp_all
qed

lemma next_no_later:
  assumes "tinv s" and "deadline s p = Some d" and "now \<le> d"
  shows "fst (next_timeout s now) \<le> d - now"
proof -
  obtain q e where "deadline s q = Some e" "\<forall>r f. deadline s r = Some f \<longrightarrow> e \<le> f"
      "fst (next_timeout s now) = (if now \<ge> e then 0 else e - now)"
    using next_some [OF assms(1,2), of now] by blast
  moreover from this have "e \<le> d" using assms(2) by blast
  ultimately show ?thesis using assms(3) by (auto simp: word_le_minus_mono_left not_le)
qed

end

definition deadline :: "'cb timer_manager \<Rightarrow> nat \<Rightarrow> u64 option" where
  "deadline tm p = (if p \<in> set (m_timers tm) then Some (next_of tm p) else None)"

lemma deadline_unfold:
  "deadline tm p = Some d \<longleftrightarrow> p \<in> set (m_timers tm) \<and> d = next_of tm p"
  "deadline tm p = None \<longleftrightarrow> p \<notin> set (m_timers tm)"
  by (auto simp: deadline_def)

interpretation tq: timer_queue timer_inv deadline TimerManager_getNextTimer TimerManager_listExpiredCb
proof unfold_locales
  fix tm :: "'a timer_manager" and now d :: u64 and p a :: nat
  show "deadline (snd (TimerManager_getNextTimer tm now)) = deadline tm"
    by (auto simp: fun_eq_iff deadline_def TimerManager_getNextTimer_def Let_def split: list.splits)
  assume inv: "timer_inv tm"
  show "timer_inv (snd (TimerManager_getNextTimer tm now))" by (rule timer_inv_getNextTimer [OF inv])
  show "fst (TimerManager_getNextTimer tm now) = NOT 0" if "\<And>p. deadline tm p = None"
    using that by (cases "m_timers tm") (auto simp: deadline_unfold getNextTimer_value)
  show "\<exists>q e. deadline tm q = Some e \<and> (\<forall>r f. deadline tm r = Some f \<longrightarrow> e \<le> f) \<and>
      fst (TimerManager_getNextTimer tm now) = (if now \<ge> e then 0 else e - now)"
    if "deadline tm p = Some d"
  proof -
    have "m_timers tm \<noteq> []" using that by (auto simp: deadline_unfold)
    then have hd: "hd (m_timers tm) \<in> set (m_timers tm)" by simp
    then show ?thesis
      using hd_earliest [OF inv]
      by (intro exI [of _ "hd (m_timers tm)"] exI [of _ "next_of tm (hd (m_timers tm))"])
        (auto simp: deadline_unfold getNextTimer_value split: list.splits)
  qed
  assume a: "deadline tm a = None"
  show "fst (TimerManager_listExpiredCb tm a now) \<noteq> []" if "deadline tm p = Some d" "d \<le> now"
  proof -
    have "p \<in> set (due tm now)" using that by (auto simp: due_def deadline_unfold)
    then show ?thesis
      using listExpiredCb_correct [OF inv, of a now] a by (auto simp: deadline_unfold)
  qed
  show "timer_inv (snd (TimerManager_listExpiredCb tm a now))"
    using listExpiredCb_correct [OF inv, of a now] a by (auto simp: deadline_unfold)
qed

section \<open>Reachable states\<close>

text \<open>
  The steps of the manager and of its handles. A new timer gets an address that was never used and
  a callback; the temporary of \<open>listExpiredCb\<close> gets an unused address.
\<close>

inductive timer_step :: "'cb timer_manager \<Rightarrow> 'cb timer_manager \<Rightarrow> bool" where
  step_add: "tm_heap tm p = None \<Longrightarrow> cb \<noteq> None \<Longrightarrow>
     timer_step tm (fst (TimerManager_addTimer tm p now ms cb recurring))"
| step_next: "timer_step tm (snd (TimerManager_getNextTimer tm now))"
| step_expire: "tm_heap tm now_ptr = None \<Longrightarrow>
     timer_step tm (snd (TimerManager_listExpiredCb tm now_ptr now))"
| step_cancel: "Timer_cancel tm p = Inr (b, tm') \<Longrightarrow> timer_step tm tm'"
| step_refresh: "Timer_refresh tm p now = Inr (b, tm') \<Longrightarrow> timer_step tm tm'"
| step_reset: "Timer_reset tm p now ms from_now = Inr (b, tm', front) \<Longrightarrow> timer_step tm tm'"

inductive timer_reachable :: "'cb timer_manager \<Rightarrow> bool" where
  timer_start: "timer_reachable (TimerManager_new now)"
| timer_next: "timer_reachable tm \<Longrightarrow> timer_step tm tm' \<Longrightarrow> timer_reachable tm'"

lemma heap_None_not_armed: "timer_inv tm \<Longrightarrow> tm_heap tm p = None \<Longrightarrow> p \<notin> set (m_timers tm)"
  by (auto simp: timer_inv_def deref_def Timer_at_def)

lemma timer_step_inv: "timer_step tm tm' \<Longrightarrow> timer_inv tm \<Longrightarrow> timer_inv tm'"
proof (induction rule: timer_step.induct)
  case (step_expire tm now_ptr now)
  then show ?case
    using tq.expire_keeps [of tm now_ptr now] heap_None_not_armed by (auto simp: deadline_unfold)
next
  case (step_cancel tm p b tm')
  then show ?case using cancel_correct [of tm p] by auto
next
  case (step_refresh tm p now b tm')
  then show ?case using refresh_correct [of tm p now] by auto
next
  case (step_reset tm p now ms from_now b tm' front)
  show ?case
  proof (cases "ms \<noteq> m_ms (deref (tm_heap tm) p) \<or> from_now")
    case True
    then show ?thesis using reset_correct [OF step_reset(2) True, of now] step_reset(1) by auto
  next
    case False
    then show ?thesis using step_reset by (auto simp: Timer_reset_def)
  qed
qed (auto intro: inv_intros)

lemma timer_reachable_inv: "timer_reachable tm \<Longrightarrow> timer_inv tm"
  by (induction rule: timer_reachable.induct) (auto intro: timer_inv_new timer_step_inv)

section \<open>Properties\<close>

definition example_timers :: "string timer_manager" where
  "example_timers =
     fst (TimerManager_addTimer
       (fst (TimerManager_addTimer (TimerManager_new 1000) 7 1000 50 (Some ''tick'') True))
       3 1000 20 (Some ''once'') False)"

lemma example_timers_reachable: "timer_reachable example_timers"
  unfolding example_timers_def
proof (intro timer_next [OF timer_next [OF timer_start]])
  show "timer_step (TimerManager_new 1000)
      (fst (TimerManager_addTimer (TimerManager_new 1000) 7 1000 50 (Some ''tick'') True))"
    by (rule step_add) (simp_all add: TimerManager_new_def)
  show "timer_step (fst (TimerManager_addTimer (TimerManager_new 1000) 7 1000 50 (Some ''tick'') True))
     (fst (TimerManager_addTimer
       (fst (TimerManager_addTimer (TimerManager_new 1000) 7 1000 50 (Some ''tick'') True))
       3 1000 20 (Some ''once'') False))"
    by (rule step_add) (simp_all add: TimerManager_new_def TimerManager_addTimer_def addTimer_locked_eq)
qed

text \<open>
  C8. Invariant of the timer manager: in every reachable state the timers are in strictly increasing
  order of the comparator, a timer is in the set exactly while it has a callback, and cancelling any
  handle succeeds exactly when it is armed; in particular \<open>erase\<close> never receives \<open>end()\<close>.
\<close>

theorem TimerManager_reachable_consistent:
  assumes "timer_reachable tm"
  shows "sorted_wrt (\<lambda>p q. Timer_Comparator (tm_heap tm) (Some p) (Some q)) (m_timers tm) \<and>
         (\<forall>p. p \<in> set (m_timers tm) \<longleftrightarrow> m_cb (deref (tm_heap tm) p) \<noteq> None) \<and>
         (\<forall>p. \<exists>tm'. Timer_cancel tm p = Inr (p \<in> set (m_timers tm), tm') \<and> p \<notin> set (m_timers tm'))"
proof -
  have inv: "timer_inv tm" using timer_reachable_inv [OF assms] .
  then have "distinct (m_timers tm)" using tsorted_distinct by (auto simp: timer_inv_def)
  then have "\<exists>tm'. Timer_cancel tm p = Inr (p \<in> set (m_timers tm), tm') \<and> p \<notin> set (m_timers tm')" for p
    using cancel_correct [OF inv, of p] by (auto simp: set_remove1_eq)
  moreover have "tless (tm_heap tm) = (\<lambda>p q. Timer_Comparator (tm_heap tm) (Some p) (Some q))"
    by (simp add: fun_eq_iff tless_def)
  ultimately show ?thesis using inv by (simp add: timer_inv_def)
qed

theorem TimerManager_reachable_consistent_witness:
  "\<exists>tm'. Timer_cancel example_timers 3 = Inr (3 \<in> set (m_timers example_timers), tm') \<and>
     3 \<notin> set (m_timers tm')"
  using TimerManager_reachable_consistent [OF example_timers_reachable] by blast

text \<open>
  C9. \<open>listExpiredCb\<close> is exact: without a clock rollover it hands out the callbacks of the timers
  whose time has come and of no others, in order of their times (after a rollover, of all timers);
  the one-shot timers among them are disarmed, the recurring ones are armed again for one period
  after \<open>now_ms\<close>, and no other timer changes.
\<close>

theorem TimerManager_listExpiredCb_exact:
  assumes "timer_reachable tm" and "tm_heap tm now_ptr = None"
  shows "\<exists>tm'. TimerManager_listExpiredCb tm now_ptr now =
             (map (\<lambda>p. m_cb (deref (tm_heap tm) p)) (due tm now), tm') \<and>
           set (m_timers tm') =
             set (m_timers tm) - {p \<in> set (due tm now). \<not> m_recurring (deref (tm_heap tm) p)} \<and>
           (\<forall>q. q \<notin> set (due tm now) \<longrightarrow> deref (tm_heap tm') q = deref (tm_heap tm) q) \<and>
           (\<forall>q \<in> set (due tm now). m_recurring (deref (tm_heap tm) q) \<longrightarrow>
              m_next (deref (tm_heap tm') q) = now + m_ms (deref (tm_heap tm) q))"
  using listExpiredCb_correct [OF timer_reachable_inv [OF assms(1)]
      heap_None_not_armed [OF timer_reachable_inv [OF assms(1)] assms(2)]]
  by blast

theorem TimerManager_listExpiredCb_exact_witness:
  "fst (TimerManager_listExpiredCb example_timers 9 1020) = [Some ''once'']"
proof -
  have "tm_heap example_timers 9 = None"
    and "map (\<lambda>p. m_cb (deref (tm_heap example_timers) p)) (due example_timers 1020) = [Some ''once'']"
    by code_simp+
  then show ?thesis
    using TimerManager_listExpiredCb_exact [OF example_timers_reachable, of 9 1020] by auto
qed

text \<open>
  C10. Waking on time: an event loop that sleeps \<open>getNextTimer\<close> milliseconds does not oversleep any
  armed timer, and \<open>listExpiredCb\<close> has a callback to run when it wakes.
\<close>

theorem TimerManager_wakes_on_time:
  assumes "timer_reachable tm" and "p \<in> set (m_timers tm)" and "tm_heap tm now_ptr = None"
  shows "fst (TimerManager_listExpiredCb (snd (TimerManager_getNextTimer tm now)) now_ptr
           (now + fst (TimerManager_getNextTimer tm now))) \<noteq> [] \<and>
         (now \<le> m_next (deref (tm_heap tm) p) \<longrightarrow>
            fst (TimerManager_getNextTimer tm now) \<le> m_next (deref (tm_heap tm) p) - now)"
proof -
  have inv: "timer_inv tm" using timer_reachable_inv [OF assms(1)] .
  have "deadline tm p = Some (next_of tm p)" "deadline tm now_ptr = None"
    using assms(2) heap_None_not_armed [OF inv assms(3)] by (simp_all add: deadline_def)
  then show ?thesis using tq.wake_on_time [OF inv] tq.next_no_later [OF inv] by blast
qed

theorem TimerManager_wakes_on_time_witness:
  "fst (TimerManager_listExpiredCb (snd (TimerManager_getNextTimer example_timers 1005)) 9
     (1005 + fst (TimerManager_getNextTimer example_timers 1005))) \<noteq> []"
proof -
  have "tm_heap example_timers 9 = None" "3 \<in> set (m_timers example_timers)" by code_simp+
  then show ?thesis using TimerManager_wakes_on_time [OF example_timers_reachable] by blast
qed

text \<open>
  \<open>addTimer\<close> arms exactly the new timer, for \<open>now + ms\<close>, and calls \<open>onTimerInsertedAtFront\<close>
  exactly when no wake-up is pending and the new timer is due before every other one.
\<close>

theorem TimerManager_addTimer_spec:
  assumes "timer_reachable tm" and "tm_heap tm p = None" and "cb \<noteq> None"
    and "TimerManager_addTimer tm p now ms cb recurring = (tm', front)"
  shows "deadline tm' = (deadline tm)(p \<mapsto> now + ms) \<and>
         (front \<longleftrightarrow> \<not> m_tickled tm \<and>
            (\<forall>q \<in> set (m_timers tm). now + ms < m_next (deref (tm_heap tm) q) \<or>
               now + ms = m_next (deref (tm_heap tm) q) \<and> p < q)) \<and>
         (m_tickled tm' \<longleftrightarrow> m_tickled tm \<or> front)"
proof -
  let ?h = "(tm_heap tm)(p \<mapsto> Timer_new now ms cb recurring)"
  have inv: "timer_inv tm" using timer_reachable_inv [OF assms(1)] .
  have p: "p \<notin> set (m_timers tm)" using heap_None_not_armed [OF inv assms(2)] .
  have tm': "tm' = tm\<lparr>tm_heap := ?h, m_timers := set_insert ?h p (m_timers tm),
        m_tickled := m_tickled tm \<or> hd (set_insert ?h p (m_timers tm)) = p\<rparr>"
      and front: "front = (hd (set_insert ?h p (m_timers tm)) = p \<and> \<not> m_tickled tm)"
    using assms(4) by (simp_all add: TimerManager_addTimer_def addTimer_locked_eq)
  have s: "tsorted ?h (m_timers tm)"
    using inv p by (subst tsorted_cong [where h = "tm_heap tm"]) (auto simp: deref_update timer_inv_def)
  have "hd (set_insert ?h p (m_timers tm)) = p \<longleftrightarrow> (\<forall>q \<in> set (m_timers tm). tless ?h p q)"
    using p s by (cases "m_timers tm") (auto dest: tless_asym intro: tless_trans)
  also have "\<dots> \<longleftrightarrow> (\<forall>q \<in> set (m_timers tm). now + ms < next_of tm q \<or> now + ms = next_of tm q \<and> p < q)"
    using p by (intro ball_cong refl) (auto simp: tless_iff deref_update Timer_new_def)
  finally have hd: "hd (set_insert ?h p (m_timers tm)) = p \<longleftrightarrow>
      (\<forall>q \<in> set (m_timers tm). now + ms < next_of tm q \<or> now + ms = next_of tm q \<and> p < q)" .
  have "deadline tm' = (deadline tm)(p \<mapsto> now + ms)"
    by (auto simp: fun_eq_iff deadline_def tm' deref_update Timer_new_def)
  then show ?thesis using front hd tm' by auto
qed

theorem TimerManager_addTimer_spec_witness:
  "snd (TimerManager_addTimer (TimerManager_new 0 :: string timer_manager) 3 10 20 (Some ''x'') False)"
proof -
  let ?r = "TimerManager_addTimer (TimerManager_new 0 :: string timer_manager) 3 10 20 (Some ''x'') False"
  have "tm_heap (TimerManager_new 0 :: string timer_manager) 3 = None"
    "m_timers (TimerManager_new 0 :: string timer_manager) = []"
    "\<not> m_tickled (TimerManager_new 0 :: string timer_manager)"
    by (simp_all add: TimerManager_new_def)
  then show ?thesis
    using TimerManager_addTimer_spec [OF timer_start [of 0], of 3 "Some ''x''" 10 20 False "fst ?r" "snd ?r"]
    by simp
qed

end
