(* ===== verification/IO_Manager.thy ===== *)
theory IO_Manager
  imports Scheduler Timer
begin

text \<open>
  \<^verbatim>\<open>sylar/iomanager.h\<close> and \<^verbatim>\<open>sylar/iomanager.cc\<close>: the event loop on epoll.

  The contexts \<open>m_fdContexts\<close> are a list indexed by file descriptor. The schedulers an event may hand
  its continuation to are identified by a number (\<open>Scheduler*\<close>) and kept in \<open>io_sched\<close>. The kernel
  is outside: the return value of every \<open>epoll_ctl\<close> is an argument \<open>rt\<close>, and \<open>ep_reg fd\<close> records what
  the last successful call for \<open>fd\<close> asked for (\<^const>\<open>None\<close> after a deletion); what \<open>epoll_wait\<close>
  reports is an argument too. Each operation holds the context's mutex, so it is one step. Logging
  is left out.
\<close>

section \<open>State\<close>

definition NONE :: u32 where "NONE = 0"
definition READ :: u32 where "READ = 1"
definition WRITE :: u32 where "WRITE = 4"
definition EPOLLIN :: u32 where "EPOLLIN = 1"
definition EPOLLOUT :: u32 where "EPOLLOUT = 4"
definition EPOLLERR :: u32 where "EPOLLERR = 8"
definition EPOLLHUP :: u32 where "EPOLLHUP = 16"
definition EPOLLET :: u32 where "EPOLLET = 2147483648"

lemmas event_defs = NONE_def READ_def WRITE_def EPOLLIN_def EPOLLOUT_def EPOLLERR_def EPOLLHUP_def
  EPOLLET_def

datatype io_error = Assert string | Null_scheduler | Bad_index

datatype ctl_op = EPOLL_CTL_ADD | EPOLL_CTL_MOD | EPOLL_CTL_DEL

record 'cb EventContext =
  ec_scheduler :: "nat option"
  ec_fiber :: "nat option"
  ec_cb :: "'cb option"

record 'cb FdContext =
  ctx_read :: "'cb EventContext"
  ctx_write :: "'cb EventContext"
  ctx_fd :: nat
  ctx_events :: u32

record 'cb io_manager =
  m_fdContexts :: "'cb FdContext list"
  m_pendingEventCount :: nat
  io_sched :: "nat \<Rightarrow> 'cb scheduler"
  ep_reg :: "nat \<Rightarrow> u32 option"
  io_timers :: "'cb timer_manager"
  io_pipe :: nat

definition EventContext_new :: "'cb EventContext" where
  "EventContext_new = \<lparr>ec_scheduler = None, ec_fiber = None, ec_cb = None\<rparr>"

definition FdContext_new :: "nat \<Rightarrow> 'cb FdContext" where
  "FdContext_new i = \<lparr>ctx_read = EventContext_new, ctx_write = EventContext_new, ctx_fd = i,
     ctx_events = NONE\<rparr>"

definition io_assert :: "bool \<Rightarrow> string \<Rightarrow> io_error + unit" where
  "io_assert x what = (if x then Inr () else Inl (Assert what))"

section \<open>Contexts\<close>

definition FdContext_getContext :: "'cb FdContext \<Rightarrow> u32 \<Rightarrow> io_error + 'cb EventContext" where
  "FdContext_getContext ctx event =
     (if event = READ then Inr (ctx_read ctx)
      else if event = WRITE then Inr (ctx_write ctx)
      else Inl (Assert ''getContext''))"

definition set_context :: "'cb FdContext \<Rightarrow> u32 \<Rightarrow> 'cb EventContext \<Rightarrow> 'cb FdContext" where
  "set_context ctx event ec =
     (if event = READ then ctx\<lparr>ctx_read := ec\<rparr> else ctx\<lparr>ctx_write := ec\<rparr>)"

definition FdContext_resetContext :: "'cb EventContext \<Rightarrow> 'cb EventContext" where
  "FdContext_resetContext ec = ec\<lparr>ec_scheduler := None, ec_fiber := None, ec_cb := None\<rparr>"

text \<open>
  \<open>schedule(&ctx.cb)\<close> and \<open>schedule(&ctx.fiber)\<close> swap the pointee into the task, which leaves it null.
\<close>

definition FdContext_triggerEvent ::
    "'cb FdContext \<Rightarrow> u32 \<Rightarrow> (nat \<Rightarrow> 'cb scheduler) \<Rightarrow>
     io_error + 'cb FdContext \<times> (nat \<Rightarrow> 'cb scheduler)" where
  "FdContext_triggerEvent ctx event sched =
     bindE (io_assert (ctx_events ctx AND event \<noteq> 0) ''events & event'') (\<lambda>_.
     let ctx = ctx\<lparr>ctx_events := ctx_events ctx AND NOT event\<rparr> in
     bindE (FdContext_getContext ctx event) (\<lambda>ec.
     case ec_scheduler ec of
       None \<Rightarrow> Inl Null_scheduler
     | Some sid \<Rightarrow>
         if ec_cb ec \<noteq> None then
           Inr (set_context ctx event (ec\<lparr>ec_cb := None, ec_scheduler := None\<rparr>),
                sched(sid := Scheduler_schedule (sched sid) (FiberAndThread_cb (ec_cb ec) (- 1))))
         else
           Inr (set_context ctx event (ec\<lparr>ec_fiber := None, ec_scheduler := None\<rparr>),
                sched(sid := Scheduler_schedule (sched sid) (FiberAndThread_fiber (ec_fiber ec) (- 1))))))"

section \<open>Operations\<close>

definition contextResize :: "nat \<Rightarrow> 'cb FdContext list \<Rightarrow> 'cb FdContext list" where
  "contextResize n ctxs = take n ctxs @ map FdContext_new [length ctxs..<n]"

text \<open>The constructor, with the pipe and epoll set up: \<open>p\<close> is the read end of the pipe.\<close>

definition IOManager_new :: "(nat \<Rightarrow> 'cb scheduler) \<Rightarrow> nat \<Rightarrow> u64 \<Rightarrow> 'cb io_manager" where
  "IOManager_new sched p now =
     \<lparr>m_fdContexts = contextResize 32 [], m_pendingEventCount = 0, io_sched = sched,
      ep_reg = Map.empty, io_timers = TimerManager_new now, io_pipe = p\<rparr>"

definition epoll_ctl :: "'cb io_manager \<Rightarrow> ctl_op \<Rightarrow> nat \<Rightarrow> u32 \<Rightarrow> 'cb io_manager" where
  "epoll_ctl io oper fd events =
     io\<lparr>ep_reg := (ep_reg io)(fd := if oper = EPOLL_CTL_DEL then None else Some events)\<rparr>"

definition set_ctx :: "'cb io_manager \<Rightarrow> nat \<Rightarrow> 'cb FdContext \<Rightarrow> 'cb io_manager" where
  "set_ctx io fd ctx = io\<lparr>m_fdContexts := (m_fdContexts io)[fd := ctx]\<rparr>"

text \<open>
  \<open>addEvent\<close>: \<open>rt\<close> is what \<open>epoll_ctl\<close> returns, \<open>this\<close> the calling thread's scheduler, \<open>cur\<close> its
  current fiber and \<open>cur_state\<close> that fiber's state.
\<close>

definition IOManager_addEvent ::
    "'cb io_manager \<Rightarrow> nat \<Rightarrow> u32 \<Rightarrow> 'cb option \<Rightarrow> int \<Rightarrow> nat option \<Rightarrow> nat \<Rightarrow> State \<Rightarrow>
     io_error + int \<times> 'cb io_manager" where
  "IOManager_addEvent io fd event callback rt this cur cur_state =
     (let io = (if length (m_fdContexts io) > fd then io
                else io\<lparr>m_fdContexts := contextResize (fd * 3 div 2) (m_fdContexts io)\<rparr>) in
      if length (m_fdContexts io) \<le> fd then Inl Bad_index
      else
        let ctx = m_fdContexts io ! fd in
        bindE (io_assert (ctx_events ctx AND event = 0) ''!(fd_ctx->events & event)'') (\<lambda>_.
        let oper = (if ctx_events ctx \<noteq> 0 then EPOLL_CTL_MOD else EPOLL_CTL_ADD) in
        if rt \<noteq> 0 then Inr (- 1, io)
        else
          let io = epoll_ctl io oper fd (EPOLLET OR ctx_events ctx OR event);
              io = io\<lparr>m_pendingEventCount := m_pendingEventCount io + 1\<rparr>;
              ctx = ctx\<lparr>ctx_events := ctx_events ctx OR event\<rparr>
          in
          bindE (FdContext_getContext ctx event) (\<lambda>ec.
          bindE (io_assert (ec_scheduler ec = None \<and> ec_fiber ec = None \<and> ec_cb ec = None)
                   ''!event_ctx.scheduler && !event_ctx.fiber && !event_ctx.cb'') (\<lambda>_.
          let ec = ec\<lparr>ec_scheduler := this\<rparr> in
          if callback \<noteq> None then Inr (0, set_ctx io fd (set_context ctx event (ec\<lparr>ec_cb := callback\<rparr>)))
          else
            bindE (io_assert (cur_state = Fiber_EXEC) ''state='') (\<lambda>_.
            Inr (0, set_ctx io fd (set_context ctx event (ec\<lparr>ec_fiber := Some cur\<rparr>))))))))"

definition IOManager_delEvent ::
    "'cb io_manager \<Rightarrow> nat \<Rightarrow> u32 \<Rightarrow> int \<Rightarrow> io_error + bool \<times> 'cb io_manager" where
  "IOManager_delEvent io fd event rt =
     (if length (m_fdContexts io) \<le> fd then Inr (False, io)
      else
        let ctx = m_fdContexts io ! fd in
        if ctx_events ctx AND event = 0 then Inr (False, io)
        else
          let new_events = ctx_events ctx AND NOT event;
              oper = (if new_events \<noteq> 0 then EPOLL_CTL_MOD else EPOLL_CTL_DEL)
          in
          if rt \<noteq> 0 then Inr (False, io)
          else
            let io = epoll_ctl io oper fd (EPOLLET OR new_events);
                io = io\<lparr>m_pendingEventCount := m_pendingEventCount io - 1\<rparr>;
                ctx = ctx\<lparr>ctx_events := new_events\<rparr>
            in
            bindE (FdContext_getContext ctx event) (\<lambda>ec.
            Inr (True, set_ctx io fd (set_context ctx event (FdContext_resetContext ec)))))"

definition IOManager_cancelEvent ::
    "'cb io_manager \<Rightarrow> nat \<Rightarrow> u32 \<Rightarrow> int \<Rightarrow> io_error + bool \<times> 'cb io_manager" where
  "IOManager_cancelEvent io fd event rt =
     (if length (m_fdContexts io) \<le> fd then Inr (False, io)
      else
        let ctx = m_fdContexts io ! fd in
        if ctx_events ctx AND event = 0 then Inr (False, io)
        else
          let new_events = ctx_events ctx AND NOT event;
              oper = (if new_events \<noteq> 0 then EPOLL_CTL_MOD else EPOLL_CTL_DEL)
          in
          if rt \<noteq> 0 then Inr (False, io)
          else
            let io = epoll_ctl io oper fd (EPOLLET OR new_events) in
            bindE (FdContext_triggerEvent ctx event (io_sched io)) (\<lambda>(ctx, sched).
            Inr (True, (set_ctx io fd ctx)
                   \<lparr>io_sched := sched, m_pendingEventCount := m_pendingEventCount io - 1\<rparr>)))"

text \<open>Triggering an event of a context if it is set, as \<open>cancelAll\<close> does twice.\<close>

definition trigger_if ::
    "bool \<Rightarrow> u32 \<Rightarrow> 'cb io_manager \<Rightarrow> nat \<Rightarrow> io_error + 'cb io_manager" where
  "trigger_if b event io fd =
     (if b then
        bindE (FdContext_triggerEvent (m_fdContexts io ! fd) event (io_sched io)) (\<lambda>(ctx, sched).
        Inr ((set_ctx io fd ctx)
               \<lparr>io_sched := sched, m_pendingEventCount := m_pendingEventCount io - 1\<rparr>))
      else Inr io)"

definition IOManager_cancelAll ::
    "'cb io_manager \<Rightarrow> nat \<Rightarrow> int \<Rightarrow> io_error + bool \<times> 'cb io_manager" where
  "IOManager_cancelAll io fd rt =
     (if length (m_fdContexts io) \<le> fd then Inr (False, io)
      else
        let ctx = m_fdContexts io ! fd in
        if ctx_events ctx = 0 then Inr (False, io)
        else if rt \<noteq> 0 then Inr (False, io)
        else
          let io = epoll_ctl io EPOLL_CTL_DEL fd 0 in
          bindE (trigger_if (ctx_events (m_fdContexts io ! fd) AND READ \<noteq> 0) READ io fd) (\<lambda>io.
          bindE (trigger_if (ctx_events (m_fdContexts io ! fd) AND WRITE \<noteq> 0) WRITE io fd) (\<lambda>io.
          bindE (io_assert (ctx_events (m_fdContexts io ! fd) = 0) ''fd_ctx->events == 0'') (\<lambda>_.
          Inr (True, io)))))"

section \<open>The event loop\<close>

text \<open>
  \<open>idle\<close> for one entry \<open>events[i]\<close> that \<open>epoll_wait\<close> filled in: the context \<open>fd\<close> it points to and the
  reported mask; \<open>rt2\<close> is what \<open>epoll_ctl\<close> returns.
\<close>

definition idle_event ::
    "'cb io_manager \<Rightarrow> nat \<Rightarrow> u32 \<Rightarrow> int \<Rightarrow> io_error + 'cb io_manager" where
  "idle_event io fd events rt2 =
     (if length (m_fdContexts io) \<le> fd then Inl Bad_index
      else
        let ctx = m_fdContexts io ! fd;
            events = (if events AND (EPOLLERR OR EPOLLHUP) \<noteq> 0
                      then events OR ((EPOLLIN OR EPOLLOUT) AND ctx_events ctx) else events);
            real_events = NONE;
            real_events = (if events AND EPOLLIN \<noteq> 0 then real_events OR READ else real_events);
            real_events = (if events AND EPOLLOUT \<noteq> 0 then real_events OR WRITE else real_events)
        in
        if ctx_events ctx AND real_events = NONE then Inr io
        else
          let left_events = ctx_events ctx AND NOT real_events;
              oper = (if left_events \<noteq> 0 then EPOLL_CTL_MOD else EPOLL_CTL_DEL)
          in
          if rt2 \<noteq> 0 then Inr io
          else
            let io = epoll_ctl io oper fd (EPOLLET OR left_events) in
            bindE (trigger_if (real_events AND READ \<noteq> 0) READ io fd) (\<lambda>io.
            trigger_if (real_events AND WRITE \<noteq> 0) WRITE io fd))"

text \<open>An entry is the pipe's (the wake-up) or a context's with its mask.\<close>

datatype ready = Wake_up | Fd_ready nat u32 int

fun idle_events :: "ready list \<Rightarrow> 'cb io_manager \<Rightarrow> io_error + 'cb io_manager" where
  "idle_events [] io = Inr io"
| "idle_events (Wake_up # es) io = idle_events es io"
| "idle_events (Fd_ready fd evs rt2 # es) io = bindE (idle_event io fd evs rt2) (idle_events es)"

text \<open>The argument of \<open>epoll_wait\<close>: \<open>next_timeout\<close> clipped and converted to \<open>int\<close>.\<close>

definition MAX_TIMEOUT :: int where "MAX_TIMEOUT = 3000"

definition to_int32 :: "u64 \<Rightarrow> int" where
  "to_int32 v = sint (ucast v :: u32)"

definition idle_timeout :: "u64 \<Rightarrow> int" where
  "idle_timeout next_timeout =
     (let next_timeout =
        (if next_timeout \<noteq> NOT 0 then
           (if to_int32 next_timeout > MAX_TIMEOUT then of_int MAX_TIMEOUT else next_timeout)
         else of_int MAX_TIMEOUT)
      in to_int32 next_timeout)"

definition IOManager_stopping_timeout ::
    "'cb io_manager \<Rightarrow> nat \<Rightarrow> u64 \<Rightarrow> bool \<times> u64 \<times> 'cb io_manager" where
  "IOManager_stopping_timeout io self now =
     (let (timeout, tm) = TimerManager_getNextTimer (io_timers io) now in
      (timeout = NOT 0 \<and> m_pendingEventCount io = 0 \<and> Scheduler_stopping (io_sched io self),
       timeout, io\<lparr>io_timers := tm\<rparr>))"

text \<open>
  One round of the loop of \<open>idle\<close>: \<open>now\<close> is the time when it asks for the next timer, \<open>later\<close> the time
  when \<open>epoll_wait\<close> has returned the entries \<open>es\<close>. The result says whether the loop ends.
\<close>

definition idle_round ::
    "'cb io_manager \<Rightarrow> nat \<Rightarrow> u64 \<Rightarrow> u64 \<Rightarrow> nat \<Rightarrow> ready list \<Rightarrow> io_error + bool \<times> 'cb io_manager" where
  "idle_round io self now later now_ptr es =
     (let (stop, next_timeout, io) = IOManager_stopping_timeout io self now in
      if stop then Inr (True, io)
      else
        let (cbs, tm) = TimerManager_listExpiredCb (io_timers io) now_ptr later;
            io = io\<lparr>io_timers := tm\<rparr>;
            io = (if cbs \<noteq> [] then
                    io\<lparr>io_sched := (io_sched io)
                        (self := Scheduler_schedule_range (io_sched io self)
                                   (map (\<lambda>c. FiberAndThread_cb c (- 1)) cbs))\<rparr>
                  else io)
        in bindE (idle_events es io) (\<lambda>io. Inr (False, io)))"

definition IOManager_tickle :: "'cb io_manager \<Rightarrow> nat \<Rightarrow> bool" where
  "IOManager_tickle io self \<longleftrightarrow> Scheduler_hasIdleThreads (io_sched io self)"

section \<open>Invariant\<close>

text \<open>
  The bits of \<open>events\<close> say which of the two event contexts holds a continuation; the pending count is
  the number of those bits; and epoll was last asked to watch exactly those events.
\<close>

definition armed :: "'cb EventContext \<Rightarrow> bool" where
  "armed ec \<longleftrightarrow> ec_scheduler ec \<noteq> None \<and> (ec_fiber ec = None) \<noteq> (ec_cb ec = None)"

definition clear :: "'cb EventContext \<Rightarrow> bool" where
  "clear ec \<longleftrightarrow> ec_scheduler ec = None \<and> ec_fiber ec = None \<and> ec_cb ec = None"

definition ctx_ok :: "'cb FdContext \<Rightarrow> bool" where
  "ctx_ok ctx \<longleftrightarrow> ctx_events ctx \<in> {0, 1, 4, 5} \<and>
     (if ctx_events ctx \<in> {1, 5} then armed (ctx_read ctx) else clear (ctx_read ctx)) \<and>
     (if ctx_events ctx \<in> {4, 5} then armed (ctx_write ctx) else clear (ctx_write ctx))"

definition ctx_count :: "'cb FdContext \<Rightarrow> nat" where
  "ctx_count ctx = (if ctx_events ctx AND READ \<noteq> 0 then 1 else 0) +
     (if ctx_events ctx AND WRITE \<noteq> 0 then 1 else 0)"

definition interest :: "u32 \<Rightarrow> u32 option" where
  "interest evs = (if evs = 0 then None else Some (EPOLLET OR evs))"

definition io_inv :: "'cb io_manager \<Rightarrow> bool" where
  "io_inv io \<longleftrightarrow> 32 \<le> length (m_fdContexts io) \<and>
     (\<forall>i < length (m_fdContexts io). ctx_ok (m_fdContexts io ! i) \<and> ctx_fd (m_fdContexts io ! i) = i \<and>
        ep_reg io i = interest (ctx_events (m_fdContexts io ! i))) \<and>
     (\<forall>i \<ge> length (m_fdContexts io). ep_reg io i = None) \<and>
     m_pendingEventCount io = sum_list (map ctx_count (m_fdContexts io)) \<and>
     timer_inv (io_timers io)"

lemma sum_list_update_add:
  fixes f :: "'a \<Rightarrow> nat"
  shows "i < length xs \<Longrightarrow> sum_list (map f (xs[i := x])) + f (xs ! i) = sum_list (map f xs) + f x"
  by (induction xs arbitrary: i) (auto split: nat.splits)

lemma FdContext_new_ok [simp]:
  "ctx_ok (FdContext_new i)" "ctx_fd (FdContext_new i) = i" "ctx_count (FdContext_new i) = 0"
  "ctx_events (FdContext_new i) = 0"
  by (simp_all add: ctx_ok_def FdContext_new_def clear_def EventContext_new_def ctx_count_def event_defs)

lemma contextResize_grow:
  assumes "length ctxs \<le> n"
  shows "length (contextResize n ctxs) = n"
    and "i < length ctxs \<Longrightarrow> contextResize n ctxs ! i = ctxs ! i"
    and "length ctxs \<le> i \<Longrightarrow> i < n \<Longrightarrow> contextResize n ctxs ! i = FdContext_new i"
    and "sum_list (map ctx_count (contextResize n ctxs)) = sum_list (map ctx_count ctxs)"
proof -
  have "map (ctx_count \<circ> FdContext_new) ks = map (\<lambda>_. 0) ks" for ks by (induction ks) simp_all
  then have "sum_list (map ctx_count (map FdContext_new [length ctxs..<n])) = 0" by simp
  then show "sum_list (map ctx_count (contextResize n ctxs)) = sum_list (map ctx_count ctxs)"
    using assms by (simp add: contextResize_def)
qed (use assms in \<open>auto simp: contextResize_def nth_append\<close>)

lemma io_inv_new: "io_inv (IOManager_new sched p now :: 'cb io_manager)"
  using contextResize_grow [of "[] :: 'cb FdContext list" 32]
  by (auto simp: io_inv_def IOManager_new_def interest_def timer_inv_new)

lemma io_inv_resize:
  assumes "io_inv io" and "length (m_fdContexts io) \<le> n"
  shows "io_inv (io\<lparr>m_fdContexts := contextResize n (m_fdContexts io)\<rparr>)"
proof -
  note g = contextResize_grow [OF assms(2)]
  have "ctx_ok (contextResize n (m_fdContexts io) ! i) \<and> ctx_fd (contextResize n (m_fdContexts io) ! i) = i \<and>
      ep_reg io i = interest (ctx_events (contextResize n (m_fdContexts io) ! i))" if "i < n" for i
    using assms(1) that g(2,3) by (cases "i < length (m_fdContexts io)") (auto simp: io_inv_def interest_def)
  then show ?thesis using assms g(1,4) by (auto simp: io_inv_def)
qed

lemma io_inv_update:
  assumes "io_inv io" and "fd < length (m_fdContexts io)" and "ctx_ok ctx" and "ctx_fd ctx = fd"
    and "n + ctx_count (m_fdContexts io ! fd) = m_pendingEventCount io + ctx_count ctx"
  shows "io_inv (io\<lparr>m_fdContexts := (m_fdContexts io)[fd := ctx], m_pendingEventCount := n,
           ep_reg := (ep_reg io)(fd := interest (ctx_events ctx))\<rparr>)"
  using assms sum_list_update_add [OF assms(2), of ctx_count ctx]
  by (auto simp: io_inv_def nth_list_update)

lemma io_inv_sched [simp]: "io_inv (io\<lparr>io_sched := sched\<rparr>) = io_inv io"
  by (simp add: io_inv_def)

lemma io_invD:
  assumes "io_inv io" and "fd < length (m_fdContexts io)"
  shows "ctx_ok (m_fdContexts io ! fd)" and "ctx_fd (m_fdContexts io ! fd) = fd"
    and "ep_reg io fd = interest (ctx_events (m_fdContexts io ! fd))"
    and "ctx_count (m_fdContexts io ! fd) \<le> m_pendingEventCount io"
proof -
  show "ctx_ok (m_fdContexts io ! fd)" "ctx_fd (m_fdContexts io ! fd) = fd"
    "ep_reg io fd = interest (ctx_events (m_fdContexts io ! fd))"
    using assms by (simp_all add: io_inv_def)
  have "ctx_count (m_fdContexts io ! fd) \<in> set (map ctx_count (m_fdContexts io))"
    using assms(2) by simp
  from member_le_sum_list [OF this] show "ctx_count (m_fdContexts io ! fd) \<le> m_pendingEventCount io"
    using assms(1) by (simp add: io_inv_def)
qed

section \<open>The operations keep the invariant\<close>

lemma ctx_cases:
  assumes "ctx_ok ctx"
  obtains "ctx_events ctx = 0" | "ctx_events ctx = 1" | "ctx_events ctx = 4" | "ctx_events ctx = 5"
  using assms by (auto simp: ctx_ok_def)

lemma set_context_simps [simp]:
  "ctx_fd (set_context ctx event ec) = ctx_fd ctx"
  "ctx_events (set_context ctx event ec) = ctx_events ctx"
  by (simp_all add: set_context_def)

text \<open>Triggering a set event: the continuation goes to its scheduler and the context is clear.\<close>

definition continuation :: "'cb EventContext \<Rightarrow> 'cb FiberAndThread" where
  "continuation ec = (if ec_cb ec \<noteq> None then FiberAndThread_cb (ec_cb ec) (- 1)
                      else FiberAndThread_fiber (ec_fiber ec) (- 1))"

definition event_ctx :: "'cb FdContext \<Rightarrow> u32 \<Rightarrow> 'cb EventContext" where
  "event_ctx ctx event = (if event = READ then ctx_read ctx else ctx_write ctx)"

definition hand_over ::
    "(nat \<Rightarrow> 'cb scheduler) \<Rightarrow> 'cb EventContext \<Rightarrow> nat \<Rightarrow> 'cb scheduler" where
  "hand_over sched ec =
     (case ec_scheduler ec of None \<Rightarrow> sched
      | Some sid \<Rightarrow> sched(sid := Scheduler_schedule (sched sid) (continuation ec)))"

lemma event_set_armed:
  assumes "ctx_ok ctx" and "event = READ \<or> event = WRITE" and "ctx_events ctx AND event \<noteq> 0"
  shows "armed (event_ctx ctx event)"
  using assms(2,3) assms(1)
  by (rule_tac ctx_cases [OF assms(1)]) (auto simp: event_ctx_def ctx_ok_def event_defs)

lemma ctx_clear_event:
  assumes "ctx_ok ctx" and "event = READ \<or> event = WRITE" and "ctx_events ctx AND event \<noteq> 0"
    and "clear ec"
  shows "ctx_ok (set_context (ctx\<lparr>ctx_events := ctx_events ctx AND NOT event\<rparr>) event ec)"
    and "ctx_count ctx =
           ctx_count (set_context (ctx\<lparr>ctx_events := ctx_events ctx AND NOT event\<rparr>) event ec) + 1"
    and "event_ctx (set_context (ctx\<lparr>ctx_events := ctx_events ctx AND NOT event\<rparr>) event ec) event = ec"
proof -
  show "ctx_ok (set_context (ctx\<lparr>ctx_events := ctx_events ctx AND NOT event\<rparr>) event ec)"
    using assms(2-4) assms(1)
    by (rule_tac ctx_cases [OF assms(1)]) (auto simp: set_context_def ctx_ok_def event_defs)
  show "ctx_count ctx =
      ctx_count (set_context (ctx\<lparr>ctx_events := ctx_events ctx AND NOT event\<rparr>) event ec) + 1"
    using assms(2,3)
    by (rule_tac ctx_cases [OF assms(1)]) (auto simp: ctx_count_def event_defs)
  show "event_ctx (set_context (ctx\<lparr>ctx_events := ctx_events ctx AND NOT event\<rparr>) event ec) event = ec"
    using assms(2) by (auto simp: event_ctx_def set_context_def event_defs)
qed

lemma getContext_event:
  "event = READ \<or> event = WRITE \<Longrightarrow> FdContext_getContext ctx event = Inr (event_ctx ctx event)"
  by (auto simp: FdContext_getContext_def event_ctx_def event_defs)

lemma event_ctx_events [simp]: "event_ctx (ctx\<lparr>ctx_events := e\<rparr>) event = event_ctx ctx event"
  by (simp add: event_ctx_def)

lemma trigger_correct:
  assumes "ctx_ok ctx" and "event = READ \<or> event = WRITE" and "ctx_events ctx AND event \<noteq> 0"
  shows "\<exists>ctx'. FdContext_triggerEvent ctx event sched = Inr (ctx', hand_over sched (event_ctx ctx event)) \<and>
           ctx_ok ctx' \<and> ctx_fd ctx' = ctx_fd ctx \<and> ctx_events ctx' = ctx_events ctx AND NOT event \<and>
           ctx_count ctx = ctx_count ctx' + 1 \<and> clear (event_ctx ctx' event) \<and>
           wellformed_task (continuation (event_ctx ctx event))"
proof -
  let ?ec = "event_ctx ctx event" and ?base = "ctx\<lparr>ctx_events := ctx_events ctx AND NOT event\<rparr>"
  have armed: "armed ?ec" by (rule event_set_armed [OF assms])
  then obtain sid where sid: "ec_scheduler ?ec = Some sid" by (auto simp: armed_def)
  define ec' where "ec' = (if ec_cb ?ec \<noteq> None then ?ec\<lparr>ec_cb := None, ec_scheduler := None\<rparr>
      else ?ec\<lparr>ec_fiber := None, ec_scheduler := None\<rparr>)"
  have clear: "clear ec'" using armed by (auto simp: clear_def armed_def ec'_def)
  have "FdContext_triggerEvent ctx event sched =
      Inr (set_context ?base event ec', hand_over sched ?ec)"
    using assms(3) sid
    by (simp add: FdContext_triggerEvent_def io_assert_def getContext_event [OF assms(2)] ec'_def
        hand_over_def continuation_def)
  moreover have "wellformed_task (continuation ?ec)"
    using armed by (auto simp: armed_def wellformed_task_def continuation_def FiberAndThread_cb_def
        FiberAndThread_fiber_def)
  ultimately show ?thesis
    using ctx_clear_event [OF assms clear] clear
    by (intro exI [of _ "set_context ?base event ec'"]) simp
qed

definition ctx_at :: "'cb io_manager \<Rightarrow> nat \<Rightarrow> 'cb FdContext" where
  "ctx_at io fd = (if fd < length (m_fdContexts io) then m_fdContexts io ! fd else FdContext_new fd)"

lemma ctx_at_in: "fd < length (m_fdContexts io) \<Longrightarrow> ctx_at io fd = m_fdContexts io ! fd"
  and ctx_at_out: "\<not> fd < length (m_fdContexts io) \<Longrightarrow> ctx_events (ctx_at io fd) = 0"
  by (simp_all add: ctx_at_def)

lemma ctx_at_ok: "io_inv io \<Longrightarrow> ctx_ok (ctx_at io fd) \<and> ctx_fd (ctx_at io fd) = fd"
  by (simp add: ctx_at_def io_invD)

lemma ctx_set_event:
  assumes "ctx_ok ctx" and "event = READ \<or> event = WRITE" and "ctx_events ctx AND event = 0"
    and "armed ec"
  shows "ctx_ok (set_context (ctx\<lparr>ctx_events := ctx_events ctx OR event\<rparr>) event ec)"
    and "ctx_count (set_context (ctx\<lparr>ctx_events := ctx_events ctx OR event\<rparr>) event ec) = ctx_count ctx + 1"
    and "clear (event_ctx ctx event)"
    and "ctx_events ctx OR event \<noteq> 0"
proof -
  show "ctx_ok (set_context (ctx\<lparr>ctx_events := ctx_events ctx OR event\<rparr>) event ec)"
    using assms(2-4) assms(1)
    by (rule_tac ctx_cases [OF assms(1)]) (auto simp: set_context_def ctx_ok_def event_defs)
  show "ctx_count (set_context (ctx\<lparr>ctx_events := ctx_events ctx OR event\<rparr>) event ec) = ctx_count ctx + 1"
    using assms(2,3) by (rule_tac ctx_cases [OF assms(1)]) (auto simp: ctx_count_def event_defs)
  show "clear (event_ctx ctx event)"
    using assms(2,3) assms(1)
    by (rule_tac ctx_cases [OF assms(1)]) (auto simp: event_ctx_def ctx_ok_def event_defs)
  show "ctx_events ctx OR event \<noteq> 0"
    using assms(2) by (rule_tac ctx_cases [OF assms(1)]) (auto simp: event_defs)
qed

lemma event_ctx_set_context:
  "event = READ \<or> event = WRITE \<Longrightarrow> event_ctx (set_context ctx event ec) event = ec"
  by (auto simp: event_ctx_def set_context_def event_defs)

text \<open>\<open>addEvent\<close> for an event that is not set yet, called from a thread with a scheduler.\<close>

definition new_event :: "nat \<Rightarrow> 'cb option \<Rightarrow> nat \<Rightarrow> 'cb EventContext" where
  "new_event sid callback cur =
     \<lparr>ec_scheduler = Some sid, ec_fiber = (if callback = None then Some cur else None), ec_cb = callback\<rparr>"

lemma addEvent_correct:
  assumes "io_inv io" and "event = READ \<or> event = WRITE" and "ctx_events (ctx_at io fd) AND event = 0"
    and "callback \<noteq> None \<or> cur_state = Fiber_EXEC"
  shows "\<exists>io'. IOManager_addEvent io fd event callback rt (Some sid) cur cur_state =
             Inr (if rt = 0 then 0 else - 1, io') \<and> io_inv io' \<and> io_sched io' = io_sched io \<and>
           (if rt = 0 then event_ctx (ctx_at io' fd) event = new_event sid callback cur \<and>
              ctx_events (ctx_at io' fd) = ctx_events (ctx_at io fd) OR event \<and>
              m_pendingEventCount io' = m_pendingEventCount io + 1
            else \<forall>i. ctx_at io' i = ctx_at io i)"
proof -
  define io1 where "io1 = (if length (m_fdContexts io) > fd then io
     else io\<lparr>m_fdContexts := contextResize (fd * 3 div 2) (m_fdContexts io)\<rparr>)"
  have len: "32 \<le> length (m_fdContexts io)" using assms(1) by (simp add: io_inv_def)
  have grow: "length (m_fdContexts io) \<le> fd * 3 div 2 \<and> fd < fd * 3 div 2"
    if "length (m_fdContexts io) \<le> fd"
    using that len by linarith
  have inv1: "io_inv io1"
    using assms(1) io_inv_resize [OF assms(1)] grow by (simp add: io1_def)
  have fd: "fd < length (m_fdContexts io1)" and same: "ctx_at io1 i = ctx_at io i" for i
    using grow contextResize_grow [of "m_fdContexts io" "fd * 3 div 2"]
    by (auto simp: io1_def ctx_at_def not_less)
  have io1: "io_sched io1 = io_sched io" "m_pendingEventCount io1 = m_pendingEventCount io"
    by (simp_all add: io1_def)
  let ?ctx = "m_fdContexts io1 ! fd" and ?ec = "new_event sid callback cur"
  have ctx: "ctx_at io fd = ?ctx" using same [of fd] fd by (simp add: ctx_at_def)
  have start: "IOManager_addEvent io fd event callback rt (Some sid) cur cur_state =
      IOManager_addEvent io1 fd event callback rt (Some sid) cur cur_state"
    using fd by (simp add: IOManager_addEvent_def io1_def [symmetric] Let_def)
  show ?thesis
  proof (cases "rt = 0")
    case False
    then show ?thesis
      using start fd assms(3) inv1 same io1 ctx
      by (simp add: IOManager_addEvent_def io_assert_def Let_def)
  next
    case True
    have armed: "armed ?ec" by (auto simp: armed_def new_event_def)
    have ev: "ctx_events ?ctx AND event = 0" using assms(3) ctx by simp
    note ok = ctx_set_event [OF io_invD(1) [OF inv1 fd] assms(2) ev armed]
    let ?ctx' = "set_context (?ctx\<lparr>ctx_events := ctx_events ?ctx OR event\<rparr>) event ?ec"
    let ?io' = "io1\<lparr>m_fdContexts := (m_fdContexts io1)[fd := ?ctx'],
        m_pendingEventCount := m_pendingEventCount io1 + 1,
        ep_reg := (ep_reg io1)(fd := interest (ctx_events ?ctx'))\<rparr>"
    have "IOManager_addEvent io1 fd event callback rt (Some sid) cur cur_state = Inr (0, ?io')"
    proof -
      have clear: "ec_scheduler (event_ctx ?ctx event) = None" "ec_fiber (event_ctx ?ctx event) = None"
          "ec_cb (event_ctx ?ctx event) = None"
        using ok(3) by (simp_all add: clear_def)
      have ec: "(event_ctx ?ctx event)\<lparr>ec_scheduler := Some sid, ec_cb := callback\<rparr> = ?ec"
        if "callback \<noteq> None"
        using that clear by (cases "event_ctx ?ctx event") (simp add: new_event_def)
      have ec2: "(event_ctx ?ctx event)\<lparr>ec_scheduler := Some sid, ec_fiber := Some cur\<rparr> = ?ec"
        if "callback = None"
        using that clear by (cases "event_ctx ?ctx event") (simp add: new_event_def)
      show ?thesis
        using True fd ev clear ec ec2 assms(4) ok(4)
        by (cases "callback = None")
          (simp_all add: IOManager_addEvent_def io_assert_def Let_def epoll_ctl_def set_ctx_def
            interest_def or.assoc getContext_event [OF assms(2)])
    qed
    moreover have "io_inv ?io'"
      using io_inv_update [OF inv1 fd ok(1), of "m_pendingEventCount io1 + 1"] ok(2)
        io_invD(2) [OF inv1 fd]
      by simp
    ultimately show ?thesis
      using start True fd io1 ctx
      by (simp add: ctx_at_def event_ctx_set_context [OF assms(2)])
  qed
qed

text \<open>
  \<open>cancelAll\<close> and the event loop tell epoll first and trigger the events afterwards; in between the
  invariant holds but for what epoll was asked for \<open>fd\<close>.
\<close>

definition io_inv_but :: "nat \<Rightarrow> 'cb io_manager \<Rightarrow> bool" where
  "io_inv_but fd io \<longleftrightarrow>
     io_inv (io\<lparr>ep_reg := (ep_reg io)(fd := interest (ctx_events (m_fdContexts io ! fd)))\<rparr>)"

lemma io_inv_but_iff:
  "fd < length (m_fdContexts io) \<Longrightarrow>
     io_inv io \<longleftrightarrow> io_inv_but fd io \<and> ep_reg io fd = interest (ctx_events (m_fdContexts io ! fd))"
  by (auto simp: io_inv_but_def io_inv_def)

lemma io_inv_but_epoll:
  assumes "io_inv_but fd io" and "fd < length (m_fdContexts io)"
  shows "io_inv_but fd (epoll_ctl io oper fd evs)"
  using assms by (simp add: io_inv_but_def epoll_ctl_def)

lemma io_inv_but_update:
  assumes "io_inv_but fd io" and "fd < length (m_fdContexts io)" and "ctx_ok ctx" and "ctx_fd ctx = fd"
    and "n + ctx_count (m_fdContexts io ! fd) = m_pendingEventCount io + ctx_count ctx"
  shows "io_inv_but fd ((set_ctx io fd ctx)\<lparr>io_sched := sched, m_pendingEventCount := n\<rparr>)"
  using io_inv_update [OF assms(1) [unfolded io_inv_but_def], of fd ctx n] assms(2-5)
  by (simp add: io_inv_but_def set_ctx_def io_inv_def)

lemma io_inv_butD:
  assumes "io_inv_but fd io" and "fd < length (m_fdContexts io)"
  shows "ctx_ok (m_fdContexts io ! fd)" and "ctx_fd (m_fdContexts io ! fd) = fd"
    and "ctx_count (m_fdContexts io ! fd) \<le> m_pendingEventCount io"
  using io_invD [OF assms(1) [unfolded io_inv_but_def], of fd] assms(2) by simp_all

lemma trigger_other:
  assumes "FdContext_triggerEvent ctx event sched = Inr (ctx', sched')"
  shows "event \<noteq> READ \<Longrightarrow> ctx_read ctx' = ctx_read ctx" and "event = READ \<Longrightarrow> ctx_write ctx' = ctx_write ctx"
  using assms
  by (auto simp: FdContext_triggerEvent_def io_assert_def Let_def bindE_eq_Inr set_context_def
      split: if_splits option.splits)

lemma trigger_if_correct:
  assumes "io_inv_but fd io" and "fd < length (m_fdContexts io)" and "event = READ \<or> event = WRITE"
    and "b \<Longrightarrow> ctx_events (m_fdContexts io ! fd) AND event \<noteq> 0"
  defines "ctx \<equiv> m_fdContexts io ! fd"
  shows "\<exists>io'. trigger_if b event io fd = Inr io' \<and> io_inv_but fd io' \<and>
           length (m_fdContexts io') = length (m_fdContexts io) \<and> ep_reg io' = ep_reg io \<and>
           ctx_events (m_fdContexts io' ! fd) = (if b then ctx_events ctx AND NOT event else ctx_events ctx) \<and>
           io_sched io' = (if b then hand_over (io_sched io) (event_ctx ctx event) else io_sched io) \<and>
           (event = READ \<longrightarrow> ctx_write (m_fdContexts io' ! fd) = ctx_write ctx) \<and>
           m_pendingEventCount io' + (if b then 1 else 0) = m_pendingEventCount io"
proof (cases b)
  case False
  then show ?thesis using assms by (simp add: trigger_if_def)
next
  case True
  obtain ctx' where t: "FdContext_triggerEvent ctx event (io_sched io) =
        Inr (ctx', hand_over (io_sched io) (event_ctx ctx event))" "ctx_ok ctx'" "ctx_fd ctx' = ctx_fd ctx"
      "ctx_events ctx' = ctx_events ctx AND NOT event" "ctx_count ctx = ctx_count ctx' + 1"
    using trigger_correct [of ctx event "io_sched io"] io_inv_butD(1) [OF assms(1,2)] assms(3,4) True
    by (auto simp: ctx_def)
  let ?io' = "(set_ctx io fd ctx')\<lparr>io_sched := hand_over (io_sched io) (event_ctx ctx event),
      m_pendingEventCount := m_pendingEventCount io - 1\<rparr>"
  have cnt: "1 \<le> m_pendingEventCount io" using io_inv_butD(3) [OF assms(1,2)] t(5) by (simp add: ctx_def)
  have "io_inv_but fd ?io'"
    using t io_inv_butD [OF assms(1,2)] cnt assms(2)
    by (intro io_inv_but_update [OF assms(1,2)]) (simp_all add: ctx_def)
  moreover have "trigger_if b event io fd = Inr ?io'" using True t(1) by (simp add: trigger_if_def ctx_def)
  ultimately show ?thesis
    using True t(4) assms(2) cnt trigger_other(2) [OF t(1)]
    by (intro exI [of _ ?io']) (simp add: set_ctx_def)
qed

section \<open>Removing events\<close>

lemma interest_oper:
  "(if (if evs \<noteq> 0 then EPOLL_CTL_MOD else EPOLL_CTL_DEL) = EPOLL_CTL_DEL then None
    else Some (EPOLLET OR evs)) = interest evs"
  by (simp add: interest_def)

lemma delEvent_correct:
  assumes "io_inv io" and "event = READ \<or> event = WRITE"
  shows "\<exists>io'. IOManager_delEvent io fd event rt =
             Inr (ctx_events (ctx_at io fd) AND event \<noteq> 0 \<and> rt = 0, io') \<and> io_inv io' \<and>
           io_sched io' = io_sched io \<and>
           (if ctx_events (ctx_at io fd) AND event \<noteq> 0 \<and> rt = 0
            then clear (event_ctx (ctx_at io' fd) event) \<and>
              ctx_events (ctx_at io' fd) = ctx_events (ctx_at io fd) AND NOT event \<and>
              m_pendingEventCount io' + 1 = m_pendingEventCount io
            else io' = io)"
proof (cases "fd < length (m_fdContexts io) \<and> ctx_events (ctx_at io fd) AND event \<noteq> 0 \<and> rt = 0")
  case False
  then consider "\<not> fd < length (m_fdContexts io)"
    | "fd < length (m_fdContexts io)" "ctx_events (m_fdContexts io ! fd) AND event = 0"
    | "fd < length (m_fdContexts io)" "rt \<noteq> 0"
    by (auto simp: ctx_at_in)
  then show ?thesis
    using assms(1) by cases (simp_all add: IOManager_delEvent_def ctx_at_in ctx_at_out Let_def)
next
  case True
  then have fd: "fd < length (m_fdContexts io)" and rt: "rt = 0" by simp_all
  have ev: "ctx_events (m_fdContexts io ! fd) AND event \<noteq> 0" using True by (auto simp: ctx_at_in)
  let ?ctx = "m_fdContexts io ! fd"
  let ?ec = "FdContext_resetContext (event_ctx ?ctx event)"
  let ?ctx' = "set_context (?ctx\<lparr>ctx_events := ctx_events ?ctx AND NOT event\<rparr>) event ?ec"
  have clear: "clear ?ec" by (simp add: clear_def FdContext_resetContext_def)
  note ok = ctx_clear_event [OF io_invD(1) [OF assms(1) fd] assms(2) ev clear]
  have cnt: "1 \<le> m_pendingEventCount io" using io_invD(4) [OF assms(1) fd] ok(2) by simp
  let ?io' = "io\<lparr>m_fdContexts := (m_fdContexts io)[fd := ?ctx'],
      m_pendingEventCount := m_pendingEventCount io - 1,
      ep_reg := (ep_reg io)(fd := interest (ctx_events ?ctx'))\<rparr>"
  have "IOManager_delEvent io fd event rt = Inr (True, ?io')"
    using fd ev rt
    by (simp add: IOManager_delEvent_def Let_def getContext_event [OF assms(2)] epoll_ctl_def
        set_ctx_def interest_def)
  moreover have "io_inv ?io'"
    using ok cnt io_invD [OF assms(1) fd] by (intro io_inv_update [OF assms(1) fd]) simp_all
  ultimately show ?thesis
    using fd ev rt cnt clear by (simp add: ctx_at_def event_ctx_set_context [OF assms(2)])
qed

lemma cancelEvent_correct:
  assumes "io_inv io" and "event = READ \<or> event = WRITE"
  shows "\<exists>io'. IOManager_cancelEvent io fd event rt =
             Inr (ctx_events (ctx_at io fd) AND event \<noteq> 0 \<and> rt = 0, io') \<and> io_inv io' \<and>
           (if ctx_events (ctx_at io fd) AND event \<noteq> 0 \<and> rt = 0
            then io_sched io' = hand_over (io_sched io) (event_ctx (ctx_at io fd) event) \<and>
              ctx_events (ctx_at io' fd) = ctx_events (ctx_at io fd) AND NOT event \<and>
              m_pendingEventCount io' + 1 = m_pendingEventCount io
            else io' = io)"
proof (cases "fd < length (m_fdContexts io) \<and> ctx_events (ctx_at io fd) AND event \<noteq> 0 \<and> rt = 0")
  case False
  then consider "\<not> fd < length (m_fdContexts io)"
    | "fd < length (m_fdContexts io)" "ctx_events (m_fdContexts io ! fd) AND event = 0"
    | "fd < length (m_fdContexts io)" "rt \<noteq> 0"
    by (auto simp: ctx_at_in)
  then show ?thesis
    using assms(1) by cases (simp_all add: IOManager_cancelEvent_def ctx_at_in ctx_at_out Let_def)
next
  case True
  then have fd: "fd < length (m_fdContexts io)" and rt: "rt = 0" by simp_all
  have ev: "ctx_events (m_fdContexts io ! fd) AND event \<noteq> 0" using True by (auto simp: ctx_at_in)
  let ?ctx = "m_fdContexts io ! fd"
  let ?new = "ctx_events ?ctx AND NOT event"
  let ?io1 = "epoll_ctl io (if ?new \<noteq> 0 then EPOLL_CTL_MOD else EPOLL_CTL_DEL) fd (EPOLLET OR ?new)"
  have len1: "fd < length (m_fdContexts ?io1)" and ctx1: "m_fdContexts ?io1 = m_fdContexts io"
    and sched1: "io_sched ?io1 = io_sched io" "m_pendingEventCount ?io1 = m_pendingEventCount io"
    and reg1: "ep_reg ?io1 fd = interest ?new"
    using fd by (simp_all add: epoll_ctl_def interest_def)
  have but: "io_inv_but fd ?io1"
    using assms(1) fd by (intro io_inv_but_epoll) (simp_all add: io_inv_but_iff)
  obtain io' where io': "trigger_if True event ?io1 fd = Inr io'" "io_inv_but fd io'"
      "length (m_fdContexts io') = length (m_fdContexts io)" "ep_reg io' = ep_reg ?io1"
      "ctx_events (m_fdContexts io' ! fd) = ?new"
      "io_sched io' = hand_over (io_sched io) (event_ctx ?ctx event)"
      "m_pendingEventCount io' + 1 = m_pendingEventCount io"
    using trigger_if_correct [OF but len1 assms(2), of True] ev unfolding ctx1 sched1 by auto
  have "IOManager_cancelEvent io fd event rt = Inr (True, io')"
    using io'(1) fd ev rt unfolding trigger_if_def ctx1
    by (auto simp: IOManager_cancelEvent_def Let_def bindE_eq_Inr epoll_ctl_def)
  moreover have "io_inv io'"
    using io_inv_but_iff [of fd io'] io' fd reg1 by simp
  ultimately show ?thesis using fd ev rt io' by (simp add: ctx_at_def)
qed

lemma cancelAll_correct:
  fixes fd :: nat
  assumes "io_inv io"
  defines "ctx \<equiv> ctx_at io fd"
  shows "\<exists>io'. IOManager_cancelAll io fd rt = Inr (ctx_events ctx \<noteq> 0 \<and> rt = 0, io') \<and> io_inv io' \<and>
           (if ctx_events ctx \<noteq> 0 \<and> rt = 0
            then ctx_events (ctx_at io' fd) = 0 \<and> ep_reg io' fd = None \<and>
              m_pendingEventCount io' + ctx_count ctx = m_pendingEventCount io \<and>
              io_sched io' =
                (let s = (if ctx_events ctx AND READ \<noteq> 0 then hand_over (io_sched io) (ctx_read ctx)
                          else io_sched io)
                 in if ctx_events ctx AND WRITE \<noteq> 0 then hand_over s (ctx_write ctx) else s)
            else io' = io)"
proof (cases "fd < length (m_fdContexts io) \<and> ctx_events ctx \<noteq> 0 \<and> rt = 0")
  case False
  then consider "\<not> fd < length (m_fdContexts io)"
    | "fd < length (m_fdContexts io)" "ctx_events (m_fdContexts io ! fd) = 0"
    | "fd < length (m_fdContexts io)" "rt \<noteq> 0"
    by (auto simp: ctx_at_in ctx_def)
  then show ?thesis
    using assms(1) by cases (simp_all add: IOManager_cancelAll_def ctx_def ctx_at_in ctx_at_out Let_def)
next
  case True
  then have fd: "fd < length (m_fdContexts io)" and rt: "rt = 0" and ev: "ctx_events ctx \<noteq> 0" by simp_all
  have ctx: "m_fdContexts io ! fd = ctx" using fd by (simp add: ctx_def ctx_at_in)
  let ?io1 = "epoll_ctl io EPOLL_CTL_DEL fd 0"
  have len1: "fd < length (m_fdContexts ?io1)" and ctx1: "m_fdContexts ?io1 = m_fdContexts io"
    and sched1: "io_sched ?io1 = io_sched io" "m_pendingEventCount ?io1 = m_pendingEventCount io"
    and reg1: "ep_reg ?io1 fd = None"
    using fd by (simp_all add: epoll_ctl_def)
  have but: "io_inv_but fd ?io1"
    using assms(1) fd by (intro io_inv_but_epoll) (simp_all add: io_inv_but_iff)
  let ?r = "ctx_events ctx AND READ \<noteq> 0" and ?w = "ctx_events ctx AND WRITE \<noteq> 0"
  obtain io2 where io2: "trigger_if ?r READ ?io1 fd = Inr io2" "io_inv_but fd io2"
      "length (m_fdContexts io2) = length (m_fdContexts io)" "ep_reg io2 = ep_reg ?io1"
      "ctx_events (m_fdContexts io2 ! fd) = (if ?r then ctx_events ctx AND NOT READ else ctx_events ctx)"
      "io_sched io2 = (if ?r then hand_over (io_sched io) (ctx_read ctx) else io_sched io)"
      "ctx_write (m_fdContexts io2 ! fd) = ctx_write ctx"
      "m_pendingEventCount io2 + (if ?r then 1 else 0) = m_pendingEventCount io"
    using trigger_if_correct [OF but len1, of READ ?r] unfolding ctx1 sched1 ctx
    by (auto simp: event_ctx_def)
  have ok: "ctx_ok ctx" using io_invD(1) [OF assms(1) fd] ctx by simp
  have w2: "ctx_events (m_fdContexts io2 ! fd) AND WRITE \<noteq> 0 \<longleftrightarrow> ?w"
    and zero: "(if ?w then ctx_events (m_fdContexts io2 ! fd) AND NOT WRITE
        else ctx_events (m_fdContexts io2 ! fd)) = 0"
    and cnt: "ctx_count ctx = (if ?r then 1 else 0) + (if ?w then 1 else 0)"
    unfolding io2(5) ctx_count_def by (rule ctx_cases [OF ok]; simp add: event_defs)+
  have "WRITE = READ \<longleftrightarrow> False" by (simp add: event_defs)
  then obtain io3 where io3: "trigger_if ?w WRITE io2 fd = Inr io3" "io_inv_but fd io3"
      "length (m_fdContexts io3) = length (m_fdContexts io2)" "ep_reg io3 = ep_reg io2"
      "ctx_events (m_fdContexts io3 ! fd) = 0"
      "io_sched io3 = (if ?w then hand_over (io_sched io2) (ctx_write ctx) else io_sched io2)"
      "m_pendingEventCount io3 + (if ?w then 1 else 0) = m_pendingEventCount io2"
    using trigger_if_correct [OF io2(2), of WRITE ?w] fd io2(3,7) w2 zero by (auto simp: event_ctx_def)
  have "IOManager_cancelAll io fd rt = Inr (True, io3)"
    using fd ev rt io2(1) io3(1,5) w2
    by (simp add: IOManager_cancelAll_def Let_def ctx ctx1 io_assert_def)
  moreover have "io_inv io3"
    using io_inv_but_iff [of fd io3] io3 io2 fd reg1 by (simp add: interest_def)
  ultimately show ?thesis
    using ev rt fd io2 io3 reg1 cnt by (simp add: ctx_at_in Let_def)
qed

section \<open>The event loop\<close>

definition reported :: "u32 \<Rightarrow> u32 \<Rightarrow> u32" where
  "reported evs registered =
     (let evs = (if evs AND (EPOLLERR OR EPOLLHUP) \<noteq> 0
                 then evs OR ((EPOLLIN OR EPOLLOUT) AND registered) else evs)
      in (if evs AND EPOLLIN \<noteq> 0 then READ else 0) OR (if evs AND EPOLLOUT \<noteq> 0 then WRITE else 0))"

lemma reported_cases: "reported evs registered \<in> {0, 1, 4, 5}"
  by (simp add: reported_def Let_def event_defs)

lemma reported_bits:
  "reported evs r AND READ \<noteq> 0 \<longleftrightarrow> reported evs r \<in> {1, 5}"
  "reported evs r AND WRITE \<noteq> 0 \<longleftrightarrow> reported evs r \<in> {4, 5}"
  using reported_cases [of evs r] by (auto simp: event_defs)

lemma idle_event_unfold:
  fixes evs :: u32
  assumes "fd < length (m_fdContexts io)"
  defines "ctx \<equiv> m_fdContexts io ! fd"
  defines "real \<equiv> reported evs (ctx_events ctx)"
  shows "idle_event io fd evs rt2 =
     (if ctx_events ctx AND real = 0 \<or> rt2 \<noteq> 0 then Inr io
      else
        let left_events = ctx_events ctx AND NOT real;
            io = epoll_ctl io (if left_events \<noteq> 0 then EPOLL_CTL_MOD else EPOLL_CTL_DEL) fd
                   (EPOLLET OR left_events)
        in bindE (trigger_if (real AND READ \<noteq> 0) READ io fd) (\<lambda>io.
           trigger_if (real AND WRITE \<noteq> 0) WRITE io fd))"
proof -
  have r: "real = (let evs = (if evs AND (EPOLLERR OR EPOLLHUP) \<noteq> 0
        then evs OR ((EPOLLIN OR EPOLLOUT) AND ctx_events ctx) else evs);
      re = (if evs AND EPOLLIN \<noteq> 0 then NONE OR READ else NONE)
    in if evs AND EPOLLOUT \<noteq> 0 then re OR WRITE else re)"
    by (simp add: real_def reported_def Let_def NONE_def)
  show ?thesis
    using assms(1) unfolding r idle_event_def ctx_def by (simp add: Let_def NONE_def)
qed

lemma event_subset_bits:
  assumes "e \<in> {0, 1, 4, 5 :: u32}" and "r \<in> {0, 1, 4, 5}" and "r AND NOT e = 0"
  shows "r AND READ \<noteq> 0 \<Longrightarrow> e AND READ \<noteq> 0" and "r AND WRITE \<noteq> 0 \<Longrightarrow> e AND WRITE \<noteq> 0"
    and "(let e1 = if r AND READ \<noteq> 0 then e AND NOT READ else e
          in if r AND WRITE \<noteq> 0 then e1 AND NOT WRITE else e1) = e AND NOT r"
    and "r AND READ \<noteq> 0 \<Longrightarrow> (e AND NOT READ) AND WRITE \<noteq> 0 \<longleftrightarrow> e AND WRITE \<noteq> 0"
  using assms by (auto simp: event_defs)

lemma idle_event_correct:
  assumes "io_inv io" and "fd < length (m_fdContexts io)"
  defines "ctx \<equiv> m_fdContexts io ! fd"
  assumes "reported evs (ctx_events ctx) AND NOT (ctx_events ctx) = 0"
  shows "\<exists>io'. idle_event io fd evs rt2 = Inr io' \<and> io_inv io' \<and>
           ctx_events (ctx_at io' fd) =
             (if rt2 = 0 then ctx_events ctx AND NOT (reported evs (ctx_events ctx)) else ctx_events ctx)"
proof -
  let ?real = "reported evs (ctx_events ctx)"
  let ?left = "ctx_events ctx AND NOT ?real"
  have ok: "ctx_events ctx \<in> {0, 1, 4, 5}"
    using io_invD(1) [OF assms(1,2)] by (simp add: ctx_def ctx_ok_def)
  note bits = event_subset_bits [OF ok reported_cases [of evs "ctx_events ctx"] assms(4)]
  show ?thesis
  proof (cases "ctx_events ctx AND ?real = 0 \<or> rt2 \<noteq> 0")
    case True
    have "?left = ctx_events ctx" if "rt2 = 0"
    proof -
      have "ctx_events ctx AND ?real = 0" using True that by simp
      then show ?thesis using ok reported_cases [of evs "ctx_events ctx"] assms(4) by auto
    qed
    then show ?thesis
      using True assms(1,2) idle_event_unfold [OF assms(2)] by (auto simp: ctx_def ctx_at_in)
  next
    case False
    let ?io1 = "epoll_ctl io (if ?left \<noteq> 0 then EPOLL_CTL_MOD else EPOLL_CTL_DEL) fd (EPOLLET OR ?left)"
    have 1: "fd < length (m_fdContexts ?io1)" "m_fdContexts ?io1 ! fd = ctx"
        "ep_reg ?io1 fd = interest ?left"
      using assms(2) by (simp_all add: epoll_ctl_def ctx_def interest_def)
    have but: "io_inv_but fd ?io1"
      using assms(1,2) by (intro io_inv_but_epoll) (simp_all add: io_inv_but_iff)
    obtain io2 where io2: "trigger_if (?real AND READ \<noteq> 0) READ ?io1 fd = Inr io2" "io_inv_but fd io2"
        "length (m_fdContexts io2) = length (m_fdContexts ?io1)" "ep_reg io2 = ep_reg ?io1"
        "ctx_events (m_fdContexts io2 ! fd) =
           (if ?real AND READ \<noteq> 0 then ctx_events ctx AND NOT READ else ctx_events ctx)"
      using trigger_if_correct [OF but 1(1), of READ "?real AND READ \<noteq> 0"] bits(1) unfolding 1(2) by blast
    have w: "ctx_events (m_fdContexts io2 ! fd) AND WRITE \<noteq> 0" if "?real AND WRITE \<noteq> 0"
      using bits(2) [OF that] bits(4) unfolding io2(5) by (cases "?real AND READ \<noteq> 0") simp_all
    obtain io3 where io3: "trigger_if (?real AND WRITE \<noteq> 0) WRITE io2 fd = Inr io3" "io_inv_but fd io3"
        "length (m_fdContexts io3) = length (m_fdContexts io2)" "ep_reg io3 = ep_reg io2"
        "ctx_events (m_fdContexts io3 ! fd) = (if ?real AND WRITE \<noteq> 0
           then ctx_events (m_fdContexts io2 ! fd) AND NOT WRITE else ctx_events (m_fdContexts io2 ! fd))"
      using trigger_if_correct [OF io2(2), of WRITE "?real AND WRITE \<noteq> 0"] w 1(1) io2(3) by auto
    have left: "ctx_events (m_fdContexts io3 ! fd) = ?left"
      unfolding io3(5) io2(5) using bits(3) by (simp only: Let_def)
    have "io_inv io3"
      using io_inv_but_iff [of fd io3] io3(2,3,4) io2(3,4) 1 left by simp
    moreover have "idle_event io fd evs rt2 = Inr io3"
      using idle_event_unfold [OF assms(2), of evs rt2] False io2(1) io3(1)
      by (simp add: ctx_def Let_def)
    ultimately show ?thesis
      using False left 1(1) io2(3) io3(3) by (intro exI [of _ io3]) (simp add: ctx_at_in)
  qed
qed

section \<open>Sequences of operations\<close>

text \<open>
  The steps other threads and the event loop take on the manager. Events are added for \<open>READ\<close> or
  \<open>WRITE\<close> by threads that have a scheduler; epoll reports only events it was asked for.
\<close>

inductive io_step :: "'cb io_manager \<Rightarrow> 'cb io_manager \<Rightarrow> bool" where
  io_add: "event = READ \<or> event = WRITE \<Longrightarrow> callback \<noteq> None \<or> cur_state = Fiber_EXEC \<Longrightarrow>
     ctx_events (ctx_at io fd) AND event = 0 \<Longrightarrow>
     IOManager_addEvent io fd event callback rt (Some sid) cur cur_state = Inr (r, io') \<Longrightarrow> io_step io io'"
| io_del: "event = READ \<or> event = WRITE \<Longrightarrow>
     IOManager_delEvent io fd event rt = Inr (r, io') \<Longrightarrow> io_step io io'"
| io_cancel: "event = READ \<or> event = WRITE \<Longrightarrow>
     IOManager_cancelEvent io fd event rt = Inr (r, io') \<Longrightarrow> io_step io io'"
| io_cancel_all: "IOManager_cancelAll io fd rt = Inr (r, io') \<Longrightarrow> io_step io io'"
| io_ready: "fd < length (m_fdContexts io) \<Longrightarrow>
     reported evs (ctx_events (m_fdContexts io ! fd)) AND NOT (ctx_events (m_fdContexts io ! fd)) = 0 \<Longrightarrow>
     idle_event io fd evs rt = Inr io' \<Longrightarrow> io_step io io'"
| io_sched: "io_step io (io\<lparr>io_sched := sched\<rparr>)"
| io_timer: "timer_step (io_timers io) tm \<Longrightarrow> io_step io (io\<lparr>io_timers := tm\<rparr>)"

inductive io_reachable :: "'cb io_manager \<Rightarrow> bool" where
  io_start: "io_reachable (IOManager_new sched p now)"
| io_next: "io_reachable io \<Longrightarrow> io_step io io' \<Longrightarrow> io_reachable io'"

lemma io_step_inv: "io_step io io' \<Longrightarrow> io_inv io \<Longrightarrow> io_inv io'"
proof (induction rule: io_step.induct)
  case (io_add event callback cur_state io fd rt sid cur r io')
  then show ?case using addEvent_correct [OF io_add(5,1,3,2), of rt sid cur] by auto
next
  case (io_del event io fd rt r io')
  then show ?case using delEvent_correct [OF io_del(3,1), of fd rt] by auto
next
  case (io_cancel event io fd rt r io')
  then show ?case using cancelEvent_correct [OF io_cancel(3,1), of fd rt] by auto
next
  case (io_cancel_all io fd rt r io')
  then show ?case using cancelAll_correct [OF io_cancel_all(2), of fd rt] by auto
next
  case (io_ready fd io evs rt io')
  then show ?case using idle_event_correct [OF io_ready(4,1,2), of rt] by auto
next
  case (io_sched io sched)
  then show ?case by simp
next
  case (io_timer io tm)
  then show ?case using timer_step_inv by (auto simp: io_inv_def)
qed

lemma io_reachable_inv: "io_reachable io \<Longrightarrow> io_inv io"
  by (induction rule: io_reachable.induct) (auto intro: io_inv_new io_step_inv)

section \<open>Properties\<close>


definition example_io :: "string io_manager" where
  "example_io = IOManager_new (\<lambda>_. sch example_pool) 3 0"

lemma example_io_reachable: "io_reachable example_io"
  unfolding example_io_def by (rule io_start)

lemma example_io_length: "length (m_fdContexts example_io) = 32"
  by (simp add: example_io_def IOManager_new_def contextResize_def)


text \<open>
  \<open>cancelAll\<close> in a reachable state fires every registered event of the descriptor exactly once:
  each continuation is handed to its scheduler, the read event before the write event, the
  descriptor is left without events and off epoll, and the pending count drops by the number of
  events fired; on an unregistered descriptor, or if epoll refuses, nothing changes.
\<close>

theorem IOManager_cancelAll_fires_once:
  assumes "io_reachable io"
  shows "\<exists>io'. IOManager_cancelAll io fd rt = Inr (ctx_events (ctx_at io fd) \<noteq> 0 \<and> rt = 0, io') \<and>
           (if ctx_events (ctx_at io fd) \<noteq> 0 \<and> rt = 0
            then ctx_events (ctx_at io' fd) = 0 \<and> ep_reg io' fd = None \<and>
              m_pendingEventCount io' + ctx_count (ctx_at io fd) = m_pendingEventCount io \<and>
              io_sched io' =
                (let s = (if ctx_events (ctx_at io fd) AND READ \<noteq> 0
                          then hand_over (io_sched io) (ctx_read (ctx_at io fd)) else io_sched io)
                 in if ctx_events (ctx_at io fd) AND WRITE \<noteq> 0
                    then hand_over s (ctx_write (ctx_at io fd)) else s)
            else io' = io)"
  using cancelAll_correct [OF io_reachable_inv [OF assms], of fd rt] by blast

theorem IOManager_cancelAll_fires_once_witness:
  "\<exists>io'. IOManager_cancelAll example_io 5 0 = Inr (False, io') \<and> io' = example_io"
proof -
  have "ctx_events (ctx_at example_io 5) = 0"
    by (simp add: ctx_at_def example_io_length)
      (simp add: example_io_def IOManager_new_def contextResize_def)
  then show ?thesis using IOManager_cancelAll_fires_once [OF example_io_reachable, of 5 0] by simp
qed

text \<open>
  The event loop can abort on a stale report: if epoll reported both events of a descriptor and
  the write event was deleted before the report is handled, \<open>idle\<close> triggers the events of the report
  instead of those still registered, and the assertion of \<open>triggerEvent\<close> fails.
\<close>

theorem IOManager_stale_report_aborts:
  assumes "io_reachable io" and "fd < length (m_fdContexts io)"
    and "ctx_events (m_fdContexts io ! fd) = READ"
  shows "idle_event io fd (EPOLLIN OR EPOLLOUT) 0 = Inl (Assert ''events & event'')"
proof -
  let ?ctx = "m_fdContexts io ! fd"
  have inv: "io_inv io" using io_reachable_inv [OF assms(1)] .
  have real: "reported (EPOLLIN OR EPOLLOUT) (ctx_events ?ctx) = 5"
    by (simp add: reported_def event_defs)
  let ?io1 = "epoll_ctl io EPOLL_CTL_DEL fd (EPOLLET OR 0)"
  have 1: "fd < length (m_fdContexts ?io1)" "m_fdContexts ?io1 = m_fdContexts io"
    using assms(2) by (simp_all add: epoll_ctl_def)
  have but: "io_inv_but fd ?io1"
    using inv assms(2) by (intro io_inv_but_epoll) (simp_all add: io_inv_but_iff)
  obtain io2 where io2: "trigger_if True READ ?io1 fd = Inr io2"
      "ctx_events (m_fdContexts io2 ! fd) = ctx_events ?ctx AND NOT READ"
    using trigger_if_correct [OF but 1(1), of READ True] assms(3) 1(2) by (auto simp: event_defs)
  have "ctx_events (m_fdContexts io2 ! fd) AND WRITE = 0"
    using io2(2) assms(3) by (simp add: event_defs)
  then have "trigger_if True WRITE io2 fd = Inl (Assert ''events & event'')"
    by (simp add: trigger_if_def FdContext_triggerEvent_def io_assert_def)
  then show ?thesis
    using idle_event_unfold [OF assms(2), of "EPOLLIN OR EPOLLOUT" 0] real io2(1) assms(3)
    by (simp add: event_defs)
qed

theorem IOManager_stale_report_aborts_witness:
  "\<exists>io. idle_event (io :: string io_manager) 7 (EPOLLIN OR EPOLLOUT) 0 = Inl (Assert ''events & event'')"
proof -
  have ev: "ctx_events (ctx_at example_io 7) = 0" "ctx_events (ctx_at example_io 7) AND READ = 0"
    by (simp_all add: ctx_at_def example_io_length)
      (simp_all add: example_io_def IOManager_new_def contextResize_def)
  from addEvent_correct [OF io_reachable_inv [OF example_io_reachable] _ ev(2), of "Some ''cb''" Fiber_EXEC 0 0 9]
  obtain io' where io': "IOManager_addEvent example_io 7 READ (Some ''cb'') 0 (Some 0) 9 Fiber_EXEC = Inr (0, io')"
      "io_inv io'" "ctx_events (ctx_at io' 7) = ctx_events (ctx_at example_io 7) OR READ"
    by auto
  have "io_reachable io'"
    by (rule io_next [OF example_io_reachable io_add [OF _ _ ev(2) io'(1)]]) simp_all
  moreover have "7 < length (m_fdContexts io')" using io'(2) by (simp add: io_inv_def)
  ultimately show ?thesis
    using IOManager_stale_report_aborts [of io' 7] io'(3) ev(1) by (auto simp: ctx_at_in)
qed

lemma to_int32_small:
  assumes "unat v < 2 ^ 31"
  shows "to_int32 v = int (unat v)"
proof -
  have e: "uint v = int (unat v)" by simp
  have l: "uint v < 2 ^ 31"
    unfolding e using assms of_nat_less_iff [of "unat v" "2 ^ 31", where 'a = int] by simp
  have u: "uint (ucast v :: u32) = uint v"
    using l by (simp add: unsigned_ucast_eq take_bit_int_eq_self)
  have "0 \<le> uint v" by simp
  then have "signed_take_bit 31 (uint v) = uint v"
    using l by (intro signed_take_bit_int_eq_self) linarith+
  then show ?thesis by (simp add: to_int32_def sint_uint u)
qed

lemma distance_not_max:
  assumes "now < (e :: u64)" and "now \<noteq> 0"
  shows "e - now \<noteq> NOT 0"
proof
  assume m: "e - now = NOT 0"
  have "unat (e - now) = unat e - unat now" using assms(1) by (simp add: unat_sub)
  moreover have "unat (e - now) = 18446744073709551615"
  proof -
    have "e - now = (18446744073709551615 :: u64)" using m by simp
    then show ?thesis by (simp only: unat_numeral) simp
  qed
  moreover have "unat e < 18446744073709551616" using unsigned_less [of e, where 'a = nat] by simp
  moreover have "0 < unat now" using assms(2) by (simp add: unat_gt_0)
  ultimately show False by linarith
qed

text \<open>
  C15. The timeout handed to \<open>epoll_wait\<close>: for timers less than \<open>2^31\<close> milliseconds away it is between
  0 and 3000 and never later than the timer. A timer further away is converted to a negative
  \<open>int\<close>, which makes \<open>epoll_wait\<close> block without a timeout.
\<close>

theorem IOManager_idle_timeout_bounds:
  "(unat t < 2 ^ 31 \<longrightarrow> 0 \<le> idle_timeout t \<and> idle_timeout t \<le> 3000 \<and> idle_timeout t \<le> int (unat t)) \<and>
   idle_timeout (NOT 0) = 3000 \<and> idle_timeout (2 ^ 31) < 0"
proof -
  have "idle_timeout t \<ge> 0 \<and> idle_timeout t \<le> 3000 \<and> idle_timeout t \<le> int (unat t)" if t: "unat t < 2 ^ 31"
  proof -
    have "t \<noteq> NOT 0"
    proof
      assume "t = NOT 0"
      then have "t = (18446744073709551615 :: u64)" by simp
      then have "unat t = 18446744073709551615" by (simp only: unat_numeral) simp
      then show False using t by simp
    qed
    then show ?thesis
      using to_int32_small [OF t] to_int32_small [of 3000] by (auto simp: idle_timeout_def Let_def MAX_TIMEOUT_def)
  qed
  moreover have "idle_timeout (NOT 0) = 3000" "idle_timeout (2 ^ 31) < 0" by code_simp+
  ultimately show ?thesis by blast
qed

theorem IOManager_idle_timeout_bounds_witness: "idle_timeout 5000 \<le> 3000"
  using IOManager_idle_timeout_bounds [of 5000] by simp



end
