(* ===== verification/Hook_IO.thy ===== *)
theory Hook_IO
  imports Hook
begin

text \<open>
  \<open>do_io\<close> and \<open>connect_with_timeout\<close> of \<^verbatim>\<open>sylar/hook.cc\<close> as state machines. A call has its phase, the
  timeout \<open>to\<close>, the field \<open>cancelled\<close> of its \<open>timer_info\<close>, whether its condition timer is in the timer
  set, how many expired timer callbacks wait in the scheduler's queue (a queued callback can no longer
  be cancelled), whether its event is registered with the \<open>IOManager\<close>, and whether the fiber was
  scheduled again. Between two steps of the fiber anything the surroundings do may happen.

  A registered event is consumed by whoever triggers it first: the descriptor becoming ready, or
  \<open>cancelEvent\<close> in the timer's callback; either schedules the fiber.
\<close>

datatype io_phase =
    Calling
  | Timer_set
  | Parked
  | Getting_error
  | Returned int int

record io_call =
  c_phase :: io_phase
  c_to :: u64
  c_cancelled :: int
  c_timer :: bool
  c_queued :: nat
  c_event :: bool
  c_runnable :: bool

text \<open>What \<open>do_io\<close> decides before it calls the original function.\<close>

datatype io_start = Direct | Fail int | Managed u64

definition do_io_start :: "hook_state \<Rightarrow> int \<Rightarrow> nat \<Rightarrow> hook_error + io_start" where
  "do_io_start h fd timeout_so =
     (if \<not> t_hook_enable h then Inr Direct
      else bindE (lookup_ctx h fd) (\<lambda>ctx.
        case ctx of
          None \<Rightarrow> Inr Direct
        | Some c \<Rightarrow>
            (if m_isClosed c then Inr (Fail EBADF)
             else if \<not> m_isSocket c \<or> m_userNonblock c then Inr Direct
             else Inr (Managed (FdCtx_getTimeout c timeout_so)))))"

definition io_call_new :: "u64 \<Rightarrow> io_call" where
  "io_call_new to =
     \<lparr>c_phase = Calling, c_to = to, c_cancelled = 0, c_timer = False, c_queued = 0, c_event = False,
      c_runnable = False\<rparr>"

text \<open>
  \<open>Sys_return n e\<close>: the original function returned \<open>n\<close> with \<open>errno\<close> \<open>e\<close>. \<open>Add_event rt e\<close>:
  \<open>addEvent\<close> returned \<open>rt\<close>, and \<open>errno\<close> is \<open>e\<close>. \<open>Sock_error r e v\<close>: \<open>getsockopt(SO_ERROR)\<close> returned \<open>r\<close>
  with \<open>errno\<close> \<open>e\<close> and delivered \<open>v\<close>. \<open>Resume\<close>: the fiber runs again after \<open>YieldToHold\<close>.
\<close>

datatype io_action =
    Sys_return int int
  | Add_event int int
  | Resume
  | Sock_error int int int
  | Ready
  | Timer_expires
  | Timer_callback

text \<open>The surroundings: readiness, the timer, and the lambda of the condition timer.\<close>

definition timer_callback :: "io_call \<Rightarrow> io_call" where
  "timer_callback s =
     (let s = s\<lparr>c_queued := c_queued s - 1\<rparr> in
      case c_phase s of
        Returned n e \<Rightarrow> s
      | _ \<Rightarrow>
          (if c_cancelled s \<noteq> 0 then s
           else
             (let s = s\<lparr>c_cancelled := ETIMEDOUT\<rparr> in
              if c_event s then s\<lparr>c_event := False, c_runnable := True\<rparr> else s)))"

definition surroundings_step :: "io_call \<Rightarrow> io_action \<Rightarrow> io_call option" where
  "surroundings_step s a =
     (case a of
        Ready \<Rightarrow> (if c_event s then Some (s\<lparr>c_event := False, c_runnable := True\<rparr>) else None)
      | Timer_expires \<Rightarrow>
          (if c_timer s then Some (s\<lparr>c_timer := False, c_queued := c_queued s + 1\<rparr>) else None)
      | Timer_callback \<Rightarrow> (if c_queued s > 0 then Some (timer_callback s) else None)
      | _ \<Rightarrow> None)"

section \<open>do_io\<close>

definition do_io_step :: "io_call \<Rightarrow> io_action \<Rightarrow> io_call option" where
  "do_io_step s a =
     (case a of
        Sys_return n e \<Rightarrow>
          (if c_phase s \<noteq> Calling then None
           else if n = -1 \<and> e = EINTR then Some s
           else if n = -1 \<and> e = EAGAIN then
             Some (s\<lparr>c_phase := Timer_set, c_timer := (c_to s \<noteq> -1)\<rparr>)
           else Some (s\<lparr>c_phase := Returned n e\<rparr>))
      | Add_event rt e \<Rightarrow>
          (if c_phase s \<noteq> Timer_set then None
           else if rt \<noteq> 0 then Some (s\<lparr>c_timer := False, c_phase := Returned (-1) e\<rparr>)
           else Some (s\<lparr>c_event := True, c_phase := Parked\<rparr>))
      | Resume \<Rightarrow>
          (if c_phase s \<noteq> Parked \<or> \<not> c_runnable s then None
           else
             (let s = s\<lparr>c_runnable := False, c_timer := False\<rparr> in
              if c_cancelled s \<noteq> 0 then Some (s\<lparr>c_phase := Returned (-1) (c_cancelled s)\<rparr>)
              else Some (s\<lparr>c_phase := Calling\<rparr>)))
      | _ \<Rightarrow> surroundings_step s a)"

section \<open>connect_with_timeout\<close>

definition connect_start :: "hook_state \<Rightarrow> int \<Rightarrow> hook_error + io_start" where
  "connect_start h fd =
     (if \<not> t_hook_enable h then Inr Direct
      else bindE (lookup_ctx h fd) (\<lambda>ctx.
        case ctx of
          None \<Rightarrow> Inr (Fail EBADF)
        | Some c \<Rightarrow>
            (if m_isClosed c then Inr (Fail EBADF)
             else if \<not> m_isSocket c then Inr Direct
             else if m_userNonblock c then Inr Direct
             else Inr (Managed 0))))"

definition connect_step :: "io_call \<Rightarrow> io_action \<Rightarrow> io_call option" where
  "connect_step s a =
     (case a of
        Sys_return n e \<Rightarrow>
          (if c_phase s \<noteq> Calling then None
           else if n = 0 then Some (s\<lparr>c_phase := Returned 0 e\<rparr>)
           else if n \<noteq> -1 \<or> e \<noteq> EINPROGRESS then Some (s\<lparr>c_phase := Returned n e\<rparr>)
           else Some (s\<lparr>c_phase := Timer_set, c_timer := (c_to s \<noteq> -1)\<rparr>))
      | Add_event rt e \<Rightarrow>
          (if c_phase s \<noteq> Timer_set then None
           else if rt = 0 then Some (s\<lparr>c_event := True, c_phase := Parked\<rparr>)
           else Some (s\<lparr>c_timer := False, c_phase := Getting_error\<rparr>))
      | Resume \<Rightarrow>
          (if c_phase s \<noteq> Parked \<or> \<not> c_runnable s then None
           else
             (let s = s\<lparr>c_runnable := False, c_timer := False\<rparr> in
              if c_cancelled s \<noteq> 0 then Some (s\<lparr>c_phase := Returned (-1) (c_cancelled s)\<rparr>)
              else Some (s\<lparr>c_phase := Getting_error\<rparr>)))
      | Sock_error r e v \<Rightarrow>
          (if c_phase s \<noteq> Getting_error then None
           else if r = -1 then Some (s\<lparr>c_phase := Returned (-1) e\<rparr>)
           else if v = 0 then Some (s\<lparr>c_phase := Returned 0 e\<rparr>)
           else Some (s\<lparr>c_phase := Returned (-1) v\<rparr>))
      | _ \<Rightarrow> surroundings_step s a)"

fun io_run :: "(io_call \<Rightarrow> io_action \<Rightarrow> io_call option) \<Rightarrow> io_call \<Rightarrow> io_action list \<Rightarrow> io_call option" where
  "io_run step s [] = Some s"
| "io_run step s (a # as) = (case step s a of None \<Rightarrow> None | Some s' \<Rightarrow> io_run step s' as)"

section \<open>Invariants of a call\<close>

definition phase_ok :: "io_call \<Rightarrow> bool" where
  "phase_ok s =
     (case c_phase s of
        Calling \<Rightarrow> \<not> c_timer s \<and> \<not> c_event s \<and> \<not> c_runnable s
      | Timer_set \<Rightarrow> \<not> c_event s \<and> \<not> c_runnable s \<and>
          (c_to s \<noteq> -1 \<longrightarrow> c_timer s \<or> c_queued s > 0 \<or> c_cancelled s \<noteq> 0)
      | Parked \<Rightarrow> c_event s = (\<not> c_runnable s) \<and>
          (c_event s \<and> c_to s \<noteq> -1 \<longrightarrow> c_timer s \<or> c_queued s > 0 \<or> c_cancelled s \<noteq> 0)
      | Getting_error \<Rightarrow> \<not> c_timer s \<and> \<not> c_event s \<and> \<not> c_runnable s
      | Returned n e \<Rightarrow> \<not> c_timer s \<and> \<not> c_event s \<and> \<not> c_runnable s)"

definition call_ok :: "io_call \<Rightarrow> bool" where
  "call_ok s =
     (phase_ok s \<and> (c_timer s \<or> c_queued s > 0 \<or> c_cancelled s \<noteq> 0 \<longrightarrow> c_to s \<noteq> -1) \<and>
      (c_cancelled s = 0 \<or> c_cancelled s = ETIMEDOUT))"

lemma timer_callback_ok:
  assumes "call_ok s" and "c_queued s > 0"
  shows "call_ok (timer_callback s) \<and> c_to (timer_callback s) = c_to s"
proof (cases s)
  case (fields phase to cancelled tmr queued event runnable)
  then show ?thesis
    using assms by (cases phase; cases "cancelled = 0"; cases event)
      (simp_all add: timer_callback_def call_ok_def phase_ok_def Let_def ETIMEDOUT_def)
qed

lemma surroundings_ok:
  assumes "surroundings_step s a = Some s'" and "call_ok s"
  shows "call_ok s' \<and> c_to s' = c_to s"
proof (cases a)
  case Ready
  then show ?thesis using assms
    by (cases "c_phase s") (auto simp: surroundings_step_def call_ok_def phase_ok_def split: if_splits)
next
  case Timer_expires
  then show ?thesis using assms
    by (cases "c_phase s") (auto simp: surroundings_step_def call_ok_def phase_ok_def split: if_splits)
next
  case Timer_callback
  then show ?thesis using assms timer_callback_ok [of s]
    by (simp add: surroundings_step_def split: if_splits)
qed (use assms in \<open>simp_all add: surroundings_step_def\<close>)

lemma do_io_ok:
  assumes "do_io_step s a = Some s'" and "call_ok s"
  shows "call_ok s' \<and> c_to s' = c_to s"
proof (cases a)
  case (Sys_return n e)
  then show ?thesis using assms
    by (auto simp: do_io_step_def call_ok_def phase_ok_def split: if_splits)
next
  case (Add_event rt e)
  then show ?thesis using assms
    by (auto simp: do_io_step_def call_ok_def phase_ok_def split: if_splits)
next
  case Resume
  then show ?thesis using assms
    by (auto simp: do_io_step_def call_ok_def phase_ok_def Let_def split: if_splits)
qed (use assms surroundings_ok [of s a s'] in \<open>simp_all add: do_io_step_def surroundings_step_def\<close>)

lemma connect_ok:
  assumes "connect_step s a = Some s'" and "call_ok s"
  shows "call_ok s' \<and> c_to s' = c_to s"
proof (cases a)
  case (Sys_return n e)
  then show ?thesis using assms
    by (auto simp: connect_step_def call_ok_def phase_ok_def split: if_splits)
next
  case (Add_event rt e)
  then show ?thesis using assms
    by (auto simp: connect_step_def call_ok_def phase_ok_def split: if_splits)
next
  case Resume
  then show ?thesis using assms
    by (auto simp: connect_step_def call_ok_def phase_ok_def Let_def split: if_splits)
next
  case (Sock_error r e v)
  then show ?thesis using assms
    by (auto simp: connect_step_def call_ok_def phase_ok_def split: if_splits)
qed (use assms surroundings_ok [of s a s'] in \<open>simp_all add: connect_step_def\<close>)

lemma io_run_ok:
  assumes "\<And>s a s'. step s a = Some s' \<Longrightarrow> call_ok s \<Longrightarrow> call_ok s' \<and> c_to s' = c_to s"
  shows "io_run step s as = Some s' \<Longrightarrow> call_ok s \<Longrightarrow> call_ok s' \<and> c_to s' = c_to s"
  using assms by (induction as arbitrary: s) (auto split: option.splits)

lemma call_ok_new: "call_ok (io_call_new to)"
  by (simp add: call_ok_def phase_ok_def io_call_new_def)

text \<open>
  C23. Waiting calls clean up and can be woken. Whatever the kernel answers and whenever the timer, the
  callbacks and the readiness occur, a hooked call that has returned left neither a timer nor an event
  behind; while its fiber is parked, either its event is registered or it is already scheduled again; a
  parked call with a timeout has its timer armed or expired unless the timeout was already recorded;
  and without a timeout no timer ever exists. This holds for \<open>do_io\<close> and for \<open>connect_with_timeout\<close>.
\<close>

theorem hooked_call_cleans_up:
  assumes "step \<in> {do_io_step, connect_step}" and "io_run step (io_call_new to) as = Some s"
  shows "(\<forall>n e. c_phase s = Returned n e \<longrightarrow> \<not> c_timer s \<and> \<not> c_event s \<and> \<not> c_runnable s) \<and>
         (c_phase s = Parked \<longrightarrow> c_event s = (\<not> c_runnable s)) \<and>
         (c_phase s = Parked \<and> c_event s \<and> to \<noteq> -1 \<longrightarrow>
            c_timer s \<or> c_queued s > 0 \<or> c_cancelled s = ETIMEDOUT) \<and>
         (to = -1 \<longrightarrow> \<not> c_timer s \<and> c_queued s = 0 \<and> c_cancelled s = 0)"
proof -
  have "c_to (io_call_new to) = to" by (simp add: io_call_new_def)
  then have "call_ok s \<and> c_to s = to"
    using assms io_run_ok [OF do_io_ok _ call_ok_new] io_run_ok [OF connect_ok _ call_ok_new] by auto
  then show ?thesis by (auto simp: call_ok_def phase_ok_def)
qed

theorem hooked_call_cleans_up_witness:
  "\<exists>s. io_run do_io_step (io_call_new 100)
         [Sys_return (-1) EAGAIN, Add_event 0 0, Timer_expires, Timer_callback, Resume] = Some s \<and>
       c_phase s = Returned (-1) ETIMEDOUT \<and> \<not> c_timer s \<and> \<not> c_event s"
proof -
  let ?as = "[Sys_return (-1) EAGAIN, Add_event 0 0, Timer_expires, Timer_callback, Resume]"
  obtain s where s: "io_run do_io_step (io_call_new 100) ?as = Some s"
    and r: "c_phase s = Returned (-1) ETIMEDOUT"
    by (simp add: io_call_new_def do_io_step_def surroundings_step_def timer_callback_def Let_def errno_defs)
  then show ?thesis using hooked_call_cleans_up [of do_io_step 100 ?as s] by auto
qed

text \<open>
  Lost timeouts. For every finite timeout, the timer of \<open>do_io\<close> can expire and its callback run
  before \<open>addEvent\<close> has registered the event; the fiber then parks with the timeout recorded but with
  no timer left, and nothing but the readiness of the descriptor can wake it. When \<open>addEvent\<close>
  fails, \<open>connect_with_timeout\<close> goes on to read \<open>SO_ERROR\<close> and can report success for a connection that
  is still in progress.
\<close>

theorem hooked_call_lost_timeout:
  assumes "to \<noteq> -1"
  shows "(\<exists>as s. io_run do_io_step (io_call_new to) as = Some s \<and> c_phase s = Parked \<and>
            c_cancelled s = ETIMEDOUT \<and> (\<forall>a. do_io_step s a \<noteq> None \<longrightarrow> a = Ready)) \<and>
         (\<exists>s. io_run connect_step (io_call_new to)
                [Sys_return (-1) EINPROGRESS, Add_event (-1) e, Sock_error 0 e 0] = Some s \<and>
              c_phase s = Returned 0 e)"
proof (intro conjI)
  let ?as = "[Sys_return (-1) EAGAIN, Timer_expires, Timer_callback, Add_event 0 0]"
  let ?s = "(io_call_new to)\<lparr>c_phase := Parked, c_cancelled := ETIMEDOUT, c_event := True\<rparr>"
  have "io_run do_io_step (io_call_new to) ?as = Some ?s"
    using assms
    by (simp add: io_call_new_def do_io_step_def surroundings_step_def timer_callback_def Let_def errno_defs)
  moreover have "\<forall>a. do_io_step ?s a \<noteq> None \<longrightarrow> a = Ready"
  proof
    show "do_io_step ?s a \<noteq> None \<longrightarrow> a = Ready" for a
      by (cases a) (simp_all add: do_io_step_def surroundings_step_def io_call_new_def)
  qed
  moreover have "c_phase ?s = Parked" "c_cancelled ?s = ETIMEDOUT" by simp_all
  ultimately show "\<exists>as s. io_run do_io_step (io_call_new to) as = Some s \<and> c_phase s = Parked \<and>
      c_cancelled s = ETIMEDOUT \<and> (\<forall>a. do_io_step s a \<noteq> None \<longrightarrow> a = Ready)"
    by blast
  show "\<exists>s. io_run connect_step (io_call_new to)
      [Sys_return (-1) EINPROGRESS, Add_event (-1) e, Sock_error 0 e 0] = Some s \<and> c_phase s = Returned 0 e"
    by (simp add: io_call_new_def connect_step_def errno_defs)
qed

theorem hooked_call_lost_timeout_witness:
  "\<exists>as s. io_run do_io_step (io_call_new 1000) as = Some s \<and> c_phase s = Parked \<and>
     (\<forall>a. do_io_step s a \<noteq> None \<longrightarrow> a = Ready)"
  using hooked_call_lost_timeout [of 1000 0] by auto

end
