(* ===== verification/Socket_Stream.thy ===== *)
theory Socket_Stream
  imports Prelude
begin

text \<open>
  \<^verbatim>\<open>sylar/stream.cc\<close> and \<^verbatim>\<open>sylar/streams/socket_stream.cc\<close>: the loops that read or write a fixed number of bytes,
  and the stream over a connected socket.

  The four loops of \<open>Stream\<close> are one loop over different steps: a step moves at most as many bytes as are
  left and returns their number, or a value that is not positive. The locale \<open>mover\<close> is the contract of a
  step; the loop then moves exactly the number asked for, or stops at the first failure.

  The peer of a socket is modelled by what the system calls deliver: \<open>s_input\<close> are the pieces in which its
  bytes arrive, the empty piece being a call that fails (an error, a timeout, the end of the stream), and
  \<open>s_room\<close> says how many bytes the next calls of \<open>send\<close> accept (0: the call fails; at the end of the list
  everything is accepted).
\<close>

section \<open>Moving a fixed number of bytes\<close>

text \<open>\<^const>\<open>None\<close>: all bytes have been moved; \<open>Some len\<close>: a step has returned this value.\<close>

function fix_size_loop :: "(nat \<Rightarrow> 's \<Rightarrow> int \<times> 's) \<Rightarrow> nat \<Rightarrow> 's \<Rightarrow> int option \<times> 's" where
  "fix_size_loop step left s =
     (if left = 0 then (None, s)
      else case step left s of (len, s') \<Rightarrow>
        if len \<le> 0 then (Some len, s') else fix_size_loop step (left - nat len) s')"
  by pat_completeness auto
termination
  by (relation "measure (\<lambda>(step, left, s). left)") auto

declare fix_size_loop.simps [simp del]

text \<open>The conversion of a 64-bit value to the return type \<open>int\<close>.\<close>

definition to_int :: "int \<Rightarrow> int" where
  "to_int x = (x + 2 ^ 31) mod 2 ^ 32 - 2 ^ 31"

lemma to_int_id [simp]: "- (2 ^ 31) \<le> x \<Longrightarrow> x < 2 ^ 31 \<Longrightarrow> to_int x = x"
  by (simp add: to_int_def)

definition fix_size_result :: "nat \<Rightarrow> int option \<times> 's \<Rightarrow> int \<times> 's" where
  "fix_size_result n = (\<lambda>(r, s). (case r of None \<Rightarrow> to_int (int n) | Some len \<Rightarrow> to_int len, s))"

text \<open>
  \<open>readFixSize(void*, size_t)\<close>: the bytes read so far are the first component; \<open>read\<close> returns the number of
  bytes, the bytes and the stream. \<open>writeFixSize(const void*, size_t)\<close>: the bytes still to be written.
\<close>

definition Stream_readFixSize :: "(nat \<Rightarrow> 's \<Rightarrow> int \<times> string \<times> 's) \<Rightarrow> nat \<Rightarrow> 's \<Rightarrow> int \<times> string \<times> 's" where
  "Stream_readFixSize read n s =
     fix_size_result n
       (fix_size_loop (\<lambda>left (buffer, s). case read left s of (len, bytes, s') \<Rightarrow> (len, buffer @ bytes, s')) n ([], s))"

definition Stream_readFixSize_ba :: "(nat \<Rightarrow> 'b \<Rightarrow> 's \<Rightarrow> int \<times> 'b \<times> 's) \<Rightarrow> 'b \<Rightarrow> nat \<Rightarrow> 's \<Rightarrow> int \<times> 'b \<times> 's" where
  "Stream_readFixSize_ba read ba n s =
     fix_size_result n (fix_size_loop (\<lambda>left (ba, s). read left ba s) n (ba, s))"

definition Stream_writeFixSize :: "(string \<Rightarrow> 's \<Rightarrow> int \<times> 's) \<Rightarrow> string \<Rightarrow> 's \<Rightarrow> int \<times> 's" where
  "Stream_writeFixSize put buffer s =
     (case fix_size_result (length buffer)
        (fix_size_loop
           (\<lambda>left (offset, s). case put (take left (drop offset buffer)) s of
              (len, s') \<Rightarrow> (len, if len \<le> 0 then offset else offset + nat len, s'))
           (length buffer) (0, s)) of
      (r, offset, s') \<Rightarrow> (r, s'))"

definition Stream_writeFixSize_ba :: "(nat \<Rightarrow> 'b \<Rightarrow> 's \<Rightarrow> int \<times> 'b \<times> 's) \<Rightarrow> 'b \<Rightarrow> nat \<Rightarrow> 's \<Rightarrow> int \<times> 'b \<times> 's" where
  "Stream_writeFixSize_ba put ba n s =
     fix_size_result n (fix_size_loop (\<lambda>left (ba, s). put left ba s) n (ba, s))"

section \<open>The stream over a socket\<close>

record sock_stream =
  s_connected :: bool
  s_input :: "string list"
  s_room :: "nat list"
  s_output :: string

definition SocketStream_isConnected :: "sock_stream \<Rightarrow> bool" where
  "SocketStream_isConnected s = s_connected s"

definition sys_recv :: "nat \<Rightarrow> sock_stream \<Rightarrow> int \<times> string \<times> sock_stream" where
  "sys_recv n s =
     (case s_input s of
        [] \<Rightarrow> (0, [], s)
      | seg # segs \<Rightarrow>
          if seg = [] then (-1, [], s\<lparr>s_input := segs\<rparr>)
          else (int (length (take n seg)), take n seg,
                s\<lparr>s_input := (if drop n seg = [] then segs else drop n seg # segs)\<rparr>))"

definition sys_send :: "string \<Rightarrow> sock_stream \<Rightarrow> int \<times> sock_stream" where
  "sys_send buffer s =
     (case s_room s of
        [] \<Rightarrow> (int (length buffer), s\<lparr>s_output := s_output s @ buffer\<rparr>)
      | n # ns \<Rightarrow>
          if n = 0 then (-1, s\<lparr>s_room := ns\<rparr>)
          else (int (length (take n buffer)), s\<lparr>s_room := ns, s_output := s_output s @ take n buffer\<rparr>))"

definition SocketStream_read :: "nat \<Rightarrow> sock_stream \<Rightarrow> int \<times> string \<times> sock_stream" where
  "SocketStream_read n s = (if \<not> SocketStream_isConnected s then (-1, [], s) else sys_recv n s)"

definition SocketStream_write :: "string \<Rightarrow> sock_stream \<Rightarrow> int \<times> sock_stream" where
  "SocketStream_write buffer s = (if \<not> SocketStream_isConnected s then (-1, s) else sys_send buffer s)"

definition SocketStream_close :: "sock_stream \<Rightarrow> sock_stream" where
  "SocketStream_close s = s\<lparr>s_connected := False\<rparr>"

section \<open>The contract of a step\<close>

locale mover =
  fixes step :: "nat \<Rightarrow> 's \<Rightarrow> int \<times> 's" and moved :: "'s \<Rightarrow> string" and pending :: "'s \<Rightarrow> string" and ok :: "'s \<Rightarrow> bool"
  assumes step_moves: "ok s \<Longrightarrow> 0 < n \<Longrightarrow> step n s = (len, s') \<Longrightarrow> 0 < len \<Longrightarrow>
      nat len \<le> n \<and> nat len \<le> length (pending s) \<and> ok s' \<and>
      moved s' = moved s @ take (nat len) (pending s) \<and> pending s' = drop (nat len) (pending s)"
    and step_progress: "ok s \<Longrightarrow> 0 < n \<Longrightarrow> pending s \<noteq> [] \<Longrightarrow> 0 < fst (step n s)"
begin

lemma loop_moves:
  "ok s \<Longrightarrow> fix_size_loop step n s = (None, s') \<Longrightarrow>
   n \<le> length (pending s) \<and> ok s' \<and> moved s' = moved s @ take n (pending s) \<and> pending s' = drop n (pending s)"
proof (induction n arbitrary: s rule: less_induct)
  case (less n)
  show ?case
  proof (cases "n = 0")
    case False
    obtain len s1 where step: "step n s = (len, s1)" by force
    have loop: "fix_size_loop step n s = (if len \<le> 0 then (Some len, s1) else fix_size_loop step (n - nat len) s1)"
      using False by (simp add: fix_size_loop.simps [of step n s] step)
    then have len: "0 < len" using less.prems(2) by (auto split: if_splits)
    note m = step_moves [OF less.prems(1) _ step len]
    have "fix_size_loop step (n - nat len) s1 = (None, s')" using loop len less.prems(2) by simp
    moreover have "take (nat len) (pending s) @ take (n - nat len) (drop (nat len) (pending s)) = take n (pending s)"
      using m False by (metis append_take_drop_id le_add_diff_inverse neq0_conv take_add)
    ultimately show ?thesis
      using less.IH [of "n - nat len" s1] m len False by auto
  qed (use less.prems in \<open>simp add: fix_size_loop.simps\<close>)
qed

lemma loop_completes:
  "ok s \<Longrightarrow> n \<le> length (pending s) \<Longrightarrow> \<exists>s'. fix_size_loop step n s = (None, s')"
proof (induction n arbitrary: s rule: less_induct)
  case (less n)
  show ?case
  proof (cases "n = 0")
    case False
    obtain len s1 where step: "step n s = (len, s1)" by force
    have "pending s \<noteq> []" using False less.prems(2) by auto
    then have "0 < len" using step_progress [OF less.prems(1), of n] False step by auto
    note m = step_moves [OF less.prems(1) _ step this]
    then show ?thesis
      using less.IH [of "n - nat len" s1] less.prems(2) False \<open>0 < len\<close>
      by (simp add: fix_size_loop.simps [of step n s] step)
  qed (simp add: fix_size_loop.simps)
qed

end

text \<open>Reading from a socket: the bytes are appended to the buffer in the order in which they arrive.\<close>

definition read_step :: "nat \<Rightarrow> string \<times> sock_stream \<Rightarrow> int \<times> string \<times> sock_stream" where
  "read_step left = (\<lambda>(buffer, s). case SocketStream_read left s of (len, bytes, s') \<Rightarrow> (len, buffer @ bytes, s'))"

definition live :: "sock_stream \<Rightarrow> bool" where
  "live s \<longleftrightarrow> s_connected s \<and> [] \<notin> set (s_input s)"

interpretation rd: mover read_step fst "\<lambda>(buffer, s). concat (s_input s)" "\<lambda>(buffer, s). live s"
proof
  fix s n len s'
  assume "(case s of (buffer, s) \<Rightarrow> live s)" "0 < n" "read_step n s = (len, s')" "0 < len"
  then show "nat len \<le> n \<and> nat len \<le> length (case s of (buffer, s) \<Rightarrow> concat (s_input s)) \<and>
      (case s' of (buffer, s) \<Rightarrow> live s) \<and>
      fst s' = fst s @ take (nat len) (case s of (buffer, s) \<Rightarrow> concat (s_input s)) \<and>
      (case s' of (buffer, s) \<Rightarrow> concat (s_input s)) = drop (nat len) (case s of (buffer, s) \<Rightarrow> concat (s_input s))"
    by (auto simp: read_step_def live_def SocketStream_read_def SocketStream_isConnected_def sys_recv_def
        split: prod.splits list.splits if_splits)
next
  fix s :: "string \<times> sock_stream" and n :: nat
  assume "(case s of (buffer, s) \<Rightarrow> live s)" "0 < n" "(case s of (buffer, s) \<Rightarrow> concat (s_input s)) \<noteq> []"
  then show "0 < fst (read_step n s)"
    by (auto simp: read_step_def live_def SocketStream_read_def SocketStream_isConnected_def sys_recv_def
        split: prod.splits list.splits)
qed

definition write_step :: "string \<Rightarrow> nat \<Rightarrow> nat \<times> sock_stream \<Rightarrow> int \<times> nat \<times> sock_stream" where
  "write_step buffer left = (\<lambda>(offset, s). case SocketStream_write (take left (drop offset buffer)) s of
     (len, s') \<Rightarrow> (len, if len \<le> 0 then offset else offset + nat len, s'))"

definition writable :: "sock_stream \<Rightarrow> bool" where
  "writable s \<longleftrightarrow> s_connected s \<and> 0 \<notin> set (s_room s)"

interpretation wr: mover "write_step buffer" "\<lambda>(offset, s). s_output s" "\<lambda>(offset, s). drop offset buffer"
  "\<lambda>(offset, s). writable s"
  for buffer
proof
  fix s n len s'
  assume "(case s of (offset, s) \<Rightarrow> writable s)" "0 < n" "write_step buffer n s = (len, s')" "0 < len"
  then show "nat len \<le> n \<and> nat len \<le> length (case s of (offset, s) \<Rightarrow> drop offset buffer) \<and>
      (case s' of (offset, s) \<Rightarrow> writable s) \<and>
      (case s' of (offset, s) \<Rightarrow> s_output s) = (case s of (offset, s) \<Rightarrow> s_output s) @
        take (nat len) (case s of (offset, s) \<Rightarrow> drop offset buffer) \<and>
      (case s' of (offset, s) \<Rightarrow> drop offset buffer) = drop (nat len) (case s of (offset, s) \<Rightarrow> drop offset buffer)"
    by (auto simp: write_step_def writable_def SocketStream_write_def SocketStream_isConnected_def sys_send_def min_def add.commute
        split: prod.splits list.splits if_splits)
next
  fix s :: "nat \<times> sock_stream" and n :: nat
  assume "(case s of (offset, s) \<Rightarrow> writable s)" "0 < n" "(case s of (offset, s) \<Rightarrow> drop offset buffer) \<noteq> []"
  then show "0 < fst (write_step buffer n s)"
    by (auto simp: write_step_def writable_def SocketStream_write_def SocketStream_isConnected_def sys_send_def
        split: prod.splits list.splits)
qed

lemma fix_size_loop_invariant:
  "(\<And>n s. P s \<Longrightarrow> P (snd (step n s))) \<Longrightarrow> P s \<Longrightarrow> P (snd (fix_size_loop step n s))"
proof (induction n arbitrary: s rule: less_induct)
  case (less n)
  obtain len s1 where step: "step n s = (len, s1)" by force
  then have "P s1" using less.prems(1) [OF less.prems(2), of n] by simp
  then show ?case
    using less by (subst fix_size_loop.simps) (auto simp: step)
qed

lemma read_fix_size_live:
  assumes "live s" "n \<le> length (concat (s_input s))" "n < 2 ^ 31"
  shows "\<exists>s'. Stream_readFixSize SocketStream_read n s = (int n, take n (concat (s_input s)), s') \<and> live s' \<and>
    concat (s_input s') = drop n (concat (s_input s)) \<and> s_output s' = s_output s \<and> s_room s' = s_room s"
proof -
  let ?P = "\<lambda>q :: string \<times> sock_stream. s_output (snd q) = s_output s \<and> s_room (snd q) = s_room s"
  have step: "?P (snd (read_step n q))" if "?P q" for n q
    using that by (auto simp: read_step_def SocketStream_read_def sys_recv_def split: prod.splits list.splits if_splits)
  have "?P ([], s)" by simp
  then have "?P (snd (fix_size_loop read_step n ([], s)))"
    by (rule fix_size_loop_invariant [where P = ?P and step = read_step, rotated]) (rule step)
  then show ?thesis
    using rd.loop_completes [of "([], s)" n] rd.loop_moves [of "([], s)" n] assms
    by (auto simp: Stream_readFixSize_def fix_size_result_def simp flip: read_step_def)
qed

lemma write_fix_size_writable:
  assumes "writable s" "length buffer < 2 ^ 31"
  shows "\<exists>s'. Stream_writeFixSize SocketStream_write buffer s = (int (length buffer), s') \<and> writable s' \<and>
    s_output s' = s_output s @ buffer"
  using wr.loop_completes [of "(0, s)" "length buffer" buffer] wr.loop_moves [of "(0, s)" buffer "length buffer"] assms
  by (auto simp: Stream_writeFixSize_def fix_size_result_def simp flip: write_step_def)

end
