(* ===== verification/Ragel.thy ===== *)
theory Ragel
  imports Prelude
begin

text \<open>
  The table-driven scanner that Ragel writes into \<open>src/sylar/http/http11_parser.cc\<close> and
  \<open>src/sylar/http/httpclient_parser.cc\<close>. Both files hold the same code over different tables; the code
  is modelled here once, as functions of a \<^emph>\<open>record of tables\<close>, and the two scanners instantiate it.

  Every table is a flat array that the source prints eight numbers to a line; a table of the model is the
  list of these lines, and an access \<open>t[i]\<close> reads the concatenation.

  For a state and a character the code finds the transition by two binary searches, one over the single
  keys of the state and one over its key ranges, and then checks the condition of the transition by a
  third. The locale \<open>ragel_machine\<close> states what the tables must satisfy for this to work and shows that
  the searches then do what a linear scan of the keys does.
\<close>

section \<open>Tables and searches\<close>

record ragel =
  actions :: "int list list"
  key_offsets :: "int list list"
  trans_keys :: "int list list"
  single_lengths :: "int list list"
  range_lengths :: "int list list"
  index_offsets :: "int list list"
  trans_cond_spaces :: "int list list"
  trans_offsets :: "int list list"
  trans_lengths :: "int list list"
  cond_keys :: "int list list"
  cond_targs :: "int list list"
  cond_actions :: "int list list"

definition tab :: "int list list \<Rightarrow> int \<Rightarrow> int" where
  "tab t i = concat t ! nat i"

text \<open>
  The pointers \<open>_lower\<close>, \<open>_mid\<close> and \<open>_upper\<close> are modelled by their distance from \<open>_keys\<close>; \<open>_upper\<close> may
  be one (or two) below \<open>_keys\<close>.
\<close>

function key_search :: "(int \<Rightarrow> int) \<Rightarrow> int \<Rightarrow> int \<Rightarrow> int \<Rightarrow> int option" where
  "key_search keys c lower upper =
     (if upper < lower then None
      else let mid = lower + (upper - lower) div 2 in
        if c < keys mid then key_search keys c lower (mid - 1)
        else if c > keys mid then key_search keys c (mid + 1) upper
        else Some mid)"
  by pat_completeness auto
termination
  by (relation "measure (\<lambda>(keys, c, lower, upper). nat (upper - lower + 1))") auto

function range_search :: "(int \<Rightarrow> int) \<Rightarrow> int \<Rightarrow> int \<Rightarrow> int \<Rightarrow> int option" where
  "range_search keys c lower upper =
     (if upper < lower then None
      else let mid = lower + (upper - lower) div 2 div 2 * 2 in
        if c < keys mid then range_search keys c lower (mid - 2)
        else if c > keys (mid + 1) then range_search keys c (mid + 2) upper
        else Some mid)"
  by pat_completeness auto
termination
  by (relation "measure (\<lambda>(keys, c, lower, upper). nat (upper - lower + 1))") auto

declare key_search.simps [simp del] range_search.simps [simp del]

section \<open>One transition\<close>

text \<open>
  The code between the labels \<open>_resume\<close> and \<open>_match\<close>: the number of the transition of state \<open>cs\<close> on
  the (signed) character \<open>c\<close>.
\<close>

definition match_trans :: "ragel \<Rightarrow> int \<Rightarrow> int \<Rightarrow> int" where
  "match_trans T cs c =
     (let keys = tab (key_offsets T) cs;
          tr = tab (index_offsets T) cs;
          klen = tab (single_lengths T) cs in
      case (if klen > 0 then key_search (\<lambda>i. tab (trans_keys T) (keys + i)) c 0 (klen - 1) else None) of
        Some mid \<Rightarrow> tr + mid
      | None \<Rightarrow>
          let keys = (if klen > 0 then keys + klen else keys);
              tr = (if klen > 0 then tr + klen else tr);
              klen = tab (range_lengths T) cs in
          case (if klen > 0 then range_search (\<lambda>i. tab (trans_keys T) (keys + i)) c 0 (2 * klen - 2) else None) of
            Some mid \<Rightarrow> tr + mid div 2
          | None \<Rightarrow> if klen > 0 then tr + klen else tr)"

text \<open>
  The code between \<open>_match\<close> and \<open>_match_cond\<close>: the index of the branch of transition \<open>tr\<close> that the
  condition selects, \<^const>\<open>None\<close> where the machine goes to the error state. \<open>relaxed\<close> is the value of
  \<open>parser->uri_relaxed\<close>, the only condition either machine has.
\<close>

definition match_cond :: "ragel \<Rightarrow> bool \<Rightarrow> int \<Rightarrow> int option" where
  "match_cond T relaxed tr =
     (let off = tab (trans_offsets T) tr;
          klen = tab (trans_lengths T) tr;
          cpc = (if tab (trans_cond_spaces T) tr = 0 then if relaxed then 1 else 0 else 0) in
      case key_search (\<lambda>i. tab (cond_keys T) (off + i)) cpc 0 (klen - 1) of
        Some mid \<Rightarrow> Some (off + mid)
      | None \<Rightarrow> None)"

text \<open>The actions of a branch: a count followed by that many action numbers, none where the offset is 0.\<close>

definition cond_acts :: "ragel \<Rightarrow> int \<Rightarrow> int list" where
  "cond_acts T cond =
     (let a = tab (cond_actions T) cond in
      if a = 0 then [] else map (\<lambda>i. tab (actions T) (a + 1 + i)) [0..tab (actions T) a - 1])"

text \<open>One character: the next state and the actions to run, state 0 being the error state.\<close>

definition ragel_next :: "ragel \<Rightarrow> bool \<Rightarrow> int \<Rightarrow> int \<Rightarrow> int \<times> int list" where
  "ragel_next T relaxed cs c =
     (case match_cond T relaxed (match_trans T cs c) of
        None \<Rightarrow> (0, [])
      | Some cond \<Rightarrow> (tab (cond_targs T) cond, cond_acts T cond))"

section \<open>Searching sorted keys\<close>

text \<open>
  The reference: the position of the first pair of bounds that contains the character, by a linear scan.
  A single key is the pair of itself with itself.
\<close>

fun scan :: "(int \<times> int) list \<Rightarrow> int \<Rightarrow> nat option" where
  "scan [] c = None"
| "scan ((l, h) # ks) c = (if l \<le> c \<and> c \<le> h then Some 0 else map_option Suc (scan ks c))"

fun bounds_ok :: "(int \<times> int) list \<Rightarrow> bool" where
  "bounds_ok [] \<longleftrightarrow> True"
| "bounds_ok [(l, h)] \<longleftrightarrow> l \<le> h"
| "bounds_ok ((l, h) # (l', h') # ks) \<longleftrightarrow> l \<le> h \<and> h < l' \<and> bounds_ok ((l', h') # ks)"

fun pairs :: "int list \<Rightarrow> (int \<times> int) list" where
  "pairs (l # h # ks) = (l, h) # pairs ks"
| "pairs _ = []"

text \<open>Both searches are instances of a search over an array of pairs.\<close>

function pair_search :: "(int \<Rightarrow> int) \<Rightarrow> (int \<Rightarrow> int) \<Rightarrow> int \<Rightarrow> int \<Rightarrow> int \<Rightarrow> int option" where
  "pair_search lo hi c lower upper =
     (if upper < lower then None
      else let mid = lower + (upper - lower) div 2 in
        if c < lo mid then pair_search lo hi c lower (mid - 1)
        else if c > hi mid then pair_search lo hi c (mid + 1) upper
        else Some mid)"
  by pat_completeness auto
termination
  by (relation "measure (\<lambda>(lo, hi, c, lower, upper). nat (upper - lower + 1))") auto

declare pair_search.simps [simp del]

lemma key_search_pairs: "key_search keys c lower upper = pair_search keys keys c lower upper"
proof (induction keys c lower upper rule: key_search.induct)
  case (1 keys c lower upper)
  define mid where "mid = lower + (upper - lower) div 2"
  show ?case
    using 1 [OF _ mid_def]
    by (subst key_search.simps, subst pair_search.simps) (simp add: Let_def flip: mid_def)
qed

lemma range_search_pairs:
  "range_search keys c (2 * lower) (2 * upper) =
   map_option ((*) 2) (pair_search (\<lambda>i. keys (2 * i)) (\<lambda>i. keys (2 * i + 1)) c lower upper)"
proof (induction "nat (upper - lower + 1)" arbitrary: lower upper rule: less_induct)
  case less
  define mid where "mid = lower + (upper - lower) div 2"
  have mid: "2 * lower + (2 * upper - 2 * lower) div 2 div 2 * 2 = 2 * mid"
    unfolding mid_def by presburger
  let ?f = "\<lambda>i. keys (2 * i)" and ?g = "\<lambda>i. keys (2 * i + 1)"
  have IH: "range_search keys c (2 * lower) (2 * mid - 2) = map_option ((*) 2) (pair_search ?f ?g c lower (mid - 1))"
    "range_search keys c (2 * mid + 2) (2 * upper) = map_option ((*) 2) (pair_search ?f ?g c (mid + 1) upper)"
    if "\<not> upper < lower"
    using less [of "mid - 1" lower] less [of upper "mid + 1"] that
    by (simp_all add: mid_def algebra_simps)
  show ?case
    unfolding range_search.simps [of keys c "2 * lower" "2 * upper"] pair_search.simps [of ?f ?g c lower upper]
      Let_def mid mid_def [symmetric]
    using IH by simp
qed

lemma pair_search_Some:
  assumes "pair_search lo hi c lower upper = Some m"
  shows "lower \<le> m \<and> m \<le> upper \<and> lo m \<le> c \<and> c \<le> hi m"
  using assms
proof (induction lo hi c lower upper rule: pair_search.induct)
  case (1 lo hi c lower upper)
  define mid where "mid = lower + (upper - lower) div 2"
  have step: "pair_search lo hi c lower upper =
      (if upper < lower then None else if c < lo mid then pair_search lo hi c lower (mid - 1)
       else if c > hi mid then pair_search lo hi c (mid + 1) upper else Some mid)"
    by (subst pair_search.simps) (simp add: Let_def mid_def)
  have "lower \<le> mid \<and> mid \<le> upper" if "\<not> upper < lower" using that by (auto simp: mid_def)
  then show ?case
    using "1.IH" [OF _ mid_def] "1.prems" by (fastforce simp: step split: if_splits)
qed

lemma pair_search_None:
  assumes "pair_search lo hi c lower upper = None"
    and "\<And>i. lower \<le> i \<Longrightarrow> i \<le> upper \<Longrightarrow> lo i \<le> hi i"
    and "\<And>i j. lower \<le> i \<Longrightarrow> i < j \<Longrightarrow> j \<le> upper \<Longrightarrow> hi i < lo j"
    and "lower \<le> m" "m \<le> upper"
  shows "c < lo m \<or> hi m < c"
  using assms
proof (induction lo hi c lower upper rule: pair_search.induct)
  case (1 lo hi c lower upper)
  define mid where "mid = lower + (upper - lower) div 2"
  have mid: "lower \<le> mid" "mid \<le> upper" using "1.prems"(4,5) by (auto simp: mid_def)
  have step: "pair_search lo hi c lower upper =
      (if upper < lower then None else if c < lo mid then pair_search lo hi c lower (mid - 1)
       else if c > hi mid then pair_search lo hi c (mid + 1) upper else Some mid)"
    by (subst pair_search.simps) (simp add: Let_def mid_def)
  consider "c < lo mid" | "\<not> c < lo mid" "c > hi mid"
    using "1.prems"(1,4,5) step by (auto split: if_splits)
  then show ?case
  proof cases
    case 1
    show ?thesis
    proof (cases "m \<le> mid - 1")
      case True
      have "pair_search lo hi c lower (mid - 1) = None" using step 1 "1.prems"(1,4,5) by simp
      then show ?thesis
        using "1.IH"(1) [OF _ mid_def 1] "1.prems"(2-5) True mid by force
    next
      case False
      then have "m = mid \<or> hi mid < lo m" using "1.prems"(3) [of mid m] mid "1.prems"(5) by force
      then show ?thesis using 1 "1.prems"(2) [of mid] mid by force
    qed
  next
    case 2
    show ?thesis
    proof (cases "mid + 1 \<le> m")
      case True
      have "pair_search lo hi c (mid + 1) upper = None" using step 2 "1.prems"(1,4,5) by simp
      then show ?thesis
        using "1.IH"(2) [OF _ mid_def 2] "1.prems"(2-5) True mid by force
    next
      case False
      then have "m = mid \<or> hi m < lo mid" using "1.prems"(3) [of m mid] mid "1.prems"(4) by force
      then show ?thesis using 2 "1.prems"(2) [of mid] mid by force
    qed
  qed
qed

lemma bounds_ok_nth:
  assumes "bounds_ok ks"
  shows "i < length ks \<Longrightarrow> fst (ks ! i) \<le> snd (ks ! i)"
    and "i < j \<Longrightarrow> j < length ks \<Longrightarrow> snd (ks ! i) < fst (ks ! j)"
  using assms
proof (induction ks arbitrary: i j rule: bounds_ok.induct)
  case (3 l h l' h' ks)
  {
    case 1
    then show ?case using 3 by (cases i) auto
  next
    case 2
    have below: "h < fst (((l', h') # ks) ! k)" if "k < Suc (length ks)" for k
      using "3.IH"(1) [of 0] "3.IH"(2) [of 0 k] 2 that by (cases k) auto
    show ?case
      using 2 "3.IH"(2) [of "i - 1" "j - 1"] below [of "j - 1"] by (cases i; cases j) auto
  }
qed auto

lemma scan_Some: "scan ks c = Some i \<Longrightarrow> i < length ks \<and> fst (ks ! i) \<le> c \<and> c \<le> snd (ks ! i)"
  by (induction ks c arbitrary: i rule: scan.induct) (auto split: if_splits)

lemma scan_None: "scan ks c = None \<Longrightarrow> i < length ks \<Longrightarrow> \<not> (fst (ks ! i) \<le> c \<and> c \<le> snd (ks ! i))"
  by (induction ks c arbitrary: i rule: scan.induct) (auto simp: nth_Cons' split: if_splits)

lemma pair_search_scan:
  assumes "bounds_ok ks"
    and "\<And>i. i < length ks \<Longrightarrow> lo (int i) = fst (ks ! i) \<and> hi (int i) = snd (ks ! i)"
  shows "pair_search lo hi c 0 (int (length ks) - 1) = map_option int (scan ks c)"
proof (cases "scan ks c")
  case None
  have "pair_search lo hi c 0 (int (length ks) - 1) \<noteq> Some m" for m
    using pair_search_Some [of lo hi c 0 "int (length ks) - 1" m] scan_None [OF None, of "nat m"]
      assms(2) [of "nat m"] by auto
  then show ?thesis using None by (cases "pair_search lo hi c 0 (int (length ks) - 1)") auto
next
  case (Some i)
  from scan_Some [OF this] have i: "i < length ks" "fst (ks ! i) \<le> c" "c \<le> snd (ks ! i)" by auto
  have le: "lo k \<le> hi k" if "0 \<le> k" "k \<le> int (length ks) - 1" for k
    using bounds_ok_nth(1) [OF assms(1), of "nat k"] assms(2) [of "nat k"] that by auto
  have less: "hi k < lo k'" if "0 \<le> k" "k < k'" "k' \<le> int (length ks) - 1" for k k'
    using bounds_ok_nth(2) [OF assms(1), of "nat k" "nat k'"] assms(2) [of "nat k"] assms(2) [of "nat k'"] that
    by auto
  obtain m where m: "pair_search lo hi c 0 (int (length ks) - 1) = Some m"
    using pair_search_None [of lo hi c 0 "int (length ks) - 1" "int i"] le less i assms(2) [of i]
    by (cases "pair_search lo hi c 0 (int (length ks) - 1)") auto
  have "m = int i"
    using pair_search_Some [OF m] less [of m "int i"] less [of "int i" m] i assms(2) [of i]
    by (cases m "int i" rule: linorder_cases) auto
  then show ?thesis using Some m by simp
qed

section \<open>What the tables must satisfy\<close>

text \<open>
  \<open>edges\<close> lists the keys of a state in the order the code tries them, single keys first; \<open>outs\<close> the
  branches of the transitions in the same order, followed by the default. \<open>look\<close> is the reference for one
  step: the first edge that contains the character.
\<close>

definition slice :: "int list list \<Rightarrow> int \<Rightarrow> int \<Rightarrow> int list" where
  "slice t i n = take (nat n) (drop (nat i) (concat t))"

definition single_keys :: "ragel \<Rightarrow> int \<Rightarrow> (int \<times> int) list" where
  "single_keys T cs = map (\<lambda>k. (k, k)) (slice (trans_keys T) (tab (key_offsets T) cs) (tab (single_lengths T) cs))"

definition range_keys :: "ragel \<Rightarrow> int \<Rightarrow> (int \<times> int) list" where
  "range_keys T cs =
     pairs (slice (trans_keys T) (tab (key_offsets T) cs + tab (single_lengths T) cs) (2 * tab (range_lengths T) cs))"

definition branch :: "ragel \<Rightarrow> bool \<Rightarrow> int \<Rightarrow> int \<times> int list" where
  "branch T relaxed tr =
     (if tab (cond_keys T) tr = (if tab (trans_cond_spaces T) tr = 0 \<and> relaxed then 1 else 0)
      then (tab (cond_targs T) tr, cond_acts T tr) else (0, []))"

definition outs :: "ragel \<Rightarrow> bool \<Rightarrow> int \<Rightarrow> (int \<times> int list) list" where
  "outs T relaxed cs =
     map (branch T relaxed)
       [tab (index_offsets T) cs..
        tab (index_offsets T) cs + tab (single_lengths T) cs + tab (range_lengths T) cs]"

fun look :: "(int \<times> int) list \<Rightarrow> 'a list \<Rightarrow> int \<Rightarrow> 'a" where
  "look ((l, h) # ks) (b # bs) c = (if l \<le> c \<and> c \<le> h then b else look ks bs c)"
| "look ks bs c = hd bs"

declare look.simps [simp del]

lemma look_scan:
  "length ks < length bs \<Longrightarrow>
   look ks bs c = bs ! (case scan ks c of Some i \<Rightarrow> i | None \<Rightarrow> length ks)"
  by (induction ks bs c rule: look.induct) (auto simp: look.simps hd_conv_nth split: option.splits)

lemma scan_append:
  "scan (ks @ ks') c = (case scan ks c of Some i \<Rightarrow> Some i | None \<Rightarrow> map_option ((+) (length ks)) (scan ks' c))"
  proof (induction ks)
  case (Cons k ks)
  then show ?case by (cases k; cases "scan ks' c") (auto split: option.splits)
qed (cases "scan ks' c"; simp)

lemma length_pairs [simp]: "length (pairs ks) = length ks div 2"
  by (induction ks rule: pairs.induct) auto

lemma nth_pairs: "i < length ks div 2 \<Longrightarrow> pairs ks ! i = (ks ! (2 * i), ks ! (2 * i + 1))"
  by (induction ks arbitrary: i rule: pairs.induct) (auto simp: nth_Cons' less_Suc_eq_0_disj)

lemma tab_slice:
  "0 \<le> i \<Longrightarrow> 0 \<le> j \<Longrightarrow> j < n \<Longrightarrow> nat (i + n) \<le> length (concat t) \<Longrightarrow> tab t (i + j) = slice t i n ! nat j"
  by (simp add: tab_def slice_def nat_add_distrib)

lemma length_slice: "0 \<le> i \<Longrightarrow> 0 \<le> n \<Longrightarrow> nat (i + n) \<le> length (concat t) \<Longrightarrow> length (slice t i n) = nat n"
  by (simp add: slice_def nat_add_distrib)

section \<open>Reading the edges of one state\<close>

text \<open>
  All rows of a table but the last have eight entries, so that a slice touches few rows. With this the
  edges and branches of a given state are evaluated from the tables.
\<close>

fun octets :: "int list list \<Rightarrow> bool" where
  "octets (r # r' # t) \<longleftrightarrow> length r = 8 \<and> octets (r' # t)"
| "octets t \<longleftrightarrow> True"

lemma octets_Cons: "octets (r # t) \<longleftrightarrow> octets t \<and> (t \<noteq> [] \<longrightarrow> length r = 8)"
  by (cases t) auto

lemma octets_drop: "octets t \<Longrightarrow> octets (drop k t)"
  by (induction t arbitrary: k) (auto simp: octets_Cons drop_Cons')

lemma drop_concat_octets:
  "octets t \<Longrightarrow> k < length t \<Longrightarrow> drop (8 * k + j) (concat t) = drop j (concat (drop k t))"
proof (induction t arbitrary: k)
  case (Cons r t)
  show ?case
  proof (cases k)
    case (Suc k')
    then have "t \<noteq> []" "length r = 8" "octets t"
      using Cons.prems by (auto simp: octets_Cons)
    then show ?thesis using Cons Suc by (simp add: add.assoc)
  qed simp
qed simp

lemma take_concat_octets:
  "octets t \<Longrightarrow> n \<le> 8 * q \<Longrightarrow> take n (concat t) = take n (concat (take q t))"
proof (induction t arbitrary: n q)
  case (Cons r t)
  show ?case
  proof (cases "t = [] \<or> q = 0")
    case False
    then obtain q' where q': "q = Suc q'" by (cases q) auto
    have "length r = 8" "octets t" using Cons.prems False by (auto simp: octets_Cons)
    then show ?thesis using Cons.IH [of "n - 8" q'] Cons.prems(2) by (simp add: q')
  qed (use Cons.prems in \<open>cases q; auto\<close>)
qed simp

lemma slice_octets:
  assumes "octets t" "nat i div 8 < length t" "nat i mod 8 + nat n \<le> 8 * q"
  shows "slice t i n = take (nat n) (drop (nat i mod 8) (concat (take q (drop (nat i div 8) t))))"
proof -
  have "drop (nat i) (concat t) = drop (nat i mod 8) (concat (drop (nat i div 8) t))"
    using drop_concat_octets [OF assms(1,2), of "nat i mod 8"] by simp
  then have "slice t i n = drop (nat i mod 8) (take (nat i mod 8 + nat n) (concat (drop (nat i div 8) t)))"
    by (simp add: slice_def take_drop add.commute)
  then show ?thesis
    using take_concat_octets [OF octets_drop [OF assms(1)] assms(3)] by (simp add: take_drop add.commute)
qed

lemma slice_rows:
  "octets t \<Longrightarrow> nat i div 8 < length t \<Longrightarrow>
   slice t i n = take (nat n) (drop (nat i mod 8) (concat (take (Suc ((nat i mod 8 + nat n) div 8)) (drop (nat i div 8) t))))"
  by (rule slice_octets) auto

lemma tab_rows:
  assumes "octets t" "nat i div 8 < length t" "nat i mod 8 < length (t ! (nat i div 8))"
  shows "tab t i = t ! (nat i div 8) ! (nat i mod 8)"
proof -
  let ?r = "t ! (nat i div 8)" and ?j = "nat i mod 8"
  have rows: "drop (nat i div 8) t = ?r # drop (Suc (nat i div 8)) t"
    using assms(2) by (simp add: Cons_nth_drop_Suc)
  have "drop (nat i) (concat t) = drop ?j (concat (drop (nat i div 8) t))"
    using drop_concat_octets [OF assms(1,2), of ?j] by simp
  also have "\<dots> = ?r ! ?j # drop (Suc ?j) (concat (drop (nat i div 8) t))"
    using assms(3) unfolding rows by (simp add: Cons_nth_drop_Suc)
  finally show ?thesis
    unfolding tab_def using nth_via_drop by fastforce
qed

lemma octets_row: "octets t \<Longrightarrow> Suc k < length t \<Longrightarrow> length (t ! k) = 8"
  by (induction t arbitrary: k) (auto simp: octets_Cons nth_Cons')

lemma tab_row:
  "octets t \<Longrightarrow> Suc (nat i div 8) < length t \<Longrightarrow> tab t i = t ! (nat i div 8) ! (nat i mod 8)"
  by (rule tab_rows) (auto simp: octets_row)

definition acts_at :: "ragel \<Rightarrow> int \<Rightarrow> int list" where
  "acts_at T a = (if a = 0 then [] else slice (actions T) (a + 1) (tab (actions T) a))"

fun branches_of :: "ragel \<Rightarrow> bool \<Rightarrow> int list \<Rightarrow> int list \<Rightarrow> int list \<Rightarrow> int list \<Rightarrow> (int \<times> int list) list" where
  "branches_of T relaxed (k # ks) (s # ss) (t # ts) (a # as) =
     (if k = (if s = 0 \<and> relaxed then 1 else 0) then (t, acts_at T a) else (0, []))
     # branches_of T relaxed ks ss ts as"
| "branches_of T relaxed _ _ _ _ = []"

lemma branches_of_nth:
  "i < length ks \<Longrightarrow> length ss = length ks \<Longrightarrow> length ts = length ks \<Longrightarrow> length as = length ks \<Longrightarrow>
   branches_of T relaxed ks ss ts as ! i =
     (if ks ! i = (if ss ! i = 0 \<and> relaxed then 1 else 0) then (ts ! i, acts_at T (as ! i)) else (0, []))"
  by (induction T relaxed ks ss ts as arbitrary: i rule: branches_of.induct) (auto simp: nth_Cons')

lemma length_branches_of:
  "length ss = length ks \<Longrightarrow> length ts = length ks \<Longrightarrow> length as = length ks \<Longrightarrow>
   length (branches_of T relaxed ks ss ts as) = length ks"
  by (induction T relaxed ks ss ts as rule: branches_of.induct) auto

lemma cond_acts_at:
  assumes "tab (cond_actions T) tr = a" "0 \<le> a"
    and "a \<noteq> 0 \<Longrightarrow> 0 \<le> tab (actions T) a \<and> nat (a + 1 + tab (actions T) a) \<le> length (concat (actions T))"
  shows "cond_acts T tr = acts_at T a"
proof (cases "a = 0")
  case False
  let ?n = "tab (actions T) a"
  have "tab (actions T) (a + 1 + j) = slice (actions T) (a + 1) ?n ! nat j" if "0 \<le> j" "j < ?n" for j
    using assms False that by (intro tab_slice) auto
  then have "map (\<lambda>i. tab (actions T) (a + 1 + i)) [0..?n - 1] = slice (actions T) (a + 1) ?n"
    using assms False by (intro nth_equalityI) (auto simp: length_slice)
  then show ?thesis using assms(1) False by (simp add: cond_acts_def acts_at_def)
qed (use assms in \<open>simp add: cond_acts_def acts_at_def\<close>)

section \<open>The laws of a machine\<close>

definition act_ok :: "ragel \<Rightarrow> int \<Rightarrow> bool" where
  "act_ok T a \<longleftrightarrow> 0 \<le> a \<and>
     (a \<noteq> 0 \<longrightarrow> 0 \<le> tab (actions T) a \<and> nat (a + 1 + tab (actions T) a) \<le> length (concat (actions T)))"

locale ragel_machine =
  fixes T :: ragel and n m :: int
  assumes keys: "0 < cs \<Longrightarrow> cs < n \<Longrightarrow>
      0 \<le> tab (key_offsets T) cs \<and> 0 \<le> tab (single_lengths T) cs \<and> 0 \<le> tab (range_lengths T) cs \<and>
      nat (tab (key_offsets T) cs + tab (single_lengths T) cs + 2 * tab (range_lengths T) cs)
        \<le> length (concat (trans_keys T)) \<and>
      bounds_ok (single_keys T cs) \<and> bounds_ok (range_keys T cs)"
    and index: "0 < cs \<Longrightarrow> cs < n \<Longrightarrow>
      0 \<le> tab (index_offsets T) cs \<and>
      tab (index_offsets T) cs + tab (single_lengths T) cs + tab (range_lengths T) cs < m"
    and branches: "0 \<le> tr \<Longrightarrow> tr < m \<Longrightarrow> tab (trans_offsets T) tr = tr \<and> tab (trans_lengths T) tr = 1"
    and targets: "0 \<le> tr \<Longrightarrow> tr < m \<Longrightarrow> 0 \<le> tab (cond_targs T) tr \<and> tab (cond_targs T) tr < n"
    and acts: "0 \<le> tr \<Longrightarrow> tr < m \<Longrightarrow> act_ok T (tab (cond_actions T) tr)"
    and sizes: "nat m \<le> length (concat (cond_keys T))" "nat m \<le> length (concat (trans_cond_spaces T))"
      "nat m \<le> length (concat (cond_targs T))" "nat m \<le> length (concat (cond_actions T))"
begin

lemma key_sizes:
  assumes "0 < cs" "cs < n"
  shows "length (single_keys T cs) = nat (tab (single_lengths T) cs)"
    and "length (range_keys T cs) = nat (tab (range_lengths T) cs)"
  using keys [OF assms]
  by (auto simp: single_keys_def range_keys_def length_slice nat_mult_distrib)

lemma single_search:
  assumes "0 < cs" "cs < n"
  shows "key_search (\<lambda>i. tab (trans_keys T) (tab (key_offsets T) cs + i)) c 0 (tab (single_lengths T) cs - 1)
    = map_option int (scan (single_keys T cs) c)"
proof -
  let ?f = "\<lambda>i. tab (trans_keys T) (tab (key_offsets T) cs + i)"
  note k = keys [OF assms] key_sizes [OF assms]
  have "pair_search ?f ?f c 0 (int (length (single_keys T cs)) - 1) = map_option int (scan (single_keys T cs) c)"
  proof (rule pair_search_scan)
    fix i assume "i < length (single_keys T cs)"
    then show "?f (int i) = fst (single_keys T cs ! i) \<and> ?f (int i) = snd (single_keys T cs ! i)"
      using k by (auto simp: single_keys_def tab_slice [where n = "tab (single_lengths T) cs"])
  qed (use k in simp)
  then show ?thesis using k by (simp add: key_search_pairs)
qed

lemma range_search:
  assumes "0 < cs" "cs < n"
  shows "range_search (\<lambda>i. tab (trans_keys T) (tab (key_offsets T) cs + tab (single_lengths T) cs + i)) c 0
      (2 * tab (range_lengths T) cs - 2)
    = map_option (\<lambda>i. 2 * int i) (scan (range_keys T cs) c)"
proof -
  let ?f = "\<lambda>i. tab (trans_keys T) (tab (key_offsets T) cs + tab (single_lengths T) cs + i)"
  let ?r = "tab (range_lengths T) cs"
  note k = keys [OF assms] key_sizes [OF assms]
  have "pair_search (\<lambda>i. ?f (2 * i)) (\<lambda>i. ?f (2 * i + 1)) c 0 (int (length (range_keys T cs)) - 1)
      = map_option int (scan (range_keys T cs) c)"
  proof (rule pair_search_scan)
    fix i assume i: "i < length (range_keys T cs)"
    have "?f j = slice (trans_keys T) (tab (key_offsets T) cs + tab (single_lengths T) cs) (2 * ?r) ! nat j"
      if "0 \<le> j" "j < 2 * ?r" for j
      using k that by (intro tab_slice) auto
    from this [of "2 * int i"] this [of "2 * int i + 1"]
    show "?f (2 * int i) = fst (range_keys T cs ! i) \<and> ?f (2 * int i + 1) = snd (range_keys T cs ! i)"
      using i k by (auto simp: range_keys_def nth_pairs nat_add_distrib nat_mult_distrib)
  qed (use k in simp)
  then show ?thesis
    using k range_search_pairs [of ?f c 0 "?r - 1"] by (simp add: option.map_comp comp_def right_diff_distrib)
qed

lemma match_trans_scan:
  assumes "0 < cs" "cs < n"
  shows "match_trans T cs c = tab (index_offsets T) cs +
     int (case scan (single_keys T cs @ range_keys T cs) c of
            Some i \<Rightarrow> i | None \<Rightarrow> length (single_keys T cs @ range_keys T cs))"
proof -
  note k = keys [OF assms] key_sizes [OF assms] single_search [OF assms] range_search [OF assms]
  have "scan (single_keys T cs) c = None" if "tab (single_lengths T) cs \<le> 0"
    using that k by (cases "single_keys T cs") auto
  moreover have "scan (range_keys T cs) c = None" if "tab (range_lengths T) cs \<le> 0"
    using that k by (cases "range_keys T cs") auto
  ultimately show ?thesis
    using k by (auto simp: match_trans_def Let_def scan_append split: option.splits)
qed

lemma match_trans_range:
  assumes "0 < cs" "cs < n"
  shows "0 \<le> match_trans T cs c" "match_trans T cs c < m"
    "match_trans T cs c \<le> tab (index_offsets T) cs + tab (single_lengths T) cs + tab (range_lengths T) cs"
  using match_trans_scan [OF assms] index [OF assms] keys [OF assms] key_sizes [OF assms]
    scan_Some [of "single_keys T cs @ range_keys T cs" c]
  by (auto split: option.splits)

lemma match_cond_branch:
  assumes "0 \<le> tr" "tr < m"
  shows "(case match_cond T relaxed tr of None \<Rightarrow> (0, []) | Some cond \<Rightarrow> (tab (cond_targs T) cond, cond_acts T cond))
    = branch T relaxed tr"
  using branches [OF assms]
  by (simp add: match_cond_def branch_def Let_def key_search.simps)

theorem next_look:
  assumes "0 < cs" "cs < n"
  shows "ragel_next T relaxed cs c = look (single_keys T cs @ range_keys T cs) (outs T relaxed cs) c"
proof -
  let ?o = "tab (index_offsets T) cs"
  let ?i = "case scan (single_keys T cs @ range_keys T cs) c of
              Some i \<Rightarrow> i | None \<Rightarrow> length (single_keys T cs @ range_keys T cs)"
  note k = keys [OF assms] key_sizes [OF assms] index [OF assms]
  have len: "length (single_keys T cs @ range_keys T cs) < length (outs T relaxed cs)"
    using k by (auto simp: outs_def)
  have "ragel_next T relaxed cs c = branch T relaxed (?o + int ?i)"
    using match_cond_branch [OF match_trans_range(1,2) [OF assms]] match_trans_scan [OF assms]
    by (simp add: ragel_next_def)
  moreover have "outs T relaxed cs ! ?i = branch T relaxed (?o + int ?i)"
    using k match_trans_range(3) [OF assms, of c] match_trans_scan [OF assms, of c]
    by (simp add: outs_def)
  ultimately show ?thesis by (simp add: look_scan [OF len])
qed

theorem next_state:
  assumes "0 < cs" "cs < n"
  shows "0 \<le> fst (ragel_next T relaxed cs c) \<and> fst (ragel_next T relaxed cs c) < n"
proof -
  note tr = match_trans_range(1,2) [OF assms, of c]
  show ?thesis
    using match_cond_branch [OF tr] targets [OF tr] assms by (auto simp: ragel_next_def branch_def)
qed

text \<open>The branches of a state, read off the four tables in one go.\<close>

lemma outs_eq:
  assumes "0 < cs" "cs < n"
  defines "i \<equiv> tab (index_offsets T) cs"
    and "k \<equiv> tab (single_lengths T) cs + tab (range_lengths T) cs + 1"
  shows "outs T relaxed cs =
    branches_of T relaxed (slice (cond_keys T) i k) (slice (trans_cond_spaces T) i k)
      (slice (cond_targs T) i k) (slice (cond_actions T) i k)"
proof -
  have ik: "0 \<le> i" "0 < k" "i + k \<le> m" using index [OF assms(1,2)] keys [OF assms(1,2)] by (auto simp: i_def k_def)
  have len: "length (slice t i k) = nat k"
    and nth: "\<And>j. 0 \<le> j \<Longrightarrow> j < k \<Longrightarrow> tab t (i + j) = slice t i k ! nat j"
    if "nat m \<le> length (concat t)" for t
    using that ik length_slice [of i k t] tab_slice [of i _ k t] by simp_all
  note lens = len [OF sizes(1)] len [OF sizes(2)] len [OF sizes(3)] len [OF sizes(4)]
  note nths = nth [OF sizes(1)] nth [OF sizes(2)] nth [OF sizes(3)] nth [OF sizes(4)]
  have outs: "outs T relaxed cs = map (branch T relaxed) [i..i + k - 1]"
    by (simp add: outs_def i_def k_def algebra_simps)
  have "branch T relaxed (i + int j) =
      (if slice (cond_keys T) i k ! j = (if slice (trans_cond_spaces T) i k ! j = 0 \<and> relaxed then 1 else 0)
       then (slice (cond_targs T) i k ! j, acts_at T (slice (cond_actions T) i k ! j)) else (0, []))"
    if "j < nat k" for j
    using nths [of "int j"] acts [of "i + int j"] ik that
      cond_acts_at [of T "i + int j" "slice (cond_actions T) i k ! j"]
    by (auto simp: branch_def act_ok_def)
  then show ?thesis
    using ik by (intro nth_equalityI) (auto simp: outs length_branches_of lens branches_of_nth)
qed

lemma state_edges:
  assumes "0 < cs" "cs < n" and "tab (key_offsets T) cs = k" "tab (single_lengths T) cs = s"
    "tab (range_lengths T) cs = r" "tab (index_offsets T) cs = i"
  shows "ragel_next T relaxed cs c =
    look (map (\<lambda>k. (k, k)) (slice (trans_keys T) k s) @ pairs (slice (trans_keys T) (k + s) (2 * r)))
      (branches_of T relaxed (slice (cond_keys T) i (s + r + 1)) (slice (trans_cond_spaces T) i (s + r + 1))
        (slice (cond_targs T) i (s + r + 1)) (slice (cond_actions T) i (s + r + 1))) c"
  unfolding next_look [OF assms(1,2)] outs_eq [OF assms(1,2)] single_keys_def range_keys_def assms(3-6) ..

end

section \<open>Checking tables\<close>

text \<open>
  The keys of consecutive states follow one another in \<open>trans_keys\<close>, so the laws about keys are checked by
  one walk over the tables: \<open>s\<close> single keys and \<open>r\<close> ranges of the current state are still to come, \<open>p\<close> and
  \<open>q\<close> are the last key and the last upper bound, \<open>pos\<close> counts the keys passed. The last entry of the
  tables does not belong to a state.
\<close>

fun walk :: "int \<Rightarrow> int \<Rightarrow> nat \<Rightarrow> nat \<Rightarrow> int \<Rightarrow> int list \<Rightarrow> (int \<times> int \<times> int) list \<Rightarrow> bool" where
  "walk p q (Suc s) r pos (k # ks) sts \<longleftrightarrow> p < k \<and> walk k q s r (pos + 1) ks sts"
| "walk p q 0 (Suc r) pos (l # h # ks) sts \<longleftrightarrow> q < l \<and> l \<le> h \<and> walk p h 0 r (pos + 2) ks sts"
| "walk p q 0 0 pos ks ((a, s, r) # st # sts) \<longleftrightarrow>
     a = pos \<and> 0 \<le> s \<and> 0 \<le> r \<and> walk (-129) (-129) (nat s) (nat r) pos ks (st # sts)"
| "walk p q 0 0 pos ks [st] \<longleftrightarrow> True"
| "walk p q s r pos ks sts \<longleftrightarrow> False"

lemma walk_numeral:
  "walk p q (numeral n) r pos (k # ks) sts \<longleftrightarrow> p < k \<and> walk k q (pred_numeral n) r (pos + 1) ks sts"
  "walk p q 0 (numeral n) pos (l # h # ks) sts \<longleftrightarrow>
     q < l \<and> l \<le> h \<and> walk p h 0 (pred_numeral n) (pos + 2) ks sts"
  by (simp_all add: numeral_eq_Suc)

lemma bounds_ok_Cons:
  "bounds_ok ((l, h) # ks) \<longleftrightarrow> l \<le> h \<and> bounds_ok ks \<and> (ks = [] \<or> h < fst (hd ks))"
  by (cases ks rule: bounds_ok.cases) auto

lemma walk_ranges:
  "walk p q 0 r pos ks sts \<Longrightarrow>
   2 * r \<le> length ks \<and> bounds_ok (pairs (take (2 * r) ks)) \<and> (r = 0 \<or> q < fst (hd (pairs (take (2 * r) ks)))) \<and>
   (\<exists>q'. walk p q' 0 0 (pos + 2 * int r) (drop (2 * r) ks) sts)"
proof (induction r arbitrary: q pos ks)
  case (Suc r)
  obtain l h ks' where ks: "ks = l # h # ks'" using Suc.prems by (cases ks rule: pairs.cases) auto
  with Suc.prems have w: "q < l" "l \<le> h" "walk p h 0 r (pos + 2) ks' sts" by auto
  show ?case using Suc.IH [OF w(3)] w(1,2) by (cases r) (auto simp: ks bounds_ok_Cons algebra_simps)
qed auto

lemma walk_singles:
  "walk p q s r pos ks sts \<Longrightarrow>
   s \<le> length ks \<and> bounds_ok (map (\<lambda>k. (k, k)) (take s ks)) \<and> (s = 0 \<or> p < hd ks) \<and>
   (\<exists>p'. walk p' q 0 r (pos + int s) (drop s ks) sts)"
proof (induction s arbitrary: p pos ks)
  case (Suc s)
  obtain k ks' where ks: "ks = k # ks'" using Suc.prems by (cases ks) auto
  with Suc.prems have w: "p < k" "walk k q s r (pos + 1) ks' sts" by auto
  show ?case using Suc.IH [OF w(2)] w(1) by (cases s; cases ks') (auto simp: ks bounds_ok_Cons algebra_simps)
qed auto

definition keys_ok :: "int list \<Rightarrow> int \<times> int \<times> int \<Rightarrow> bool" where
  "keys_ok keys = (\<lambda>(a, s, r).
     0 \<le> a \<and> 0 \<le> s \<and> 0 \<le> r \<and> nat (a + s + 2 * r) \<le> length keys \<and>
     bounds_ok (map (\<lambda>k. (k, k)) (take (nat s) (drop (nat a) keys))) \<and>
     bounds_ok (pairs (take (nat (2 * r)) (drop (nat (a + s)) keys))))"

lemma walk_state:
  assumes w: "walk p q 0 0 pos (drop (nat pos) keys) (st # st' # sts)"
    and pos: "0 \<le> pos" "nat pos \<le> length keys"
  shows "keys_ok keys st \<and>
    (\<exists>p' q' pos'. walk p' q' 0 0 pos' (drop (nat pos') keys) (st' # sts) \<and> 0 \<le> pos' \<and> nat pos' \<le> length keys)"
proof -
  obtain s r where st: "st = (pos, s, r)" and sr: "0 \<le> s" "0 \<le> r"
    and w1: "walk (-129) (-129) (nat s) (nat r) pos (drop (nat pos) keys) (st' # sts)"
    using w by (cases st) auto
  from walk_singles [OF w1] sr pos obtain p' where
    s: "nat s \<le> length keys - nat pos" "bounds_ok (map (\<lambda>k. (k, k)) (take (nat s) (drop (nat pos) keys)))"
    and w2: "walk p' (-129) 0 (nat r) (pos + s) (drop (nat (pos + s)) keys) (st' # sts)"
    by (auto simp: nat_add_distrib add.commute)
  have "nat (pos + s) \<le> length keys" using s(1) sr pos by (simp add: nat_add_distrib)
  with walk_ranges [OF w2] sr pos
  have r: "nat (pos + s + 2 * r) \<le> length keys" "bounds_ok (pairs (take (nat (2 * r)) (drop (nat (pos + s)) keys)))"
    and w3: "\<exists>q'. walk p' q' 0 0 (pos + s + 2 * r) (drop (nat (pos + s + 2 * r)) keys) (st' # sts)"
    by (simp_all add: nat_add_distrib nat_mult_distrib add.commute add.left_commute le_diff_conv2)
  from w3 obtain q' where "walk p' q' 0 0 (pos + s + 2 * r) (drop (nat (pos + s + 2 * r)) keys) (st' # sts)" ..
  moreover have "0 \<le> pos + s + 2 * r" using sr pos by simp
  moreover have "keys_ok keys st" using s r sr pos by (simp add: keys_ok_def st)
  ultimately show ?thesis using r(1) by blast
qed

lemma walk_nth:
  assumes "walk p q 0 0 pos (drop (nat pos) keys) sts" "0 \<le> pos" "nat pos \<le> length keys" "Suc i < length sts"
  shows "keys_ok keys (sts ! i)"
  using assms
proof (induction i arbitrary: p q pos sts)
  case 0
  then obtain st st' sts' where "sts = st # st' # sts'" by (cases sts; cases "tl sts") auto
  then show ?case using walk_state 0 by simp
next
  case (Suc i)
  then obtain st st' sts' where sts: "sts = st # st' # sts'" by (cases sts; cases "tl sts") auto
  with walk_state Suc.prems(1-3) obtain p' q' pos' where
    "walk p' q' 0 0 pos' (drop (nat pos') keys) (st' # sts')" "0 \<le> pos'" "nat pos' \<le> length keys" by blast
  from Suc.IH [OF this] show ?case using Suc.prems(4) by (simp add: sts)
qed

fun index_ok :: "int \<Rightarrow> int list \<Rightarrow> int list \<Rightarrow> int list \<Rightarrow> bool" where
  "index_ok m (a # as) (s # ss) (r # rs) \<longleftrightarrow> 0 \<le> a \<and> a + s + r < m \<and> index_ok m as ss rs"
| "index_ok m [] [] [] \<longleftrightarrow> True"
| "index_ok m _ _ _ \<longleftrightarrow> False"

lemma index_ok_nth:
  "index_ok m as ss rs \<Longrightarrow> i < length ss \<Longrightarrow> 0 \<le> as ! i \<and> as ! i + ss ! i + rs ! i < m"
  by (induction m as ss rs arbitrary: i rule: index_ok.induct) (auto simp: nth_Cons')

text \<open>A property of the first \<open>m\<close> entries of a table, checked row by row; \<open>i\<close> counts the entries passed.\<close>

fun row_upto :: "(int \<Rightarrow> int \<Rightarrow> bool) \<Rightarrow> int \<Rightarrow> int \<Rightarrow> int list \<Rightarrow> bool" where
  "row_upto P m i [] \<longleftrightarrow> True"
| "row_upto P m i (x # xs) \<longleftrightarrow> (m \<le> i \<or> P i x) \<and> row_upto P m (i + 1) xs"

fun table_upto :: "(int \<Rightarrow> int \<Rightarrow> bool) \<Rightarrow> int \<Rightarrow> int \<Rightarrow> int list list \<Rightarrow> bool" where
  "table_upto P m i [] \<longleftrightarrow> m \<le> i"
| "table_upto P m i (xs # t) \<longleftrightarrow> row_upto P m i xs \<and> table_upto P m (i + int (length xs)) t"

lemma row_upto_nth: "row_upto P m i xs \<Longrightarrow> i + int k < m \<Longrightarrow> k < length xs \<Longrightarrow> P (i + int k) (xs ! k)"
proof (induction P m i xs arbitrary: k rule: row_upto.induct)
  case (2 P m i x xs)
  then show ?case by (cases k) (auto simp: add.assoc)
qed simp

lemma table_upto_nth: "table_upto P m i t \<Longrightarrow> i + int k < m \<Longrightarrow> P (i + int k) (concat t ! k)"
proof (induction P m i t arbitrary: k rule: table_upto.induct)
  case (2 P m i xs t)
  show ?case
  proof (cases "k < length xs")
    case True
    then show ?thesis using 2 row_upto_nth [of P m i xs k] by (simp add: nth_append)
  next
    case False
    then obtain j where "k = length xs + j" by (metis add.commute le_Suc_ex not_less)
    then show ?thesis using 2 "2.IH" [of j] by (simp add: nth_append add.assoc)
  qed
qed simp

lemma table_upto_length: "table_upto P m i t \<Longrightarrow> m \<le> i + int (length (concat t))"
  by (induction P m i t rule: table_upto.induct) auto

lemma ragel_machineI:
  assumes "walk (-129) (-129) 0 0 0 (concat (trans_keys T))
      (zip (concat (key_offsets T)) (zip (concat (single_lengths T)) (concat (range_lengths T))))"
    and "index_ok m (concat (index_offsets T)) (concat (single_lengths T)) (concat (range_lengths T))"
    and "int (length (concat (single_lengths T))) = n + 1" "int (length (concat (range_lengths T))) = n + 1"
      "int (length (concat (key_offsets T))) = n + 1"
    and "table_upto (\<lambda>i x. x = i) m 0 (trans_offsets T)"
    and "table_upto (\<lambda>i x. x = 1) m 0 (trans_lengths T)"
    and "table_upto (\<lambda>i x. 0 \<le> x \<and> x < n) m 0 (cond_targs T)"
    and "table_upto (\<lambda>i x. x \<in> set starts) m 0 (cond_actions T)" "list_all (act_ok T) starts"
    and "table_upto (\<lambda>i x. True) m 0 (cond_keys T)" "table_upto (\<lambda>i x. True) m 0 (trans_cond_spaces T)"
  shows "ragel_machine T n m"
proof
  fix cs :: int
  assume cs: "0 < cs" "cs < n"
  then have i: "Suc (nat cs) < length (concat (single_lengths T))"
    "length (concat (range_lengths T)) = length (concat (single_lengths T))"
    "length (concat (key_offsets T)) = length (concat (single_lengths T))"
    using assms(3-5) by auto
  show "0 \<le> tab (key_offsets T) cs \<and> 0 \<le> tab (single_lengths T) cs \<and> 0 \<le> tab (range_lengths T) cs \<and>
      nat (tab (key_offsets T) cs + tab (single_lengths T) cs + 2 * tab (range_lengths T) cs)
        \<le> length (concat (trans_keys T)) \<and>
      bounds_ok (single_keys T cs) \<and> bounds_ok (range_keys T cs)"
    using walk_nth [of _ _ 0 "concat (trans_keys T)", simplified, OF assms(1), of "nat cs"] i
    by (simp add: keys_ok_def tab_def single_keys_def range_keys_def slice_def)
  show "0 \<le> tab (index_offsets T) cs \<and>
      tab (index_offsets T) cs + tab (single_lengths T) cs + tab (range_lengths T) cs < m"
    using index_ok_nth [OF assms(2), of "nat cs"] i by (simp add: tab_def)
next
  fix tr :: int
  assume tr: "0 \<le> tr" "tr < m"
  then show "tab (trans_offsets T) tr = tr \<and> tab (trans_lengths T) tr = 1"
    and "0 \<le> tab (cond_targs T) tr \<and> tab (cond_targs T) tr < n"
    and "act_ok T (tab (cond_actions T) tr)"
    using assms(6-9) [THEN table_upto_nth, of "nat tr"] assms(10) by (simp_all add: tab_def list_all_iff)
qed (use assms(8,9,11,12) [THEN table_upto_length] in simp_all)

end
