(* ===== verification/Ordered_Map.thy ===== *)
theory Ordered_Map
  imports Prelude
begin

text \<open>
  \<open>std::map\<close> with a comparator: a list of entries in the order of the comparator, which is an argument
  \<open>lt\<close> of the operations. Two keys are the same when neither is smaller. As in the library,
  assigning to a key that is present keeps the key already stored, and \<open>insert\<close> changes nothing then.

  The locale \<open>map_order\<close> is the contract the container asks of its comparator (a strict weak order) and
  proves once what every operation does to every lookup; it is interpreted for the byte-wise order of
  \<open>std::string\<close> here and for the case-insensitive order of HTTP headers in \<open>Http\<close>.
\<close>

type_synonym ('k, 'v) omap = "('k \<times> 'v) list"

fun omap_find :: "('k \<Rightarrow> 'k \<Rightarrow> bool) \<Rightarrow> 'k \<Rightarrow> ('k, 'v) omap \<Rightarrow> 'v option" where
  "omap_find lt k [] = None"
| "omap_find lt k ((k', v') # m) =
     (if lt k' k then omap_find lt k m else if lt k k' then None else Some v')"

fun omap_set :: "('k \<Rightarrow> 'k \<Rightarrow> bool) \<Rightarrow> 'k \<Rightarrow> 'v \<Rightarrow> ('k, 'v) omap \<Rightarrow> ('k, 'v) omap" where
  "omap_set lt k v [] = [(k, v)]"
| "omap_set lt k v ((k', v') # m) =
     (if lt k' k then (k', v') # omap_set lt k v m
      else if lt k k' then (k, v) # (k', v') # m
      else (k', v) # m)"

fun omap_insert :: "('k \<Rightarrow> 'k \<Rightarrow> bool) \<Rightarrow> 'k \<Rightarrow> 'v \<Rightarrow> ('k, 'v) omap \<Rightarrow> ('k, 'v) omap" where
  "omap_insert lt k v [] = [(k, v)]"
| "omap_insert lt k v ((k', v') # m) =
     (if lt k' k then (k', v') # omap_insert lt k v m
      else if lt k k' then (k, v) # (k', v') # m
      else (k', v') # m)"

fun omap_erase :: "('k \<Rightarrow> 'k \<Rightarrow> bool) \<Rightarrow> 'k \<Rightarrow> ('k, 'v) omap \<Rightarrow> ('k, 'v) omap" where
  "omap_erase lt k [] = []"
| "omap_erase lt k ((k', v') # m) =
     (if lt k' k then (k', v') # omap_erase lt k m
      else if lt k k' then (k', v') # m
      else m)"

definition omap_ok :: "('k \<Rightarrow> 'k \<Rightarrow> bool) \<Rightarrow> ('k, 'v) omap \<Rightarrow> bool" where
  "omap_ok lt m = sorted_wrt (\<lambda>a b. lt (fst a) (fst b)) m"

locale map_order =
  fixes lt :: "'k \<Rightarrow> 'k \<Rightarrow> bool"
  assumes lt_irrefl: "\<not> lt a a"
    and lt_trans: "lt a b \<Longrightarrow> lt b c \<Longrightarrow> lt a c"
    and incomparable_trans: "\<not> lt a b \<Longrightarrow> \<not> lt b c \<Longrightarrow> \<not> lt a c"
begin

definition same :: "'k \<Rightarrow> 'k \<Rightarrow> bool" where
  "same a b = (\<not> lt a b \<and> \<not> lt b a)"

lemma same_refl [simp]: "same a a"
  by (simp add: same_def lt_irrefl)

lemma same_lt: "same a b \<Longrightarrow> lt a c = lt b c" "same a b \<Longrightarrow> lt c a = lt c b"
  unfolding same_def by (metis incomparable_trans)+

lemma lt_not_same: "lt a b \<Longrightarrow> \<not> same a b" "lt a b \<Longrightarrow> \<not> same b a" "lt a b \<Longrightarrow> \<not> lt b a"
  unfolding same_def using lt_irrefl lt_trans by blast+

lemma omap_ok_Nil [simp]: "omap_ok lt []"
  by (simp add: omap_ok_def)

lemma omap_ok_Cons: "omap_ok lt (e # m) \<longleftrightarrow> (\<forall>e' \<in> set m. lt (fst e) (fst e')) \<and> omap_ok lt m"
  by (simp add: omap_ok_def)

lemma above_trans: "lt k a \<Longrightarrow> \<forall>e \<in> set m. lt a (fst e) \<Longrightarrow> \<forall>e \<in> set m. lt k (fst e)"
  by (blast intro: lt_trans)

lemma above_set: "lt a k \<Longrightarrow> \<forall>e \<in> set m. lt a (fst e) \<Longrightarrow> \<forall>e \<in> set (omap_set lt k v m). lt a (fst e)"
proof (induction m)
  case (Cons e m)
  then show ?case by (cases e) simp
qed simp

lemma omap_ok_set: "omap_ok lt m \<Longrightarrow> omap_ok lt (omap_set lt k v m)"
proof (induction m)
  case (Cons e m)
  obtain q w where e: "e = (q, w)" by (cases e)
  then show ?case
    using Cons above_set [of q k m v] above_trans [of k q m] by (simp add: omap_ok_Cons)
qed (simp add: omap_ok_Cons)

lemma above_insert: "lt a k \<Longrightarrow> \<forall>e \<in> set m. lt a (fst e) \<Longrightarrow> \<forall>e \<in> set (omap_insert lt k v m). lt a (fst e)"
proof (induction m)
  case (Cons e m)
  then show ?case by (cases e) simp
qed simp

lemma omap_ok_insert: "omap_ok lt m \<Longrightarrow> omap_ok lt (omap_insert lt k v m)"
proof (induction m)
  case (Cons e m)
  obtain q w where e: "e = (q, w)" by (cases e)
  then show ?case
    using Cons above_insert [of q k m v] above_trans [of k q m] by (simp add: omap_ok_Cons)
qed (simp add: omap_ok_Cons)

lemma above_erase: "\<forall>e \<in> set m. lt a (fst e) \<Longrightarrow> \<forall>e \<in> set (omap_erase lt k m). lt a (fst e)"
proof (induction m)
  case (Cons e m)
  then show ?case by (cases e) simp
qed simp

lemma omap_ok_erase: "omap_ok lt m \<Longrightarrow> omap_ok lt (omap_erase lt k m)"
proof (induction m)
  case (Cons e m)
  obtain q w where e: "e = (q, w)" by (cases e)
  then show ?case
    using Cons above_erase [of m q k] above_trans [of k q m] by (simp add: omap_ok_Cons)
qed (simp add: omap_ok_Cons)

lemma omap_find_above: "\<forall>e \<in> set m. lt k (fst e) \<Longrightarrow> omap_find lt k m = None"
  by (cases m) (auto simp: lt_not_same)

lemma order_cases:
  obtains (less) "lt a b" "\<not> lt b a" "\<not> same a b" | (more) "lt b a" "\<not> lt a b" "\<not> same a b"
    | (equal) "same a b" "\<not> lt a b" "\<not> lt b a"
  using lt_not_same same_def by blast

lemma omap_find_set:
  "omap_find lt k (omap_set lt k' v m) = (if same k k' then Some v else omap_find lt k m)"
proof (induction m)
  case Nil
  show ?case by (cases k k' rule: order_cases) simp_all
next
  case (Cons e m)
  obtain q w where e: "e = (q, w)" by (cases e)
  show ?case
  proof (cases k k' rule: order_cases)
    case equal
    then show ?thesis using same_lt [OF equal(1), of q] Cons.IH unfolding e by auto
  next
    case less
    then show ?thesis using Cons.IH lt_trans [OF less(1), of q] same_lt [of q k' k] lt_not_same
      unfolding e by (cases q k' rule: order_cases) (auto simp: same_def)
  next
    case more
    then show ?thesis using Cons.IH same_lt [of q k' k]
      unfolding e by (cases q k' rule: order_cases) (auto simp: same_def)
  qed
qed

lemma omap_find_insert:
  assumes "omap_ok lt m"
  shows "omap_find lt k (omap_insert lt k' v m) =
           (if same k k' \<and> omap_find lt k m = None then Some v else omap_find lt k m)"
  using assms
proof (induction m)
  case Nil
  show ?case by (cases k k' rule: order_cases) simp_all
next
  case (Cons e m)
  obtain q w where e: "e = (q, w)" by (cases e)
  have IH: "omap_find lt k (omap_insert lt k' v m) =
      (if same k k' \<and> omap_find lt k m = None then Some v else omap_find lt k m)"
    using Cons by (simp add: omap_ok_Cons)
  show ?case
  proof (cases k k' rule: order_cases)
    case equal
    then show ?thesis using same_lt [OF equal(1), of q] IH unfolding e by auto
  next
    case less
    then show ?thesis using IH lt_trans [OF less(1), of q] same_lt [of q k' k] lt_not_same
      unfolding e by (cases q k' rule: order_cases) (auto simp: same_def)
  next
    case more
    then show ?thesis using IH same_lt [of q k' k]
      unfolding e by (cases q k' rule: order_cases) (auto simp: same_def)
  qed
qed

lemma omap_find_erase:
  assumes "omap_ok lt m"
  shows "omap_find lt k (omap_erase lt k' m) = (if same k k' then None else omap_find lt k m)"
  using assms
proof (induction m)
  case (Cons e m)
  obtain q w where e: "e = (q, w)" by (cases e)
  have IH: "omap_find lt k (omap_erase lt k' m) = (if same k k' then None else omap_find lt k m)"
    and q: "\<forall>x \<in> set m. lt q (fst x)" using Cons by (simp_all add: omap_ok_Cons e)
  show ?case
  proof (cases q k' rule: order_cases)
    case less
    then show ?thesis using IH same_lt [of k k' q] unfolding e by (auto simp: same_def)
  next
    case more
    then show ?thesis using same_lt [of k k' q] unfolding e by (auto simp: lt_not_same)
  next
    case equal
    have "omap_find lt k m = None" if "\<not> lt q k"
      using q that by (intro omap_find_above) (meson incomparable_trans lt_not_same(3) order_cases)
    then show ?thesis using equal same_lt [OF equal(1), of k] unfolding e by (auto simp: same_def)
  qed
qed simp

text \<open>Finding a key in terms of the entries.\<close>

lemma omap_find_None:
  "omap_ok lt m \<Longrightarrow> omap_find lt k m = None \<Longrightarrow> e \<in> set m \<Longrightarrow> \<not> same (fst e) k"
proof (induction m)
  case (Cons e' m)
  obtain q w where e': "e' = (q, w)" by (cases e')
  show ?case
  proof (cases "lt q k")
    case True
    then show ?thesis using Cons lt_not_same(1) by (auto simp: e' omap_ok_Cons)
  next
    case False
    then have "lt k q" using Cons.prems(2) by (auto simp: e' split: if_splits)
    then have "lt k (fst e)" using Cons.prems(1,3) lt_trans by (auto simp: e' omap_ok_Cons)
    then show ?thesis by (rule lt_not_same(2))
  qed
qed simp

lemma omap_find_Some:
  "omap_ok lt m \<Longrightarrow> omap_find lt k m = Some v \<Longrightarrow>
   \<exists>m1 k' m2. m = m1 @ (k', v) # m2 \<and> same k' k \<and> (\<forall>e \<in> set m2. \<not> same (fst e) k)"
proof (induction m)
  case (Cons e' m)
  obtain q w where e': "e' = (q, w)" by (cases e')
  show ?case
  proof (cases "lt q k")
    case True
    then obtain m1 k' m2 where "m = m1 @ (k', v) # m2 \<and> same k' k \<and> (\<forall>e \<in> set m2. \<not> same (fst e) k)"
      using Cons by (auto simp: e' omap_ok_Cons)
    then have "e' # m = (e' # m1) @ (k', v) # m2 \<and> same k' k \<and> (\<forall>e \<in> set m2. \<not> same (fst e) k)" by simp
    then show ?thesis by blast
  next
    case False
    then have q: "same q k" "w = v" using Cons.prems(2) by (auto simp: e' same_def split: if_splits)
    have "\<not> same (fst e) k" if "e \<in> set m" for e
    proof -
      have "lt q (fst e)" using Cons.prems(1) that by (simp add: e' omap_ok_Cons)
      then have "lt k (fst e)" using same_lt(1) [OF q(1)] by simp
      then show ?thesis by (rule lt_not_same(2))
    qed
    then have "e' # m = [] @ (q, v) # m \<and> same q k \<and> (\<forall>e \<in> set m. \<not> same (fst e) k)" using q by (simp add: e')
    then show ?thesis by blast
  qed
qed simp

end

section \<open>The order of strings\<close>

text \<open>\<open>std::less\<close> on \<open>std::string\<close>: bytes compared unsigned, a prefix first.\<close>

fun string_less :: "string \<Rightarrow> string \<Rightarrow> bool" where
  "string_less [] ys = (ys \<noteq> [])"
| "string_less xs [] = False"
| "string_less (x # xs) (y # ys) =
     (if byte_of_char x < byte_of_char y then True
      else if byte_of_char y < byte_of_char x then False
      else string_less xs ys)"

lemma string_less_irrefl: "\<not> string_less s s"
  by (induction s) simp_all

lemma string_less_trans: "string_less a b \<Longrightarrow> string_less b c \<Longrightarrow> string_less a c"
proof (induction a b arbitrary: c rule: string_less.induct)
  case (1 ys)
  then show ?case by (cases c; cases ys) auto
next
  case (3 x xs y ys)
  then show ?case by (cases c) (auto split: if_splits)
qed simp

lemma string_less_total: "string_less a b \<or> a = b \<or> string_less b a"
proof (induction a b rule: string_less.induct)
  case (3 x xs y ys)
  then show ?case by (metis byte_of_char_inject neqE string_less.simps(3))
next
  case (1 ys)
  then show ?case by (cases ys) simp_all
qed simp

interpretation sm: map_order string_less
proof unfold_locales
  show "\<not> string_less a c" if "\<not> string_less a b" "\<not> string_less b c" for a b c
    using that string_less_total string_less_trans string_less_irrefl by metis
qed (auto simp: string_less_irrefl intro: string_less_trans)

lemma string_same [simp]: "sm.same a b \<longleftrightarrow> a = b"
  using string_less_total string_less_irrefl by (auto simp: sm.same_def)

end
