(* ===== verification/Address.thy ===== *)
theory Address
  imports Endian Ordered_Map
begin

text \<open>
  \<^verbatim>\<open>sylar/address.h\<close> and \<^verbatim>\<open>sylar/address.cc\<close>: socket addresses. An address object owns the C
  structure of its family; \<open>getAddr\<close> exposes it as raw memory, so every structure has its byte image
  (\<open>sockaddr_in_bytes\<close> and so on, on a little-endian host) and \<open>Create\<close> reads it back. The system
  calls \<open>getaddrinfo\<close>, \<open>getifaddrs\<close> and \<open>inet_pton\<close> are arguments of the operations that call them.

  An operation whose C++ text has no defined result at an argument (a shift by the width of
  \<open>int\<close> or a signed overflow in \<open>CreateMask\<close>, an index past the sixteen bytes of an IPv6 address, a
  null pointer) returns \<^const>\<open>Inl\<close>. Shown here: what the prefix operations compute bit by bit, that
  \<open>CountBytes\<close> counts the set bits, and that \<open>operator<\<close> is a strict total order whose equality is
  \<open>operator==\<close>.
\<close>

unbundle bit_operations_syntax

section \<open>The C structures\<close>

record sockaddr_in =
  sin_family :: u16
  sin_port :: u16
  s_addr :: u32
  sin_zero :: "u8 list"

record sockaddr_in6 =
  sin6_family :: u16
  sin6_port :: u16
  sin6_flowinfo :: u32
  s6_addr :: "u8 list"
  sin6_scope_id :: u32

record sockaddr_un =
  sun_family :: u16
  sun_path :: "u8 list"

record sockaddr_any =
  sa_family :: u16
  sa_data :: "u8 list"

definition AF_UNSPEC :: u16 where "AF_UNSPEC = 0"

definition AF_UNIX :: u16 where "AF_UNIX = 1"

definition AF_INET :: u16 where "AF_INET = 2"

definition AF_INET6 :: u16 where "AF_INET6 = 10"

lemmas family_defs = AF_UNSPEC_def AF_UNIX_def AF_INET_def AF_INET6_def

definition sockaddr_in_bytes :: "sockaddr_in \<Rightarrow> u8 list" where
  "sockaddr_in_bytes a =
     word_bytes (sin_family a) @ word_bytes (sin_port a) @ word_bytes (s_addr a) @ sin_zero a"

definition sockaddr_in6_bytes :: "sockaddr_in6 \<Rightarrow> u8 list" where
  "sockaddr_in6_bytes a =
     word_bytes (sin6_family a) @ word_bytes (sin6_port a) @ word_bytes (sin6_flowinfo a) @
     s6_addr a @ word_bytes (sin6_scope_id a)"

definition sockaddr_un_bytes :: "sockaddr_un \<Rightarrow> u8 list" where
  "sockaddr_un_bytes a = word_bytes (sun_family a) @ sun_path a"

definition sockaddr_any_bytes :: "sockaddr_any \<Rightarrow> u8 list" where
  "sockaddr_any_bytes a = word_bytes (sa_family a) @ sa_data a"

definition mem_family :: "u8 list \<Rightarrow> u16" where
  "mem_family m = bytes_word (take 2 m)"

definition sockaddr_in_of_bytes :: "u8 list \<Rightarrow> sockaddr_in" where
  "sockaddr_in_of_bytes m =
     \<lparr>sin_family = bytes_word (take 2 m), sin_port = bytes_word (take 2 (drop 2 m)),
      s_addr = bytes_word (take 4 (drop 4 m)), sin_zero = take 8 (drop 8 m)\<rparr>"

definition sockaddr_in6_of_bytes :: "u8 list \<Rightarrow> sockaddr_in6" where
  "sockaddr_in6_of_bytes m =
     \<lparr>sin6_family = bytes_word (take 2 m), sin6_port = bytes_word (take 2 (drop 2 m)),
      sin6_flowinfo = bytes_word (take 4 (drop 4 m)), s6_addr = take 16 (drop 8 m),
      sin6_scope_id = bytes_word (take 4 (drop 24 m))\<rparr>"

definition sockaddr_any_of_bytes :: "u8 list \<Rightarrow> sockaddr_any" where
  "sockaddr_any_of_bytes m = \<lparr>sa_family = bytes_word (take 2 m), sa_data = take 14 (drop 2 m)\<rparr>"

section \<open>Address objects\<close>

datatype Address =
    IPv4Address sockaddr_in
  | IPv6Address sockaddr_in6
  | UnixAddress sockaddr_un nat
  | UnknownAddress sockaddr_any

datatype addr_error =
    Undefined_shift
  | Out_of_bounds
  | Null_pointer
  | Path_too_long

definition SUN_PATH_SIZE :: nat where "SUN_PATH_SIZE = 108"

definition SUN_PATH_OFFSET :: nat where "SUN_PATH_OFFSET = 2"

definition MAX_PATH_LEN :: nat where "MAX_PATH_LEN = SUN_PATH_SIZE - 1"

lemmas path_defs = SUN_PATH_SIZE_def SUN_PATH_OFFSET_def MAX_PATH_LEN_def

definition Address_wf :: "Address \<Rightarrow> bool" where
  "Address_wf a =
     (case a of
        IPv4Address s \<Rightarrow> sin_family s = AF_INET \<and> length (sin_zero s) = 8
      | IPv6Address s \<Rightarrow> sin6_family s = AF_INET6 \<and> length (s6_addr s) = 16
      | UnixAddress s n \<Rightarrow> sun_family s = AF_UNIX \<and> length (sun_path s) = SUN_PATH_SIZE \<and>
          n \<le> SUN_PATH_OFFSET + SUN_PATH_SIZE
      | UnknownAddress s \<Rightarrow> length (sa_data s) = 14)"

definition Address_getAddr :: "Address \<Rightarrow> u8 list" where
  "Address_getAddr a =
     (case a of
        IPv4Address s \<Rightarrow> sockaddr_in_bytes s
      | IPv6Address s \<Rightarrow> sockaddr_in6_bytes s
      | UnixAddress s n \<Rightarrow> sockaddr_un_bytes s
      | UnknownAddress s \<Rightarrow> sockaddr_any_bytes s)"

definition Address_getAddrLen :: "Address \<Rightarrow> nat" where
  "Address_getAddrLen a =
     (case a of
        IPv4Address s \<Rightarrow> 16
      | IPv6Address s \<Rightarrow> 28
      | UnixAddress s n \<Rightarrow> n
      | UnknownAddress s \<Rightarrow> 16)"

definition Address_getFamily :: "Address \<Rightarrow> u16" where
  "Address_getFamily a = mem_family (Address_getAddr a)"

definition is_IPAddress :: "Address \<Rightarrow> bool" where
  "is_IPAddress a = (case a of IPv4Address s \<Rightarrow> True | IPv6Address s \<Rightarrow> True | _ \<Rightarrow> False)"

section \<open>Constructors\<close>

definition IPv4Address_new :: "u32 \<Rightarrow> u16 \<Rightarrow> Address" where
  "IPv4Address_new address port =
     IPv4Address \<lparr>sin_family = AF_INET, sin_port = byteswapOnLittleEndian port,
                  s_addr = byteswapOnLittleEndian address, sin_zero = replicate 8 0\<rparr>"

definition IPv6Address_default :: Address where
  "IPv6Address_default =
     IPv6Address \<lparr>sin6_family = AF_INET6, sin6_port = 0, sin6_flowinfo = 0,
                  s6_addr = replicate 16 0, sin6_scope_id = 0\<rparr>"

definition IPv6Address_new :: "u8 list \<Rightarrow> u16 \<Rightarrow> Address" where
  "IPv6Address_new address port =
     IPv6Address \<lparr>sin6_family = AF_INET6, sin6_port = byteswapOnLittleEndian port,
                  sin6_flowinfo = 0, s6_addr = take 16 address, sin6_scope_id = 0\<rparr>"

definition UnixAddress_default :: Address where
  "UnixAddress_default =
     UnixAddress \<lparr>sun_family = AF_UNIX, sun_path = replicate SUN_PATH_SIZE 0\<rparr>
       (SUN_PATH_OFFSET + MAX_PATH_LEN)"

definition UnixAddress_new :: "string \<Rightarrow> addr_error + Address" where
  "UnixAddress_new path =
     (let n = length path + 1;
          n = (if path \<noteq> [] \<and> hd path = CHR 0x00 then n - 1 else n) in
      if n > SUN_PATH_SIZE then Inl Path_too_long
      else Inr (UnixAddress
             \<lparr>sun_family = AF_UNIX,
              sun_path = splice_at 0 (take n (bytes_of_string path @ [0])) (replicate SUN_PATH_SIZE 0)\<rparr>
             (n + SUN_PATH_OFFSET)))"

definition UnixAddress_setAddrLen :: "Address \<Rightarrow> nat \<Rightarrow> Address" where
  "UnixAddress_setAddrLen a v = (case a of UnixAddress s n \<Rightarrow> UnixAddress s v | _ \<Rightarrow> a)"

definition UnknownAddress_new :: "u16 \<Rightarrow> Address" where
  "UnknownAddress_new family = UnknownAddress \<lparr>sa_family = family, sa_data = replicate 14 0\<rparr>"

definition Address_Create :: "u8 list option \<Rightarrow> Address option" where
  "Address_Create addr =
     (case addr of
        None \<Rightarrow> None
      | Some m \<Rightarrow>
          (if mem_family m = AF_INET then Some (IPv4Address (sockaddr_in_of_bytes m))
           else if mem_family m = AF_INET6 then Some (IPv6Address (sockaddr_in6_of_bytes m))
           else Some (UnknownAddress (sockaddr_any_of_bytes m))))"

section \<open>Ports and prefixes\<close>

definition IPAddress_getPort :: "Address \<Rightarrow> u32" where
  "IPAddress_getPort a =
     (case a of
        IPv4Address s \<Rightarrow> ucast (byteswapOnLittleEndian (sin_port s))
      | IPv6Address s \<Rightarrow> ucast (byteswapOnLittleEndian (sin6_port s))
      | _ \<Rightarrow> 0)"

definition IPAddress_setPort :: "Address \<Rightarrow> u16 \<Rightarrow> Address" where
  "IPAddress_setPort a v =
     (case a of
        IPv4Address s \<Rightarrow> IPv4Address (s\<lparr>sin_port := byteswapOnLittleEndian v\<rparr>)
      | IPv6Address s \<Rightarrow> IPv6Address (s\<lparr>sin6_port := byteswapOnLittleEndian v\<rparr>)
      | _ \<Rightarrow> a)"

text \<open>
  \<open>(1 << (sizeof(T) * 8 - bits)) - 1\<close>: the literal \<open>1\<close> has type \<open>int\<close> and the shift count type
  \<open>size_t\<close>, so a count of 32 or more is undefined, and so is the count 31, where the subtraction
  leaves the range of \<open>int\<close>.
\<close>

definition CreateMask :: "u32 \<Rightarrow> addr_error + 'a::len word" where
  "CreateMask bits =
     (let n = usub64 (LENGTH('a)) (unat bits) in
      if n \<ge> 31 then Inl Undefined_shift else Inr (push_bit n 1 - 1))"

function (sequential) CountBytes_loop :: "'a::len word \<Rightarrow> u32 \<Rightarrow> u32" where
  "CountBytes_loop value result =
     (if value = 0 then result else CountBytes_loop (value AND (value - 1)) (result + 1))"
  by pat_completeness auto

definition CountBytes :: "'a::len word \<Rightarrow> u32" where
  "CountBytes value = CountBytes_loop value 0"

definition IPv4Address_broadcastAddress :: "sockaddr_in \<Rightarrow> u32 \<Rightarrow> addr_error + Address option" where
  "IPv4Address_broadcastAddress m_addr prefix_len =
     (if prefix_len > 32 then Inr None
      else bindE (CreateMask prefix_len) (\<lambda>m.
        Inr (Some (IPv4Address (m_addr\<lparr>s_addr := s_addr m_addr OR byteswapOnLittleEndian m\<rparr>)))))"

definition IPv4Address_networdAddress :: "sockaddr_in \<Rightarrow> u32 \<Rightarrow> addr_error + Address option" where
  "IPv4Address_networdAddress m_addr prefix_len =
     (if prefix_len > 32 then Inr None
      else bindE (CreateMask prefix_len) (\<lambda>m.
        Inr (Some (IPv4Address (m_addr\<lparr>s_addr := s_addr m_addr AND byteswapOnLittleEndian m\<rparr>)))))"

definition IPv4Address_subnetMask :: "u32 \<Rightarrow> addr_error + Address option" where
  "IPv4Address_subnetMask prefix_len =
     bindE (CreateMask prefix_len) (\<lambda>m.
       Inr (Some (IPv4Address
         \<lparr>sin_family = AF_INET, sin_port = 0, s_addr = NOT (byteswapOnLittleEndian m),
          sin_zero = replicate 8 0\<rparr>)))"

definition fill_from :: "nat \<Rightarrow> u8 \<Rightarrow> u8 list \<Rightarrow> u8 list" where
  "fill_from k v bs = map (\<lambda>i. if i < k then bs ! i else v) [0..<length bs]"

definition fill_to :: "nat \<Rightarrow> u8 \<Rightarrow> u8 list \<Rightarrow> u8 list" where
  "fill_to k v bs = map (\<lambda>i. if i < k then v else bs ! i) [0..<length bs]"

definition IPv6Address_broadcastAddress :: "sockaddr_in6 \<Rightarrow> u32 \<Rightarrow> addr_error + Address option" where
  "IPv6Address_broadcastAddress m_addr prefix_len =
     (let i = unat prefix_len div 8 in
      if i \<ge> 16 then Inl Out_of_bounds
      else bindE (CreateMask (prefix_len mod 8)) (\<lambda>m.
        let bs = (s6_addr m_addr)[i := s6_addr m_addr ! i OR m] in
        Inr (Some (IPv6Address (m_addr\<lparr>s6_addr := fill_from (i + 1) 0xff bs\<rparr>)))))"

definition IPv6Address_networdAddress :: "sockaddr_in6 \<Rightarrow> u32 \<Rightarrow> addr_error + Address option" where
  "IPv6Address_networdAddress m_addr prefix_len =
     (let i = unat prefix_len div 8 in
      if i \<ge> 16 then Inl Out_of_bounds
      else bindE (CreateMask (prefix_len mod 8)) (\<lambda>m.
        let bs = (s6_addr m_addr)[i := s6_addr m_addr ! i AND m] in
        Inr (Some (IPv6Address (m_addr\<lparr>s6_addr := fill_from (i + 1) 0x00 bs\<rparr>)))))"

definition IPv6Address_subnetMask :: "u32 \<Rightarrow> addr_error + Address option" where
  "IPv6Address_subnetMask prefix_len =
     (let i = unat prefix_len div 8 in
      if i \<ge> 16 then Inl Out_of_bounds
      else bindE (CreateMask (prefix_len mod 8)) (\<lambda>m.
        Inr (Some (IPv6Address
          \<lparr>sin6_family = AF_INET6, sin6_port = 0, sin6_flowinfo = 0,
           s6_addr = fill_to i 0xff ((replicate 16 0)[i := NOT m]), sin6_scope_id = 0\<rparr>))))"

section \<open>Printing\<close>

definition IPv4Address_insert :: "sockaddr_in \<Rightarrow> string" where
  "IPv4Address_insert m_addr =
     (let addr = byteswapOnLittleEndian (s_addr m_addr) in
      show_dec (unat (drop_bit 24 addr AND 0xff)) @ ''.'' @
      show_dec (unat (drop_bit 16 addr AND 0xff)) @ ''.'' @
      show_dec (unat (drop_bit 8 addr AND 0xff)) @ ''.'' @
      show_dec (unat (addr AND 0xff)) @
      '':'' @ show_dec (unat (byteswapOnLittleEndian (sin_port m_addr))))"

text \<open>\<open>addr[i]\<close> of \<open>(uint16_t*)s6_addr\<close>.\<close>

definition s6_word :: "u8 list \<Rightarrow> nat \<Rightarrow> u16" where
  "s6_word bs i = bytes_word (take 2 (drop (2 * i) bs))"

fun IPv6_groups :: "u8 list \<Rightarrow> nat list \<Rightarrow> bool \<Rightarrow> string \<Rightarrow> string \<times> bool" where
  "IPv6_groups bs [] used_zeros os = (os, used_zeros)"
| "IPv6_groups bs (i # is) used_zeros os =
     (if s6_word bs i = 0 \<and> \<not> used_zeros then IPv6_groups bs is used_zeros os
      else
        let (os, used_zeros) =
              (if i \<noteq> 0 \<and> s6_word bs (i - 1) = 0 \<and> \<not> used_zeros then (os @ '':'', True)
               else (os, used_zeros));
            os = (if i \<noteq> 0 then os @ '':'' else os) in
        IPv6_groups bs is used_zeros
          (os @ show_hex (unat (byteswapOnLittleEndian (s6_word bs i)))))"

definition IPv6Address_insert :: "sockaddr_in6 \<Rightarrow> string" where
  "IPv6Address_insert m_addr =
     (let (os, used_zeros) = IPv6_groups (s6_addr m_addr) [0..<8] False ''['';
          os = (if \<not> used_zeros \<and> s6_word (s6_addr m_addr) 7 = 0 then os @ ''::'' else os) in
      os @ '']:'' @ show_dec (unat (byteswapOnLittleEndian (sin6_port m_addr))))"

text \<open>\<open>os << m_addr.sun_path\<close> prints up to the terminating zero.\<close>

definition UnixAddress_getPath :: "sockaddr_un \<Rightarrow> nat \<Rightarrow> string" where
  "UnixAddress_getPath m_addr m_length =
     (if m_length > SUN_PATH_OFFSET \<and> hd (sun_path m_addr) = 0
      then [CHR 0x5c, CHR ''0''] @
           string_of_bytes (take (m_length - SUN_PATH_OFFSET - 1) (tl (sun_path m_addr)))
      else string_of_bytes (takeWhile (\<lambda>b. b \<noteq> 0) (sun_path m_addr)))"

definition UnixAddress_insert :: "sockaddr_un \<Rightarrow> nat \<Rightarrow> string" where
  "UnixAddress_insert m_addr m_length =
     (if m_length > SUN_PATH_OFFSET \<and> hd (sun_path m_addr) = 0
      then [CHR 0x5c, CHR ''0''] @
           string_of_bytes (take (m_length - SUN_PATH_OFFSET - 1) (tl (sun_path m_addr)))
      else string_of_bytes (takeWhile (\<lambda>b. b \<noteq> 0) (sun_path m_addr)))"

definition UnknownAddress_insert :: "sockaddr_any \<Rightarrow> string" where
  "UnknownAddress_insert m_addr =
     ''[UnknownAddress family='' @ show_dec (unat (sa_family m_addr)) @ '']''"

definition Address_toString :: "Address \<Rightarrow> string" where
  "Address_toString a =
     (case a of
        IPv4Address s \<Rightarrow> IPv4Address_insert s
      | IPv6Address s \<Rightarrow> IPv6Address_insert s
      | UnixAddress s n \<Rightarrow> UnixAddress_insert s n
      | UnknownAddress s \<Rightarrow> UnknownAddress_insert s)"

section \<open>Comparison\<close>

fun memcmp :: "u8 list \<Rightarrow> u8 list \<Rightarrow> nat \<Rightarrow> int" where
  "memcmp (x # xs) (y # ys) (Suc n) =
     (if x < y then -1 else if y < x then 1 else memcmp xs ys n)"
| "memcmp _ _ _ = 0"

definition Address_less :: "Address \<Rightarrow> Address \<Rightarrow> bool" where
  "Address_less a rhs =
     (let minlen = min (Address_getAddrLen a) (Address_getAddrLen rhs);
          result = memcmp (Address_getAddr a) (Address_getAddr rhs) minlen in
      if result < 0 then True
      else if result > 0 then False
      else if Address_getAddrLen a < Address_getAddrLen rhs then True
      else False)"

definition Address_eq :: "Address \<Rightarrow> Address \<Rightarrow> bool" where
  "Address_eq a rhs =
     (Address_getAddrLen a = Address_getAddrLen rhs \<and>
      memcmp (Address_getAddr a) (Address_getAddr rhs) (Address_getAddrLen a) = 0)"

definition Address_neq :: "Address \<Rightarrow> Address \<Rightarrow> bool" where
  "Address_neq a rhs = (\<not> Address_eq a rhs)"

section \<open>Looking addresses up\<close>

text \<open>
  How \<open>Lookup\<close> splits \<open>host\<close>: the node and the service, the latter a pointer into \<open>host\<close>
  (\<^const>\<open>None\<close> for \<open>NULL\<close>). The character after the closing bracket may be the terminating zero.
\<close>

definition Lookup_bracket :: "string \<Rightarrow> string \<times> string option" where
  "Lookup_bracket host =
     (if host \<noteq> [] \<and> hd host = CHR ''['' then
        (case memchr (CHR '']'') (tl host) of
           None \<Rightarrow> ([], None)
         | Some j \<Rightarrow>
             (take j (tl host),
              if 2 + j < length host \<and> host ! (2 + j) = CHR '':'' then Some (drop (3 + j) host)
              else None))
      else ([], None))"

definition Lookup_split :: "string \<Rightarrow> string \<times> string option" where
  "Lookup_split host =
     (let (node, service) = Lookup_bracket host;
          (node, service) =
            (if node = [] then
               (case memchr (CHR '':'') host of
                  None \<Rightarrow> (node, None)
                | Some i \<Rightarrow>
                    (if memchr (CHR '':'') (drop (i + 1) host) = None
                     then (take i host, Some (drop (i + 1) host))
                     else (node, Some (drop i host))))
             else (node, service));
          node = (if node = [] then host else node) in
      (node, service))"

record addrinfo_hints =
  ai_flags :: int
  ai_family :: int
  ai_socktype :: int
  ai_protocol :: int

definition AI_NUMERICHOST :: int where "AI_NUMERICHOST = 4"

type_synonym getaddrinfo_fn =
  "string \<Rightarrow> string option \<Rightarrow> addrinfo_hints \<Rightarrow> int + u8 list option list"

definition Address_Lookup ::
    "getaddrinfo_fn \<Rightarrow> Address option list \<Rightarrow> string \<Rightarrow> int \<Rightarrow> int \<Rightarrow> int \<Rightarrow>
     Address option list \<times> bool" where
  "Address_Lookup getaddrinfo result host family type protocol =
     (let hints = \<lparr>ai_flags = 0, ai_family = family, ai_socktype = type, ai_protocol = protocol\<rparr>;
          (node, service) = Lookup_split host in
      case getaddrinfo (c_str node) (map_option c_str service) hints of
        Inl error \<Rightarrow> (result, False)
      | Inr results \<Rightarrow>
          let result = result @ map Address_Create results in (result, result \<noteq> []))"

definition Address_LookupAny ::
    "getaddrinfo_fn \<Rightarrow> string \<Rightarrow> int \<Rightarrow> int \<Rightarrow> int \<Rightarrow> Address option" where
  "Address_LookupAny getaddrinfo host family type protocol =
     (let (result, ok) = Address_Lookup getaddrinfo [] host family type protocol in
      if ok then result ! 0 else None)"

fun first_IPAddress :: "Address option list \<Rightarrow> Address option" where
  "first_IPAddress [] = None"
| "first_IPAddress (i # is) =
     (case i of
        None \<Rightarrow> first_IPAddress is
      | Some v \<Rightarrow> if is_IPAddress v then Some v else first_IPAddress is)"

definition Address_LookupAnyIPAddress ::
    "getaddrinfo_fn \<Rightarrow> string \<Rightarrow> int \<Rightarrow> int \<Rightarrow> int \<Rightarrow> Address option" where
  "Address_LookupAnyIPAddress getaddrinfo host family type protocol =
     (let (result, ok) = Address_Lookup getaddrinfo [] host family type protocol in
      if ok then first_IPAddress result else None)"

text \<open>\<open>results\<close> is the head of a list; an empty list would be a null pointer.\<close>

definition IPAddress_Create ::
    "getaddrinfo_fn \<Rightarrow> string \<Rightarrow> u16 \<Rightarrow> addr_error + Address option" where
  "IPAddress_Create getaddrinfo address port =
     (let hints = \<lparr>ai_flags = AI_NUMERICHOST, ai_family = uint AF_UNSPEC, ai_socktype = 0,
                   ai_protocol = 0\<rparr> in
      case getaddrinfo address None hints of
        Inl error \<Rightarrow> Inr None
      | Inr [] \<Rightarrow> Inl Null_pointer
      | Inr (m # ms) \<Rightarrow>
          (case Address_Create m of
             None \<Rightarrow> Inr None
           | Some a \<Rightarrow> Inr (if is_IPAddress a then Some (IPAddress_setPort a port) else None)))"

text \<open>\<open>inet_pton\<close> writes the address in network order when it returns a positive number.\<close>

definition IPv4Address_Create :: "(string \<Rightarrow> int \<times> u32) \<Rightarrow> string \<Rightarrow> u16 \<Rightarrow> Address option" where
  "IPv4Address_Create inet_pton address port =
     (let (result, a) = inet_pton address in
      if result \<le> 0 then None
      else Some (IPv4Address \<lparr>sin_family = AF_INET, sin_port = byteswapOnLittleEndian port,
                              s_addr = a, sin_zero = replicate 8 0\<rparr>))"

definition IPv6Address_Create :: "(string \<Rightarrow> int \<times> u8 list) \<Rightarrow> string \<Rightarrow> u16 \<Rightarrow> Address option" where
  "IPv6Address_Create inet_pton address port =
     (let (result, a) = inet_pton address in
      if result \<le> 0 then None
      else Some (IPv6Address \<lparr>sin6_family = AF_INET6, sin6_port = byteswapOnLittleEndian port,
                              sin6_flowinfo = 0, s6_addr = a, sin6_scope_id = 0\<rparr>))"

section \<open>Interface addresses\<close>

record ifaddrs =
  ifa_name :: string
  ifa_addr :: "u8 list option"
  ifa_netmask :: "u8 list option"

text \<open>\<open>std::multimap\<close> keeps its entries ordered by key, equal keys in order of insertion.\<close>

type_synonym 'v multimap = "(string \<times> 'v) list"

definition multimap_insert :: "string \<Rightarrow> 'v \<Rightarrow> 'v multimap \<Rightarrow> 'v multimap" where
  "multimap_insert k v m =
     takeWhile (\<lambda>e. \<not> string_less k (fst e)) m @ (k, v) #
     dropWhile (\<lambda>e. \<not> string_less k (fst e)) m"

definition interface_entry :: "ifaddrs \<Rightarrow> addr_error + (Address option \<times> u32)" where
  "interface_entry next =
     (case ifa_addr next of
        None \<Rightarrow> Inl Null_pointer
      | Some m \<Rightarrow>
          (if mem_family m = AF_INET then
             (case ifa_netmask next of
                None \<Rightarrow> Inl Null_pointer
              | Some nm \<Rightarrow> Inr (Address_Create (Some m), CountBytes (s_addr (sockaddr_in_of_bytes nm))))
           else if mem_family m = AF_INET6 then
             (case ifa_netmask next of
                None \<Rightarrow> Inl Null_pointer
              | Some nm \<Rightarrow> Inr (Address_Create (Some m),
                             sum_list (map CountBytes (s6_addr (sockaddr_in6_of_bytes nm)))))
           else Inr (None, NOT 0)))"

fun interface_loop ::
    "int \<Rightarrow> ifaddrs list \<Rightarrow> (Address \<times> u32) multimap \<Rightarrow> addr_error + (Address \<times> u32) multimap" where
  "interface_loop family [] result = Inr result"
| "interface_loop family (next # rest) result =
     (case ifa_addr next of
        None \<Rightarrow> Inl Null_pointer
      | Some m \<Rightarrow>
          (if family \<noteq> uint AF_UNSPEC \<and> family \<noteq> uint (mem_family m)
           then interface_loop family rest result
           else bindE (interface_entry next) (\<lambda>(addr, prefix_len).
             interface_loop family rest
               (case addr of
                  None \<Rightarrow> result
                | Some a \<Rightarrow> multimap_insert (ifa_name next) (a, prefix_len) result))))"

definition Address_GetInterfaceAddresses_map ::
    "ifaddrs list option \<Rightarrow> (Address \<times> u32) multimap \<Rightarrow> int \<Rightarrow>
     addr_error + (Address \<times> u32) multimap \<times> bool" where
  "Address_GetInterfaceAddresses_map getifaddrs result family =
     (case getifaddrs of
        None \<Rightarrow> Inr (result, False)
      | Some results \<Rightarrow>
          bindE (interface_loop family results result) (\<lambda>result. Inr (result, result \<noteq> [])))"

definition Address_GetInterfaceAddresses ::
    "ifaddrs list option \<Rightarrow> (Address \<times> u32) list \<Rightarrow> string \<Rightarrow> int \<Rightarrow>
     addr_error + (Address \<times> u32) list \<times> bool" where
  "Address_GetInterfaceAddresses getifaddrs result iface family =
     (if iface = [] \<or> iface = ''*'' then
        (let result = (if family = uint AF_INET \<or> family = uint AF_UNSPEC
                       then result @ [(IPv4Address_new 0 0, 0)] else result);
             result = (if family = uint AF_INET6 \<or> family = uint AF_UNSPEC
                       then result @ [(IPv6Address_default, 0)] else result) in
         Inr (result, True))
      else
        bindE (Address_GetInterfaceAddresses_map getifaddrs [] family) (\<lambda>(results, ok).
          if \<not> ok then Inr (result, False)
          else
            (let result = result @ map snd (filter (\<lambda>e. fst e = iface) results) in
             Inr (result, result \<noteq> []))))"

section \<open>Counting bits\<close>

lemma word_and_dec_lowest:
  fixes w :: "'a::len word"
  assumes k: "bit w k" and low: "\<forall>j < k. \<not> bit w j"
  shows "w AND (w - 1) = unset_bit k w"
proof -
  let ?u = "unset_bit k w"
  have kl: "k < LENGTH('a)" using k by (rule bit_imp_le_length)
  have "?u AND 2 ^ k = 0" by (rule bit_word_eqI) (auto simp: bit_simps)
  then have "?u + 2 ^ k = ?u OR 2 ^ k" by (rule disjunctive_add_eq_or)
  also have "\<dots> = w" using k by (intro bit_word_eqI) (auto simp: bit_simps)
  finally have w: "w = ?u + 2 ^ k" by simp
  have "?u AND mask k = 0" by (rule bit_word_eqI) (use low in \<open>auto simp: bit_simps\<close>)
  then have "?u + mask k = ?u OR mask k" by (rule disjunctive_add_eq_or)
  then have "w - 1 = ?u OR mask k" using w by (metis add_diff_eq mask_eq_exp_minus_1)
  then show ?thesis using low by (intro bit_word_eqI) (auto simp: bit_simps)
qed

definition popcount :: "'a::len word \<Rightarrow> nat" where
  "popcount w = card {n. bit w n}"

lemma finite_bits [simp]: "finite {n. bit (w :: 'a::len word) n}"
  by (rule finite_subset [of _ "{..<LENGTH('a)}"]) (auto dest: bit_imp_le_length)

lemma popcount_and_dec:
  fixes w :: "'a::len word"
  assumes "w \<noteq> 0"
  shows "popcount w = Suc (popcount (w AND (w - 1)))"
proof -
  obtain k0 where "bit w k0" using assms by (auto simp: bit_eq_iff)
  define k where "k = (LEAST k. bit w k)"
  have k: "bit w k" unfolding k_def using \<open>bit w k0\<close> by (rule LeastI)
  have low: "\<forall>j < k. \<not> bit w j" unfolding k_def using not_less_Least by blast
  have "{n. bit w n} = insert k {n. bit (unset_bit k w) n}"
    using k by (auto simp: bit_simps dest: bit_imp_le_length)
  moreover have "k \<notin> {n. bit (unset_bit k w) n}" by (simp add: bit_simps)
  ultimately show ?thesis
    by (simp add: popcount_def word_and_dec_lowest [OF k low])
qed

termination CountBytes_loop
  by (relation "measure (\<lambda>(value, result). popcount value)") (simp_all add: popcount_and_dec)

declare CountBytes_loop.simps [simp del]

lemma CountBytes_loop_popcount:
  "CountBytes_loop w r = r + of_nat (popcount w)"
proof (induction w r rule: CountBytes_loop.induct)
  case (1 w r)
  show ?case
  proof (cases "w = 0")
    case True
    then show ?thesis by (subst CountBytes_loop.simps) (simp add: popcount_def)
  next
    case False
    then show ?thesis
      using 1 by (subst CountBytes_loop.simps) (simp add: popcount_and_dec [of w])
  qed
qed

lemma CountBytes_popcount: "CountBytes w = of_nat (popcount w)"
  by (simp add: CountBytes_def CountBytes_loop_popcount)

section \<open>Prefixes, bit by bit\<close>

text \<open>
  Bit \<open>k\<close> of an address, counted from the most significant one as prefixes are, for IPv4 (where
  the structure holds the number in network order) and IPv6.
\<close>

definition v4_bit :: "u32 \<Rightarrow> nat \<Rightarrow> bool" where
  "v4_bit a k = bit (byteswap a) (31 - k)"

definition v6_bit :: "u8 list \<Rightarrow> nat \<Rightarrow> bool" where
  "v6_bit bs k = bit (bs ! (k div 8)) (7 - k mod 8)"

lemma bit_byteswap:
  fixes w :: "'a::len word"
  assumes "8 dvd LENGTH('a)"
  shows "bit (byteswap w) n \<longleftrightarrow>
           n < LENGTH('a) \<and> bit w (8 * (LENGTH('a) div 8 - 1 - n div 8) + n mod 8)"
proof -
  have "n div 8 < LENGTH('a) div 8" if "n < LENGTH('a)"
    using assms that by (auto elim!: dvdE)
  then show ?thesis
    by (auto simp: byteswap_def bit_bytes_word rev_nth word_bytes_def bit_simps)
qed

lemmas bit_byteswap32 = bit_byteswap [where ?'a = 32, simplified]

lemma byteswap_ops32 [bytes_simps]:
  "byteswap (a OR b :: u32) = byteswap a OR byteswap b"
  "byteswap (a AND b :: u32) = byteswap a AND byteswap b"
  "byteswap (NOT a :: u32) = NOT (byteswap a)"
  by (rule bit_word_eqI; auto simp: bit_byteswap32 bit_simps)+

lemma CreateMask_Inr:
  assumes "unat bits \<le> LENGTH('a)" and "LENGTH('a) - unat bits < 31"
  shows "CreateMask bits = Inr (mask (LENGTH('a) - unat bits) :: 'a::len word)"
  using assms by (simp add: CreateMask_def mask_eq_exp_minus_1 push_bit_eq_mult)

lemma popcount_byteswap32: "popcount (byteswap (w :: u32)) = popcount w"
proof -
  let ?p = "\<lambda>n :: nat. 8 * (3 - n div 8) + n mod 8"
  have inv: "?p (?p n) = n" if "n < 32" for n :: nat
  proof -
    have "n div 8 \<le> 3" using that by simp
    then show ?thesis by simp
  qed
  have lt: "?p n < 32" for n by simp
  have again: "8 * (3 - (3 - n div 8)) + n mod 8 = n" if "bit w n" for n
    using inv [of n] bit_imp_le_length [OF that] by simp
  have "bij_betw ?p {n. bit (byteswap w) n} {n. bit w n}"
    by (rule bij_betw_byWitness [where f' = ?p])
       (auto simp: bit_byteswap32 inv lt again dest: bit_imp_le_length)
  then show ?thesis unfolding popcount_def by (rule bij_betw_same_card)
qed

lemma popcount_not_mask:
  assumes "n \<le> LENGTH('a)"
  shows "popcount (NOT (mask n) :: 'a::len word) = LENGTH('a) - n"
proof -
  have "{k. bit (NOT (mask n) :: 'a word) k} = {n..<LENGTH('a)}"
    by (auto simp: bit_simps)
  then show ?thesis by (simp add: popcount_def)
qed

lemma unat_le_iff32: "unat (p :: u32) \<le> 32 \<longleftrightarrow> \<not> 32 < p"
  by (simp add: word_less_nat_alt not_less)

lemma unat_mod8: "unat (p mod 8 :: u32) = unat p mod 8"
  by (simp add: unat_mod_distrib)

lemma CreateMask32_Inr:
  assumes "2 \<le> p" and "p \<le> (32 :: u32)"
  shows "CreateMask p = Inr (mask (32 - unat p) :: u32)"
  using assms CreateMask_Inr [where ?'a = 32 and bits = p] by (simp add: word_le_nat_alt)

lemma CreateMask8_Inr: "CreateMask (p mod 8) = Inr (mask (8 - unat p mod 8) :: u8)"
proof -
  have "unat p mod 8 < 8" by simp
  then show ?thesis
    using CreateMask_Inr [where ?'a = 8 and bits = "p mod 8"] unfolding unat_mod8 by simp
qed

lemma v6_bit_fill_from:
  assumes "length bs = 16" and "k < 128" and "i < 16"
  shows "v6_bit (fill_from (Suc i) v (bs[i := x])) k =
           (if k div 8 < i then v6_bit bs k
            else if k div 8 = i then bit x (7 - k mod 8) else bit v (7 - k mod 8))"
  using assms by (auto simp: v6_bit_def fill_from_def nth_list_update)

lemma v6_bit_at: "k div 8 = i \<Longrightarrow> v6_bit bs k = bit (bs ! i) (7 - k mod 8)"
  by (simp add: v6_bit_def)

lemma v6_bit_fill_to:
  assumes "k < 128" and "i < 16"
  shows "v6_bit (fill_to i v ((replicate 16 0)[i := x])) k =
           (if k div 8 < i then bit v (7 - k mod 8)
            else k div 8 = i \<and> bit x (7 - k mod 8))"
  using assms by (auto simp: v6_bit_def fill_to_def nth_list_update)

lemma prefix_compare: "k div 8 = p div 8 \<Longrightarrow> 7 - k mod 8 < 8 - p mod 8 \<longleftrightarrow> p \<le> (k :: nat)"
proof -
  assume eq: "k div 8 = p div 8"
  have "k = 8 * (p div 8) + k mod 8" using eq mult_div_mod_eq [of 8 k] by simp
  moreover have "p = 8 * (p div 8) + p mod 8" by simp
  ultimately have "p \<le> k \<longleftrightarrow> p mod 8 \<le> k mod 8" by (metis nat_add_left_cancel_le)
  then show ?thesis using mod_less_divisor [of 8 k] by linarith
qed

lemma bit_ff8: "bit (0xff :: u8) n \<longleftrightarrow> n < 8"
proof -
  have "(0xff :: u8) = mask 8" by (simp add: mask_eq_exp_minus_1)
  then show ?thesis by (simp only: bit_mask_iff) (simp add: bit_simps)
qed

text \<open>
  IPv4 prefixes. For every prefix length from 2 to 32 the broadcast address is the address with
  exactly the bits behind the prefix set (port and family kept), the subnet mask has exactly the bits of
  the prefix set, and \<open>CountBytes\<close> recovers the prefix length from the mask. At the lengths 0 and 1
  \<open>CreateMask\<close> has no defined result.
\<close>

theorem IPv4Address_prefix_ops:
  assumes "2 \<le> p" and "p \<le> 32"
  shows "(\<exists>b. IPv4Address_broadcastAddress s p = Inr (Some (IPv4Address b)) \<and>
              b = s\<lparr>s_addr := s_addr b\<rparr> \<and>
              (\<forall>k < 32. v4_bit (s_addr b) k \<longleftrightarrow> unat p \<le> k \<or> v4_bit (s_addr s) k)) \<and>
         (\<exists>m. IPv4Address_subnetMask p = Inr (Some (IPv4Address m)) \<and>
              (\<forall>k < 32. v4_bit (s_addr m) k \<longleftrightarrow> k < unat p) \<and> CountBytes (s_addr m) = p) \<and>
         IPv4Address_broadcastAddress s 0 = Inl Undefined_shift \<and>
         IPv4Address_broadcastAddress s 1 = Inl Undefined_shift"
proof (intro conjI)
  have p: "\<not> 32 < p" "2 \<le> unat p" "unat p \<le> 32"
    using assms by (simp_all add: word_le_nat_alt not_less)
  let ?m = "mask (32 - unat p) :: u32"
  have "byteswap (NOT (byteswap ?m)) = NOT ?m" by (simp add: byteswap_ops32)
  moreover have "popcount (NOT (byteswap ?m)) = unat p"
    using popcount_byteswap32 [of "NOT (byteswap ?m)"] popcount_not_mask [of "32 - unat p", where ?'a = 32]
      p by (simp add: byteswap_ops32)
  ultimately show "\<exists>m. IPv4Address_subnetMask p = Inr (Some (IPv4Address m)) \<and>
      (\<forall>k < 32. v4_bit (s_addr m) k \<longleftrightarrow> k < unat p) \<and> CountBytes (s_addr m) = p"
    using p by (auto simp: IPv4Address_subnetMask_def CreateMask32_Inr [OF assms] v4_bit_def
        byteswapOnLittleEndian_def CountBytes_popcount bit_simps)
  show "\<exists>b. IPv4Address_broadcastAddress s p = Inr (Some (IPv4Address b)) \<and>
      b = s\<lparr>s_addr := s_addr b\<rparr> \<and>
      (\<forall>k < 32. v4_bit (s_addr b) k \<longleftrightarrow> unat p \<le> k \<or> v4_bit (s_addr s) k)"
    using p by (auto simp: IPv4Address_broadcastAddress_def CreateMask32_Inr [OF assms] v4_bit_def
        byteswapOnLittleEndian_def byteswap_ops32 bit_simps)
qed (simp_all add: IPv4Address_broadcastAddress_def CreateMask_def)

theorem IPv4Address_prefix_ops_witness:
  "\<exists>m. IPv4Address_subnetMask 24 = Inr (Some (IPv4Address m)) \<and> CountBytes (s_addr m) = 24"
  using IPv4Address_prefix_ops
    [of 24 "\<lparr>sin_family = AF_INET, sin_port = 0, s_addr = 0, sin_zero = replicate 8 0\<rparr>"] by auto

lemma prefix_byte_order:
  "k div 8 < n div 8 \<Longrightarrow> k < n" "n div 8 < k div 8 \<Longrightarrow> n < k" for k n :: nat
  by (metis div_le_mono not_less)+

lemma IPv6_broadcast_bits:
  fixes p :: u32
  assumes len: "length xs = 16" and i: "unat p div 8 < 16" and k: "k < 128"
  shows "v6_bit (fill_from (unat p div 8 + 1) 0xff (xs[unat p div 8 := xs ! (unat p div 8) OR mask (8 - unat p mod 8)])) k \<longleftrightarrow>
    unat p \<le> k \<or> v6_bit xs k"
proof (cases "k div 8" "unat p div 8" rule: linorder_cases)
  case less
  then show ?thesis using prefix_byte_order(1) [OF less] by (simp add: v6_bit_fill_from [OF len k i])
next
  case equal
  then show ?thesis using prefix_compare [OF equal]
    by (auto simp: v6_bit_fill_from [OF len k i] bit_or_iff bit_and_iff bit_mask_iff v6_bit_at [OF equal, of xs])
next
  case greater
  have "bit (0xff :: u8) (7 - k mod 8)" by (subst bit_ff8) simp
  then show ?thesis using greater prefix_byte_order(2) [OF greater] by (simp add: v6_bit_fill_from [OF len k i])
qed

lemma IPv6_mask_bits:
  fixes p :: u32
  assumes i: "unat p div 8 < 16" and k: "k < 128"
  shows "v6_bit (fill_to (unat p div 8) 0xff ((replicate 16 0)[unat p div 8 := NOT (mask (8 - unat p mod 8))])) k \<longleftrightarrow> k < unat p"
proof (cases "k div 8" "unat p div 8" rule: linorder_cases)
  case less
  have "bit (0xff :: u8) (7 - k mod 8)" by (subst bit_ff8) simp
  then show ?thesis using less prefix_byte_order(1) [OF less] by (simp add: v6_bit_fill_to [OF k i])
next
  case equal
  then show ?thesis using prefix_compare [OF equal] by (auto simp: v6_bit_fill_to [OF k i] bit_simps)
next
  case greater
  then show ?thesis using prefix_byte_order(2) [OF greater] by (simp add: v6_bit_fill_to [OF k i])
qed

text \<open>
  C17. IPv6 prefixes. For every prefix length below 128 the broadcast address is the address with
  exactly the bits behind the prefix set, and the subnet mask has exactly the bits of the prefix set; at
  128 both index past the sixteen bytes of the address.
\<close>

theorem IPv6Address_prefix_ops:
  assumes "length (s6_addr s) = 16" and "p < 128"
  shows "(\<exists>b. IPv6Address_broadcastAddress s p = Inr (Some (IPv6Address b)) \<and>
              b = s\<lparr>s6_addr := s6_addr b\<rparr> \<and> length (s6_addr b) = 16 \<and>
              (\<forall>k < 128. v6_bit (s6_addr b) k \<longleftrightarrow> unat p \<le> k \<or> v6_bit (s6_addr s) k)) \<and>
         (\<exists>m. IPv6Address_subnetMask p = Inr (Some (IPv6Address m)) \<and>
              (\<forall>k < 128. v6_bit (s6_addr m) k \<longleftrightarrow> k < unat p)) \<and>
         IPv6Address_broadcastAddress s 128 = Inl Out_of_bounds \<and>
         IPv6Address_subnetMask 128 = Inl Out_of_bounds"
proof (intro conjI)
  have "unat p < 128" using assms by (simp add: word_less_nat_alt)
  then have i: "unat p div 8 < 16" by simp
  let ?b = "fill_from (unat p div 8 + 1) 0xff
              ((s6_addr s)[unat p div 8 := s6_addr s ! (unat p div 8) OR mask (8 - unat p mod 8)])"
  have "length ?b = 16" using assms by (simp add: fill_from_def)
  then show "\<exists>b. IPv6Address_broadcastAddress s p = Inr (Some (IPv6Address b)) \<and>
      b = s\<lparr>s6_addr := s6_addr b\<rparr> \<and> length (s6_addr b) = 16 \<and>
      (\<forall>k < 128. v6_bit (s6_addr b) k \<longleftrightarrow> unat p \<le> k \<or> v6_bit (s6_addr s) k)"
    using i IPv6_broadcast_bits [OF assms(1) i] by (simp add: IPv6Address_broadcastAddress_def CreateMask8_Inr Let_def)
  show "\<exists>m. IPv6Address_subnetMask p = Inr (Some (IPv6Address m)) \<and> (\<forall>k < 128. v6_bit (s6_addr m) k \<longleftrightarrow> k < unat p)"
    using i IPv6_mask_bits [OF i] by (simp add: IPv6Address_subnetMask_def CreateMask8_Inr Let_def)
qed (simp_all add: IPv6Address_broadcastAddress_def IPv6Address_subnetMask_def)

theorem IPv6Address_prefix_ops_witness:
  "\<exists>m. IPv6Address_subnetMask 60 = Inr (Some (IPv6Address m)) \<and> v6_bit (s6_addr m) 59 \<and>
       \<not> v6_bit (s6_addr m) 60"
  using IPv6Address_prefix_ops
    [of "\<lparr>sin6_family = AF_INET6, sin6_port = 0, sin6_flowinfo = 0,
          s6_addr = replicate 16 0, sin6_scope_id = 0\<rparr>" 60] by auto

text \<open>
  The address \<open>networdAddress\<close> returns is the host part, not the network: for IPv4 its bits are
  those of the address behind the prefix, and for IPv6 the byte the prefix ends in keeps only its bits
  behind the prefix (the bytes before it are kept, those after it cleared).
\<close>

theorem networdAddress_keeps_host_bits:
  assumes "2 \<le> p" and "p \<le> 32" and "length (s6_addr t) = 16" and "q < 128"
  shows "(\<exists>b. IPv4Address_networdAddress s p = Inr (Some (IPv4Address b)) \<and>
              (\<forall>k < 32. v4_bit (s_addr b) k \<longleftrightarrow> unat p \<le> k \<and> v4_bit (s_addr s) k)) \<and>
         (\<exists>b. IPv6Address_networdAddress t q = Inr (Some (IPv6Address b)) \<and>
              (\<forall>k < 128. v6_bit (s6_addr b) k \<longleftrightarrow> v6_bit (s6_addr t) k \<and>
                 (k div 8 < unat q div 8 \<or> k div 8 = unat q div 8 \<and> unat q \<le> k)))"
proof (intro conjI)
  have p: "\<not> 32 < p" "2 \<le> unat p" "unat p \<le> 32"
    using assms by (simp_all add: word_le_nat_alt not_less)
  show "\<exists>b. IPv4Address_networdAddress s p = Inr (Some (IPv4Address b)) \<and>
      (\<forall>k < 32. v4_bit (s_addr b) k \<longleftrightarrow> unat p \<le> k \<and> v4_bit (s_addr s) k)"
    using p by (auto simp: IPv4Address_networdAddress_def CreateMask32_Inr [OF assms(1,2)] v4_bit_def
        byteswapOnLittleEndian_def byteswap_ops32 bit_simps)
  have "unat q < 128" using assms by (simp add: word_less_nat_alt)
  then have i: "unat q div 8 < 16" by simp
  let ?b = "fill_from (unat q div 8 + 1) 0x00
              ((s6_addr t)[unat q div 8 := s6_addr t ! (unat q div 8) AND mask (8 - unat q mod 8)])"
  have "v6_bit ?b k \<longleftrightarrow> v6_bit (s6_addr t) k \<and>
      (k div 8 < unat q div 8 \<or> k div 8 = unat q div 8 \<and> unat q \<le> k)" if "k < 128" for k
  proof (cases "k div 8 = unat q div 8")
    case True
    then show ?thesis using prefix_compare [OF True]
      by (auto simp: v6_bit_fill_from [OF assms(3) that i] bit_or_iff bit_and_iff bit_mask_iff v6_bit_at [OF True, of "s6_addr t"])
  next
    case False
    then show ?thesis by (simp add: v6_bit_fill_from [OF assms(3) that i])
  qed
  then show "\<exists>b. IPv6Address_networdAddress t q = Inr (Some (IPv6Address b)) \<and>
      (\<forall>k < 128. v6_bit (s6_addr b) k \<longleftrightarrow> v6_bit (s6_addr t) k \<and>
         (k div 8 < unat q div 8 \<or> k div 8 = unat q div 8 \<and> unat q \<le> k))"
    using i by (simp add: IPv6Address_networdAddress_def CreateMask8_Inr Let_def)
qed

theorem networdAddress_keeps_host_bits_witness:
  "\<exists>b. IPv4Address_networdAddress
         \<lparr>sin_family = AF_INET, sin_port = 0, s_addr = 0x0101A8C0, sin_zero = replicate 8 0\<rparr> 24 =
           Inr (Some (IPv4Address b)) \<and> \<not> v4_bit (s_addr b) 0"
  using networdAddress_keeps_host_bits
    [of 24 "\<lparr>sin6_family = AF_INET6, sin6_port = 0, sin6_flowinfo = 0,
              s6_addr = replicate 16 0, sin6_scope_id = 0\<rparr>" 0
        "\<lparr>sin_family = AF_INET, sin_port = 0, s_addr = 0x0101A8C0, sin_zero = replicate 8 0\<rparr>"]
  by auto

section \<open>Addresses as raw memory\<close>

lemma length_getAddr: "Address_wf a \<Longrightarrow> Address_getAddrLen a \<le> length (Address_getAddr a)"
  by (cases a) (simp_all add: Address_wf_def Address_getAddr_def Address_getAddrLen_def
      sockaddr_in_bytes_def sockaddr_in6_bytes_def sockaddr_un_bytes_def sockaddr_any_bytes_def path_defs)

lemma take_word_bytes [simp]:
  "take 2 (word_bytes (a :: u16) @ bs) = word_bytes a" "drop 2 (word_bytes (a :: u16) @ bs) = bs"
  "take 4 (word_bytes (b :: u32) @ bs) = word_bytes b" "drop 4 (word_bytes (b :: u32) @ bs) = bs"
  by (simp_all add: take_append drop_append)

lemma sockaddr_in_round_trip:
  "length (sin_zero s) = 8 \<Longrightarrow> sockaddr_in_of_bytes (sockaddr_in_bytes s) = s"
  by (simp add: sockaddr_in_of_bytes_def sockaddr_in_bytes_def drop_append)

lemma sockaddr_in6_round_trip:
  "length (s6_addr s) = 16 \<Longrightarrow> sockaddr_in6_of_bytes (sockaddr_in6_bytes s) = s"
  by (simp add: sockaddr_in6_of_bytes_def sockaddr_in6_bytes_def drop_append)

lemma mem_family_bytes:
  "mem_family (sockaddr_in_bytes s) = sin_family s"
  "mem_family (sockaddr_in6_bytes t) = sin6_family t"
  by (simp_all add: mem_family_def sockaddr_in_bytes_def sockaddr_in6_bytes_def)

text \<open>The memory an IP address exposes is turned back into the same address by \<open>Create\<close>.\<close>

lemma Address_Create_getAddr:
  assumes "Address_wf a" and "is_IPAddress a"
  shows "Address_Create (Some (Address_getAddr a)) = Some a"
  using assms
  by (cases a) (simp_all add: Address_wf_def is_IPAddress_def Address_getAddr_def Address_Create_def
      sockaddr_in_round_trip sockaddr_in6_round_trip mem_family_bytes AF_INET_def AF_INET6_def)

lemma is_IPAddress_setPort: "is_IPAddress (IPAddress_setPort a v) = is_IPAddress a"
  by (cases a) (simp_all add: is_IPAddress_def IPAddress_setPort_def)

lemma IPAddress_getPort_setPort:
  "is_IPAddress a \<Longrightarrow> IPAddress_getPort (IPAddress_setPort a v) = ucast v"
  by (cases a) (simp_all add: is_IPAddress_def IPAddress_getPort_def IPAddress_setPort_def
      byteswapOnLittleEndian_def)

text \<open>What a successful \<open>IPAddress::Create\<close> returns carries the port it was given.\<close>

lemma IPAddress_Create_port:
  "IPAddress_Create gai address port = Inr (Some a) \<Longrightarrow>
     is_IPAddress a \<and> IPAddress_getPort a = ucast port"
  by (auto simp: IPAddress_Create_def IPAddress_getPort_setPort is_IPAddress_setPort Let_def
      split: sum.splits list.splits option.splits if_splits)

section \<open>The order of addresses\<close>

abbreviation byte_rel :: "(u8 \<times> u8) set" where
  "byte_rel \<equiv> {(x, y). x < y}"

definition addr_key :: "Address \<Rightarrow> u8 list" where
  "addr_key a = take (Address_getAddrLen a) (Address_getAddr a)"

lemma memcmp_lexord:
  assumes "m \<le> length xs" and "n \<le> length ys"
  shows "memcmp xs ys (min m n) < 0 \<or> memcmp xs ys (min m n) = 0 \<and> m < n \<longleftrightarrow>
           (take m xs, take n ys) \<in> lexord byte_rel"
  using assms
proof (induction xs arbitrary: m n ys)
  case Nil
  then show ?case by (cases ys; cases n) auto
next
  case (Cons x xs)
  show ?case
  proof (cases "m = 0 \<or> n = 0")
    case True
    then show ?thesis using Cons.prems by (cases ys; cases n; cases m) auto
  next
    case False
    then obtain m' n' y ys' where "m = Suc m'" "n = Suc n'" "ys = y # ys'"
      using Cons.prems by (cases m; cases n; cases ys) auto
    then show ?thesis using Cons.IH [of m' n' ys'] Cons.prems by auto
  qed
qed

lemma memcmp_eq:
  "n \<le> length xs \<Longrightarrow> n \<le> length ys \<Longrightarrow> memcmp xs ys n = 0 \<longleftrightarrow> take n xs = take n ys"
  by (induction xs ys n rule: memcmp.induct) auto

lemma Address_less_lexord:
  assumes "Address_wf a" and "Address_wf b"
  shows "Address_less a b \<longleftrightarrow> (addr_key a, addr_key b) \<in> lexord byte_rel"
  unfolding addr_key_def
  using memcmp_lexord [OF length_getAddr [OF assms(1)] length_getAddr [OF assms(2)]]
  by (auto simp: Address_less_def Let_def)

lemma Address_eq_key:
  assumes "Address_wf a" and "Address_wf b"
  shows "Address_eq a b \<longleftrightarrow> addr_key a = addr_key b"
proof -
  have "length (addr_key a) = Address_getAddrLen a" "length (addr_key b) = Address_getAddrLen b"
    using length_getAddr assms by (simp_all add: addr_key_def)
  then show ?thesis
    using memcmp_eq [of "Address_getAddrLen a" "Address_getAddr a" "Address_getAddr b"]
      length_getAddr [OF assms(1)] length_getAddr [OF assms(2)]
    unfolding Address_eq_def addr_key_def by metis
qed

lemma addr_key_Create: "Address_wf a \<Longrightarrow> is_IPAddress a \<Longrightarrow> addr_key a = Address_getAddr a"
  by (cases a) (simp_all add: addr_key_def is_IPAddress_def Address_wf_def Address_getAddrLen_def
      Address_getAddr_def sockaddr_in_bytes_def sockaddr_in6_bytes_def)

text \<open>
  \<open>operator<\<close> is a strict total order on addresses of all families, exactly one of \<open>a < b\<close>,
  \<open>a == b\<close>, \<open>b < a\<close> holds, and for IP addresses \<open>operator==\<close> is equality of family, port and address:
  addresses can be used as keys of ordered containers.
\<close>

theorem Address_less_strict_order:
  assumes "Address_wf a" and "Address_wf b" and "Address_wf c"
  shows "\<not> Address_less a a \<and>
         (Address_less a b \<longrightarrow> Address_less b c \<longrightarrow> Address_less a c) \<and>
         (Address_less a b \<or> Address_eq a b \<or> Address_less b a) \<and>
         \<not> (Address_less a b \<and> Address_less b a) \<and>
         \<not> (Address_less a b \<and> Address_eq a b) \<and>
         (is_IPAddress a \<longrightarrow> is_IPAddress b \<longrightarrow> (Address_eq a b \<longleftrightarrow> a = b))"
proof -
  have irr: "(k, k) \<notin> lexord byte_rel" for k by (simp add: lexord_irreflexive)
  have tr: "trans (lexord byte_rel)" by (rule lexord_transI) (auto simp: trans_def)
  have lin: "(k, l) \<in> lexord byte_rel \<or> k = l \<or> (l, k) \<in> lexord byte_rel" for k l
    by (rule lexord_linear) auto
  have "a = b" if "is_IPAddress a" "is_IPAddress b" "addr_key a = addr_key b"
    using that assms Address_Create_getAddr addr_key_Create by (metis option.inject)
  then show ?thesis
    using irr lin transD [OF tr] unfolding Address_less_lexord [OF assms(1,1)]
      Address_less_lexord [OF assms(1,2)] Address_less_lexord [OF assms(2,1)]
      Address_less_lexord [OF assms(2,3)] Address_less_lexord [OF assms(1,3)]
      Address_eq_key [OF assms(1,2)] by metis
qed

theorem Address_less_strict_order_witness:
  "Address_less (IPv4Address_new 0x7F000001 80) IPv6Address_default \<and>
   \<not> Address_less IPv6Address_default (IPv4Address_new 0x7F000001 80)"
proof -
  have "Address_wf (IPv4Address_new 0x7F000001 80)" "Address_wf IPv6Address_default"
    by (simp_all add: Address_wf_def IPv4Address_new_def IPv6Address_default_def)
  moreover have "Address_less (IPv4Address_new 0x7F000001 80) IPv6Address_default"
    by code_simp
  ultimately show ?thesis using Address_less_strict_order by blast
qed

end
