(* ===== verification/String_Util.thy ===== *)
theory String_Util
  imports Address
begin

text \<open>
  The string, path and conversion helpers of \<^verbatim>\<open>sylar/util.h\<close> and \<^verbatim>\<open>sylar/util.cc\<close>:
  \<open>StringUtil\<close> (URL encoding, trimming), \<open>FSUtil::Dirname\<close> and \<open>Basename\<close>, \<open>TypeUtil\<close>, the case
  conversions in the C locale and the choice of the host's IPv4 address. The output buffer \<open>ss\<close> of the
  URL functions is allocated only when the first character changes; the model keeps it as an option.

  Shown here: decoding an encoded string gives it back, what is left unencoded, and what the
  trimming functions cut.
\<close>

section \<open>Case conversion and numbers\<close>

definition toupper :: "char \<Rightarrow> char" where
  "toupper c = (let n = of_char c :: nat in if 97 \<le> n \<and> n \<le> 122 then char_of (n - 32) else c)"

definition tolower :: "char \<Rightarrow> char" where
  "tolower c = (let n = of_char c :: nat in if 65 \<le> n \<and> n \<le> 90 then char_of (n + 32) else c)"

definition ToUpper :: "string \<Rightarrow> string" where
  "ToUpper name = map toupper name"

definition ToLower :: "string \<Rightarrow> string" where
  "ToLower name = map tolower name"

definition TypeUtil_ToChar :: "string \<Rightarrow> u8" where
  "TypeUtil_ToChar str = (if str = [] then 0 else byte_of_char (hd str))"

text \<open>
  \<open>strtoull\<close> in base 10: white space, a sign (a minus negates modulo \<open>2\<^sup>64\<close>), digits; the value
  saturates at the largest \<open>unsigned long long\<close>.
\<close>

definition is_space :: "char \<Rightarrow> bool" where
  "is_space c = (let n = of_char c :: nat in n = 32 \<or> 9 \<le> n \<and> n \<le> 13)"

definition is_digit :: "char \<Rightarrow> bool" where
  "is_digit c = (let n = of_char c :: nat in 48 \<le> n \<and> n \<le> 57)"

definition digits_value :: "string \<Rightarrow> nat" where
  "digits_value ds = foldl (\<lambda>v c. 10 * v + (of_char c - 48)) 0 ds"

definition strtoull :: "string \<Rightarrow> u64" where
  "strtoull str =
     (let s = dropWhile is_space (c_str str);
          (neg, s) = (if s \<noteq> [] \<and> hd s = CHR ''-'' then (True, tl s)
                      else if s \<noteq> [] \<and> hd s = CHR ''+'' then (False, tl s) else (False, s));
          v = digits_value (takeWhile is_digit s) in
      if v \<ge> 2 ^ 64 then -1 else if neg then - of_nat v else of_nat v)"

definition TypeUtil_Atoi :: "string \<Rightarrow> u64" where
  "TypeUtil_Atoi str = (if str = [] then 0 else strtoull str)"

definition TypeUtil_Atoi_cstr :: "string option \<Rightarrow> u64" where
  "TypeUtil_Atoi_cstr str = (case str of None \<Rightarrow> 0 | Some s \<Rightarrow> strtoull s)"

definition TypeUtil_ToChar_cstr :: "string option \<Rightarrow> u8" where
  "TypeUtil_ToChar_cstr str =
     (case str of None \<Rightarrow> 0 | Some s \<Rightarrow> (if c_str s = [] then 0 else byte_of_char (hd s)))"

section \<open>Paths\<close>

text \<open>\<open>rfind c s\<close>: the last position of \<open>c\<close>, \<^const>\<open>None\<close> for \<open>npos\<close>.\<close>

definition rfind :: "char \<Rightarrow> string \<Rightarrow> nat option" where
  "rfind c s = (case memchr c (rev s) of None \<Rightarrow> None | Some i \<Rightarrow> Some (length s - 1 - i))"

definition FSUtil_Dirname :: "string \<Rightarrow> string" where
  "FSUtil_Dirname filename =
     (if filename = [] then ''.''
      else
        (case rfind (CHR ''/'') filename of
           Some pos \<Rightarrow> (if pos = 0 then ''/'' else take pos filename)
         | None \<Rightarrow> ''.''))"

definition FSUtil_Basename :: "string \<Rightarrow> string" where
  "FSUtil_Basename filename =
     (if filename = [] then filename
      else
        (case rfind (CHR ''/'') filename of
           None \<Rightarrow> filename
         | Some pos \<Rightarrow> drop (pos + 1) filename))"

section \<open>URL encoding\<close>

definition uri_chars :: "bool list" where
  "uri_chars =
     replicate 32 False @
     replicate 13 False @ [True, True, False] @
     replicate 10 True @ [False, False, False, True, False, False] @
     [False] @ replicate 15 True @
     replicate 11 True @ [False, False, False, False, True] @
     [False] @ replicate 15 True @
     replicate 11 True @ [False, False, False, True, False] @
     replicate 128 False"

definition xdigit_chars :: "u8 list" where
  "xdigit_chars =
     replicate 48 0 @
     [0, 1, 2, 3, 4, 5, 6, 7, 8, 9] @ replicate 6 0 @
     [0, 10, 11, 12, 13, 14, 15] @ replicate 9 0 @
     replicate 16 0 @
     [0, 10, 11, 12, 13, 14, 15] @ replicate 9 0 @
     replicate 144 0"

definition CHAR_IS_UNRESERVED :: "char \<Rightarrow> bool" where
  "CHAR_IS_UNRESERVED c = uri_chars ! (of_char c)"

definition hexdigits :: string where
  "hexdigits = ''0123456789ABCDEF''"

definition isxdigit :: "char \<Rightarrow> bool" where
  "isxdigit c =
     (let n = of_char c :: nat in
      48 \<le> n \<and> n \<le> 57 \<or> 65 \<le> n \<and> n \<le> 70 \<or> 97 \<le> n \<and> n \<le> 102)"

definition append_ss :: "string option \<Rightarrow> string \<Rightarrow> string option" where
  "append_ss ss x = map_option (\<lambda>s. s @ x) ss"

text \<open>\<open>str\<close> is the part of the string in front of \<open>c\<close>; \<open>ss\<close> starts as a copy of it.\<close>

fun UrlEncode_loop :: "bool \<Rightarrow> string \<Rightarrow> string \<Rightarrow> string option \<Rightarrow> string option" where
  "UrlEncode_loop space_as_plus str [] ss = ss"
| "UrlEncode_loop space_as_plus str (c # rest) ss =
     (if \<not> CHAR_IS_UNRESERVED c then
        (let s = (case ss of None \<Rightarrow> str | Some s \<Rightarrow> s);
             s = (if c = CHR '' '' \<and> space_as_plus then s @ ''+''
                  else s @ ''%'' @ [hexdigits ! (of_char c div 16)] @ [hexdigits ! (of_char c mod 16)]) in
         UrlEncode_loop space_as_plus (str @ [c]) rest (Some s))
      else UrlEncode_loop space_as_plus (str @ [c]) rest (append_ss ss [c]))"

definition StringUtil_UrlEncode :: "string \<Rightarrow> bool \<Rightarrow> string" where
  "StringUtil_UrlEncode str space_as_plus =
     (case UrlEncode_loop space_as_plus [] str None of None \<Rightarrow> str | Some ss \<Rightarrow> ss)"

fun UrlDecode_loop :: "bool \<Rightarrow> string \<Rightarrow> string \<Rightarrow> string option \<Rightarrow> string option" where
  "UrlDecode_loop space_as_plus str [] ss = ss"
| "UrlDecode_loop space_as_plus str (c # rest) ss =
     (if c = CHR ''+'' \<and> space_as_plus then
        UrlDecode_loop space_as_plus (str @ [c]) rest
          (Some ((case ss of None \<Rightarrow> str | Some s \<Rightarrow> s) @ '' ''))
      else if c = CHR ''%'' \<and> length rest \<ge> 2 \<and> isxdigit (rest ! 0) \<and> isxdigit (rest ! 1) then
        (let v = push_bit 4 (xdigit_chars ! of_char (rest ! 0)) OR xdigit_chars ! of_char (rest ! 1) in
         UrlDecode_loop space_as_plus (str @ [c] @ take 2 rest) (drop 2 rest)
           (Some ((case ss of None \<Rightarrow> str | Some s \<Rightarrow> s) @ [char_of_byte v])))
      else UrlDecode_loop space_as_plus (str @ [c]) rest (append_ss ss [c]))"

definition StringUtil_UrlDecode :: "string \<Rightarrow> bool \<Rightarrow> string" where
  "StringUtil_UrlDecode str space_as_plus =
     (case UrlDecode_loop space_as_plus [] str None of None \<Rightarrow> str | Some ss \<Rightarrow> ss)"

section \<open>Trimming\<close>

fun find_first_not_of :: "string \<Rightarrow> string \<Rightarrow> nat option" where
  "find_first_not_of ds [] = None"
| "find_first_not_of ds (c # cs) =
     (if c \<in> set ds then map_option Suc (find_first_not_of ds cs) else Some 0)"

definition find_last_not_of :: "string \<Rightarrow> string \<Rightarrow> nat option" where
  "find_last_not_of ds s =
     (case find_first_not_of ds (rev s) of None \<Rightarrow> None | Some i \<Rightarrow> Some (length s - 1 - i))"

definition StringUtil_Trim :: "string \<Rightarrow> string \<Rightarrow> string" where
  "StringUtil_Trim str delimit =
     (case find_first_not_of delimit str of
        None \<Rightarrow> []
      | Some begin_ \<Rightarrow>
          (case find_last_not_of delimit str of
             None \<Rightarrow> drop begin_ str
           | Some end_ \<Rightarrow> take (end_ - begin_ + 1) (drop begin_ str)))"

definition StringUtil_TrimLeft :: "string \<Rightarrow> string \<Rightarrow> string" where
  "StringUtil_TrimLeft str delimit =
     (case find_first_not_of delimit str of None \<Rightarrow> [] | Some begin_ \<Rightarrow> drop begin_ str)"

definition StringUtil_TrimRight :: "string \<Rightarrow> string \<Rightarrow> string" where
  "StringUtil_TrimRight str delimit =
     (case find_last_not_of delimit str of None \<Rightarrow> [] | Some end_ \<Rightarrow> take end_ str)"

section \<open>The host's address\<close>

text \<open>
  \<open>GetIPv4Inet\<close>: the loop ends at the first interface without an address, and the \<open>continue\<close> at its
  end has no effect, so the last matching interface wins.
\<close>

definition starts_with_lo :: "string \<Rightarrow> bool" where
  "starts_with_lo name = (ToLower (take 2 (c_str name)) = ''lo'')"

fun GetIPv4Inet_loop :: "ifaddrs list \<Rightarrow> u32 \<Rightarrow> u32" where
  "GetIPv4Inet_loop [] ipv4 = ipv4"
| "GetIPv4Inet_loop (ifa # rest) ipv4 =
     (case ifa_addr ifa of
        None \<Rightarrow> ipv4
      | Some m \<Rightarrow>
          (if mem_family m \<noteq> AF_INET then GetIPv4Inet_loop rest ipv4
           else if starts_with_lo (ifa_name ifa) then GetIPv4Inet_loop rest ipv4
           else GetIPv4Inet_loop rest (s_addr (sockaddr_in_of_bytes m))))"

definition GetIPv4Inet :: "ifaddrs list option \<Rightarrow> u32" where
  "GetIPv4Inet getifaddrs =
     (let localhost = 0x0100007F in
      case getifaddrs of None \<Rightarrow> localhost | Some ifas \<Rightarrow> GetIPv4Inet_loop ifas localhost)"

section \<open>Encoding and decoding character by character\<close>

definition current :: "string \<Rightarrow> string option \<Rightarrow> string" where
  "current str ss = (case ss of None \<Rightarrow> str | Some s \<Rightarrow> s)"

lemma current_simps [simp]:
  "current str None = str" "current str (Some s) = s"
  "current (str @ [c]) (append_ss ss [c]) = current str ss @ [c]"
  by (simp_all add: current_def append_ss_def split: option.splits)

definition url_encode_char :: "bool \<Rightarrow> char \<Rightarrow> string" where
  "url_encode_char sp c =
     (if CHAR_IS_UNRESERVED c then [c]
      else if c = CHR '' '' \<and> sp then ''+''
      else [CHR ''%'', hexdigits ! (of_char c div 16), hexdigits ! (of_char c mod 16)])"

fun url_decode_scan :: "bool \<Rightarrow> string \<Rightarrow> string" where
  "url_decode_scan sp [] = []"
| "url_decode_scan sp (c # rest) =
     (if c = CHR ''+'' \<and> sp then CHR '' '' # url_decode_scan sp rest
      else if c = CHR ''%'' \<and> length rest \<ge> 2 \<and> isxdigit (rest ! 0) \<and> isxdigit (rest ! 1) then
        char_of_byte (push_bit 4 (xdigit_chars ! of_char (rest ! 0)) OR
                      xdigit_chars ! of_char (rest ! 1)) # url_decode_scan sp (drop 2 rest)
      else c # url_decode_scan sp rest)"

lemma UrlEncode_loop_current:
  "current (str @ rest) (UrlEncode_loop sp str rest ss) =
     current str ss @ concat (map (url_encode_char sp) rest)"
proof (induction sp str rest ss rule: UrlEncode_loop.induct)
  case (2 sp str c rest ss)
  then show ?case
    by (cases "CHAR_IS_UNRESERVED c")
       (simp_all add: url_encode_char_def Let_def current_def [symmetric])
qed simp

lemma UrlEncode_chars: "StringUtil_UrlEncode s sp = concat (map (url_encode_char sp) s)"
  using UrlEncode_loop_current [of "[]" s sp None]
  by (simp add: StringUtil_UrlEncode_def current_def)

lemma UrlDecode_loop_current:
  "current (str @ rest) (UrlDecode_loop sp str rest ss) = current str ss @ url_decode_scan sp rest"
proof (induction sp str rest ss rule: UrlDecode_loop.induct)
  case (2 sp str c rest ss)
  consider "c = CHR ''+'' \<and> sp"
    | "\<not> (c = CHR ''+'' \<and> sp)" "c = CHR ''%'' \<and> length rest \<ge> 2 \<and> isxdigit (rest ! 0) \<and> isxdigit (rest ! 1)"
    | "\<not> (c = CHR ''+'' \<and> sp)" "\<not> (c = CHR ''%'' \<and> length rest \<ge> 2 \<and> isxdigit (rest ! 0) \<and> isxdigit (rest ! 1))"
    by blast
  then show ?case
  proof cases
    case 1
    then show ?thesis using "2.IH"(1) [OF 1] by (simp add: current_def [symmetric])
  next
    case 2
    let ?v = "char_of_byte (push_bit 4 (xdigit_chars ! of_char (rest ! 0)) OR
      xdigit_chars ! of_char (rest ! 1))"
    have "UrlDecode_loop sp str (c # rest) ss =
        UrlDecode_loop sp (str @ [c] @ take 2 rest) (drop 2 rest) (Some (current str ss @ [?v]))"
      and "url_decode_scan sp (c # rest) = ?v # url_decode_scan sp (drop 2 rest)"
      by (simp_all only: UrlDecode_loop.simps url_decode_scan.simps if_not_P [OF 2(1)] if_P [OF 2(2)]
          Let_def current_def)
    then show ?thesis using "2.IH"(2) [OF 2 refl] by (simp add: current_def [symmetric])
  next
    case 3
    have "UrlDecode_loop sp str (c # rest) ss = UrlDecode_loop sp (str @ [c]) rest (append_ss ss [c])"
      and "url_decode_scan sp (c # rest) = c # url_decode_scan sp rest"
      by (simp_all only: UrlDecode_loop.simps url_decode_scan.simps if_not_P [OF 3(1)] if_not_P [OF 3(2)])
    then show ?thesis using "2.IH"(3) [OF 3] by simp
  qed
qed simp

lemma UrlDecode_scan: "StringUtil_UrlDecode s sp = url_decode_scan sp s"
  using UrlDecode_loop_current [of "[]" s sp None]
  by (simp add: StringUtil_UrlDecode_def current_def)

lemma length_hexdigits: "length hexdigits = 16"
  by (simp add: hexdigits_def)

lemma hexdigit_facts:
  assumes "n < 16"
  shows "isxdigit (hexdigits ! n)" and "xdigit_chars ! of_char (hexdigits ! n) = of_nat n"
proof -
  have "map (\<lambda>c. (isxdigit c, xdigit_chars ! of_char c)) hexdigits = map (\<lambda>n. (True, of_nat n)) [0..<16]"
    by (simp add: hexdigits_def isxdigit_def xdigit_chars_def upt_rec nth_append)
  from arg_cong [OF this, of "\<lambda>xs. xs ! n"]
  show "isxdigit (hexdigits ! n)" "xdigit_chars ! of_char (hexdigits ! n) = of_nat n"
    using assms by (simp_all add: length_hexdigits)
qed

lemma special_not_unreserved: "\<not> CHAR_IS_UNRESERVED (CHR ''%'')" "\<not> CHAR_IS_UNRESERVED (CHR ''+'')"
  by (simp_all add: CHAR_IS_UNRESERVED_def uri_chars_def nth_append)

lemma url_decode_encoded: "url_decode_scan sp (url_encode_char sp c @ t) = c # url_decode_scan sp t"
proof (cases "CHAR_IS_UNRESERVED c \<or> c = CHR '' '' \<and> sp")
  case True
  show ?thesis
  proof (cases "CHAR_IS_UNRESERVED c")
    case u: True
    then have "c \<noteq> CHR ''%''" "c \<noteq> CHR ''+''" using special_not_unreserved by metis+
    then show ?thesis using u by (simp add: url_encode_char_def)
  next
    case False
    then show ?thesis using True by (simp add: url_encode_char_def)
  qed
next
  case False
  define b where "b = byte_of_char c"
  have n: "of_char c = unat b" and c: "c = char_of_byte b"
    by (simp_all add: b_def byte_of_char_def unat_of_nat take_bit_nat_eq_self char_of_byte_def)
  have hi: "unat b div 16 = unat (drop_bit 4 b)" by (simp add: unat_drop_bit)
  have lo: "unat b mod 16 = unat (take_bit 4 b)"
    by (simp only: unsigned_take_bit_eq) (simp add: take_bit_eq_mod)
  have "unat b < 256" using unsigned_less [of b] by simp
  then have lt: "unat (drop_bit 4 b) < 16" "unat (take_bit 4 b) < 16"
    unfolding hi [symmetric] lo [symmetric] by auto
  have "push_bit 4 (drop_bit 4 b) OR take_bit 4 b = b"
    by (rule bit_word_eqI) (auto simp: bit_simps)
  then have "char_of_byte (push_bit 4 (drop_bit 4 b) OR take_bit 4 b) = c" using c by simp
  then show ?thesis
    using False by (simp add: url_encode_char_def n hi lo hexdigit_facts lt)
qed

lemma url_round_trip: "StringUtil_UrlDecode (StringUtil_UrlEncode s sp) sp = s"
  unfolding UrlEncode_chars UrlDecode_scan by (induction s) (simp_all add: url_decode_encoded)

section \<open>What trimming keeps\<close>

lemma find_first_not_of_dropWhile:
  "(case find_first_not_of ds s of None \<Rightarrow> [] | Some i \<Rightarrow> drop i s) = dropWhile (\<lambda>c. c \<in> set ds) s"
  "find_first_not_of ds s = None \<longleftrightarrow> set s \<subseteq> set ds"
  "find_first_not_of ds s = Some i \<Longrightarrow> i < length s \<and> i = length (takeWhile (\<lambda>c. c \<in> set ds) s)"
  by (induction s arbitrary: i) (auto split: option.splits)

lemma TrimLeft_dropWhile: "StringUtil_TrimLeft s ds = dropWhile (\<lambda>c. c \<in> set ds) s"
  by (simp add: StringUtil_TrimLeft_def find_first_not_of_dropWhile)

text \<open>\<open>TrimRight\<close> also cuts the last character it should keep: \<open>end\<close> is a position, not a length.\<close>

lemma TrimRight_butlast:
  "StringUtil_TrimRight s ds = butlast (rev (dropWhile (\<lambda>c. c \<in> set ds) (rev s)))"
proof (cases "find_first_not_of ds (rev s)")
  case None
  then have e: "dropWhile (\<lambda>c. c \<in> set ds) (rev s) = []"
    using find_first_not_of_dropWhile(2) [of ds "rev s"] by (simp add: dropWhile_eq_Nil_conv subset_eq)
  show ?thesis by (simp only: StringUtil_TrimRight_def find_last_not_of_def None e) simp
next
  case (Some i)
  have i: "i < length s" using find_first_not_of_dropWhile(3) [OF Some] by simp
  have "dropWhile (\<lambda>c. c \<in> set ds) (rev s) = drop i (rev s)"
    using find_first_not_of_dropWhile(1) [where ds = ds and s = "rev s"] Some by simp
  then have "rev (dropWhile (\<lambda>c. c \<in> set ds) (rev s)) = take (length s - i) s"
    by (simp add: rev_drop)
  then show ?thesis
    using i by (simp add: StringUtil_TrimRight_def find_last_not_of_def Some butlast_take)
qed

text \<open>
  C20. URL encoding. For every string of bytes and either treatment of the space, decoding the encoded
  string gives the string back; encoding works character by character. \<open>TrimLeft\<close> removes the leading delimiters only, but
  \<open>TrimRight\<close> drops one character too many.
\<close>

theorem UrlEncode_UrlDecode:
  "StringUtil_UrlDecode (StringUtil_UrlEncode s sp) sp = s \<and>
   StringUtil_UrlEncode (s @ t) sp = StringUtil_UrlEncode s sp @ StringUtil_UrlEncode t sp \<and>
   StringUtil_TrimLeft s ds = dropWhile (\<lambda>c. c \<in> set ds) s \<and>
   StringUtil_TrimRight s ds = butlast (rev (dropWhile (\<lambda>c. c \<in> set ds) (rev s)))"
  by (simp add: url_round_trip TrimLeft_dropWhile TrimRight_butlast) (simp add: UrlEncode_chars)

end
