(* ===== verification/Hash_Util.thy ===== *)
theory Hash_Util
  imports Prelude "HOL-Library.Monad_Syntax"
begin

text \<open>
  \<^verbatim>\<open>sylar/util/hash_util.h\<close> and \<^verbatim>\<open>sylar/util/hash_util.cc\<close>: the MurmurHash3 and multiplicative
  hashes, base64, hexadecimal strings, HMAC over a digest that is an argument, and the string helpers
  \<open>replace\<close>, \<open>split\<close> and \<open>random_string\<close>. A pointer with a length is the list of the bytes it
  points at, a C string the characters before its terminating zero. Scanning loops that keep an index
  into a string are recursions on the part of the string from that index on.

  Shown here: base64 and hexadecimal round trips, \<open>split\<close> followed by joining is the identity, and
  when \<open>replace\<close> returns and what.
\<close>

unbundle bit_operations_syntax

section \<open>Hash functions\<close>

definition ROTL :: "u32 \<Rightarrow> nat \<Rightarrow> u32" where
  "ROTL x r = (push_bit r x OR drop_bit (32 - r) x)"

definition fmix32 :: "u32 \<Rightarrow> u32" where
  "fmix32 h =
     (let h = h XOR drop_bit 16 h;
          h = h * 0x85ebca6b;
          h = h XOR drop_bit 13 h;
          h = h * 0xc2b2ae35;
          h = h XOR drop_bit 16 h in
      h)"

definition murmur3_mix :: "u32 \<Rightarrow> u32" where
  "murmur3_mix s = ROTL (s * 0xcc9e2d51) 15 * 0x1b873593"

definition murmur3_block :: "u8 list \<Rightarrow> u32 \<Rightarrow> nat \<Rightarrow> u32" where
  "murmur3_block str h i =
     (let s = murmur3_mix (bytes_word (take 4 (drop (4 * i) str)));
          h = ROTL (h XOR s) 13 in
      h * 5 + 0xe6546b64)"

definition murmur3_tail :: "u8 list \<Rightarrow> nat \<Rightarrow> u32 \<Rightarrow> u32" where
  "murmur3_tail tail n h =
     (let s = 0;
          s = (if n = 3 then s OR push_bit 16 (ucast (tail ! 2)) else s);
          s = (if n = 3 \<or> n = 2 then s OR push_bit 8 (ucast (tail ! 1)) else s);
          s = (if n = 3 \<or> n = 2 \<or> n = 1 then s OR ucast (tail ! 0) else s) in
      if n = 0 then h else h XOR murmur3_mix s)"

text \<open>
  \<open>int len = size\<close>: from 2 GiB on \<open>len\<close> is negative, no block is read, and the tail, when there is
  one, is read in front of the buffer (\<^const>\<open>None\<close>).
\<close>

definition murmur3_hash_mem :: "u8 list option \<Rightarrow> u32 \<Rightarrow> u32 \<Rightarrow> u32 option" where
  "murmur3_hash_mem data sz seed =
     (case data of
        None \<Rightarrow> Some 0
      | Some str \<Rightarrow>
          (if sint sz < 0 then
             (if sz AND 3 = 0 then Some (fmix32 (seed XOR sz)) else None)
           else
             (let len = unat sz;
                  blk = len div 4;
                  h = foldl (murmur3_block str) seed [0..<blk];
                  h = murmur3_tail (drop (blk * 4) str) (len mod 4) h in
              Some (fmix32 (h XOR sz)))))"

definition murmur3_hash_str :: "string option \<Rightarrow> u32 \<Rightarrow> u32" where
  "murmur3_hash_str str seed =
     (case str of
        None \<Rightarrow> 0
      | Some str \<Rightarrow>
          (let bytes = bytes_of_string (c_str str);
               len = length bytes;
               blk = len div 4;
               h = foldl (murmur3_block bytes) seed [0..<blk];
               h = murmur3_tail (drop (blk * 4) bytes) (len mod 4) h in
           fmix32 (h XOR of_nat len)))"

text \<open>\<open>char\<close> is signed: \<open>31 * h + *str\<close> adds the sign-extended character.\<close>

fun quick_hash_loop :: "string \<Rightarrow> u32 \<Rightarrow> u32" where
  "quick_hash_loop [] h = h"
| "quick_hash_loop (c # str) h = quick_hash_loop str (31 * h + scast (byte_of_char c))"

definition quick_hash_str :: "string \<Rightarrow> u32" where
  "quick_hash_str str = quick_hash_loop (c_str str) 0"

fun quick_hash_mem_loop :: "u8 \<Rightarrow> nat \<Rightarrow> u32 \<Rightarrow> u32" where
  "quick_hash_mem_loop c 0 h = h"
| "quick_hash_mem_loop c (Suc n) h = quick_hash_mem_loop c n (31 * h + scast c)"

definition quick_hash_mem :: "u8 list \<Rightarrow> u32 \<Rightarrow> u32" where
  "quick_hash_mem tmp sz = quick_hash_mem_loop (tmp ! 0) (unat sz) 0"

definition murmur3_hash64_mem :: "u8 list option \<Rightarrow> u32 \<Rightarrow> u32 \<Rightarrow> u32 \<Rightarrow> u64 option" where
  "murmur3_hash64_mem str sz seed seed2 =
     do { a \<leftarrow> murmur3_hash_mem str sz seed;
          b \<leftarrow> murmur3_hash_mem str sz seed2;
          Some (push_bit 32 (ucast a) OR ucast b) }"

definition murmur3_hash64_str :: "string option \<Rightarrow> u32 \<Rightarrow> u32 \<Rightarrow> u64" where
  "murmur3_hash64_str str seed seed2 =
     (push_bit 32 (ucast (murmur3_hash_str str seed)) OR ucast (murmur3_hash_str str seed2))"

section \<open>Base64\<close>

definition base64 :: string where
  "base64 = ''ABCDEFGHIJKLMNOPQRSTUVWXYZabcdefghijklmnopqrstuvwxyz0123456789+/''"

fun encode_pack :: "u8 list \<Rightarrow> nat \<Rightarrow> u32 \<Rightarrow> u32 \<times> nat \<times> u8 list" where
  "encode_pack ptr i packed =
     (if i < 3 then
        (case ptr of
           [] \<Rightarrow> (packed, i, [])
         | b # rest \<Rightarrow> encode_pack rest (i + 1) (push_bit 8 packed OR ucast b))
      else (packed, i, ptr))"

declare encode_pack.simps [simp del]

definition encode_group :: "u32 \<Rightarrow> nat \<Rightarrow> string" where
  "encode_group packed i =
     (let padding = (if i = 2 then 1 else if i = 1 then 2 else 0 :: nat);
          packed = push_bit (8 * (3 - i)) packed in
      [base64 ! unat (drop_bit 18 packed), base64 ! unat (drop_bit 12 packed AND 0x3f)] @
      (if padding \<noteq> 2 then [base64 ! unat (drop_bit 6 packed AND 0x3f)] else []) @
      (if padding = 0 then [base64 ! unat (packed AND 0x3f)] else []) @
      replicate padding (CHR ''=''))"

lemma encode_pack_shorter:
  "encode_pack ptr i packed = (p, j, rest) \<Longrightarrow> i < 3 \<Longrightarrow> ptr \<noteq> [] \<Longrightarrow> length rest < length ptr"
  by (induction ptr i packed rule: encode_pack.induct)
     (auto simp: less_Suc_eq encode_pack.simps split: list.splits if_splits)

function (sequential) base64encode_loop :: "u8 list \<Rightarrow> string \<Rightarrow> string" where
  "base64encode_loop ptr ret =
     (if ptr = [] then ret
      else
        (case encode_pack ptr 0 0 of (packed, i, rest) \<Rightarrow>
           base64encode_loop rest (ret @ encode_group packed i)))"
  by pat_completeness auto
termination
  by (relation "measure (\<lambda>(ptr, ret). length ptr)") (auto dest: encode_pack_shorter [OF sym])

definition base64encode_mem :: "u8 list \<Rightarrow> string" where
  "base64encode_mem data = base64encode_loop data []"

definition base64encode :: "string \<Rightarrow> string" where
  "base64encode data = base64encode_mem (bytes_of_string data)"

definition base64_val :: "char \<Rightarrow> u32 option" where
  "base64_val c =
     (let n = of_char c :: nat in
      if 65 \<le> n \<and> n \<le> 90 then Some (of_nat (n - 65))
      else if 97 \<le> n \<and> n \<le> 122 then Some (of_nat (n - 97 + 26))
      else if 48 \<le> n \<and> n \<le> 57 then Some (of_nat (n - 48 + 52))
      else if c = CHR ''+'' then Some 62
      else if c = CHR ''/'' then Some 63
      else None)"

text \<open>The inner loop of \<open>base64decode\<close>; \<^const>\<open>None\<close> is its \<open>return ""\<close>.\<close>

fun decode_pack :: "string \<Rightarrow> nat \<Rightarrow> nat \<Rightarrow> u32 \<Rightarrow> (nat \<times> nat \<times> u32 \<times> string) option" where
  "decode_pack ptr i padding packed =
     (if i < 4 then
        (case ptr of
           [] \<Rightarrow> Some (i, padding, packed, [])
         | c # rest \<Rightarrow>
             (if c = CHR ''='' then decode_pack rest (i + 1) (padding + 1) (push_bit 6 packed)
              else if padding > 0 then None
              else
                (case base64_val c of
                   None \<Rightarrow> None
                 | Some v \<Rightarrow> decode_pack rest (i + 1) padding (push_bit 6 packed OR v))))
      else Some (i, padding, packed, ptr))"

definition decode_group :: "u32 \<Rightarrow> nat \<Rightarrow> u8 list" where
  "decode_group packed padding =
     [ucast (drop_bit 16 packed AND 0xff)] @
     (if padding \<noteq> 2 then [ucast (drop_bit 8 packed AND 0xff)] else []) @
     (if padding = 0 then [ucast (packed AND 0xff)] else [])"

declare decode_pack.simps [simp del]

lemma decode_pack_shorter:
  "decode_pack ptr i pd packed = Some (j, pd', p, rest) \<Longrightarrow> i < 4 \<Longrightarrow> ptr \<noteq> [] \<Longrightarrow>
     length rest < length ptr"
proof (induction ptr i pd packed rule: decode_pack.induct)
  case (1 ptr i pd packed)
  then obtain c cs where ptr: "ptr = c # cs" by (cases ptr) auto
  have base: "length rest \<le> length cs" if "decode_pack cs (Suc i) a b = Some (j, pd', p, rest)"
    and IH: "Suc i < 4 \<Longrightarrow> cs \<noteq> [] \<Longrightarrow> length rest < length cs" for a b
  proof (cases "Suc i < 4 \<and> cs \<noteq> []")
    case True
    then show ?thesis using IH by simp
  next
    case False
    then show ?thesis using that(1)
      by (subst (asm) decode_pack.simps) (auto split: list.splits if_splits)
  qed
  show ?case
    using 1 base unfolding ptr
    by (subst (asm) (3) decode_pack.simps)
       (auto split: if_splits option.splits simp: less_Suc_eq_le)
qed

function (sequential) base64decode_loop :: "string \<Rightarrow> u8 list \<Rightarrow> u8 list" where
  "base64decode_loop ptr result =
     (if ptr = [] then result
      else
        (case decode_pack ptr 0 0 0 of
           None \<Rightarrow> []
         | Some (i, padding, packed, rest) \<Rightarrow>
             (if i \<noteq> 4 then []
              else if padding > 0 \<and> rest \<noteq> [] then []
              else if padding > 2 then []
              else base64decode_loop rest (result @ decode_group packed padding))))"
  by pat_completeness auto
termination
  by (relation "measure (\<lambda>(ptr, result). length ptr)") (auto dest: decode_pack_shorter)

declare base64encode_loop.simps [simp del] base64decode_loop.simps [simp del]

definition base64decode :: "string \<Rightarrow> string" where
  "base64decode src = string_of_bytes (base64decode_loop src [])"

section \<open>Hexadecimal strings\<close>

datatype hash_error = Invalid_argument

fun hexstring_loop :: "u8 list \<Rightarrow> string" where
  "hexstring_loop [] = []"
| "hexstring_loop (b # buf) =
     digit_char (unat (drop_bit 4 b AND 0xf)) # digit_char (unat (b AND 0xf)) # hexstring_loop buf"

definition hexstring_from_data :: "u8 list \<Rightarrow> string" where
  "hexstring_from_data data = (if data = [] then [] else hexstring_loop data)"

definition hex_digit :: "char \<Rightarrow> u8 option" where
  "hex_digit c =
     (let n = of_char c :: nat in
      if 97 \<le> n \<and> n \<le> 102 then Some (of_nat (n - 97 + 10))
      else if 65 \<le> n \<and> n \<le> 70 then Some (of_nat (n - 65 + 10))
      else if 48 \<le> n \<and> n \<le> 57 then Some (of_nat (n - 48))
      else None)"

fun data_from_hexstring_loop :: "string \<Rightarrow> hash_error + u8 list" where
  "data_from_hexstring_loop (a # b # rest) =
     (case hex_digit a of
        None \<Rightarrow> Inl Invalid_argument
      | Some x \<Rightarrow>
          (case hex_digit b of
             None \<Rightarrow> Inl Invalid_argument
           | Some y \<Rightarrow>
               bindE (data_from_hexstring_loop rest) (\<lambda>out. Inr ((push_bit 4 x OR y) # out))))"
| "data_from_hexstring_loop _ = Inr []"

definition data_from_hexstring :: "string \<Rightarrow> hash_error + u8 list" where
  "data_from_hexstring hexstring =
     (if length hexstring mod 2 \<noteq> 0 then Inl Invalid_argument
      else if length hexstring = 0 then Inr []
      else data_from_hexstring_loop hexstring)"

section \<open>Digests\<close>

text \<open>
  The digest is OpenSSL's: \<open>Init\<close>, \<open>Update\<close> and \<open>Final\<close> are arguments over an abstract context.
  \<open>B - keyLocal.size()\<close> is unsigned, so a digest longer than its block would ask for a huge string;
  \<^const>\<open>usub64\<close> keeps that.
\<close>

definition md5sum :: "'c \<Rightarrow> ('c \<Rightarrow> u8 list \<Rightarrow> 'c) \<Rightarrow> ('c \<Rightarrow> u8 list) \<Rightarrow> u8 list \<Rightarrow> u8 list" where
  "md5sum MD5_Init MD5_Update MD5_Final data = MD5_Final (MD5_Update MD5_Init data)"

definition md5 :: "'c \<Rightarrow> ('c \<Rightarrow> u8 list \<Rightarrow> 'c) \<Rightarrow> ('c \<Rightarrow> u8 list) \<Rightarrow> u8 list \<Rightarrow> string" where
  "md5 MD5_Init MD5_Update MD5_Final data =
     hexstring_from_data (take 16 (md5sum MD5_Init MD5_Update MD5_Final data))"

definition sha0sum :: "'c \<Rightarrow> ('c \<Rightarrow> u8 list \<Rightarrow> 'c) \<Rightarrow> ('c \<Rightarrow> u8 list) \<Rightarrow> u8 list \<Rightarrow> u8 list" where
  "sha0sum SHA_Init SHA_Update SHA_Final data = SHA_Final (SHA_Update SHA_Init data)"

definition sha1sum :: "'c \<Rightarrow> ('c \<Rightarrow> u8 list \<Rightarrow> 'c) \<Rightarrow> ('c \<Rightarrow> u8 list) \<Rightarrow> u8 list \<Rightarrow> u8 list" where
  "sha1sum SHA1_Init SHA1_Update SHA1_Final data = SHA1_Final (SHA1_Update SHA1_Init data)"

definition sha1 :: "'c \<Rightarrow> ('c \<Rightarrow> u8 list \<Rightarrow> 'c) \<Rightarrow> ('c \<Rightarrow> u8 list) \<Rightarrow> u8 list \<Rightarrow> string" where
  "sha1 SHA1_Init SHA1_Update SHA1_Final data =
     hexstring_from_data (take 20 (sha1sum SHA1_Init SHA1_Update SHA1_Final data))"

definition xorStruct :: "u8 \<Rightarrow> u8 \<Rightarrow> u8" where
  "xorStruct m_value in_c = (in_c XOR m_value)"

definition hmac ::
    "'c \<Rightarrow> ('c \<Rightarrow> u8 list \<Rightarrow> 'c) \<Rightarrow> ('c \<Rightarrow> u8 list) \<Rightarrow> nat \<Rightarrow> u8 list \<Rightarrow> u8 list \<Rightarrow> u8 list" where
  "hmac Init Update Final B txt key =
     (let keyLocal = (if length key > B then Final (Update Init key) else key);
          keyLocal = keyLocal @ replicate (usub64 B (length keyLocal)) 0;
          ipad = map (xorStruct 0x36) keyLocal;
          opad = map (xorStruct 0x5c) keyLocal;
          result = Final (Update (Update Init (take B ipad)) txt) in
      Final (Update (Update Init (take B opad)) result))"

section \<open>String helpers\<close>

fun replace_cc :: "string \<Rightarrow> char \<Rightarrow> char \<Rightarrow> string" where
  "replace_cc str what replaceWith =
     (case memchr what str of
        None \<Rightarrow> str
      | Some index \<Rightarrow>
          (if index < length str
           then take index str @ [replaceWith] @ replace_cc (drop (index + 1) str) what replaceWith
           else str))"

fun replace_cs :: "string \<Rightarrow> char \<Rightarrow> string \<Rightarrow> string" where
  "replace_cs str what replaceWith =
     (case memchr what str of
        None \<Rightarrow> str
      | Some index \<Rightarrow>
          (if index < length str
           then take index str @ replaceWith @ replace_cs (drop (index + 1) str) what replaceWith
           else str))"

fun starts_with :: "string \<Rightarrow> string \<Rightarrow> bool" where
  "starts_with [] s = True"
| "starts_with (p # ps) (c # cs) = (p = c \<and> starts_with ps cs)"
| "starts_with (p # ps) [] = False"

fun find_sub :: "string \<Rightarrow> string \<Rightarrow> nat option" where
  "find_sub f s =
     (if starts_with f s then Some 0
      else (case s of [] \<Rightarrow> None | c # cs \<Rightarrow> map_option Suc (find_sub f cs)))"

declare replace_cc.simps [simp del] replace_cs.simps [simp del] find_sub.simps [simp del]

text \<open>
  \<open>replace\<close> on strings: \<open>pre\<close> is \<open>str.substr(0, index)\<close> with the replacements so far, \<open>rest\<close>
  what the next \<open>find\<close> searches. The loop need not end, so it is a partial function.
\<close>

partial_function (option) replace_loop ::
    "string \<Rightarrow> string \<Rightarrow> string \<Rightarrow> string \<Rightarrow> string option" where
  "replace_loop what replaceWith pre rest =
     (case find_sub what rest of
        None \<Rightarrow> Some (pre @ rest)
      | Some index \<Rightarrow>
          replace_loop what replaceWith (pre @ take index rest @ replaceWith)
            (drop (index + length what) rest))"

definition replace_ss :: "string \<Rightarrow> string \<Rightarrow> string \<Rightarrow> string option" where
  "replace_ss str what replaceWith = replace_loop what replaceWith [] str"

text \<open>\<open>split\<close> with one delimiter and with a set of them; \<open>max\<close> counts down and wraps.\<close>

function (sequential) split_loop :: "(char \<Rightarrow> bool) \<Rightarrow> string \<Rightarrow> u64 \<Rightarrow> string list" where
  "split_loop delim str mx =
     (let piece = takeWhile (\<lambda>c. \<not> delim c) str; more = dropWhile (\<lambda>c. \<not> delim c) str in
      if more = [] then [str]
      else if mx - 1 = 1 then [piece, tl more]
      else piece # split_loop delim (tl more) (mx - 1))"
  by pat_completeness auto
termination
proof (relation "measure (\<lambda>(delim, str, mx). length str)", goal_cases)
  case (2 delim str mx piece more)
  then have "0 < length more" by (simp only: length_greater_0_conv) simp
  moreover have "length more \<le> length str" using 2(2) by (simp only: length_dropWhile_le)
  ultimately show ?case by (cases more) simp_all
qed simp

declare split_loop.simps [simp del]

definition split_char :: "string \<Rightarrow> char \<Rightarrow> u64 \<Rightarrow> string list" where
  "split_char str delim mx = (if str = [] then [] else split_loop (\<lambda>c. c = delim) str mx)"

definition split_any :: "string \<Rightarrow> string \<Rightarrow> u64 \<Rightarrow> string list" where
  "split_any str delims mx = (if str = [] then [] else split_loop (\<lambda>c. c \<in> set delims) str mx)"

text \<open>\<open>rand i\<close> is what the \<open>i\<close>-th call of \<open>rand()\<close> returns.\<close>

definition random_string :: "(nat \<Rightarrow> nat) \<Rightarrow> nat \<Rightarrow> string \<Rightarrow> string" where
  "random_string rand len chars =
     (if len = 0 \<or> chars = [] then []
      else map (\<lambda>i. chars ! (rand i mod length chars)) [0..<len])"

section \<open>Base64 round trip\<close>

lemma base64_val_map: "map base64_val base64 = map (\<lambda>n. Some (of_nat n)) [0..<64]"
  by (simp add: base64_def base64_val_def upt_rec)

lemma length_base64: "length base64 = 64"
  by (simp add: base64_def)

lemma base64_val_nth: "n < 64 \<Longrightarrow> base64_val (base64 ! n) = Some (of_nat n)"
  using arg_cong [OF base64_val_map, of "\<lambda>xs. xs ! n"] by (simp add: length_base64)

lemma base64_nth_not_pad: "n < 64 \<Longrightarrow> base64 ! n \<noteq> CHR ''=''"
proof -
  have "CHR ''='' \<notin> set base64" by (simp add: base64_def)
  then show "n < 64 \<Longrightarrow> base64 ! n \<noteq> CHR ''=''" by (metis length_base64 nth_mem)
qed

lemma unat_and_3f: "unat (w AND 0x3f :: u32) < 64"
proof -
  have "w AND 0x3f \<le> 0x3f" by (rule word_and_le1)
  then show ?thesis by (simp add: word_le_nat_alt)
qed

lemmas base64_digit [simp] =
  base64_val_nth [OF unat_and_3f, simplified] base64_nth_not_pad [OF unat_and_3f]

lemma encode_pack_unfold:
  "encode_pack [a] 0 0 = (ucast a, 1, [])"
  "encode_pack [a, b] 0 0 = (push_bit 8 (ucast a) OR ucast b, 2, [])"
  "encode_pack (a # b # c # rest) 0 0 = (push_bit 8 (push_bit 8 (ucast a) OR ucast b) OR ucast c, 3, rest)"
  by (simp_all add: encode_pack.simps)

lemma three_bytes_cases:
  obtains "xs = []" | a where "xs = [a]" | a b where "xs = [a, b]" | a b c rest where "xs = a # b # c # rest"
  by (cases xs rule: remdups_adj.cases; metis neq_Nil_conv)

text \<open>The four sextets of a group carry its 24 bits.\<close>

lemma high_bits_clear:
  fixes p :: u32
  assumes "p < 2 ^ 24" and "24 \<le> n"
  shows "\<not> bit p n"
proof
  assume "bit p n"
  then have "odd (unat p div 2 ^ n)"
    by (metis bit_iff_odd bit_imp_le_length bit_unsigned_iff possible_bit_nat)
  moreover have "unat p < 2 ^ 24" using assms(1) by (simp add: word_less_nat_alt)
  then have "unat p < 2 ^ n"
    using assms(2) power_increasing [of 24 n "2 :: nat"] by simp
  ultimately show False by simp
qed

lemma sextet_mask: "(0x3f :: u32) = mask 6" "(0xff :: u32) = mask 8"
  by (simp_all add: mask_eq_exp_minus_1)

lemma sextet_top: "p < 2 ^ 24 \<Longrightarrow> drop_bit 18 p = (drop_bit 18 p AND 0x3f :: u32)"
  unfolding sextet_mask
proof (rule bit_word_eqI)
  fix n
  assume "p < 2 ^ 24"
  then show "bit (drop_bit 18 p) n = bit (drop_bit 18 p AND mask 6) n"
    using high_bits_clear [of p "18 + n"] by (cases "6 \<le> n") (auto simp: bit_simps)
qed

lemma sextets:
  fixes p :: u32
  assumes "p < 2 ^ 24"
  shows "push_bit 6 (push_bit 6 (push_bit 6 (drop_bit 18 p AND 0x3f) OR (drop_bit 12 p AND 0x3f)) OR
           (drop_bit 6 p AND 0x3f)) OR (p AND 0x3f) = p"
  unfolding sextet_mask
proof (rule bit_word_eqI)
  fix n
  assume "n < LENGTH(32)"
  consider "n < 6" | "6 \<le> n" "n < 12" | "12 \<le> n" "n < 18" | "18 \<le> n" "n < 24" | "24 \<le> n" by linarith
  then show "bit (push_bit 6 (push_bit 6 (push_bit 6 (drop_bit 18 p AND mask 6) OR
      (drop_bit 12 p AND mask 6)) OR (drop_bit 6 p AND mask 6)) OR (p AND mask 6)) n = bit p n"
    using high_bits_clear [OF assms, of n] \<open>n < LENGTH(32)\<close>
    by cases (auto simp: bit_simps)
qed

lemma octets:
  fixes p :: u32
  assumes p: "p = push_bit 8 (push_bit 8 (ucast a) OR ucast b) OR ucast (c :: u8)"
  shows "ucast (drop_bit 16 p AND 0xff) = (a :: u8)" "ucast (drop_bit 8 p AND 0xff) = (b :: u8)"
    "ucast (p AND 0xff) = c" "p < 2 ^ 24"
proof -
  have z: "\<not> bit w n" if "8 \<le> n" for w :: u8 and n using that by (auto dest: bit_imp_le_length)
  show "ucast (drop_bit 16 p AND 0xff) = a" "ucast (drop_bit 8 p AND 0xff) = b" "ucast (p AND 0xff) = c"
    unfolding sextet_mask p by (rule bit_word_eqI; auto simp: bit_simps z)+
  have "take_bit 24 p = p" unfolding p by (rule bit_word_eqI) (auto simp: bit_simps z)
  then have "unat p = take_bit 24 (unat p)" by (metis unsigned_take_bit_eq)
  then have "unat p < 2 ^ 24" by (metis take_bit_nat_less_exp)
  then show "p < 2 ^ 24" by (simp add: word_less_nat_alt)
qed

lemma decode_pack_full:
  assumes p: "p < 2 ^ 24"
  shows "decode_pack (base64 ! unat (drop_bit 18 p) # base64 ! unat (drop_bit 12 p AND 0x3f) #
           base64 ! unat (drop_bit 6 p AND 0x3f) # base64 ! unat (p AND 0x3f) # rest) 0 0 0 =
         Some (4, 0, p, rest)"
  using sextets [OF p] by (subst sextet_top [OF p]) (simp add: decode_pack.simps)

lemma decode_pack_pad1:
  assumes p: "p < 2 ^ 24" and z: "p AND 0x3f = 0"
  shows "decode_pack [base64 ! unat (drop_bit 18 p), base64 ! unat (drop_bit 12 p AND 0x3f),
           base64 ! unat (drop_bit 6 p AND 0x3f), CHR ''=''] 0 0 0 = Some (4, 1, p, [])"
  using sextets [OF p] z by (subst sextet_top [OF p]) (simp add: decode_pack.simps)

lemma decode_pack_pad2:
  assumes p: "p < 2 ^ 24" and z: "p AND 0x3f = 0" "drop_bit 6 p AND 0x3f = 0"
  shows "decode_pack [base64 ! unat (drop_bit 18 p), base64 ! unat (drop_bit 12 p AND 0x3f),
           CHR ''='', CHR ''=''] 0 0 0 = Some (4, 2, p, [])"
  using sextets [OF p] z by (subst sextet_top [OF p]) (simp add: decode_pack.simps)

lemma pad_zero:
  fixes p :: u32
  shows "p = push_bit 8 q \<Longrightarrow> p AND 0x3f = 0"
    and "p = push_bit 8 (push_bit 8 q) \<Longrightarrow> drop_bit 6 p AND 0x3f = 0"
  unfolding sextet_mask by (rule bit_word_eqI; auto simp: bit_simps)+

lemma base64encode_loop_step:
  assumes "ptr \<noteq> []" and "encode_pack ptr 0 0 = (packed, i, rest)"
  shows "base64encode_loop ptr ret = base64encode_loop rest (ret @ encode_group packed i)"
  using assms by (subst base64encode_loop.simps) simp

lemma base64encode_loop_Nil [simp]: "base64encode_loop [] ret = ret"
  by (simp add: base64encode_loop.simps)

lemma base64encode_loop_acc: "base64encode_loop ptr ret = ret @ base64encode_loop ptr []"
proof (induction "length ptr" arbitrary: ptr ret rule: less_induct)
  case less
  obtain packed i rest where e: "encode_pack ptr 0 0 = (packed, i, rest)" by (cases "encode_pack ptr 0 0")
  show ?case
  proof (cases "ptr = []")
    case False
    then have "length rest < length ptr" using encode_pack_shorter [OF e] by simp
    then show ?thesis
      using less [of rest "ret @ encode_group packed i"] less [of rest "encode_group packed i"]
      by (simp add: base64encode_loop_step [OF False e])
  qed simp
qed

lemma base64encode_chunk:
  "base64encode_loop (a # b # c # rest) [] =
     encode_group (push_bit 8 (push_bit 8 (ucast a) OR ucast b) OR ucast c) 3 @ base64encode_loop rest []"
  by (subst base64encode_loop_step [OF _ encode_pack_unfold(3)]) (simp_all flip: base64encode_loop_acc)

lemma base64decode_loop_step:
  assumes "ptr \<noteq> []" and "decode_pack ptr 0 0 0 = Some (4, pd, packed, rest)" and "pd \<le> 2"
    and "pd = 0 \<or> rest = []"
  shows "base64decode_loop ptr res = base64decode_loop rest (res @ decode_group packed pd)"
  using assms by (subst base64decode_loop.simps) auto

lemma base64decode_loop_Nil [simp]: "base64decode_loop [] res = res"
  by (simp add: base64decode_loop.simps)

lemma replicate_2: "replicate 2 x = [x, x]"
  by (simp add: numeral_2_eq_2)

lemma base64_loop_round_trip:
  "base64decode_loop (base64encode_loop xs []) res = res @ xs"
proof (induction "length xs" arbitrary: xs res rule: less_induct)
  case less
  show ?case
  proof (cases xs rule: three_bytes_cases)
    case 1
    then show ?thesis by simp
  next
    case (2 a)
    define p :: u32 where "p = push_bit 8 (push_bit 8 (ucast a))"
    have q: "p = push_bit 8 (push_bit 8 (ucast a) OR ucast (0 :: u8)) OR ucast (0 :: u8)"
      by (simp add: p_def)
    have "encode_group (ucast a) 1 = [base64 ! unat (drop_bit 18 p),
        base64 ! unat (drop_bit 12 p AND 0x3f), CHR ''='', CHR ''='']"
      by (simp add: encode_group_def p_def Let_def replicate_2)
    then have e: "base64encode_loop xs [] = [base64 ! unat (drop_bit 18 p),
        base64 ! unat (drop_bit 12 p AND 0x3f), CHR ''='', CHR ''='']"
      unfolding 2 by (simp add: base64encode_loop_step [OF _ encode_pack_unfold(1)])
    have "decode_group p 2 = [a]" by (simp add: decode_group_def octets(1) [OF q])
    then show ?thesis
      unfolding e
      using base64decode_loop_step [OF _ decode_pack_pad2
        [OF octets(4) [OF q] pad_zero(1) [OF p_def] pad_zero(2) [OF p_def]], of res] by (simp add: 2)
  next
    case (3 a b)
    define p :: u32 where "p = push_bit 8 (push_bit 8 (ucast a) OR ucast b)"
    have q: "p = push_bit 8 (push_bit 8 (ucast a) OR ucast b) OR ucast (0 :: u8)"
      by (simp add: p_def)
    have "encode_group (push_bit 8 (ucast a) OR ucast b) 2 = [base64 ! unat (drop_bit 18 p),
        base64 ! unat (drop_bit 12 p AND 0x3f), base64 ! unat (drop_bit 6 p AND 0x3f), CHR ''='']"
      by (simp add: encode_group_def p_def Let_def replicate_2)
    then have e: "base64encode_loop xs [] = [base64 ! unat (drop_bit 18 p),
        base64 ! unat (drop_bit 12 p AND 0x3f), base64 ! unat (drop_bit 6 p AND 0x3f), CHR ''='']"
      unfolding 3 by (simp add: base64encode_loop_step [OF _ encode_pack_unfold(2)])
    have "decode_group p 1 = [a, b]" by (simp add: decode_group_def octets(1,2) [OF q])
    then show ?thesis
      unfolding e
      using base64decode_loop_step [OF _ decode_pack_pad1 [OF octets(4) [OF q] pad_zero(1) [OF p_def]], of res]
      by (simp add: 3)
  next
    case (4 a b c rest)
    define p :: u32 where q: "p = push_bit 8 (push_bit 8 (ucast a) OR ucast b) OR ucast c"
    have e: "base64encode_loop xs [] = base64 ! unat (drop_bit 18 p) #
        base64 ! unat (drop_bit 12 p AND 0x3f) # base64 ! unat (drop_bit 6 p AND 0x3f) #
        base64 ! unat (p AND 0x3f) # base64encode_loop rest []"
      unfolding 4 base64encode_chunk q [symmetric] by (simp add: encode_group_def)
    have "decode_group p 0 = [a, b, c]" by (simp add: decode_group_def octets [OF q])
    then show ?thesis
      unfolding e
      using base64decode_loop_step [OF _ decode_pack_full [OF octets(4) [OF q]], of _ res]
        less [of rest "res @ [a, b, c]"] by (simp add: 4)
  qed
qed

section \<open>Hexadecimal round trip\<close>

lemma hex_digit_char: "n < 16 \<Longrightarrow> hex_digit (digit_char n) = Some (of_nat n)"
proof -
  have "map (\<lambda>n. hex_digit (digit_char n)) [0..<16] = map (\<lambda>n. Some (of_nat n)) [0..<16]"
    by (simp add: hex_digit_def digit_char_def upt_rec of_char_of)
  then show "n < 16 \<Longrightarrow> hex_digit (digit_char n) = Some (of_nat n)"
    by (simp only: map_eq_conv set_upt) simp
qed

lemma nibbles:
  fixes b :: u8
  shows "unat (drop_bit 4 b AND 0xf) < 16" "unat (b AND 0xf) < 16"
    "push_bit 4 (drop_bit 4 b AND 0xf) OR (b AND 0xf) = b"
proof -
  have m: "(0xf :: u8) = mask 4" by (simp add: mask_eq_exp_minus_1)
  have "w AND 0xf \<le> 0xf" for w :: u8 by (rule word_and_le1)
  then show "unat (drop_bit 4 b AND 0xf) < 16" "unat (b AND 0xf) < 16"
    by (simp_all add: word_le_nat_alt less_Suc_eq_le [of _ 15, simplified])
  show "push_bit 4 (drop_bit 4 b AND 0xf) OR (b AND 0xf) = b"
    unfolding m by (rule bit_word_eqI) (auto simp: bit_simps)
qed

lemma hexstring_loop_round_trip: "data_from_hexstring_loop (hexstring_loop bs) = Inr bs"
  by (induction bs) (simp_all add: hex_digit_char nibbles(1,2) nibbles(3) [simplified])

lemma length_hexstring_loop: "length (hexstring_loop bs) = 2 * length bs"
  by (induction bs) simp_all

lemma data_from_hexstring_loop_length:
  "data_from_hexstring_loop s = Inr bs \<Longrightarrow> length bs = length s div 2"
  by (induction s arbitrary: bs rule: data_from_hexstring_loop.induct)
     (auto simp: bindE_eq_Inr split: option.splits)

section \<open>Splitting and replacing\<close>

fun join_char :: "char \<Rightarrow> string list \<Rightarrow> string" where
  "join_char d [] = []"
| "join_char d [p] = p"
| "join_char d (p # q # ps) = p @ [d] @ join_char d (q # ps)"

lemma split_loop_not_Nil [simp]: "split_loop delim str mx \<noteq> []"
  by (subst split_loop.simps) (simp add: Let_def)

lemma split_loop_join: "join_char d (split_loop (\<lambda>c. c = d) str mx) = str"
proof (induction "length str" arbitrary: str mx rule: less_induct)
  case less
  let ?m = "dropWhile (\<lambda>c. c \<noteq> d) str" and ?p = "takeWhile (\<lambda>c. c \<noteq> d) str"
  show ?case
  proof (cases "?m = []")
    case True
    then show ?thesis by (subst split_loop.simps) (simp add: Let_def)
  next
    case False
    then have hd: "?m = d # tl ?m" using hd_dropWhile [OF False] by (cases ?m) auto
    have str: "?p @ [d] @ tl ?m = str" using takeWhile_dropWhile_id [of "\<lambda>c. c \<noteq> d" str] hd by simp
    then have "length (tl ?m) < length str"
      by (metis append_Cons append_Nil length_append length_Cons less_add_Suc2 add_Suc_right)
    then have IH: "join_char d (split_loop (\<lambda>c. c = d) (tl ?m) (mx - 1)) = tl ?m" by (rule less)
    obtain q qs where qs: "split_loop (\<lambda>c. c = d) (tl ?m) (mx - 1) = q # qs"
      by (meson neq_Nil_conv split_loop_not_Nil)
    show ?thesis
      by (subst split_loop.simps) (use str IH False in \<open>simp add: Let_def qs\<close>)
  qed
qed

lemma split_loop_count:
  assumes "2 \<le> mx"
  shows "length (split_loop delim str mx) \<le> unat mx"
  using assms
proof (induction "length str" arbitrary: str mx rule: less_induct)
  case less
  let ?m = "dropWhile (\<lambda>c. \<not> delim c) str"
  have mx: "2 \<le> unat mx" using less.prems by (simp add: word_le_nat_alt)
  show ?case
  proof (cases "?m = [] \<or> mx - 1 = 1")
    case True
    then show ?thesis using mx by (subst split_loop.simps) (auto simp: Let_def)
  next
    case False
    then have "0 < length ?m" "length ?m \<le> length str" by (simp_all add: length_dropWhile_le)
    then have len: "length (tl ?m) < length str" by (cases ?m) simp_all
    have u: "unat (mx - 1) = unat mx - 1" using mx by (simp add: unat_sub_if')
    have "unat (mx - 1) \<noteq> 1" using False by (metis unat_1 word_unat_eq_iff)
    then have "2 \<le> mx - 1" using u mx by (simp add: word_le_nat_alt)
    then have "length (split_loop delim (tl ?m) (mx - 1)) \<le> unat (mx - 1)" using less.hyps [OF len] by simp
    then show ?thesis
      by (subst split_loop.simps) (use False u mx in \<open>simp add: Let_def\<close>)
  qed
qed

text \<open>The reference for \<open>replace\<close>: one left-to-right scan.\<close>

fun replace_scan :: "string \<Rightarrow> string \<Rightarrow> nat \<Rightarrow> string \<Rightarrow> string" where
  "replace_scan f r skip [] = []"
| "replace_scan f r (Suc skip) (c # cs) = replace_scan f r skip cs"
| "replace_scan f r 0 (c # cs) =
     (if starts_with f (c # cs) then r @ replace_scan f r (length f - 1) cs
      else c # replace_scan f r 0 cs)"

lemma replace_scan_skip: "replace_scan f r n s = replace_scan f r 0 (drop n s)"
  by (induction n arbitrary: s) (case_tac s; simp)+

lemma starts_with_length: "starts_with f s \<Longrightarrow> length f \<le> length s"
  by (induction f s rule: starts_with.induct) simp_all

lemma find_sub_unfold:
  "find_sub f [] = (if starts_with f [] then Some 0 else None)"
  "find_sub f (c # cs) = (if starts_with f (c # cs) then Some 0 else map_option Suc (find_sub f cs))"
  by (subst find_sub.simps; simp)+

lemma find_sub_scan:
  assumes "f \<noteq> []"
  shows "replace_scan f r 0 s =
           (case find_sub f s of
              None \<Rightarrow> s
            | Some i \<Rightarrow> take i s @ r @ replace_scan f r 0 (drop (i + length f) s))"
proof (induction s)
  case Nil
  then show ?case using assms by (cases f) (simp_all add: find_sub_unfold)
next
  case (Cons c cs)
  show ?case
  proof (cases "starts_with f (c # cs)")
    case True
    then show ?thesis using assms replace_scan_skip [of f r "length f - 1" cs]
      by (cases f) (simp_all add: find_sub_unfold)
  next
    case False
    then show ?thesis using Cons
      by (simp add: find_sub_unfold split: option.splits)
  qed
qed

lemma find_sub_bound: "find_sub f s = Some i \<Longrightarrow> i + length f \<le> length s"
proof (induction s arbitrary: i)
  case Nil
  then show ?case using starts_with_length [of f "[]"] by (simp add: find_sub_unfold split: if_splits)
next
  case (Cons c cs)
  then show ?case using starts_with_length [of f "c # cs"]
    by (auto simp: find_sub_unfold split: if_splits)
qed

lemma replace_loop_returns:
  assumes "f \<noteq> []"
  shows "replace_loop f r pre s = Some (pre @ replace_scan f r 0 s)"
proof (induction "length s" arbitrary: pre s rule: less_induct)
  case less
  show ?case
  proof (cases "find_sub f s")
    case None
    then show ?thesis
      using find_sub_scan [OF assms, of r s] by (subst replace_loop.simps) simp
  next
    case (Some i)
    then have "length (drop (i + length f) s) < length s"
      using find_sub_bound [OF Some] assms by (cases f) simp_all
    then show ?thesis
      using less Some find_sub_scan [OF assms, of r s] by (subst replace_loop.simps) simp
  qed
qed

lemma replace_loop_empty:
  assumes "replace_loop f r pre s = Some y"
  shows "f \<noteq> []"
proof (rule replace_loop.raw_induct [where P = "\<lambda>f _ _ _ _. f \<noteq> []", OF _ assms])
  fix loop :: "string \<Rightarrow> string \<Rightarrow> string \<Rightarrow> string \<Rightarrow> string option" and f r pre s y
  assume IH: "\<And>f r pre s y. loop f r pre s = Some y \<Longrightarrow> f \<noteq> []"
    and step: "(case find_sub f s of None \<Rightarrow> Some (pre @ s)
      | Some index \<Rightarrow> loop f r (pre @ take index s @ r) (drop (index + length f) s)) = Some y"
  have "find_sub [] s = Some 0" by (cases s) (simp_all add: find_sub_unfold)
  then show "f \<noteq> []" using IH [of f r] step by (cases "f = []") auto
qed

lemma memchr_None: "memchr c s = None \<longleftrightarrow> c \<notin> set s"
  by (induction s) auto

lemma memchr_Some:
  "memchr c s = Some i \<Longrightarrow> i < length s \<and> s = take i s @ c # drop (Suc i) s \<and> c \<notin> set (take i s)"
  by (induction s arbitrary: i) (auto split: if_splits)

lemma replace_cs_concat: "replace_cs s c r = concat (map (\<lambda>x. if x = c then r else [x]) s)"
proof (induction "length s" arbitrary: s rule: less_induct)
  case less
  have keep: "concat (map (\<lambda>x. if x = c then r else [x]) t) = t" if "c \<notin> set t" for t
    using that by (induction t) auto
  show ?case
  proof (cases "memchr c s")
    case None
    then have "c \<notin> set s" by (simp add: memchr_None)
    then show ?thesis by (subst replace_cs.simps) (simp add: None keep)
  next
    case (Some i)
    then obtain t u where s: "s = t @ c # u" "t = take i s" "u = drop (Suc i) s" "i < length s" "c \<notin> set t"
      using memchr_Some by blast
    then have "length u < length s" by simp
    then have "replace_cs u c r = concat (map (\<lambda>x. if x = c then r else [x]) u)" by (rule less)
    then have "concat (map (\<lambda>x. if x = c then r else [x]) s) = t @ r @ replace_cs u c r"
      by (subst s(1)) (simp add: keep s(5))
    moreover have "replace_cs s c r = t @ r @ replace_cs u c r"
      by (subst replace_cs.simps) (simp add: Some s(4) flip: s(2,3))
    ultimately show ?thesis by simp
  qed
qed

lemma replace_cc_cs: "replace_cc s c d = replace_cs s c [d]"
  by (induction s c d rule: replace_cc.induct)
     (subst replace_cc.simps, subst replace_cs.simps, auto split: option.splits)

section \<open>The properties\<close>

text \<open>The string hash agrees with the hash of its bytes.\<close>

lemma murmur3_hash_str_mem:
  assumes "length (c_str str) < 2 ^ 31"
  shows "murmur3_hash_mem (Some (bytes_of_string (c_str str))) (of_nat (length (c_str str))) seed =
           Some (murmur3_hash_str (Some str) seed)"
proof -
  let ?n = "length (c_str str)"
  have u: "unat (of_nat ?n :: u32) = ?n" using assms by (simp add: unat_of_nat take_bit_nat_eq_self)
  have "\<not> sint (of_nat ?n :: u32) < 0"
    using assms by (simp add: sint_uint uint_nat u signed_take_bit_int_eq_self)
  then show ?thesis
    unfolding murmur3_hash_mem_def murmur3_hash_str_def by (simp add: u Let_def)
qed

text \<open>
  RFC 2104: for a digest whose context absorbs the concatenation of what it is updated with, \<open>hmac\<close> is
  the nested digest of the padded key.
\<close>

lemma hmac_rfc2104:
  assumes absorb: "\<And>xs ys. Final (Update (Update Init xs) ys) = H (xs @ ys)"
    and one: "\<And>xs. Final (Update Init xs) = H xs"
    and len: "\<And>xs. length (H xs) \<le> B"
    and k0: "k0 = (if length key > B then H key else key)" and k: "k = k0 @ replicate (B - length k0) 0"
  shows "hmac Init Update Final B txt key =
           H (map (xorStruct 0x5c) k @ H (map (xorStruct 0x36) k @ txt)) \<and> length k = B"
proof -
  have "length k0 \<le> B" using len by (simp add: k0)
  then have "length k = B" "usub64 B (length k0) = B - length k0" by (simp_all add: k)
  then show ?thesis
    unfolding hmac_def one absorb k0 [symmetric] Let_def by (simp add: k [symmetric])
qed

text \<open>
  C18. Base64 and hexadecimal round trips: decoding an encoded string gives it back, for every string
  of bytes; a hexadecimal string of odd length is refused, and every accepted one decodes to half as
  many bytes.
\<close>

theorem base64_hex_round_trip:
  "base64decode (base64encode s) = s \<and>
   data_from_hexstring (hexstring_from_data bs) = Inr bs \<and>
   length (hexstring_from_data bs) = 2 * length bs \<and>
   (data_from_hexstring h = Inr out \<longrightarrow> length h = 2 * length out)"
proof (intro conjI impI)
  show "base64decode (base64encode s) = s"
    by (simp add: base64decode_def base64encode_def base64encode_mem_def base64_loop_round_trip)
  show "data_from_hexstring (hexstring_from_data bs) = Inr bs"
    by (cases bs) (simp_all add: data_from_hexstring_def hexstring_from_data_def length_hexstring_loop
        hexstring_loop_round_trip del: data_from_hexstring_loop.simps hexstring_loop.simps)
  show "length (hexstring_from_data bs) = 2 * length bs"
    by (simp add: hexstring_from_data_def length_hexstring_loop)
  show "length h = 2 * length out" if "data_from_hexstring h = Inr out"
    using that by (auto simp: data_from_hexstring_def dest: data_from_hexstring_loop_length split: if_splits)
qed

theorem base64_hex_round_trip_witness:
  "base64decode (base64encode ''Man'') = ''Man'' \<and> data_from_hexstring ''0aFf'' = Inr [0x0a, 0xff] \<and>
   length ''0aFf'' = 2 * length [0x0a, 0xff :: u8]"
proof -
  have "data_from_hexstring ''0aFf'' = Inr [0x0a, 0xff]"
    by (simp add: data_from_hexstring_def hex_digit_def)
  then show ?thesis using base64_hex_round_trip [of "''Man''" _ "''0aFf''" "[0x0a, 0xff]"] by simp
qed

text \<open>
  C19. \<open>replace\<close> and \<open>split\<close>. The loop of \<open>replace\<close> returns exactly when the searched string is not
  empty, and then with the result of one left-to-right scan; the two versions for a character replace
  every occurrence. Joining the pieces of \<open>split\<close> with the delimiter restores a non-empty string,
  whatever the limit, and a limit of at least two bounds the number of pieces.
\<close>

theorem replace_split_correct:
  assumes "str \<noteq> []" and "2 \<le> mx"
  shows "replace_ss str what r = (if what = [] then None else Some (replace_scan what r 0 str)) \<and>
         replace_cs str c r = concat (map (\<lambda>x. if x = c then r else [x]) str) \<and>
         replace_cc str c d = map (\<lambda>x. if x = c then d else x) str \<and>
         join_char c (split_char str c any) = str \<and>
         length (split_char str c mx) \<le> unat mx \<and> length (split_any str ds mx) \<le> unat mx"
proof (intro conjI)
  show "replace_ss str what r = (if what = [] then None else Some (replace_scan what r 0 str))"
    using replace_loop_empty [of what r "[]" str] replace_loop_returns [of what r "[]" str]
    by (cases "replace_loop what r [] str") (auto simp: replace_ss_def)
  show "replace_cs str c r = concat (map (\<lambda>x. if x = c then r else [x]) str)"
    by (rule replace_cs_concat)
  show "replace_cc str c d = map (\<lambda>x. if x = c then d else x) str"
    unfolding replace_cc_cs replace_cs_concat by (induction str) auto
qed (use assms in \<open>simp_all add: split_char_def split_any_def split_loop_join split_loop_count\<close>)

theorem replace_split_correct_witness:
  "replace_ss ''a::b'' ''::'' ''/'' = Some ''a/b'' \<and> replace_ss ''a::b'' [] ''/'' = None \<and>
   join_char (CHR '':'') (split_char ''a::b'' (CHR '':'') 0) = ''a::b''"
  using replace_split_correct [of "''a::b''" 2 "''::''" "''/''"]
    replace_split_correct [of "''a::b''" 2 "[]" "''/''" "CHR '':''" _ 0] by simp

end
