(* ===== verification/Http.thy ===== *)
theory Http
  imports String_Util Hash_Util Ordered_Map
begin

text \<open>
  \<^verbatim>\<open>sylar/http/http.h\<close> and \<^verbatim>\<open>sylar/http/http.cc\<close>: methods and status codes, the
  case-insensitive header map, \<open>HttpRequest\<close> with its lazily parsed query, body and cookie parameters,
  \<open>HttpResponse\<close>, and the text both print. Members are fields with the prefixes \<open>rq_\<close> and \<open>rs_\<close>.
  A status is the number the enumeration stands for, since the parsers cast arbitrary numbers to it;
  \<open>boost::lexical_cast\<close> and \<open>Time2Str\<close> are arguments.

  Shown here: headers behave as a case-insensitive map, method names round-trip, and a query built from
  encoded parameters gives every parameter back.
\<close>

section \<open>Methods and status codes\<close>

datatype HttpMethod =
    M_DELETE | M_GET | M_HEAD | M_POST | M_PUT | M_CONNECT
  | M_OPTIONS | M_TRACE | M_COPY | M_LOCK | M_MKCOL | M_MOVE
  | M_PROPFIND | M_PROPPATCH | M_SEARCH | M_UNLOCK | M_BIND | M_REBIND
  | M_UNBIND | M_ACL | M_REPORT | M_MKACTIVITY | M_CHECKOUT | M_MERGE
  | M_MSEARCH | M_NOTIFY | M_SUBSCRIBE | M_UNSUBSCRIBE | M_PATCH | M_PURGE
  | M_MKCALENDAR | M_LINK | M_UNLINK | M_SOURCE
  | INVALID_METHOD

definition HTTP_METHOD_MAP :: "(HttpMethod \<times> string) list" where
  "HTTP_METHOD_MAP =
     [(M_DELETE, ''DELETE''), (M_GET, ''GET''), (M_HEAD, ''HEAD''), (M_POST, ''POST''),
      (M_PUT, ''PUT''), (M_CONNECT, ''CONNECT''), (M_OPTIONS, ''OPTIONS''), (M_TRACE, ''TRACE''),
      (M_COPY, ''COPY''), (M_LOCK, ''LOCK''), (M_MKCOL, ''MKCOL''), (M_MOVE, ''MOVE''),
      (M_PROPFIND, ''PROPFIND''), (M_PROPPATCH, ''PROPPATCH''), (M_SEARCH, ''SEARCH''), (M_UNLOCK, ''UNLOCK''),
      (M_BIND, ''BIND''), (M_REBIND, ''REBIND''), (M_UNBIND, ''UNBIND''), (M_ACL, ''ACL''),
      (M_REPORT, ''REPORT''), (M_MKACTIVITY, ''MKACTIVITY''), (M_CHECKOUT, ''CHECKOUT''), (M_MERGE, ''MERGE''),
      (M_MSEARCH, ''M-SEARCH''), (M_NOTIFY, ''NOTIFY''), (M_SUBSCRIBE, ''SUBSCRIBE''), (M_UNSUBSCRIBE, ''UNSUBSCRIBE''),
      (M_PATCH, ''PATCH''), (M_PURGE, ''PURGE''), (M_MKCALENDAR, ''MKCALENDAR''), (M_LINK, ''LINK''),
      (M_UNLINK, ''UNLINK''), (M_SOURCE, ''SOURCE'')]"

type_synonym HttpStatus = int

definition HTTP_STATUS_MAP :: "(HttpStatus \<times> string) list" where
  "HTTP_STATUS_MAP =
     [(100, ''Continue''), (101, ''Switching Protocols''), (102, ''Processing''),
      (200, ''OK''), (201, ''Created''), (202, ''Accepted''),
      (203, ''Non-Authoritative Information''), (204, ''No Content''), (205, ''Reset Content''),
      (206, ''Partial Content''), (207, ''Multi-Status''), (208, ''Already Reported''),
      (226, ''IM Used''), (300, ''Multiple Choices''), (301, ''Moved Permanently''),
      (302, ''Found''), (303, ''See Other''), (304, ''Not Modified''),
      (305, ''Use Proxy''), (307, ''Temporary Redirect''), (308, ''Permanent Redirect''),
      (400, ''Bad Request''), (401, ''Unauthorized''), (402, ''Payment Required''),
      (403, ''Forbidden''), (404, ''Not Found''), (405, ''Method Not Allowed''),
      (406, ''Not Acceptable''), (407, ''Proxy Authentication Required''), (408, ''Request Timeout''),
      (409, ''Conflict''), (410, ''Gone''), (411, ''Length Required''),
      (412, ''Precondition Failed''), (413, ''Payload Too Large''), (414, ''URI Too Long''),
      (415, ''Unsupported Media Type''), (416, ''Range Not Satisfiable''), (417, ''Expectation Failed''),
      (421, ''Misdirected Request''), (422, ''Unprocessable Entity''), (423, ''Locked''),
      (424, ''Failed Dependency''), (426, ''Upgrade Required''), (428, ''Precondition Required''),
      (429, ''Too Many Requests''), (431, ''Request Header Fields Too Large''), (451, ''Unavailable For Legal Reasons''),
      (500, ''Internal Server Error''), (501, ''Not Implemented''), (502, ''Bad Gateway''),
      (503, ''Service Unavailable''), (504, ''Gateway Timeout''), (505, ''HTTP Version Not Supported''),
      (506, ''Variant Also Negotiates''), (507, ''Insufficient Storage''), (508, ''Loop Detected''),
      (510, ''Not Extended''), (511, ''Network Authentication Required'')]"

fun first_match :: "(string \<Rightarrow> bool) \<Rightarrow> (HttpMethod \<times> string) list \<Rightarrow> HttpMethod" where
  "first_match p [] = INVALID_METHOD"
| "first_match p ((m, s) # rest) = (if p s then m else first_match p rest)"

definition StringToHttpMethod :: "string \<Rightarrow> HttpMethod" where
  "StringToHttpMethod m = first_match (\<lambda>s. s = c_str m) HTTP_METHOD_MAP"

text \<open>\<open>strncmp(s, m, strlen(s)) == 0\<close>: the text at \<open>m\<close> begins with \<open>s\<close>.\<close>

definition CharsToHttpMethod :: "string \<Rightarrow> HttpMethod" where
  "CharsToHttpMethod m = first_match (\<lambda>s. starts_with s m) HTTP_METHOD_MAP"

definition HttpMethodToString :: "HttpMethod \<Rightarrow> string" where
  "HttpMethodToString m =
     (case map_of HTTP_METHOD_MAP m of None \<Rightarrow> ''<unknown>'' | Some s \<Rightarrow> s)"

definition HttpStatusToString :: "HttpStatus \<Rightarrow> string" where
  "HttpStatusToString s =
     (case map_of HTTP_STATUS_MAP s of None \<Rightarrow> ''<unknown>'' | Some t \<Rightarrow> t)"

section \<open>Case-insensitive maps\<close>

text \<open>\<open>strcasecmp\<close> compares the lower-case bytes up to the terminating zero.\<close>

definition fold_case :: "string \<Rightarrow> string" where
  "fold_case s = ToLower (c_str s)"

definition CaseInsensitiveLess :: "string \<Rightarrow> string \<Rightarrow> bool" where
  "CaseInsensitiveLess lhs rhs = string_less (fold_case lhs) (fold_case rhs)"

type_synonym MapType = "(string, string) omap"

definition checkGetAs ::
    "(string \<Rightarrow> 'a option) \<Rightarrow> MapType \<Rightarrow> string \<Rightarrow> 'a \<Rightarrow> bool \<times> 'a" where
  "checkGetAs lexical_cast m key def =
     (case omap_find CaseInsensitiveLess key m of
        None \<Rightarrow> (False, def)
      | Some s \<Rightarrow> (case lexical_cast s of Some v \<Rightarrow> (True, v) | None \<Rightarrow> (False, def)))"

definition getAs :: "(string \<Rightarrow> 'a option) \<Rightarrow> MapType \<Rightarrow> string \<Rightarrow> 'a \<Rightarrow> 'a" where
  "getAs lexical_cast m key def =
     (case omap_find CaseInsensitiveLess key m of
        None \<Rightarrow> def
      | Some s \<Rightarrow> (case lexical_cast s of Some v \<Rightarrow> v | None \<Rightarrow> def))"

section \<open>Requests\<close>

record HttpRequest =
  rq_method :: HttpMethod
  rq_version :: u8
  rq_close :: bool
  rq_websocket :: bool
  rq_parserParamFlag :: u8
  rq_path :: string
  rq_query :: string
  rq_fragment :: string
  rq_body :: string
  rq_headers :: MapType
  rq_params :: MapType
  rq_cookies :: MapType

record HttpResponse =
  rs_status :: HttpStatus
  rs_version :: u8
  rs_close :: bool
  rs_websocket :: bool
  rs_body :: string
  rs_reason :: string
  rs_headers :: MapType
  rs_cookies :: "string list"

definition HttpRequest_new :: "u8 \<Rightarrow> bool \<Rightarrow> HttpRequest" where
  "HttpRequest_new version close =
     \<lparr>rq_method = M_GET, rq_version = version, rq_close = close, rq_websocket = False,
      rq_parserParamFlag = 0, rq_path = ''/'', rq_query = [], rq_fragment = [], rq_body = [],
      rq_headers = [], rq_params = [], rq_cookies = []\<rparr>"

definition HttpResponse_new :: "u8 \<Rightarrow> bool \<Rightarrow> HttpResponse" where
  "HttpResponse_new version close =
     \<lparr>rs_status = 200, rs_version = version, rs_close = close, rs_websocket = False,
      rs_body = [], rs_reason = [], rs_headers = [], rs_cookies = []\<rparr>"

definition HttpRequest_createResponse :: "HttpRequest \<Rightarrow> HttpResponse" where
  "HttpRequest_createResponse rq = HttpResponse_new (rq_version rq) (rq_close rq)"

definition find_or :: "MapType \<Rightarrow> string \<Rightarrow> string \<Rightarrow> string" where
  "find_or m key def = (case omap_find CaseInsensitiveLess key m of None \<Rightarrow> def | Some v \<Rightarrow> v)"

definition HttpRequest_getHeader :: "HttpRequest \<Rightarrow> string \<Rightarrow> string \<Rightarrow> string" where
  "HttpRequest_getHeader rq key def = find_or (rq_headers rq) key def"

text \<open>
  \<open>PARSE_PARAM(str, m, flag, trim)\<close>: \<open>str\<close> here is the text from \<open>last\<close> on. A key is everything up to
  the next \<open>=\<close>, its value everything up to the next \<open>flag\<close>, decoded; the first value of a key wins.
\<close>

function (sequential) PARSE_PARAM ::
    "string \<Rightarrow> MapType \<Rightarrow> char \<Rightarrow> (string \<Rightarrow> string) \<Rightarrow> MapType" where
  "PARSE_PARAM str m flag trim =
     (case memchr (CHR ''='') str of
        None \<Rightarrow> m
      | Some key \<Rightarrow>
          (case memchr flag (drop key str) of
             None \<Rightarrow>
               omap_insert CaseInsensitiveLess (trim (take key str))
                 (StringUtil_UrlDecode (drop (key + 1) str) True) m
           | Some d \<Rightarrow>
               (if str = [] then m
                else PARSE_PARAM (drop (key + d + 1) str)
                       (omap_insert CaseInsensitiveLess (trim (take key str))
                          (StringUtil_UrlDecode (take (d - 1) (drop (key + 1) str)) True) m)
                       flag trim)))"
  by pat_completeness auto
termination
  by (relation "measure (\<lambda>(str, m, flag, trim). length str)") auto

declare PARSE_PARAM.simps [simp del]

definition HttpRequest_initQueryParam :: "HttpRequest \<Rightarrow> HttpRequest" where
  "HttpRequest_initQueryParam rq =
     (if rq_parserParamFlag rq AND 1 \<noteq> 0 then rq
      else rq\<lparr>rq_params := PARSE_PARAM (rq_query rq) (rq_params rq) (CHR ''&'') (\<lambda>s. s),
              rq_parserParamFlag := rq_parserParamFlag rq OR 1\<rparr>)"

text \<open>\<open>strcasestr\<close> searches the text up to its terminating zero.\<close>

definition HttpRequest_initBodyParam :: "HttpRequest \<Rightarrow> HttpRequest" where
  "HttpRequest_initBodyParam rq =
     (if rq_parserParamFlag rq AND 2 \<noteq> 0 then rq
      else
        (let content_type = HttpRequest_getHeader rq ''content-type'' [] in
         if find_sub ''application/x-www-form-urlencoded'' (fold_case content_type) = None
         then rq\<lparr>rq_parserParamFlag := rq_parserParamFlag rq OR 2\<rparr>
         else rq\<lparr>rq_params := PARSE_PARAM (rq_body rq) (rq_params rq) (CHR ''&'') (\<lambda>s. s),
                 rq_parserParamFlag := rq_parserParamFlag rq OR 2\<rparr>))"

definition default_delimit :: string where
  "default_delimit = [CHR '' '', CHR 0x09, CHR 0x0D, CHR 0x0A]"

definition HttpRequest_initCookies :: "HttpRequest \<Rightarrow> HttpRequest" where
  "HttpRequest_initCookies rq =
     (if rq_parserParamFlag rq AND 4 \<noteq> 0 then rq
      else
        (let cookie = HttpRequest_getHeader rq ''cookie'' [] in
         if cookie = [] then rq\<lparr>rq_parserParamFlag := rq_parserParamFlag rq OR 4\<rparr>
         else rq\<lparr>rq_cookies := PARSE_PARAM cookie (rq_cookies rq) (CHR '';'')
                                 (\<lambda>s. StringUtil_Trim s default_delimit),
                 rq_parserParamFlag := rq_parserParamFlag rq OR 4\<rparr>))"

definition HttpRequest_initParam :: "HttpRequest \<Rightarrow> HttpRequest" where
  "HttpRequest_initParam rq =
     HttpRequest_initCookies (HttpRequest_initBodyParam (HttpRequest_initQueryParam rq))"

definition HttpRequest_getParam :: "HttpRequest \<Rightarrow> string \<Rightarrow> string \<Rightarrow> string \<times> HttpRequest" where
  "HttpRequest_getParam rq key def =
     (let rq = HttpRequest_initBodyParam (HttpRequest_initQueryParam rq) in
      (find_or (rq_params rq) key def, rq))"

definition HttpRequest_getCookie :: "HttpRequest \<Rightarrow> string \<Rightarrow> string \<Rightarrow> string \<times> HttpRequest" where
  "HttpRequest_getCookie rq key def =
     (let rq = HttpRequest_initCookies rq in (find_or (rq_cookies rq) key def, rq))"

definition HttpRequest_setHeader :: "HttpRequest \<Rightarrow> string \<Rightarrow> string \<Rightarrow> HttpRequest" where
  "HttpRequest_setHeader rq key val =
     rq\<lparr>rq_headers := omap_set CaseInsensitiveLess key val (rq_headers rq)\<rparr>"

definition HttpRequest_setParam :: "HttpRequest \<Rightarrow> string \<Rightarrow> string \<Rightarrow> HttpRequest" where
  "HttpRequest_setParam rq key val =
     rq\<lparr>rq_params := omap_set CaseInsensitiveLess key val (rq_params rq)\<rparr>"

definition HttpRequest_setCookie :: "HttpRequest \<Rightarrow> string \<Rightarrow> string \<Rightarrow> HttpRequest" where
  "HttpRequest_setCookie rq key val =
     rq\<lparr>rq_cookies := omap_set CaseInsensitiveLess key val (rq_cookies rq)\<rparr>"

definition HttpRequest_delHeader :: "HttpRequest \<Rightarrow> string \<Rightarrow> HttpRequest" where
  "HttpRequest_delHeader rq key = rq\<lparr>rq_headers := omap_erase CaseInsensitiveLess key (rq_headers rq)\<rparr>"

definition HttpRequest_delParam :: "HttpRequest \<Rightarrow> string \<Rightarrow> HttpRequest" where
  "HttpRequest_delParam rq key = rq\<lparr>rq_params := omap_erase CaseInsensitiveLess key (rq_params rq)\<rparr>"

definition HttpRequest_delCookie :: "HttpRequest \<Rightarrow> string \<Rightarrow> HttpRequest" where
  "HttpRequest_delCookie rq key = rq\<lparr>rq_cookies := omap_erase CaseInsensitiveLess key (rq_cookies rq)\<rparr>"

text \<open>The \<open>has\<close> operations: \<^const>\<open>None\<close> is \<open>false\<close>, \<^const>\<open>Some\<close> the value stored through \<open>val\<close>.\<close>

definition HttpRequest_hasHeader :: "HttpRequest \<Rightarrow> string \<Rightarrow> string option" where
  "HttpRequest_hasHeader rq key = omap_find CaseInsensitiveLess key (rq_headers rq)"

definition HttpRequest_hasParam :: "HttpRequest \<Rightarrow> string \<Rightarrow> string option \<times> HttpRequest" where
  "HttpRequest_hasParam rq key =
     (let rq = HttpRequest_initBodyParam (HttpRequest_initQueryParam rq) in
      (omap_find CaseInsensitiveLess key (rq_params rq), rq))"

definition HttpRequest_hasCookie :: "HttpRequest \<Rightarrow> string \<Rightarrow> string option \<times> HttpRequest" where
  "HttpRequest_hasCookie rq key =
     (let rq = HttpRequest_initCookies rq in
      (omap_find CaseInsensitiveLess key (rq_cookies rq), rq))"

definition HttpRequest_getParamAs ::
    "(string \<Rightarrow> 'a option) \<Rightarrow> HttpRequest \<Rightarrow> string \<Rightarrow> 'a \<Rightarrow> 'a \<times> HttpRequest" where
  "HttpRequest_getParamAs lexical_cast rq key def =
     (let rq = HttpRequest_initBodyParam (HttpRequest_initQueryParam rq) in
      (getAs lexical_cast (rq_params rq) key def, rq))"

definition HttpRequest_getCookieAs ::
    "(string \<Rightarrow> 'a option) \<Rightarrow> HttpRequest \<Rightarrow> string \<Rightarrow> 'a \<Rightarrow> 'a \<times> HttpRequest" where
  "HttpRequest_getCookieAs lexical_cast rq key def =
     (let rq = HttpRequest_initCookies rq in (getAs lexical_cast (rq_cookies rq) key def, rq))"

definition HttpRequest_init :: "HttpRequest \<Rightarrow> HttpRequest" where
  "HttpRequest_init rq =
     (let conn = HttpRequest_getHeader rq ''connection'' [] in
      if conn \<noteq> [] then
        (if fold_case conn = ''keep-alive'' then rq\<lparr>rq_close := False\<rparr> else rq\<lparr>rq_close := True\<rparr>)
      else rq)"

section \<open>Printing\<close>

definition CRLF :: string where
  "CRLF = [CHR 0x0D, CHR 0x0A]"

definition dump_headers :: "bool \<Rightarrow> MapType \<Rightarrow> string" where
  "dump_headers websocket headers =
     concat (map (\<lambda>(k, v).
       if \<not> websocket \<and> fold_case k = ''connection'' then []
       else k @ '': '' @ v @ CRLF) headers)"

definition dump_version :: "u8 \<Rightarrow> string" where
  "dump_version v = show_dec (unat (drop_bit 4 v)) @ ''.'' @ show_dec (unat (v AND 0x0F))"

definition dump_connection :: "bool \<Rightarrow> bool \<Rightarrow> string" where
  "dump_connection websocket close =
     (if \<not> websocket
      then ''connection: '' @ (if close then ''close'' else ''keep-alive'') @ CRLF else [])"

definition dump_body :: "string \<Rightarrow> string" where
  "dump_body body =
     (if body \<noteq> [] then ''content-length: '' @ show_dec (length body) @ CRLF @ CRLF @ body else CRLF)"

definition HttpRequest_dump :: "HttpRequest \<Rightarrow> string" where
  "HttpRequest_dump rq =
     HttpMethodToString (rq_method rq) @ '' '' @ rq_path rq @
     (if rq_query rq = [] then [] else ''?'') @ rq_query rq @
     (if rq_fragment rq = [] then [] else ''#'') @ rq_fragment rq @
     '' HTTP/'' @ dump_version (rq_version rq) @ CRLF @
     dump_connection (rq_websocket rq) (rq_close rq) @
     dump_headers (rq_websocket rq) (rq_headers rq) @
     dump_body (rq_body rq)"

section \<open>Responses\<close>

definition HttpResponse_getHeader :: "HttpResponse \<Rightarrow> string \<Rightarrow> string \<Rightarrow> string" where
  "HttpResponse_getHeader rs key def = find_or (rs_headers rs) key def"

definition HttpResponse_setHeader :: "HttpResponse \<Rightarrow> string \<Rightarrow> string \<Rightarrow> HttpResponse" where
  "HttpResponse_setHeader rs key val =
     rs\<lparr>rs_headers := omap_set CaseInsensitiveLess key val (rs_headers rs)\<rparr>"

definition HttpResponse_delHeader :: "HttpResponse \<Rightarrow> string \<Rightarrow> HttpResponse" where
  "HttpResponse_delHeader rs key = rs\<lparr>rs_headers := omap_erase CaseInsensitiveLess key (rs_headers rs)\<rparr>"

definition HttpResponse_setRedirect :: "HttpResponse \<Rightarrow> string \<Rightarrow> HttpResponse" where
  "HttpResponse_setRedirect rs uri = HttpResponse_setHeader (rs\<lparr>rs_status := 302\<rparr>) ''Location'' uri"

definition HttpResponse_setCookie ::
    "(int \<Rightarrow> string \<Rightarrow> string) \<Rightarrow> HttpResponse \<Rightarrow> string \<Rightarrow> string \<Rightarrow> int \<Rightarrow> string \<Rightarrow> string \<Rightarrow> bool \<Rightarrow>
     HttpResponse" where
  "HttpResponse_setCookie Time2Str rs key val expired path domain secure =
     rs\<lparr>rs_cookies := rs_cookies rs @
          [key @ ''='' @ val @
           (if expired > 0 then '';expires='' @ Time2Str expired ''%a, %d %b %Y %H:%M:%S'' @ '' GMT'' else []) @
           (if domain \<noteq> [] then '';domain='' @ domain else []) @
           (if path \<noteq> [] then '';path='' @ path else []) @
           (if secure then '';secure'' else [])]\<rparr>"

definition HttpResponse_dump :: "HttpResponse \<Rightarrow> string" where
  "HttpResponse_dump rs =
     ''HTTP/'' @ dump_version (rs_version rs) @ '' '' @ show_dec (nat (rs_status rs mod 2 ^ 32)) @ '' '' @
     (if rs_reason rs = [] then HttpStatusToString (rs_status rs) else rs_reason rs) @ CRLF @
     dump_headers (rs_websocket rs) (rs_headers rs) @
     concat (map (\<lambda>i. ''Set-Cookie: '' @ i @ CRLF) (rs_cookies rs)) @
     dump_connection (rs_websocket rs) (rs_close rs) @
     dump_body (rs_body rs)"

section \<open>The case-insensitive order\<close>

interpretation ci: map_order CaseInsensitiveLess
proof unfold_locales
  show "\<not> CaseInsensitiveLess a a" for a
    by (simp add: CaseInsensitiveLess_def string_less_irrefl)
  show "CaseInsensitiveLess a c" if "CaseInsensitiveLess a b" "CaseInsensitiveLess b c" for a b c
    using that unfolding CaseInsensitiveLess_def by (rule string_less_trans)
  show "\<not> CaseInsensitiveLess a c" if "\<not> CaseInsensitiveLess a b" "\<not> CaseInsensitiveLess b c" for a b c
    using that unfolding CaseInsensitiveLess_def by (rule sm.incomparable_trans)
qed

lemma ci_same [simp]: "ci.same a b \<longleftrightarrow> fold_case a = fold_case b"
  using string_same [of "fold_case a" "fold_case b"]
  unfolding ci.same_def sm.same_def CaseInsensitiveLess_def by simp

definition HttpRequest_ok :: "HttpRequest \<Rightarrow> bool" where
  "HttpRequest_ok rq =
     (omap_ok CaseInsensitiveLess (rq_headers rq) \<and> omap_ok CaseInsensitiveLess (rq_params rq) \<and>
      omap_ok CaseInsensitiveLess (rq_cookies rq))"

lemma find_or_set:
  "find_or (omap_set CaseInsensitiveLess k v m) k' def =
     (if fold_case k' = fold_case k then v else find_or m k' def)"
  by (simp add: find_or_def ci.omap_find_set)

lemma find_or_erase:
  "omap_ok CaseInsensitiveLess m \<Longrightarrow>
   find_or (omap_erase CaseInsensitiveLess k m) k' def =
     (if fold_case k' = fold_case k then def else find_or m k' def)"
  by (simp add: find_or_def ci.omap_find_erase)

section \<open>Parsing parameters\<close>

lemma memchr_append: "c \<notin> set xs \<Longrightarrow> memchr c (xs @ c # ys) = Some (length xs)"
  by (induction xs) auto

lemma memchr_absent: "c \<notin> set xs \<Longrightarrow> memchr c xs = None"
  by (simp add: memchr_None)

text \<open>A query with one parameter in front, and the last parameter.\<close>

lemma PARSE_PARAM_last:
  assumes "CHR ''='' \<notin> set k" and "flag \<notin> set e" and "flag \<noteq> CHR ''=''"
  shows "PARSE_PARAM (k @ CHR ''='' # e) m flag trim =
           omap_insert CaseInsensitiveLess (trim k) (StringUtil_UrlDecode e True) m"
  using assms by (subst PARSE_PARAM.simps) (simp add: memchr_append memchr_absent)

lemma PARSE_PARAM_more:
  assumes "CHR ''='' \<notin> set k" and "flag \<notin> set e" and "flag \<noteq> CHR ''=''"
  shows "PARSE_PARAM (k @ CHR ''='' # e @ flag # rest) m flag trim =
           PARSE_PARAM rest (omap_insert CaseInsensitiveLess (trim k) (StringUtil_UrlDecode e True) m)
             flag trim"
proof -
  have "memchr flag (CHR ''='' # e @ flag # rest) = Some (Suc (length e))"
    using memchr_append [of flag "CHR ''='' # e" rest] assms by simp
  then show ?thesis
    using assms(1) by (subst PARSE_PARAM.simps) (simp add: memchr_append)
qed

fun query_string :: "char \<Rightarrow> (string \<times> string) list \<Rightarrow> string" where
  "query_string flag [] = []"
| "query_string flag [(k, v)] = k @ ''='' @ StringUtil_UrlEncode v True"
| "query_string flag ((k, v) # kv # kvs) =
     k @ ''='' @ StringUtil_UrlEncode v True @ [flag] @ query_string flag (kv # kvs)"

lemma url_encode_char_set:
  "set (url_encode_char sp c) \<subseteq> {x. CHAR_IS_UNRESERVED x} \<union> set hexdigits \<union> {CHR ''+'', CHR ''%''}"
proof -
  have "of_char c div 16 < length hexdigits" "of_char c mod 16 < length hexdigits"
    by (simp_all add: length_hexdigits less_mult_imp_div_less)
  then show ?thesis by (auto simp: url_encode_char_def)
qed

lemma separators_not_unreserved: "\<not> CHAR_IS_UNRESERVED (CHR ''&'')" "\<not> CHAR_IS_UNRESERVED (CHR '';'')"
  by (simp_all add: CHAR_IS_UNRESERVED_def uri_chars_def nth_append)

lemma url_encoded_separators:
  "CHR ''&'' \<notin> set (StringUtil_UrlEncode v sp)" "CHR '';'' \<notin> set (StringUtil_UrlEncode v sp)"
proof -
  have "CHR ''&'' \<notin> set hexdigits" "CHR '';'' \<notin> set hexdigits" by (simp_all add: hexdigits_def)
  then have "CHR ''&'' \<notin> set (url_encode_char sp c)" "CHR '';'' \<notin> set (url_encode_char sp c)" for c
    using url_encode_char_set [of sp c] separators_not_unreserved by auto
  then show "CHR ''&'' \<notin> set (StringUtil_UrlEncode v sp)" "CHR '';'' \<notin> set (StringUtil_UrlEncode v sp)"
    by (simp_all add: UrlEncode_chars)
qed

lemma PARSE_PARAM_query_string:
  assumes "flag = CHR ''&'' \<or> flag = CHR '';''" and "\<forall>(k, v) \<in> set kvs. CHR ''='' \<notin> set k"
  shows "PARSE_PARAM (query_string flag kvs) m flag trim =
           foldl (\<lambda>m (k, v). omap_insert CaseInsensitiveLess (trim k) v m) m kvs"
  using assms
proof (induction flag kvs arbitrary: m rule: query_string.induct)
  case (1 flag)
  then show ?case by (simp add: PARSE_PARAM.simps)
next
  case (2 flag k v)
  have "flag \<notin> set (StringUtil_UrlEncode v True)" "flag \<noteq> CHR ''=''"
    using 2 url_encoded_separators by auto
  then show ?case
    using 2 PARSE_PARAM_last [of k flag "StringUtil_UrlEncode v True"] by (simp add: url_round_trip)
next
  case (3 flag k v kv kvs)
  have "flag \<notin> set (StringUtil_UrlEncode v True)" "flag \<noteq> CHR ''=''"
    using 3 url_encoded_separators by auto
  then show ?case
    using 3 PARSE_PARAM_more [of k flag "StringUtil_UrlEncode v True"] by (simp add: url_round_trip)
qed

lemma omap_find_inserts:
  fixes f :: "string \<Rightarrow> string" and kvs :: "(string \<times> string) list"
  assumes "omap_ok CaseInsensitiveLess m" and "distinct (map (\<lambda>(k, v). fold_case (f k)) kvs)"
    and "(k, v) \<in> set kvs" and "omap_find CaseInsensitiveLess (f k) m = None"
  shows "omap_find CaseInsensitiveLess (f k)
           (foldl (\<lambda>m (k, v). omap_insert CaseInsensitiveLess (f k) v m) m kvs) = Some v"
proof -
  have keep: "omap_find CaseInsensitiveLess key m = Some w \<Longrightarrow> omap_ok CaseInsensitiveLess m \<Longrightarrow>
      omap_find CaseInsensitiveLess key
        (foldl (\<lambda>m (k, v). omap_insert CaseInsensitiveLess (f k) v m) m kvs) = Some w"
    for key w m and kvs :: "(string \<times> string) list"
    by (induction kvs arbitrary: m) (auto simp: ci.omap_find_insert ci.omap_ok_insert)
  show ?thesis
    using assms
  proof (induction kvs arbitrary: m)
    case (Cons e kvs)
    obtain a b where e: "e = (a, b)" by (cases e)
    let ?m = "omap_insert CaseInsensitiveLess (f a) b m"
    have ok: "omap_ok CaseInsensitiveLess ?m" using Cons.prems(1) by (rule ci.omap_ok_insert)
    show ?case
    proof (cases "(k, v) = e")
      case True
      then have "omap_find CaseInsensitiveLess (f k) ?m = Some v"
        using Cons.prems by (simp add: e ci.omap_find_insert)
      then show ?thesis using keep ok by (simp add: e)
    next
      case False
      then have kv: "(k, v) \<in> set kvs" using Cons.prems by simp
      then have "fold_case (f k) \<noteq> fold_case (f a)" using Cons.prems(2) by (force simp: e)
      then have "omap_find CaseInsensitiveLess (f k) ?m = None"
        using Cons.prems by (simp add: ci.omap_find_insert)
      then show ?thesis using Cons.IH [OF ok _ kv] Cons.prems(2) by (simp add: e)
    qed
  qed simp
qed

lemma PARSE_PARAM_ok: "omap_ok CaseInsensitiveLess m \<Longrightarrow> omap_ok CaseInsensitiveLess (PARSE_PARAM str m flag trim)"
proof (induction str m flag trim rule: PARSE_PARAM.induct)
  case (1 str m flag trim)
  then show ?case
    by (subst PARSE_PARAM.simps) (auto simp: ci.omap_ok_insert split: option.splits)
qed

lemma HttpRequest_ok_init:
  assumes "HttpRequest_ok rq"
  shows "HttpRequest_ok (HttpRequest_initQueryParam rq)" "HttpRequest_ok (HttpRequest_initBodyParam rq)"
    "HttpRequest_ok (HttpRequest_initCookies rq)"
  using assms by (simp_all add: HttpRequest_ok_def HttpRequest_initQueryParam_def
      HttpRequest_initBodyParam_def HttpRequest_initCookies_def PARSE_PARAM_ok Let_def)

lemma HttpRequest_ok_initParam: "HttpRequest_ok rq \<Longrightarrow> HttpRequest_ok (HttpRequest_initParam rq)"
  by (simp add: HttpRequest_initParam_def HttpRequest_ok_init)

section \<open>The properties\<close>

text \<open>
  Headers are a case-insensitive map. In a request whose maps are ordered, a header that was set is
  found under every spelling of its name and the others are unchanged, a deleted header is found under
  none, the same for a response, and every operation on a request keeps its maps ordered.
\<close>

theorem HttpRequest_headers_case_insensitive:
  assumes "HttpRequest_ok rq" and "omap_ok CaseInsensitiveLess (rs_headers rs)"
  shows "HttpRequest_getHeader (HttpRequest_setHeader rq k v) k' def =
           (if fold_case k' = fold_case k then v else HttpRequest_getHeader rq k' def) \<and>
         HttpRequest_getHeader (HttpRequest_delHeader rq k) k' def =
           (if fold_case k' = fold_case k then def else HttpRequest_getHeader rq k' def) \<and>
         HttpResponse_getHeader (HttpResponse_setHeader rs k v) k' def =
           (if fold_case k' = fold_case k then v else HttpResponse_getHeader rs k' def) \<and>
         HttpResponse_getHeader (HttpResponse_delHeader rs k) k' def =
           (if fold_case k' = fold_case k then def else HttpResponse_getHeader rs k' def) \<and>
         HttpRequest_ok (HttpRequest_setHeader rq k v) \<and> HttpRequest_ok (HttpRequest_delHeader rq k) \<and>
         HttpRequest_ok (HttpRequest_initParam rq)"
  using assms HttpRequest_ok_initParam
  by (simp add: HttpRequest_ok_def HttpRequest_getHeader_def HttpRequest_setHeader_def
      HttpRequest_delHeader_def HttpResponse_getHeader_def HttpResponse_setHeader_def
      HttpResponse_delHeader_def find_or_set find_or_erase ci.omap_ok_set ci.omap_ok_erase)

theorem HttpRequest_headers_case_insensitive_witness:
  "HttpRequest_getHeader (HttpRequest_setHeader (HttpRequest_new 0x11 True) ''Host'' ''a'') ''HOST'' [] = ''a''"
proof -
  have "HttpRequest_ok (HttpRequest_new 0x11 True)"
    by (simp add: HttpRequest_ok_def HttpRequest_new_def)
  moreover have "omap_ok CaseInsensitiveLess (rs_headers (HttpResponse_new 0x11 True))"
    by (simp add: HttpResponse_new_def)
  moreover have "fold_case ''HOST'' = fold_case ''Host''"
    by (simp add: fold_case_def c_str_def ToLower_def tolower_def char_of_eq_iff)
  ultimately show ?thesis
    using HttpRequest_headers_case_insensitive
      [of "HttpRequest_new 0x11 True" "HttpResponse_new 0x11 True" "''Host''" "''a''" "''HOST''" "[]"] by simp
qed

lemma initBodyParam_keeps:
  assumes "omap_find CaseInsensitiveLess k (rq_params rq) = Some v"
    and "omap_ok CaseInsensitiveLess (rq_params rq)"
  shows "omap_find CaseInsensitiveLess k (rq_params (HttpRequest_initBodyParam rq)) = Some v"
proof -
  have "omap_find CaseInsensitiveLess k (PARSE_PARAM str m flag trim) = Some v"
    if "omap_find CaseInsensitiveLess k m = Some v" "omap_ok CaseInsensitiveLess m" for str m flag trim
    using that
  proof (induction str m flag trim rule: PARSE_PARAM.induct)
    case (1 str m flag trim)
    then show ?case
      by (subst PARSE_PARAM.simps)
         (auto simp: ci.omap_find_insert ci.omap_ok_insert split: option.splits)
  qed
  then show ?thesis using assms by (simp add: HttpRequest_initBodyParam_def Let_def)
qed

text \<open>
  C21. Parameters survive the query. A request whose query lists parameters \<open>key=value\<close> with encoded
  values, keys without \<open>=\<close> and pairwise different up to case, answers \<open>getParam\<close> for every key with its
  value, whatever the body holds; asking again gives the same answer.
\<close>

theorem HttpRequest_getParam_query:
  assumes "\<forall>(k, v) \<in> set kvs. CHR ''='' \<notin> set k"
    and "distinct (map (\<lambda>(k, v). fold_case k) kvs)" and "(k, v) \<in> set kvs"
    and "rq_query rq = query_string (CHR ''&'') kvs" and "rq_params rq = []"
    and "rq_parserParamFlag rq = 0"
  shows "fst (HttpRequest_getParam rq k def) = v \<and>
         fst (HttpRequest_getParam (snd (HttpRequest_getParam rq k def)) k def) = v"
proof -
  let ?q = "HttpRequest_initQueryParam rq"
  have q: "rq_params ?q = foldl (\<lambda>m (k, v). omap_insert CaseInsensitiveLess k v m) [] kvs"
    using assms(4-6) PARSE_PARAM_query_string [of "CHR ''&''" kvs "[]" "\<lambda>s. s"] assms(1)
    by (simp add: HttpRequest_initQueryParam_def)
  have "omap_ok CaseInsensitiveLess (foldl (\<lambda>m (k, v). omap_insert CaseInsensitiveLess k v m) m kvs)"
    if "omap_ok CaseInsensitiveLess m" for m :: MapType using that
    by (induction kvs arbitrary: m) (auto simp: ci.omap_ok_insert)
  then have ok: "omap_ok CaseInsensitiveLess (rq_params ?q)" by (simp add: q)
  have "omap_find CaseInsensitiveLess k (rq_params ?q) = Some v"
    unfolding q using omap_find_inserts [of "[]" "\<lambda>s. s" kvs k v] assms(2,3) by simp
  then have b: "omap_find CaseInsensitiveLess k (rq_params (HttpRequest_initBodyParam ?q)) = Some v"
    using ok by (rule initBodyParam_keeps)
  have "rq_parserParamFlag ?q = 1" using assms(6) by (simp add: HttpRequest_initQueryParam_def)
  then have "rq_parserParamFlag (HttpRequest_initBodyParam ?q) = 3"
    by (simp add: HttpRequest_initBodyParam_def Let_def)
  then have "HttpRequest_initQueryParam (HttpRequest_initBodyParam ?q) = HttpRequest_initBodyParam ?q"
    "HttpRequest_initBodyParam (HttpRequest_initBodyParam ?q) = HttpRequest_initBodyParam ?q"
    by (simp_all add: HttpRequest_initQueryParam_def
        HttpRequest_initBodyParam_def [of "HttpRequest_initBodyParam _"])
  then show ?thesis using b by (simp add: HttpRequest_getParam_def find_or_def Let_def)
qed

theorem HttpRequest_getParam_query_witness:
  "fst (HttpRequest_getParam ((HttpRequest_new 0x11 True)\<lparr>rq_query :=
     query_string (CHR ''&'') [(''a'', ''1&2''), (''b'', [])]\<rparr>) ''a'' []) = ''1&2''"
  using HttpRequest_getParam_query [of "[(''a'', ''1&2''), (''b'', [])]" "''a''" "''1&2''"
      "(HttpRequest_new 0x11 True)\<lparr>rq_query :=
         query_string (CHR ''&'') [(''a'', ''1&2''), (''b'', [])]\<rparr>" "[]"]
  by (simp add: HttpRequest_new_def fold_case_def c_str_def ToLower_def tolower_def
      del: query_string.simps)

lemma CharsToHttpMethod_name: "m \<noteq> INVALID_METHOD \<Longrightarrow> CharsToHttpMethod (HttpMethodToString m @ t) = m"
  by (cases m) (simp_all add: CharsToHttpMethod_def HttpMethodToString_def HTTP_METHOD_MAP_def)

lemma first_match_sound:
  "(first_match (\<lambda>x. x = s) tab, s) \<in> set tab \<or> first_match (\<lambda>x. x = s) tab = INVALID_METHOD"
  by (induction tab) (auto split: if_splits)

text \<open>
  Method names. Every method's name is turned back into the method, by \<open>StringToHttpMethod\<close> from
  the exact name and by \<open>CharsToHttpMethod\<close> from any text that begins with it, so that the latter also
  accepts longer words; \<open>StringToHttpMethod\<close> accepts nothing but the names.
\<close>

theorem HttpMethod_names:
  assumes "m \<noteq> INVALID_METHOD"
  shows "StringToHttpMethod (HttpMethodToString m) = m \<and>
         CharsToHttpMethod (HttpMethodToString m @ t) = m \<and>
         (StringToHttpMethod s = m \<longrightarrow> c_str s = HttpMethodToString m)"
proof (intro conjI impI)
  show "StringToHttpMethod (HttpMethodToString m) = m"
    using assms by (cases m)
      (simp_all add: StringToHttpMethod_def HttpMethodToString_def HTTP_METHOD_MAP_def c_str_def)
  show "CharsToHttpMethod (HttpMethodToString m @ t) = m"
    using assms by (rule CharsToHttpMethod_name)
  assume "StringToHttpMethod s = m"
  then have "(m, c_str s) \<in> set HTTP_METHOD_MAP"
    using first_match_sound [of "c_str s" HTTP_METHOD_MAP] assms by (simp add: StringToHttpMethod_def)
  moreover have "distinct (map fst HTTP_METHOD_MAP)" by (simp add: HTTP_METHOD_MAP_def)
  ultimately show "c_str s = HttpMethodToString m"
    by (simp add: HttpMethodToString_def)
qed

theorem HttpMethod_names_witness:
  "CharsToHttpMethod ''GETTER'' = M_GET \<and> StringToHttpMethod ''GET'' = M_GET"
  using HttpMethod_names [of M_GET "''TER''" "''GET''"]
  by (simp add: HttpMethodToString_def HTTP_METHOD_MAP_def)

end
