(* ===== verification/Http_Parser.thy ===== *)
theory Http_Parser
  imports Http11_Tables Http
begin

text \<open>
  \<open>http_parser_init\<close>, \<open>http_parser_execute\<close> and \<open>http_parser_finish\<close> of
  \<open>src/sylar/http/http11_parser.cc\<close> and the class \<open>HttpRequestParser\<close> of \<open>src/sylar/http/http_parser.cc\<close>
  with its callbacks.

  The buffer is a string; pointers into it are positions. A callback receives the buffer, the position
  \<open>at\<close> and the length that the scanner computed, and may raise what \<open>std::string(at, length)\<close> raises when
  the length is not one of a piece of the buffer. \<open>void* data\<close> is a type parameter of the structure.
  The members that \<open>http_parser_init\<close> does not set, \<open>query_start\<close> and \<open>uri_relaxed\<close>, have whatever value
  the memory had: they are parameters of the constructor.
\<close>

section \<open>The structure and its callbacks\<close>

datatype parse_exc =
    Length_error      \<comment> \<open>\<open>std::length_error\<close>, thrown by \<open>std::string(at, length)\<close>\<close>
  | Out_of_bounds     \<comment> \<open>bytes behind the buffer are read\<close>
  | Assert_failed     \<comment> \<open>an \<open>assert\<close> of \<open>http_parser_execute\<close> aborts\<close>

type_synonym 'd element_cb = "'d \<Rightarrow> string \<Rightarrow> nat \<Rightarrow> nat \<Rightarrow> parse_exc + 'd"
type_synonym 'd field_cb = "'d \<Rightarrow> string \<Rightarrow> nat \<Rightarrow> nat \<Rightarrow> nat \<Rightarrow> nat \<Rightarrow> parse_exc + 'd"

record 'd http_parser =
  hp_cs :: int
  hp_body_start :: nat
  hp_content_len :: int
  hp_nread :: nat
  hp_mark :: nat
  hp_field_start :: nat
  hp_field_len :: nat
  hp_query_start :: nat
  hp_xml_sent :: bool
  hp_json_sent :: bool
  hp_data :: 'd
  hp_uri_relaxed :: bool
  hp_http_field :: "'d field_cb option"
  hp_request_method :: "'d element_cb option"
  hp_request_uri :: "'d element_cb option"
  hp_fragment :: "'d element_cb option"
  hp_request_path :: "'d element_cb option"
  hp_query_string :: "'d element_cb option"
  hp_http_version :: "'d element_cb option"
  hp_header_done :: "'d element_cb option"

definition http_parser_init :: "'d http_parser \<Rightarrow> 'd http_parser" where
  "http_parser_init parser =
     parser\<lparr>hp_cs := http_parser_start, hp_body_start := 0, hp_content_len := 0, hp_mark := 0,
            hp_nread := 0, hp_field_len := 0, hp_field_start := 0, hp_xml_sent := False, hp_json_sent := False\<rparr>"

text \<open>\<open>LEN(AT, FPC)\<close> is an unsigned difference of type \<open>size_t\<close>.\<close>

definition LEN :: "nat \<Rightarrow> nat \<Rightarrow> nat" where
  "LEN at p = nat ((int p - int at) mod 2 ^ 64)"

definition call_element ::
    "'d element_cb option \<Rightarrow> string \<Rightarrow> nat \<Rightarrow> nat \<Rightarrow> 'd http_parser \<Rightarrow> parse_exc + 'd http_parser" where
  "call_element cb buffer at len parser =
     (case cb of
        None \<Rightarrow> Inr parser
      | Some f \<Rightarrow> bindE (f (hp_data parser) buffer at len) (\<lambda>d. Inr (parser\<lparr>hp_data := d\<rparr>)))"

text \<open>\<open>{p += 1; goto _out;}\<close> of the action \<open>done\<close> is the flag \<^const>\<open>True\<close>.\<close>

definition action_done :: "string \<Rightarrow> nat \<Rightarrow> 'd http_parser \<Rightarrow> parse_exc + 'd http_parser" where
  "action_done buffer p parser =
     (if hp_xml_sent parser \<or> hp_json_sent parser
      then Inr (parser\<lparr>hp_body_start := hp_mark parser,
                       hp_content_len := int p - int (hp_mark parser) + 1\<rparr>)
      else let parser = parser\<lparr>hp_body_start := p + 1\<rparr> in
           call_element (hp_header_done parser) buffer (p + 1) (length buffer - p - 1) parser)"

definition http_parser_action :: "string \<Rightarrow> nat \<Rightarrow> int \<Rightarrow> 'd http_parser \<Rightarrow> parse_exc + ('d http_parser \<times> bool)" where
  "http_parser_action buffer p act parser =
     (let go = (\<lambda>r. bindE r (\<lambda>q. Inr (q, False))) in
      if act = 0 \<or> act = 3 then Inr (parser\<lparr>hp_mark := p\<rparr>, False)
      else if act = 1 then Inr (parser\<lparr>hp_field_start := p\<rparr>, False)
      else if act = 2 then Inr (parser\<lparr>hp_field_len := LEN (hp_field_start parser) p\<rparr>, False)
      else if act = 4 then
        (case hp_http_field parser of
           None \<Rightarrow> Inr (parser, False)
         | Some f \<Rightarrow>
             bindE (f (hp_data parser) buffer (hp_field_start parser) (hp_field_len parser)
                      (hp_mark parser) (LEN (hp_mark parser) p))
               (\<lambda>d. Inr (parser\<lparr>hp_data := d\<rparr>, False)))
      else if act = 5 then go (call_element (hp_request_method parser) buffer (hp_mark parser) (LEN (hp_mark parser) p) parser)
      else if act = 6 then go (call_element (hp_request_uri parser) buffer (hp_mark parser) (LEN (hp_mark parser) p) parser)
      else if act = 7 then go (call_element (hp_fragment parser) buffer (hp_mark parser) (LEN (hp_mark parser) p) parser)
      else if act = 8 then Inr (parser\<lparr>hp_query_start := p\<rparr>, False)
      else if act = 9 then
        go (call_element (hp_query_string parser) buffer (hp_query_start parser) (LEN (hp_query_start parser) p) parser)
      else if act = 10 then go (call_element (hp_http_version parser) buffer (hp_mark parser) (LEN (hp_mark parser) p) parser)
      else if act = 11 then go (call_element (hp_request_path parser) buffer (hp_mark parser) (LEN (hp_mark parser) p) parser)
      else if act = 12 then bindE (action_done buffer p parser) (\<lambda>q. Inr (q, True))
      else if act = 13 then Inr (parser\<lparr>hp_xml_sent := True\<rparr>, False)
      else if act = 14 then Inr (parser\<lparr>hp_json_sent := True\<rparr>, False)
      else Inr (parser, False))"

fun http_parser_actions_run ::
    "string \<Rightarrow> nat \<Rightarrow> int list \<Rightarrow> 'd http_parser \<Rightarrow> parse_exc + ('d http_parser \<times> bool)" where
  "http_parser_actions_run buffer p [] parser = Inr (parser, False)"
| "http_parser_actions_run buffer p (act # acts) parser =
     bindE (http_parser_action buffer p act parser)
       (\<lambda>(parser, out). if out then Inr (parser, True) else http_parser_actions_run buffer p acts parser)"

section \<open>The scanning loop\<close>

text \<open>\<open>char\<close> is signed.\<close>

definition schar :: "char \<Rightarrow> int" where
  "schar c = (if of_char c < (128 :: int) then of_char c else of_char c - 256)"

text \<open>
  From the label \<open>_resume\<close> on: the state is the local variable \<open>cs\<close>, the characters from \<open>p\<close> to \<open>pe\<close> are
  the last argument but one. The result is \<open>cs\<close>, \<open>p\<close> and the structure at \<open>_out\<close>.
\<close>

fun http_parser_loop ::
    "string \<Rightarrow> nat \<Rightarrow> string \<Rightarrow> int \<Rightarrow> 'd http_parser \<Rightarrow> parse_exc + (int \<times> nat \<times> 'd http_parser)" where
  "http_parser_loop buffer p [] cs parser = Inr (cs, p, parser)"
| "http_parser_loop buffer p (c # rest) cs parser =
     (let (cs', acts) = ragel_next http_parser_tables (hp_uri_relaxed parser) cs (schar c) in
      bindE (http_parser_actions_run buffer p acts parser)
        (\<lambda>(parser, out).
           if out then Inr (cs', p + 1, parser)
           else if cs' = http_parser_error then Inr (cs', p, parser)
           else http_parser_loop buffer (p + 1) rest cs' parser))"

definition http_parser_has_error :: "'d http_parser \<Rightarrow> bool" where
  "http_parser_has_error parser \<longleftrightarrow> hp_cs parser = http_parser_error"

definition http_parser_is_finished :: "'d http_parser \<Rightarrow> bool" where
  "http_parser_is_finished parser \<longleftrightarrow> http_parser_first_final \<le> hp_cs parser"

definition http_parser_finish :: "'d http_parser \<Rightarrow> int" where
  "http_parser_finish parser =
     (if http_parser_has_error parser then -1 else if http_parser_is_finished parser then 1 else 0)"

definition http_parser_execute :: "'d http_parser \<Rightarrow> string \<Rightarrow> nat \<Rightarrow> parse_exc + (nat \<times> 'd http_parser)" where
  "http_parser_execute parser buffer off =
     (if length buffer = 0 then Inr (0, parser)
      else let parser = parser\<lparr>hp_nread := 0, hp_mark := 0, hp_field_len := 0, hp_field_start := 0\<rparr> in
        if length buffer < off then Inl Assert_failed
        else bindE
          (if off = length buffer \<or> hp_cs parser = http_parser_error then Inr (hp_cs parser, off, parser)
           else http_parser_loop buffer off (drop off buffer) (hp_cs parser) parser)
          (\<lambda>(cs, p, parser).
             let parser = (if \<not> http_parser_has_error parser then parser\<lparr>hp_cs := cs\<rparr> else parser);
                 parser = parser\<lparr>hp_nread := hp_nread parser + (p - off)\<rparr> in
             if hp_nread parser \<le> length buffer \<and> hp_body_start parser \<le> length buffer \<and>
                hp_mark parser < length buffer \<and> hp_field_len parser \<le> length buffer \<and>
                hp_field_start parser < length buffer
             then Inr (hp_nread parser, parser) else Inl Assert_failed))"

section \<open>\<open>HttpRequestParser\<close>\<close>

text \<open>
  The object behind \<open>data\<close>: the request under construction and the error code. \<open>m_parser.data = this\<close>
  makes the object and the structure refer to each other; here the structure holds the object.
\<close>

record request_data =
  m_data :: HttpRequest
  m_error :: int

type_synonym HttpRequestParser = "request_data http_parser"

text \<open>\<open>std::string(at, length)\<close> of a position in the buffer.\<close>

definition std_string :: "string \<Rightarrow> nat \<Rightarrow> nat \<Rightarrow> parse_exc + string" where
  "std_string buffer at len =
     (if 2 ^ 63 \<le> len then Inl Length_error
      else if length buffer < at + len then Inl Out_of_bounds
      else Inr (take len (drop at buffer)))"

text \<open>\<open>strncmp(a, b, n) == 0\<close>\<close>

definition strncmp_eq :: "string \<Rightarrow> string \<Rightarrow> nat \<Rightarrow> bool" where
  "strncmp_eq a b n \<longleftrightarrow> take n (c_str a) = take n (c_str b)"

definition on_request_method :: "request_data element_cb" where
  "on_request_method parser buffer at len =
     (let m = CharsToHttpMethod (drop at buffer) in
      if m = INVALID_METHOD then Inr (parser\<lparr>m_error := 1000\<rparr>)
      else Inr (parser\<lparr>m_data := (m_data parser)\<lparr>rq_method := m\<rparr>\<rparr>))"

definition on_request_uri :: "request_data element_cb" where
  "on_request_uri parser buffer at len = Inr parser"

definition on_request_fragment :: "request_data element_cb" where
  "on_request_fragment parser buffer at len =
     bindE (std_string buffer at len) (\<lambda>s. Inr (parser\<lparr>m_data := (m_data parser)\<lparr>rq_fragment := s\<rparr>\<rparr>))"

definition on_request_path :: "request_data element_cb" where
  "on_request_path parser buffer at len =
     bindE (std_string buffer at len) (\<lambda>s. Inr (parser\<lparr>m_data := (m_data parser)\<lparr>rq_path := s\<rparr>\<rparr>))"

definition on_request_query :: "request_data element_cb" where
  "on_request_query parser buffer at len =
     bindE (std_string buffer at len) (\<lambda>s. Inr (parser\<lparr>m_data := (m_data parser)\<lparr>rq_query := s\<rparr>\<rparr>))"

definition on_request_version :: "request_data element_cb" where
  "on_request_version parser buffer at len =
     (if strncmp_eq (drop at buffer) ''HTTP/1.1'' len then Inr (parser\<lparr>m_data := (m_data parser)\<lparr>rq_version := 0x11\<rparr>\<rparr>)
      else if strncmp_eq (drop at buffer) ''HTTP/1.0'' len then Inr (parser\<lparr>m_data := (m_data parser)\<lparr>rq_version := 0x10\<rparr>\<rparr>)
      else Inr (parser\<lparr>m_error := 1001\<rparr>))"

definition on_request_header_done :: "request_data element_cb" where
  "on_request_header_done parser buffer at len = Inr parser"

definition on_request_http_field :: "request_data field_cb" where
  "on_request_http_field parser buffer field flen val vlen =
     (if flen = 0 then Inr parser
      else bindE (std_string buffer field flen) (\<lambda>k.
           bindE (std_string buffer val vlen) (\<lambda>v.
           Inr (parser\<lparr>m_data := HttpRequest_setHeader (m_data parser) k v\<rparr>))))"

definition HttpRequestParser_new :: "nat \<Rightarrow> bool \<Rightarrow> HttpRequestParser" where
  "HttpRequestParser_new query_start uri_relaxed =
     http_parser_init
       \<lparr>hp_cs = 0, hp_body_start = 0, hp_content_len = 0, hp_nread = 0, hp_mark = 0, hp_field_start = 0,
        hp_field_len = 0, hp_query_start = query_start, hp_xml_sent = False, hp_json_sent = False,
        hp_data = \<lparr>m_data = HttpRequest_new 0x11 True, m_error = 0\<rparr>, hp_uri_relaxed = uri_relaxed,
        hp_http_field = Some on_request_http_field, hp_request_method = Some on_request_method,
        hp_request_uri = Some on_request_uri, hp_fragment = Some on_request_fragment,
        hp_request_path = Some on_request_path, hp_query_string = Some on_request_query,
        hp_http_version = Some on_request_version, hp_header_done = Some on_request_header_done\<rparr>"

definition HttpRequestParser_getContentLength :: "(string \<Rightarrow> nat option) \<Rightarrow> HttpRequestParser \<Rightarrow> nat" where
  "HttpRequestParser_getContentLength lexical_cast parser =
     getAs lexical_cast (rq_headers (m_data (hp_data parser))) ''content-length'' 0"

text \<open>The result is the number of bytes parsed, the buffer after the \<open>memmove\<close> and the parser.\<close>

definition HttpRequestParser_execute ::
    "HttpRequestParser \<Rightarrow> string \<Rightarrow> parse_exc + (nat \<times> string \<times> HttpRequestParser)" where
  "HttpRequestParser_execute parser buffer =
     bindE (http_parser_execute parser buffer 0) (\<lambda>(offset, parser). Inr (offset, drop offset buffer, parser))"

definition HttpRequestParser_isFinished :: "HttpRequestParser \<Rightarrow> int" where
  "HttpRequestParser_isFinished parser = http_parser_finish parser"

definition HttpRequestParser_hasError :: "HttpRequestParser \<Rightarrow> bool" where
  "HttpRequestParser_hasError parser \<longleftrightarrow> m_error (hp_data parser) \<noteq> 0 \<or> http_parser_has_error parser"

end
