(* ===== verification/Http11_Edges.thy ===== *)
theory Http11_Edges
  imports Http11_Tables
begin

text \<open>
  The edges of the states of the request scanner that an ordinary request passes through, evaluated from
  the tables: for each state the keys in the order the code tries them and the branches they lead to. The
  last branch is the default; \<open>r\<close> is \<open>uri_relaxed\<close>.
\<close>

lemma hp_tab_1:
  "tab (key_offsets http_parser_tables) 1 = 0" "tab (single_lengths http_parser_tables) 1 = 2"
  "tab (range_lengths http_parser_tables) 1 = 2" "tab (index_offsets http_parser_tables) 1 = 0"
  by (simp_all add: http_parser_fields tab_row http_parser_shape, simp_all add: http_parser_small)

lemma hp_1:
  "ragel_next http_parser_tables r 1 c =
     look [(60, 60), (64, 64), (48, 57), (65, 90)]
     [(194, [0]), (198, [0]), (2, [0]), (2, [0]), (0, [])] c"
  by (simp add: hp.state_edges [OF _ _ hp_tab_1] http_parser_fields slice_rows http_parser_shape,
      simp add: http_parser_shape http_parser_whole, simp add: http_parser_part http_parser_acts)

lemma hp_tab_2:
  "tab (key_offsets http_parser_tables) 2 = 6" "tab (single_lengths http_parser_tables) 2 = 1"
  "tab (range_lengths http_parser_tables) 2 = 2" "tab (index_offsets http_parser_tables) 2 = 5"
  by (simp_all add: http_parser_fields tab_row http_parser_shape, simp_all add: http_parser_small)

lemma hp_2:
  "ragel_next http_parser_tables r 2 c =
     look [(32, 32), (48, 57), (65, 90)]
     [(3, [5]), (175, []), (175, []), (0, [])] c"
  by (simp add: hp.state_edges [OF _ _ hp_tab_2] http_parser_fields slice_rows http_parser_shape,
      simp add: http_parser_shape http_parser_whole, simp add: http_parser_part http_parser_acts)

lemma hp_tab_3:
  "tab (key_offsets http_parser_tables) 3 = 11" "tab (single_lengths http_parser_tables) 3 = 14"
  "tab (range_lengths http_parser_tables) 3 = 3" "tab (index_offsets http_parser_tables) 3 = 9"
  by (simp_all add: http_parser_fields tab_row http_parser_shape, simp_all add: http_parser_small)

lemma hp_3:
  "ragel_next http_parser_tables r 3 c =
     look [(32, 32), (33, 33), (35, 35), (37, 37), (47, 47), (59, 59), (61, 61), (63, 63), (64, 64), (94,
         94), (95, 95), (123, 123), (125, 125), (126, 126), (36, 57), (65, 90), (97, 122)]
     [(4, [0, 11, 6]), (19, [0]), (20, [0, 11, 6]), (24, [0]), (33, [0]), (19, [0]), (19, [0]), (29, [0,
         11]), (19, [0]), (if r then (19, [0]) else (0, [])), (19, [0]), (if r then (19, [0]) else
         (0, [])), (if r then (19, [0]) else (0, [])), (19, [0]), (19, [0]), (173, [0]), (173, [0]),
         (0, [])] c"
  by (simp add: hp.state_edges [OF _ _ hp_tab_3] http_parser_fields slice_rows http_parser_shape,
      simp add: http_parser_shape http_parser_whole, simp add: http_parser_part http_parser_acts)

lemma hp_tab_4:
  "tab (key_offsets http_parser_tables) 4 = 31" "tab (single_lengths http_parser_tables) 4 = 1"
  "tab (range_lengths http_parser_tables) 4 = 0" "tab (index_offsets http_parser_tables) 4 = 27"
  by (simp_all add: http_parser_fields tab_row http_parser_shape, simp_all add: http_parser_small)

lemma hp_4:
  "ragel_next http_parser_tables r 4 c =
     look [(72, 72)]
     [(5, [0]), (0, [])] c"
  by (simp add: hp.state_edges [OF _ _ hp_tab_4] http_parser_fields slice_rows http_parser_shape,
      simp add: http_parser_shape http_parser_whole, simp add: http_parser_part http_parser_acts)

lemma hp_tab_5:
  "tab (key_offsets http_parser_tables) 5 = 32" "tab (single_lengths http_parser_tables) 5 = 1"
  "tab (range_lengths http_parser_tables) 5 = 0" "tab (index_offsets http_parser_tables) 5 = 29"
  by (simp_all add: http_parser_fields tab_row http_parser_shape, simp_all add: http_parser_small)

lemma hp_5:
  "ragel_next http_parser_tables r 5 c =
     look [(84, 84)]
     [(6, []), (0, [])] c"
  by (simp add: hp.state_edges [OF _ _ hp_tab_5] http_parser_fields slice_rows http_parser_shape,
      simp add: http_parser_shape http_parser_whole, simp add: http_parser_part http_parser_acts)

lemma hp_tab_6:
  "tab (key_offsets http_parser_tables) 6 = 33" "tab (single_lengths http_parser_tables) 6 = 1"
  "tab (range_lengths http_parser_tables) 6 = 0" "tab (index_offsets http_parser_tables) 6 = 31"
  by (simp_all add: http_parser_fields tab_row http_parser_shape, simp_all add: http_parser_small)

lemma hp_6:
  "ragel_next http_parser_tables r 6 c =
     look [(84, 84)]
     [(7, []), (0, [])] c"
  by (simp add: hp.state_edges [OF _ _ hp_tab_6] http_parser_fields slice_rows http_parser_shape,
      simp add: http_parser_shape http_parser_whole, simp add: http_parser_part http_parser_acts)

lemma hp_tab_7:
  "tab (key_offsets http_parser_tables) 7 = 34" "tab (single_lengths http_parser_tables) 7 = 1"
  "tab (range_lengths http_parser_tables) 7 = 0" "tab (index_offsets http_parser_tables) 7 = 33"
  by (simp_all add: http_parser_fields tab_row http_parser_shape, simp_all add: http_parser_small)

lemma hp_7:
  "ragel_next http_parser_tables r 7 c =
     look [(80, 80)]
     [(8, []), (0, [])] c"
  by (simp add: hp.state_edges [OF _ _ hp_tab_7] http_parser_fields slice_rows http_parser_shape,
      simp add: http_parser_shape http_parser_whole, simp add: http_parser_part http_parser_acts)

lemma hp_tab_8:
  "tab (key_offsets http_parser_tables) 8 = 35" "tab (single_lengths http_parser_tables) 8 = 1"
  "tab (range_lengths http_parser_tables) 8 = 0" "tab (index_offsets http_parser_tables) 8 = 35"
  by (simp_all add: http_parser_fields tab_row http_parser_shape, simp_all add: http_parser_small)

lemma hp_8:
  "ragel_next http_parser_tables r 8 c =
     look [(47, 47)]
     [(9, []), (0, [])] c"
  by (simp add: hp.state_edges [OF _ _ hp_tab_8] http_parser_fields slice_rows http_parser_shape,
      simp add: http_parser_shape http_parser_whole, simp add: http_parser_part http_parser_acts)

lemma hp_tab_9:
  "tab (key_offsets http_parser_tables) 9 = 36" "tab (single_lengths http_parser_tables) 9 = 1"
  "tab (range_lengths http_parser_tables) 9 = 0" "tab (index_offsets http_parser_tables) 9 = 37"
  by (simp_all add: http_parser_fields tab_row http_parser_shape, simp_all add: http_parser_small)

lemma hp_9:
  "ragel_next http_parser_tables r 9 c =
     look [(49, 49)]
     [(10, []), (0, [])] c"
  by (simp add: hp.state_edges [OF _ _ hp_tab_9] http_parser_fields slice_rows http_parser_shape,
      simp add: http_parser_shape http_parser_whole, simp add: http_parser_part http_parser_acts)

lemma hp_tab_10:
  "tab (key_offsets http_parser_tables) 10 = 37" "tab (single_lengths http_parser_tables) 10 = 1"
  "tab (range_lengths http_parser_tables) 10 = 0" "tab (index_offsets http_parser_tables) 10 = 39"
  by (simp_all add: http_parser_fields tab_row http_parser_shape, simp_all add: http_parser_small)

lemma hp_10:
  "ragel_next http_parser_tables r 10 c =
     look [(46, 46)]
     [(11, []), (0, [])] c"
  by (simp add: hp.state_edges [OF _ _ hp_tab_10] http_parser_fields slice_rows http_parser_shape,
      simp add: http_parser_shape http_parser_whole, simp add: http_parser_part http_parser_acts)

lemma hp_tab_11:
  "tab (key_offsets http_parser_tables) 11 = 38" "tab (single_lengths http_parser_tables) 11 = 0"
  "tab (range_lengths http_parser_tables) 11 = 1" "tab (index_offsets http_parser_tables) 11 = 41"
  by (simp_all add: http_parser_fields tab_row http_parser_shape, simp_all add: http_parser_small)

lemma hp_11:
  "ragel_next http_parser_tables r 11 c =
     look [(48, 49)]
     [(12, []), (0, [])] c"
  by (simp add: hp.state_edges [OF _ _ hp_tab_11] http_parser_fields slice_rows http_parser_shape,
      simp add: http_parser_shape http_parser_whole, simp add: http_parser_part http_parser_acts)

lemma hp_tab_12:
  "tab (key_offsets http_parser_tables) 12 = 40" "tab (single_lengths http_parser_tables) 12 = 2"
  "tab (range_lengths http_parser_tables) 12 = 0" "tab (index_offsets http_parser_tables) 12 = 43"
  by (simp_all add: http_parser_fields tab_row http_parser_shape, simp_all add: http_parser_small)

lemma hp_12:
  "ragel_next http_parser_tables r 12 c =
     look [(10, 10), (13, 13)]
     [(13, [10]), (17, [10]), (0, [])] c"
  by (simp add: hp.state_edges [OF _ _ hp_tab_12] http_parser_fields slice_rows http_parser_shape,
      simp add: http_parser_shape http_parser_whole, simp add: http_parser_part http_parser_acts)

lemma hp_tab_13:
  "tab (key_offsets http_parser_tables) 13 = 42" "tab (single_lengths http_parser_tables) 13 = 5"
  "tab (range_lengths http_parser_tables) 13 = 8" "tab (index_offsets http_parser_tables) 13 = 46"
  by (simp_all add: http_parser_fields tab_row http_parser_shape, simp_all add: http_parser_small)

lemma hp_13:
  "ragel_next http_parser_tables r 13 c =
     look [(10, 10), (13, 13), (33, 33), (124, 124), (126, 126), (1, 8), (11, 31), (35, 39), (42, 43),
         (45, 46), (48, 57), (65, 90), (94, 122)]
     [(348, [1, 12]), (18, [1]), (14, [1]), (14, [1]), (14, [1]), (14, [1]), (14, [1]), (14, [1]), (14,
         [1]), (14, [1]), (14, [1]), (14, [1]), (14, [1]), (0, [])] c"
  by (simp add: hp.state_edges [OF _ _ hp_tab_13] http_parser_fields slice_rows http_parser_shape,
      simp add: http_parser_shape http_parser_whole, simp add: http_parser_part http_parser_acts)

lemma hp_tab_14:
  "tab (key_offsets http_parser_tables) 14 = 63" "tab (single_lengths http_parser_tables) 14 = 4"
  "tab (range_lengths http_parser_tables) 14 = 8" "tab (index_offsets http_parser_tables) 14 = 60"
  by (simp_all add: http_parser_fields tab_row http_parser_shape, simp_all add: http_parser_small)

lemma hp_14:
  "ragel_next http_parser_tables r 14 c =
     look [(33, 33), (58, 58), (124, 124), (126, 126), (1, 8), (10, 31), (35, 39), (42, 43), (45, 46),
         (48, 57), (65, 90), (94, 122)]
     [(14, []), (15, [2]), (14, []), (14, []), (14, []), (14, []), (14, []), (14, []), (14, []), (14,
         []), (14, []), (14, []), (0, [])] c"
  by (simp add: hp.state_edges [OF _ _ hp_tab_14] http_parser_fields slice_rows http_parser_shape,
      simp add: http_parser_shape http_parser_whole, simp add: http_parser_part http_parser_acts)

lemma hp_tab_15:
  "tab (key_offsets http_parser_tables) 15 = 83" "tab (single_lengths http_parser_tables) 15 = 6"
  "tab (range_lengths http_parser_tables) 15 = 0" "tab (index_offsets http_parser_tables) 15 = 73"
  by (simp_all add: http_parser_fields tab_row http_parser_shape, simp_all add: http_parser_small)

lemma hp_15:
  "ragel_next http_parser_tables r 15 c =
     look [(0, 0), (9, 9), (10, 10), (13, 13), (32, 32), (127, 127)]
     [(0, []), (15, [3]), (13, [3, 4]), (17, [3, 4]), (15, [3]), (0, []), (16, [3])] c"
  by (simp add: hp.state_edges [OF _ _ hp_tab_15] http_parser_fields slice_rows http_parser_shape,
      simp add: http_parser_shape http_parser_whole, simp add: http_parser_part http_parser_acts)

lemma hp_tab_16:
  "tab (key_offsets http_parser_tables) 16 = 89" "tab (single_lengths http_parser_tables) 16 = 4"
  "tab (range_lengths http_parser_tables) 16 = 0" "tab (index_offsets http_parser_tables) 16 = 80"
  by (simp_all add: http_parser_fields tab_row http_parser_shape, simp_all add: http_parser_small)

lemma hp_16:
  "ragel_next http_parser_tables r 16 c =
     look [(0, 0), (10, 10), (13, 13), (127, 127)]
     [(0, []), (13, [4]), (17, [4]), (0, []), (16, [])] c"
  by (simp add: hp.state_edges [OF _ _ hp_tab_16] http_parser_fields slice_rows http_parser_shape,
      simp add: http_parser_shape http_parser_whole, simp add: http_parser_part http_parser_acts)

lemma hp_tab_17:
  "tab (key_offsets http_parser_tables) 17 = 93" "tab (single_lengths http_parser_tables) 17 = 1"
  "tab (range_lengths http_parser_tables) 17 = 0" "tab (index_offsets http_parser_tables) 17 = 85"
  by (simp_all add: http_parser_fields tab_row http_parser_shape, simp_all add: http_parser_small)

lemma hp_17:
  "ragel_next http_parser_tables r 17 c =
     look [(10, 10)]
     [(13, []), (0, [])] c"
  by (simp add: hp.state_edges [OF _ _ hp_tab_17] http_parser_fields slice_rows http_parser_shape,
      simp add: http_parser_shape http_parser_whole, simp add: http_parser_part http_parser_acts)

lemma hp_tab_18:
  "tab (key_offsets http_parser_tables) 18 = 94" "tab (single_lengths http_parser_tables) 18 = 5"
  "tab (range_lengths http_parser_tables) 18 = 8" "tab (index_offsets http_parser_tables) 18 = 87"
  by (simp_all add: http_parser_fields tab_row http_parser_shape, simp_all add: http_parser_small)

lemma hp_18:
  "ragel_next http_parser_tables r 18 c =
     look [(10, 10), (33, 33), (58, 58), (124, 124), (126, 126), (1, 8), (11, 31), (35, 39), (42, 43),
         (45, 46), (48, 57), (65, 90), (94, 122)]
     [(348, [12]), (14, []), (15, [2]), (14, []), (14, []), (14, []), (14, []), (14, []), (14, []), (14,
         []), (14, []), (14, []), (14, []), (0, [])] c"
  by (simp add: hp.state_edges [OF _ _ hp_tab_18] http_parser_fields slice_rows http_parser_shape,
      simp add: http_parser_shape http_parser_whole, simp add: http_parser_part http_parser_acts)

lemma hp_tab_20:
  "tab (key_offsets http_parser_tables) 20 = 134" "tab (single_lengths http_parser_tables) 20 = 8"
  "tab (range_lengths http_parser_tables) 20 = 4" "tab (index_offsets http_parser_tables) 20 = 118"
  by (simp_all add: http_parser_fields tab_row http_parser_shape, simp_all add: http_parser_small)

lemma hp_20:
  "ragel_next http_parser_tables r 20 c =
     look [(32, 32), (37, 37), (60, 60), (62, 62), (94, 94), (96, 96), (124, 124), (127, 127), (0, 31),
         (34, 35), (91, 93), (123, 125)]
     [(4, [0, 7]), (22, [0]), (0, []), (0, []), (if r then (21, [0]) else (0, [])), (0, []), (0, []), (0,
         []), (0, []), (0, []), (0, []), (if r then (21, [0]) else (0, [])), (21, [0])] c"
  by (simp add: hp.state_edges [OF _ _ hp_tab_20] http_parser_fields slice_rows http_parser_shape,
      simp add: http_parser_shape http_parser_whole, simp add: http_parser_part http_parser_acts)

lemma hp_tab_21:
  "tab (key_offsets http_parser_tables) 21 = 150" "tab (single_lengths http_parser_tables) 21 = 8"
  "tab (range_lengths http_parser_tables) 21 = 4" "tab (index_offsets http_parser_tables) 21 = 131"
  by (simp_all add: http_parser_fields tab_row http_parser_shape, simp_all add: http_parser_small)

lemma hp_21:
  "ragel_next http_parser_tables r 21 c =
     look [(32, 32), (37, 37), (60, 60), (62, 62), (94, 94), (96, 96), (124, 124), (127, 127), (0, 31),
         (34, 35), (91, 93), (123, 125)]
     [(4, [7]), (22, []), (0, []), (0, []), (if r then (21, []) else (0, [])), (0, []), (0, []), (0, []),
         (0, []), (0, []), (0, []), (if r then (21, []) else (0, [])), (21, [])] c"
  by (simp add: hp.state_edges [OF _ _ hp_tab_21] http_parser_fields slice_rows http_parser_shape,
      simp add: http_parser_shape http_parser_whole, simp add: http_parser_part http_parser_acts)

lemma hp_tab_22:
  "tab (key_offsets http_parser_tables) 22 = 166" "tab (single_lengths http_parser_tables) 22 = 0"
  "tab (range_lengths http_parser_tables) 22 = 3" "tab (index_offsets http_parser_tables) 22 = 144"
  by (simp_all add: http_parser_fields tab_row http_parser_shape, simp_all add: http_parser_small)

lemma hp_22:
  "ragel_next http_parser_tables r 22 c =
     look [(48, 57), (65, 70), (97, 102)]
     [(23, []), (23, []), (23, []), (0, [])] c"
  by (simp add: hp.state_edges [OF _ _ hp_tab_22] http_parser_fields slice_rows http_parser_shape,
      simp add: http_parser_shape http_parser_whole, simp add: http_parser_part http_parser_acts)

lemma hp_tab_23:
  "tab (key_offsets http_parser_tables) 23 = 172" "tab (single_lengths http_parser_tables) 23 = 0"
  "tab (range_lengths http_parser_tables) 23 = 3" "tab (index_offsets http_parser_tables) 23 = 148"
  by (simp_all add: http_parser_fields tab_row http_parser_shape, simp_all add: http_parser_small)

lemma hp_23:
  "ragel_next http_parser_tables r 23 c =
     look [(48, 57), (65, 70), (97, 102)]
     [(21, []), (21, []), (21, []), (0, [])] c"
  by (simp add: hp.state_edges [OF _ _ hp_tab_23] http_parser_fields slice_rows http_parser_shape,
      simp add: http_parser_shape http_parser_whole, simp add: http_parser_part http_parser_acts)

lemma hp_tab_26:
  "tab (key_offsets http_parser_tables) 26 = 190" "tab (single_lengths http_parser_tables) 26 = 11"
  "tab (range_lengths http_parser_tables) 26 = 3" "tab (index_offsets http_parser_tables) 26 = 160"
  by (simp_all add: http_parser_fields tab_row http_parser_shape, simp_all add: http_parser_small)

lemma hp_26:
  "ragel_next http_parser_tables r 26 c =
     look [(32, 32), (34, 34), (35, 35), (37, 37), (60, 60), (62, 62), (63, 63), (94, 94), (96, 96),
         (124, 124), (127, 127), (0, 31), (91, 93), (123, 125)]
     [(4, [11, 6]), (0, []), (20, [11, 6]), (27, []), (0, []), (0, []), (29, [11]), (if r then (26, [])
         else (0, [])), (0, []), (0, []), (0, []), (0, []), (0, []), (if r then (26, []) else (0,
         [])), (26, [])] c"
  by (simp add: hp.state_edges [OF _ _ hp_tab_26] http_parser_fields slice_rows http_parser_shape,
      simp add: http_parser_shape http_parser_whole, simp add: http_parser_part http_parser_acts)

lemma hp_tab_27:
  "tab (key_offsets http_parser_tables) 27 = 207" "tab (single_lengths http_parser_tables) 27 = 0"
  "tab (range_lengths http_parser_tables) 27 = 3" "tab (index_offsets http_parser_tables) 27 = 175"
  by (simp_all add: http_parser_fields tab_row http_parser_shape, simp_all add: http_parser_small)

lemma hp_27:
  "ragel_next http_parser_tables r 27 c =
     look [(48, 57), (65, 70), (97, 102)]
     [(28, []), (28, []), (28, []), (0, [])] c"
  by (simp add: hp.state_edges [OF _ _ hp_tab_27] http_parser_fields slice_rows http_parser_shape,
      simp add: http_parser_shape http_parser_whole, simp add: http_parser_part http_parser_acts)

lemma hp_tab_28:
  "tab (key_offsets http_parser_tables) 28 = 213" "tab (single_lengths http_parser_tables) 28 = 0"
  "tab (range_lengths http_parser_tables) 28 = 3" "tab (index_offsets http_parser_tables) 28 = 179"
  by (simp_all add: http_parser_fields tab_row http_parser_shape, simp_all add: http_parser_small)

lemma hp_28:
  "ragel_next http_parser_tables r 28 c =
     look [(48, 57), (65, 70), (97, 102)]
     [(26, []), (26, []), (26, []), (0, [])] c"
  by (simp add: hp.state_edges [OF _ _ hp_tab_28] http_parser_fields slice_rows http_parser_shape,
      simp add: http_parser_shape http_parser_whole, simp add: http_parser_part http_parser_acts)

lemma hp_tab_29:
  "tab (key_offsets http_parser_tables) 29 = 219" "tab (single_lengths http_parser_tables) 29 = 10"
  "tab (range_lengths http_parser_tables) 29 = 3" "tab (index_offsets http_parser_tables) 29 = 183"
  by (simp_all add: http_parser_fields tab_row http_parser_shape, simp_all add: http_parser_small)

lemma hp_29:
  "ragel_next http_parser_tables r 29 c =
     look [(32, 32), (34, 34), (35, 35), (37, 37), (60, 60), (62, 62), (94, 94), (96, 96), (124, 124),
         (127, 127), (0, 31), (91, 93), (123, 125)]
     [(4, [8, 9, 6]), (0, []), (20, [8, 9, 6]), (31, [8]), (0, []), (0, []), (if r then (30, [8]) else
         (0, [])), (0, []), (0, []), (0, []), (0, []), (0, []), (if r then (30, [8]) else (0, [])),
         (30, [8])] c"
  by (simp add: hp.state_edges [OF _ _ hp_tab_29] http_parser_fields slice_rows http_parser_shape,
      simp add: http_parser_shape http_parser_whole, simp add: http_parser_part http_parser_acts)

lemma hp_tab_30:
  "tab (key_offsets http_parser_tables) 30 = 235" "tab (single_lengths http_parser_tables) 30 = 10"
  "tab (range_lengths http_parser_tables) 30 = 3" "tab (index_offsets http_parser_tables) 30 = 197"
  by (simp_all add: http_parser_fields tab_row http_parser_shape, simp_all add: http_parser_small)

lemma hp_30:
  "ragel_next http_parser_tables r 30 c =
     look [(32, 32), (34, 34), (35, 35), (37, 37), (60, 60), (62, 62), (94, 94), (96, 96), (124, 124),
         (127, 127), (0, 31), (91, 93), (123, 125)]
     [(4, [9, 6]), (0, []), (20, [9, 6]), (31, []), (0, []), (0, []), (if r then (30, []) else (0, [])),
         (0, []), (0, []), (0, []), (0, []), (0, []), (if r then (30, []) else (0, [])), (30, [])]
         c"
  by (simp add: hp.state_edges [OF _ _ hp_tab_30] http_parser_fields slice_rows http_parser_shape,
      simp add: http_parser_shape http_parser_whole, simp add: http_parser_part http_parser_acts)

lemma hp_tab_31:
  "tab (key_offsets http_parser_tables) 31 = 251" "tab (single_lengths http_parser_tables) 31 = 0"
  "tab (range_lengths http_parser_tables) 31 = 3" "tab (index_offsets http_parser_tables) 31 = 211"
  by (simp_all add: http_parser_fields tab_row http_parser_shape, simp_all add: http_parser_small)

lemma hp_31:
  "ragel_next http_parser_tables r 31 c =
     look [(48, 57), (65, 70), (97, 102)]
     [(32, []), (32, []), (32, []), (0, [])] c"
  by (simp add: hp.state_edges [OF _ _ hp_tab_31] http_parser_fields slice_rows http_parser_shape,
      simp add: http_parser_shape http_parser_whole, simp add: http_parser_part http_parser_acts)

lemma hp_tab_32:
  "tab (key_offsets http_parser_tables) 32 = 257" "tab (single_lengths http_parser_tables) 32 = 0"
  "tab (range_lengths http_parser_tables) 32 = 3" "tab (index_offsets http_parser_tables) 32 = 215"
  by (simp_all add: http_parser_fields tab_row http_parser_shape, simp_all add: http_parser_small)

lemma hp_32:
  "ragel_next http_parser_tables r 32 c =
     look [(48, 57), (65, 70), (97, 102)]
     [(30, []), (30, []), (30, []), (0, [])] c"
  by (simp add: hp.state_edges [OF _ _ hp_tab_32] http_parser_fields slice_rows http_parser_shape,
      simp add: http_parser_shape http_parser_whole, simp add: http_parser_part http_parser_acts)

lemma hp_tab_33:
  "tab (key_offsets http_parser_tables) 33 = 263" "tab (single_lengths http_parser_tables) 33 = 12"
  "tab (range_lengths http_parser_tables) 33 = 3" "tab (index_offsets http_parser_tables) 33 = 219"
  by (simp_all add: http_parser_fields tab_row http_parser_shape, simp_all add: http_parser_small)

lemma hp_33:
  "ragel_next http_parser_tables r 33 c =
     look [(32, 32), (34, 34), (35, 35), (37, 37), (47, 47), (60, 60), (62, 62), (63, 63), (94, 94), (96,
         96), (124, 124), (127, 127), (0, 31), (91, 93), (123, 125)]
     [(4, [11, 6]), (0, []), (20, [11, 6]), (27, []), (34, []), (0, []), (0, []), (29, [11]), (if r then
         (26, []) else (0, [])), (0, []), (0, []), (0, []), (0, []), (0, []), (if r then (26, [])
         else (0, [])), (26, [])] c"
  by (simp add: hp.state_edges [OF _ _ hp_tab_33] http_parser_fields slice_rows http_parser_shape,
      simp add: http_parser_shape http_parser_whole, simp add: http_parser_part http_parser_acts)

lemma hp_tab_175:
  "tab (key_offsets http_parser_tables) 175 = 1263" "tab (single_lengths http_parser_tables) 175 = 1"
  "tab (range_lengths http_parser_tables) 175 = 2" "tab (index_offsets http_parser_tables) 175 = 1027"
  by (simp_all add: http_parser_fields tab_row http_parser_shape, simp_all add: http_parser_small)

lemma hp_175:
  "ragel_next http_parser_tables r 175 c =
     look [(32, 32), (48, 57), (65, 90)]
     [(3, [5]), (176, []), (176, []), (0, [])] c"
  by (simp add: hp.state_edges [OF _ _ hp_tab_175] http_parser_fields slice_rows http_parser_shape,
      simp add: http_parser_shape http_parser_whole, simp add: http_parser_part http_parser_acts)

lemma hp_tab_176:
  "tab (key_offsets http_parser_tables) 176 = 1268" "tab (single_lengths http_parser_tables) 176 = 1"
  "tab (range_lengths http_parser_tables) 176 = 2" "tab (index_offsets http_parser_tables) 176 = 1031"
  by (simp_all add: http_parser_fields tab_row http_parser_shape, simp_all add: http_parser_small)

lemma hp_176:
  "ragel_next http_parser_tables r 176 c =
     look [(32, 32), (48, 57), (65, 90)]
     [(3, [5]), (177, []), (177, []), (0, [])] c"
  by (simp add: hp.state_edges [OF _ _ hp_tab_176] http_parser_fields slice_rows http_parser_shape,
      simp add: http_parser_shape http_parser_whole, simp add: http_parser_part http_parser_acts)

lemma hp_tab_177:
  "tab (key_offsets http_parser_tables) 177 = 1273" "tab (single_lengths http_parser_tables) 177 = 1"
  "tab (range_lengths http_parser_tables) 177 = 2" "tab (index_offsets http_parser_tables) 177 = 1035"
  by (simp_all add: http_parser_fields tab_row http_parser_shape, simp_all add: http_parser_small)

lemma hp_177:
  "ragel_next http_parser_tables r 177 c =
     look [(32, 32), (48, 57), (65, 90)]
     [(3, [5]), (178, []), (178, []), (0, [])] c"
  by (simp add: hp.state_edges [OF _ _ hp_tab_177] http_parser_fields slice_rows http_parser_shape,
      simp add: http_parser_shape http_parser_whole, simp add: http_parser_part http_parser_acts)

lemma hp_tab_178:
  "tab (key_offsets http_parser_tables) 178 = 1278" "tab (single_lengths http_parser_tables) 178 = 1"
  "tab (range_lengths http_parser_tables) 178 = 2" "tab (index_offsets http_parser_tables) 178 = 1039"
  by (simp_all add: http_parser_fields tab_row http_parser_shape, simp_all add: http_parser_small)

lemma hp_178:
  "ragel_next http_parser_tables r 178 c =
     look [(32, 32), (48, 57), (65, 90)]
     [(3, [5]), (179, []), (179, []), (0, [])] c"
  by (simp add: hp.state_edges [OF _ _ hp_tab_178] http_parser_fields slice_rows http_parser_shape,
      simp add: http_parser_shape http_parser_whole, simp add: http_parser_part http_parser_acts)

lemma hp_tab_179:
  "tab (key_offsets http_parser_tables) 179 = 1283" "tab (single_lengths http_parser_tables) 179 = 1"
  "tab (range_lengths http_parser_tables) 179 = 2" "tab (index_offsets http_parser_tables) 179 = 1043"
  by (simp_all add: http_parser_fields tab_row http_parser_shape, simp_all add: http_parser_small)

lemma hp_179:
  "ragel_next http_parser_tables r 179 c =
     look [(32, 32), (48, 57), (65, 90)]
     [(3, [5]), (180, []), (180, []), (0, [])] c"
  by (simp add: hp.state_edges [OF _ _ hp_tab_179] http_parser_fields slice_rows http_parser_shape,
      simp add: http_parser_shape http_parser_whole, simp add: http_parser_part http_parser_acts)

lemma hp_tab_180:
  "tab (key_offsets http_parser_tables) 180 = 1288" "tab (single_lengths http_parser_tables) 180 = 1"
  "tab (range_lengths http_parser_tables) 180 = 2" "tab (index_offsets http_parser_tables) 180 = 1047"
  by (simp_all add: http_parser_fields tab_row http_parser_shape, simp_all add: http_parser_small)

lemma hp_180:
  "ragel_next http_parser_tables r 180 c =
     look [(32, 32), (48, 57), (65, 90)]
     [(3, [5]), (181, []), (181, []), (0, [])] c"
  by (simp add: hp.state_edges [OF _ _ hp_tab_180] http_parser_fields slice_rows http_parser_shape,
      simp add: http_parser_shape http_parser_whole, simp add: http_parser_part http_parser_acts)

lemma hp_tab_181:
  "tab (key_offsets http_parser_tables) 181 = 1293" "tab (single_lengths http_parser_tables) 181 = 1"
  "tab (range_lengths http_parser_tables) 181 = 2" "tab (index_offsets http_parser_tables) 181 = 1051"
  by (simp_all add: http_parser_fields tab_row http_parser_shape, simp_all add: http_parser_small)

lemma hp_181:
  "ragel_next http_parser_tables r 181 c =
     look [(32, 32), (48, 57), (65, 90)]
     [(3, [5]), (182, []), (182, []), (0, [])] c"
  by (simp add: hp.state_edges [OF _ _ hp_tab_181] http_parser_fields slice_rows http_parser_shape,
      simp add: http_parser_shape http_parser_whole, simp add: http_parser_part http_parser_acts)

lemma hp_tab_182:
  "tab (key_offsets http_parser_tables) 182 = 1298" "tab (single_lengths http_parser_tables) 182 = 1"
  "tab (range_lengths http_parser_tables) 182 = 2" "tab (index_offsets http_parser_tables) 182 = 1055"
  by (simp_all add: http_parser_fields tab_row http_parser_shape, simp_all add: http_parser_small)

lemma hp_182:
  "ragel_next http_parser_tables r 182 c =
     look [(32, 32), (48, 57), (65, 90)]
     [(3, [5]), (183, []), (183, []), (0, [])] c"
  by (simp add: hp.state_edges [OF _ _ hp_tab_182] http_parser_fields slice_rows http_parser_shape,
      simp add: http_parser_shape http_parser_whole, simp add: http_parser_part http_parser_acts)

lemma hp_tab_183:
  "tab (key_offsets http_parser_tables) 183 = 1303" "tab (single_lengths http_parser_tables) 183 = 1"
  "tab (range_lengths http_parser_tables) 183 = 2" "tab (index_offsets http_parser_tables) 183 = 1059"
  by (simp_all add: http_parser_fields tab_row http_parser_shape, simp_all add: http_parser_small)

lemma hp_183:
  "ragel_next http_parser_tables r 183 c =
     look [(32, 32), (48, 57), (65, 90)]
     [(3, [5]), (184, []), (184, []), (0, [])] c"
  by (simp add: hp.state_edges [OF _ _ hp_tab_183] http_parser_fields slice_rows http_parser_shape,
      simp add: http_parser_shape http_parser_whole, simp add: http_parser_part http_parser_acts)

lemma hp_tab_184:
  "tab (key_offsets http_parser_tables) 184 = 1308" "tab (single_lengths http_parser_tables) 184 = 1"
  "tab (range_lengths http_parser_tables) 184 = 2" "tab (index_offsets http_parser_tables) 184 = 1063"
  by (simp_all add: http_parser_fields tab_row http_parser_shape, simp_all add: http_parser_small)

lemma hp_184:
  "ragel_next http_parser_tables r 184 c =
     look [(32, 32), (48, 57), (65, 90)]
     [(3, [5]), (185, []), (185, []), (0, [])] c"
  by (simp add: hp.state_edges [OF _ _ hp_tab_184] http_parser_fields slice_rows http_parser_shape,
      simp add: http_parser_shape http_parser_whole, simp add: http_parser_part http_parser_acts)

end
