(* ===== verification/Http_Request_Line.thy ===== *)
theory Http_Request_Line
  imports Http_Parser Http11_Edges
begin

text \<open>
  Runs of the request scanner over the pieces of a request: what state it is in after a piece and which
  callbacks it has made. The pieces are described by the characters of the URI and header syntax.
\<close>

section \<open>Characters\<close>

definition upper_digit_codes :: "int list" where
  "upper_digit_codes = [48..57] @ [65..90]"

definition upper_digit :: "char \<Rightarrow> bool" where
  "upper_digit c \<longleftrightarrow> schar c \<in> set upper_digit_codes"

definition hex_codes :: "int list" where
  "hex_codes = [48..57] @ [65..70] @ [97..102]"

definition hex_digit :: "char \<Rightarrow> bool" where
  "hex_digit c \<longleftrightarrow> schar c \<in> set hex_codes"

text \<open>
  \<open>pchar\<close> of the grammar (unreserved characters, \<open>sub_delims\<close>, \<open>:\<close>, \<open>@\<close> and everything beyond ASCII) with
  the slash; the percent sign only starts an encoded character.
\<close>

definition path_codes :: "int list" where
  "path_codes = [33, 36] @ [38..59] @ [61] @ [64..90] @ [95] @ [97..122] @ [126]"

definition path_char :: "char \<Rightarrow> bool" where
  "path_char c \<longleftrightarrow> schar c < 0 \<or> schar c \<in> set path_codes"

definition query_char :: "char \<Rightarrow> bool" where
  "query_char c \<longleftrightarrow> path_char c \<or> c = CHR ''?''"

fun uri_text :: "(char \<Rightarrow> bool) \<Rightarrow> string \<Rightarrow> bool" where
  "uri_text P [] \<longleftrightarrow> True"
| "uri_text P (c # s) \<longleftrightarrow>
     (if c = CHR ''%'' then
        (case s of a # b # s' \<Rightarrow> hex_digit a \<and> hex_digit b \<and> uri_text P s' | _ \<Rightarrow> False)
      else P c \<and> uri_text P s)"

text \<open>The characters of a header name (a token) and of a header value.\<close>

definition token_codes :: "int list" where
  "token_codes = [33] @ [35..39] @ [42, 43, 45, 46] @ [48..57] @ [65..90] @ [94..122] @ [124, 126]"

definition token_char :: "char \<Rightarrow> bool" where
  "token_char c \<longleftrightarrow> schar c \<in> set token_codes"

definition visible_codes :: "int list" where
  "visible_codes = [33..126]"

definition value_char :: "char \<Rightarrow> bool" where
  "value_char c \<longleftrightarrow> schar c < 0 \<or> schar c \<in> set (9 # 32 # visible_codes)"

lemma of_char_bounds: "0 \<le> (of_char c :: int)" "(of_char c :: int) < 256"
  using of_char_mod_256 [of c, where ?'a = int] pos_mod_bound [of 256 "of_char c :: int"]
    pos_mod_sign [of 256 "of_char c :: int"] by auto

lemma schar_range: "-128 \<le> schar c" "schar c \<le> 127"
  using of_char_bounds [of c] by (auto simp: schar_def)

lemma schar_inj [simp]: "schar a = schar b \<longleftrightarrow> a = b"
proof
  assume "schar a = schar b"
  then have "(of_char a :: int) = of_char b"
    using of_char_bounds [of a] of_char_bounds [of b] by (auto simp: schar_def split: if_splits)
  then show "a = b" by simp
qed simp

section \<open>Single steps\<close>

lemma next_codes:
  "list_all (\<lambda>k. ragel_next http_parser_tables r 26 k = (26, [])) path_codes"
  "list_all (\<lambda>k. ragel_next http_parser_tables r 30 k = (30, [])) (63 # path_codes)"
  "list_all (\<lambda>k. ragel_next http_parser_tables r 21 k = (21, [])) (63 # path_codes)"
  "list_all (\<lambda>k. ragel_next http_parser_tables r 14 k = (14, [])) token_codes"
  "list_all (\<lambda>k. ragel_next http_parser_tables r 16 k = (16, [])) (9 # 32 # visible_codes)"
  by (simp_all add: path_codes_def token_codes_def visible_codes_def upto_rec_numeral
      hp_26 hp_30 hp_21 hp_14 hp_16 look.simps)

lemma next_high:
  assumes "schar c < 0"
  shows "ragel_next http_parser_tables r 26 (schar c) = (26, [])"
    "ragel_next http_parser_tables r 30 (schar c) = (30, [])"
    "ragel_next http_parser_tables r 21 (schar c) = (21, [])"
    "ragel_next http_parser_tables r 33 (schar c) = (26, [])"
    "ragel_next http_parser_tables r 29 (schar c) = (30, [8])"
    "ragel_next http_parser_tables r 20 (schar c) = (21, [0])"
    "ragel_next http_parser_tables r 15 (schar c) = (16, [3])"
    "ragel_next http_parser_tables r 16 (schar c) = (16, [])"
  using assms schar_range [of c]
  by (simp_all add: hp_26 hp_30 hp_21 hp_33 hp_29 hp_20 hp_15 hp_16 look.simps)

lemma next_first_codes:
  "list_all (\<lambda>k. k = 47 \<or> ragel_next http_parser_tables r 33 k = (26, [])) path_codes"
  "list_all (\<lambda>k. ragel_next http_parser_tables r 29 k = (30, [8])) (63 # path_codes)"
  "list_all (\<lambda>k. ragel_next http_parser_tables r 20 k = (21, [0])) (63 # path_codes)"
  "list_all (\<lambda>k. ragel_next http_parser_tables r 13 k = (14, [1])) token_codes"
  "list_all (\<lambda>k. ragel_next http_parser_tables r 15 k = (16, [3])) visible_codes"
  "list_all (\<lambda>k. ragel_next http_parser_tables r 1 k = (2, [0])) upper_digit_codes"
  by (simp_all add: path_codes_def token_codes_def visible_codes_def upper_digit_codes_def upto_rec_numeral
      hp_33 hp_29 hp_20 hp_13 hp_15 hp_1 look.simps)

lemma next_hex:
  "list_all (\<lambda>k. ragel_next http_parser_tables r 27 k = (28, [])) hex_codes"
  "list_all (\<lambda>k. ragel_next http_parser_tables r 28 k = (26, [])) hex_codes"
  "list_all (\<lambda>k. ragel_next http_parser_tables r 31 k = (32, [])) hex_codes"
  "list_all (\<lambda>k. ragel_next http_parser_tables r 32 k = (30, [])) hex_codes"
  "list_all (\<lambda>k. ragel_next http_parser_tables r 22 k = (23, [])) hex_codes"
  "list_all (\<lambda>k. ragel_next http_parser_tables r 23 k = (21, [])) hex_codes"
  by (simp_all add: hex_codes_def upto_rec_numeral hp_27 hp_28 hp_31 hp_32 hp_22 hp_23 look.simps)

text \<open>
  The states of the method: 2 after one character, then 175 and following, one for each further character.
\<close>

definition method_state :: "nat \<Rightarrow> int" where
  "method_state n = (if n = 0 then 2 else 174 + int n)"

lemma next_method_codes:
  "n < 10 \<Longrightarrow> list_all (\<lambda>k. ragel_next http_parser_tables r (method_state n) k = (method_state (Suc n), [])) upper_digit_codes"
  "n \<le> 10 \<Longrightarrow> ragel_next http_parser_tables r (method_state n) 32 = (3, [5])"
proof -
  have "\<forall>n \<in> set [0..<10]. list_all (\<lambda>k. ragel_next http_parser_tables r (method_state n) k = (method_state (Suc n), [])) upper_digit_codes"
    by (simp add: upt_rec upper_digit_codes_def upto_rec_numeral method_state_def hp_2 hp_175 hp_176 hp_177 hp_178 hp_179 hp_180 hp_181 hp_182
        hp_183 hp_184 look.simps)
  then show "n < 10 \<Longrightarrow> list_all (\<lambda>k. ragel_next http_parser_tables r (method_state n) k = (method_state (Suc n), [])) upper_digit_codes"
    by simp
  have "\<forall>n \<in> set [0..<11]. ragel_next http_parser_tables r (method_state n) 32 = (3, [5])"
    by (simp add: upt_rec method_state_def hp_2 hp_175 hp_176 hp_177 hp_178 hp_179 hp_180 hp_181 hp_182
        hp_183 hp_184 look.simps)
  then show "n \<le> 10 \<Longrightarrow> ragel_next http_parser_tables r (method_state n) 32 = (3, [5])"
    by simp
qed

end
