(* ===== verification/Http_Request_Run.thy ===== *)
theory Http_Request_Run
  imports Http_Request_Line
begin

text \<open>
  The request scanner on a whole request. \<open>text_at\<close> says what the buffer holds at a position, \<open>reaches\<close> that
  the scanning loop gets from one configuration to another; the lemmas walk through the method, the target,
  the version and the header lines.
\<close>

section \<open>Configurations\<close>

definition text_at :: "string \<Rightarrow> nat \<Rightarrow> string \<Rightarrow> bool" where
  "text_at buffer p xs \<longleftrightarrow> take (length xs) (drop p buffer) = xs"

lemma text_at_Nil [simp]: "text_at buffer p []"
  by (simp add: text_at_def)

lemma text_at_length: "text_at buffer p xs \<Longrightarrow> xs \<noteq> [] \<Longrightarrow> p + length xs \<le> length buffer"
  unfolding text_at_def using length_take [of "length xs" "drop p buffer"] by (cases "length xs") auto

lemma text_at_Cons [simp]:
  "text_at buffer p (x # xs) \<longleftrightarrow> p < length buffer \<and> buffer ! p = x \<and> text_at buffer (Suc p) xs"
proof (cases "p < length buffer")
  case True
  then have "drop p buffer = buffer ! p # drop (Suc p) buffer" by (simp add: Cons_nth_drop_Suc)
  then show ?thesis using True by (simp add: text_at_def)
qed (simp add: text_at_def)

lemma text_at_append [simp]:
  "text_at buffer p (xs @ ys) \<longleftrightarrow> text_at buffer p xs \<and> text_at buffer (p + length xs) ys"
  by (induction xs arbitrary: p) auto

lemma std_string_text_at:
  "text_at buffer p xs \<Longrightarrow> p \<le> length buffer \<Longrightarrow> length buffer < 2 ^ 63 \<Longrightarrow> std_string buffer p (length xs) = Inr xs"
  using text_at_length [of buffer p xs] by (cases "xs = []") (auto simp: std_string_def text_at_def)

lemma LEN_diff: "at \<le> p \<Longrightarrow> p < 2 ^ 63 \<Longrightarrow> LEN at p = p - at"
  by (simp add: LEN_def)

type_synonym 'd conf = "int \<times> nat \<times> 'd http_parser"

definition run_from :: "string \<Rightarrow> 'd conf \<Rightarrow> parse_exc + 'd conf" where
  "run_from buffer = (\<lambda>(cs, p, parser). http_parser_loop buffer p (drop p buffer) cs parser)"

definition reaches :: "string \<Rightarrow> 'd conf \<Rightarrow> 'd conf \<Rightarrow> bool" where
  "reaches buffer c c' \<longleftrightarrow> run_from buffer c = run_from buffer c'"

lemma reaches_refl [simp]: "reaches buffer c c"
  by (simp add: reaches_def)

lemma reaches_trans [trans]: "reaches buffer a b \<Longrightarrow> reaches buffer b c \<Longrightarrow> reaches buffer a c"
  by (simp add: reaches_def)

lemma reaches_step:
  assumes "text_at buffer p [c]"
    and "ragel_next http_parser_tables (hp_uri_relaxed parser) cs (schar c) = (cs', acts)"
    and "http_parser_actions_run buffer p acts parser = Inr (parser', False)" "cs' \<noteq> 0"
  shows "reaches buffer (cs, p, parser) (cs', Suc p, parser')"
proof -
  have "drop p buffer = c # drop (Suc p) buffer"
    using assms(1) by (auto simp: Cons_nth_drop_Suc)
  then show ?thesis
    using assms by (simp add: reaches_def run_from_def http_parser_error_def)
qed

text \<open>A piece of text over which the machine makes no callback.\<close>

definition quiet :: "bool \<Rightarrow> int \<Rightarrow> string \<Rightarrow> int \<Rightarrow> bool" where
  "quiet r cs xs cs' \<longleftrightarrow>
     (\<forall>buffer p (parser :: request_data http_parser).
        hp_uri_relaxed parser = r \<and> text_at buffer p xs \<longrightarrow>
        reaches buffer (cs, p, parser) (cs', p + length xs, parser))"

lemma quiet_Nil [simp]: "quiet r cs [] cs"
  by (simp add: quiet_def)

lemma quiet_Cons:
  assumes "ragel_next http_parser_tables r cs (schar c) = (cs1, [])" "cs1 \<noteq> 0" "quiet r cs1 xs cs'"
  shows "quiet r cs (c # xs) cs'"
  unfolding quiet_def
proof (intro allI impI)
  fix buffer p and parser :: HttpRequestParser
  assume a: "hp_uri_relaxed parser = r \<and> text_at buffer p (c # xs)"
  then have "reaches buffer (cs, p, parser) (cs1, Suc p, parser)"
    using assms(1,2) by (intro reaches_step [of _ _ c]) auto
  also have "reaches buffer (cs1, Suc p, parser) (cs', Suc p + length xs, parser)"
    using a assms(3) unfolding quiet_def by (meson text_at_Cons)
  finally show "reaches buffer (cs, p, parser) (cs', p + length (c # xs), parser)" by simp
qed

lemma quiet_loop:
  "(\<And>c. P c \<Longrightarrow> ragel_next http_parser_tables r cs (schar c) = (cs, [])) \<Longrightarrow> cs \<noteq> 0 \<Longrightarrow> list_all P xs \<Longrightarrow> quiet r cs xs cs"
  by (induction xs) (auto intro: quiet_Cons)

lemma quietD:
  fixes parser :: HttpRequestParser
  shows "quiet (hp_uri_relaxed parser) cs xs cs' \<Longrightarrow> text_at buffer p xs \<Longrightarrow>
   reaches buffer (cs, p, parser) (cs', p + length xs, parser)"
  by (simp add: quiet_def)

section \<open>Quiet pieces\<close>

lemma hexD:
  assumes "hex_digit a"
  shows "ragel_next http_parser_tables r 27 (schar a) = (28, [])" "ragel_next http_parser_tables r 28 (schar a) = (26, [])"
    "ragel_next http_parser_tables r 31 (schar a) = (32, [])" "ragel_next http_parser_tables r 32 (schar a) = (30, [])"
    "ragel_next http_parser_tables r 22 (schar a) = (23, [])" "ragel_next http_parser_tables r 23 (schar a) = (21, [])"
  using assms next_hex by (auto simp: hex_digit_def list_all_iff)

lemma schar_consts [simp]:
  "schar (CHR ''%'') = 37" "schar (CHR '' '') = 32" "schar (CHR ''?'') = 63" "schar (CHR ''#'') = 35"
  "schar (CHR ''/'') = 47" "schar (CHR '':'') = 58" "schar (CHR 0x0D) = 13" "schar (CHR 0x0A) = 10"
  by (simp_all add: schar_def)

lemma next_percent:
  "ragel_next http_parser_tables r 26 37 = (27, [])" "ragel_next http_parser_tables r 33 37 = (27, [])"
  "ragel_next http_parser_tables r 30 37 = (31, [])" "ragel_next http_parser_tables r 21 37 = (22, [])"
  by (simp_all add: hp_26 hp_33 hp_30 hp_21 look.simps)

lemma quiet_uri:
  assumes "\<And>c. P c \<Longrightarrow> ragel_next http_parser_tables r cs (schar c) = (cs, [])" "cs \<noteq> 0"
    and "ragel_next http_parser_tables r cs 37 = (h, [])" "h \<noteq> 0"
    and "\<And>a. hex_digit a \<Longrightarrow> ragel_next http_parser_tables r h (schar a) = (h', [])" "h' \<noteq> 0"
    and "\<And>a. hex_digit a \<Longrightarrow> ragel_next http_parser_tables r h' (schar a) = (cs, [])"
  shows "uri_text P xs \<Longrightarrow> quiet r cs xs cs"
proof (induction xs rule: length_induct)
  case (1 xs)
  show ?case
  proof (cases xs)
    case (Cons c s)
    show ?thesis
    proof (cases "c = CHR ''%''")
      case True
      then obtain a b s' where s: "s = a # b # s'" "hex_digit a" "hex_digit b" "uri_text P s'"
        using "1.prems" Cons by (auto split: list.splits)
      then have "quiet r cs s' cs" using 1 Cons by simp
      then show ?thesis
        using assms s True by (auto simp: Cons intro!: quiet_Cons)
    next
      case False
      then show ?thesis using 1 Cons assms(1,2) by (auto intro!: quiet_Cons)
    qed
  qed simp
qed

lemma path_charD: "path_char c \<Longrightarrow> ragel_next http_parser_tables r 26 (schar c) = (26, [])"
  using next_codes(1) [of r] next_high(1) [of c r] by (auto simp: path_char_def list_all_iff)

lemma query_charD:
  "query_char c \<Longrightarrow> ragel_next http_parser_tables r 30 (schar c) = (30, [])"
  "query_char c \<Longrightarrow> ragel_next http_parser_tables r 21 (schar c) = (21, [])"
  using next_codes(2,3) [of r] next_high(2,3) [of c r] by (auto simp: query_char_def path_char_def list_all_iff)

lemma quiet_path: "uri_text path_char xs \<Longrightarrow> quiet r 26 xs 26"
  by (rule quiet_uri [where P = path_char]) (auto simp: path_charD next_percent hexD)

lemma quiet_query: "uri_text query_char xs \<Longrightarrow> quiet r 30 xs 30"
  by (rule quiet_uri [where P = query_char]) (auto simp: query_charD next_percent hexD)

lemma quiet_fragment: "uri_text query_char xs \<Longrightarrow> quiet r 21 xs 21"
  by (rule quiet_uri [where P = query_char]) (auto simp: query_charD next_percent hexD)

lemma quiet_token: "list_all token_char xs \<Longrightarrow> quiet r 14 xs 14"
  by (rule quiet_loop [where P = token_char]) (use next_codes(4) [of r] in \<open>auto simp: token_char_def list_all_iff\<close>)

lemma quiet_value: "list_all value_char xs \<Longrightarrow> quiet r 16 xs 16"
  by (rule quiet_loop [where P = value_char])
     (use next_codes(5) [of r] next_high(8) in \<open>auto simp: value_char_def list_all_iff\<close>)

lemma quiet_method:
  "list_all upper_digit xs \<Longrightarrow> n + length xs \<le> 10 \<Longrightarrow>
   quiet r (method_state n) xs (method_state (n + length xs))"
proof (induction xs arbitrary: n)
  case (Cons c xs)
  then have "quiet r (method_state (Suc n)) xs (method_state (Suc n + length xs))"
    using Cons.IH [of "Suc n"] by simp
  moreover have "ragel_next http_parser_tables r (method_state n) (schar c) = (method_state (Suc n), [])"
    using Cons.prems next_method_codes(1) [of n r] by (auto simp: upper_digit_def list_all_iff)
  ultimately show ?case by (auto intro!: quiet_Cons simp: method_state_def)
qed simp

text \<open>The path behind its leading slash: state 33 before its first character, 26 behind it.\<close>

lemma quiet_path_first:
  assumes "uri_text path_char xs" "xs \<noteq> []" "hd xs \<noteq> CHR ''/''"
  shows "quiet r 33 xs 26"
proof -
  obtain c s where xs: "xs = c # s" using assms(2) by (cases xs) auto
  show ?thesis
  proof (cases "c = CHR ''%''")
    case True
    then obtain a b s' where s: "s = a # b # s'" "hex_digit a" "hex_digit b" "uri_text path_char s'"
      using assms(1) xs by (auto split: list.splits)
    then show ?thesis
      by (auto simp: xs True hexD next_percent intro!: quiet_Cons quiet_path)
  next
    case False
    then have c: "path_char c" "uri_text path_char s" using assms(1) by (auto simp: xs)
    have "schar c \<noteq> 47" using assms(3) schar_inj [of c "CHR ''/''"] by (simp add: xs del: schar_inj)
    then have "ragel_next http_parser_tables r 33 (schar c) = (26, [])"
      using c(1) next_first_codes(1) [of r] next_high(4) [of c r] by (auto simp: path_char_def list_all_iff)
    then show ?thesis using c(2) by (auto simp: xs intro!: quiet_Cons quiet_path)
  qed
qed

lemma quiet_version: "quiet r 5 ''TTP/1.'' 11"
  by (auto intro!: quiet_Cons simp: schar_def hp_5 hp_6 hp_7 hp_8 hp_9 hp_10 look.simps)

section \<open>Callbacks\<close>

declare http_parser_actions_run.simps(2) [simp del]

definition ready :: "HttpRequestParser \<Rightarrow> bool" where
  "ready parser \<longleftrightarrow>
     hp_http_field parser = Some on_request_http_field \<and> hp_request_method parser = Some on_request_method \<and>
     hp_request_uri parser = Some on_request_uri \<and> hp_fragment parser = Some on_request_fragment \<and>
     hp_request_path parser = Some on_request_path \<and> hp_query_string parser = Some on_request_query \<and>
     hp_http_version parser = Some on_request_version \<and> hp_header_done parser = Some on_request_header_done \<and>
     \<not> hp_xml_sent parser \<and> \<not> hp_json_sent parser"

lemma ready_updates [simp]:
  "ready (parser\<lparr>hp_mark := a\<rparr>) = ready parser" "ready (parser\<lparr>hp_field_start := a\<rparr>) = ready parser"
  "ready (parser\<lparr>hp_field_len := a\<rparr>) = ready parser" "ready (parser\<lparr>hp_query_start := a\<rparr>) = ready parser"
  "ready (parser\<lparr>hp_data := d\<rparr>) = ready parser" "ready (parser\<lparr>hp_body_start := a\<rparr>) = ready parser"
  "ready (parser\<lparr>hp_nread := a\<rparr>) = ready parser" "ready (parser\<lparr>hp_cs := s\<rparr>) = ready parser"
  by (simp_all add: ready_def)

abbreviation request :: "HttpRequestParser \<Rightarrow> HttpRequest" where
  "request parser \<equiv> m_data (hp_data parser)"

definition set_request :: "HttpRequest \<Rightarrow> HttpRequestParser \<Rightarrow> HttpRequestParser" where
  "set_request rq parser = parser\<lparr>hp_data := (hp_data parser)\<lparr>m_data := rq\<rparr>\<rparr>"

lemmas actions_eval = http_parser_actions_run.simps http_parser_action_def call_element_def ready_def Let_def set_request_def

lemma act_mark:
  "http_parser_actions_run buffer p [0] parser = Inr (parser\<lparr>hp_mark := p\<rparr>, False)"
  "http_parser_actions_run buffer p [3] parser = Inr (parser\<lparr>hp_mark := p\<rparr>, False)"
  "http_parser_actions_run buffer p [1] parser = Inr (parser\<lparr>hp_field_start := p\<rparr>, False)"
  "http_parser_actions_run buffer p [8] parser = Inr (parser\<lparr>hp_query_start := p\<rparr>, False)"
  "http_parser_actions_run buffer p [2] parser = Inr (parser\<lparr>hp_field_len := LEN (hp_field_start parser) p\<rparr>, False)"
  by (simp_all add: http_parser_actions_run.simps http_parser_action_def)


text \<open>
  The callbacks at position \<open>p\<close>, just behind a piece \<open>xs\<close> of the buffer that starts at the mark.
\<close>

lemma act_element:
  assumes "length buffer < 2 ^ 63" "ready parser" "text_at buffer at xs" "p = at + length xs" "p \<le> length buffer"
  shows "hp_mark parser = at \<Longrightarrow> http_parser_actions_run buffer p [11] parser = Inr (set_request ((request parser)\<lparr>rq_path := xs\<rparr>) parser, False)"
    and "hp_mark parser = at \<Longrightarrow> http_parser_actions_run buffer p [11, 6] parser = Inr (set_request ((request parser)\<lparr>rq_path := xs\<rparr>) parser, False)"
    and "hp_mark parser = at \<Longrightarrow> http_parser_actions_run buffer p [7] parser = Inr (set_request ((request parser)\<lparr>rq_fragment := xs\<rparr>) parser, False)"
    and "hp_query_start parser = at \<Longrightarrow> http_parser_actions_run buffer p [9, 6] parser = Inr (set_request ((request parser)\<lparr>rq_query := xs\<rparr>) parser, False)"
proof -
  have "LEN at p = length xs" "std_string buffer at (length xs) = Inr xs"
    using assms by (simp_all add: LEN_diff std_string_text_at)
  then show "hp_mark parser = at \<Longrightarrow> http_parser_actions_run buffer p [11] parser = Inr (set_request ((request parser)\<lparr>rq_path := xs\<rparr>) parser, False)"
    and "hp_mark parser = at \<Longrightarrow> http_parser_actions_run buffer p [11, 6] parser = Inr (set_request ((request parser)\<lparr>rq_path := xs\<rparr>) parser, False)"
    and "hp_mark parser = at \<Longrightarrow> http_parser_actions_run buffer p [7] parser = Inr (set_request ((request parser)\<lparr>rq_fragment := xs\<rparr>) parser, False)"
    and "hp_query_start parser = at \<Longrightarrow> http_parser_actions_run buffer p [9, 6] parser = Inr (set_request ((request parser)\<lparr>rq_query := xs\<rparr>) parser, False)"
    using assms(2)
    by (simp_all add: actions_eval on_request_path_def on_request_uri_def on_request_fragment_def on_request_query_def)
qed

lemma act_field:
  assumes "length buffer < 2 ^ 63" "ready parser"
    and "text_at buffer (hp_field_start parser) k" "hp_field_len parser = length k" "k \<noteq> []"
    and "text_at buffer (hp_mark parser) v" "p = hp_mark parser + length v" "p \<le> length buffer"
  shows "http_parser_actions_run buffer p [4] parser =
    Inr (set_request (HttpRequest_setHeader (request parser) k v) parser, False)"
proof -
  have "LEN (hp_mark parser) p = length v" "std_string buffer (hp_mark parser) (length v) = Inr v"
    using assms by (simp_all add: LEN_diff std_string_text_at)
  moreover have "std_string buffer (hp_field_start parser) (length k) = Inr k"
    using assms text_at_length [OF assms(3,5)] by (simp add: std_string_text_at)
  ultimately show ?thesis
    using assms(2,4,5) by (simp add: actions_eval on_request_http_field_def)
qed

lemma act_mark_field:
  "http_parser_actions_run buffer p [3, 4] parser = http_parser_actions_run buffer p [4] (parser\<lparr>hp_mark := p\<rparr>)"
  by (simp add: http_parser_actions_run.simps http_parser_action_def)

section \<open>A header line\<close>

definition field_name :: "string \<Rightarrow> bool" where
  "field_name k \<longleftrightarrow> k \<noteq> [] \<and> list_all token_char k"

text \<open>A value does not begin with white space, which the scanner skips.\<close>

definition field_value :: "string \<Rightarrow> bool" where
  "field_value v \<longleftrightarrow> list_all value_char v \<and> (v = [] \<or> schar (hd v) \<noteq> 9 \<and> schar (hd v) \<noteq> 32)"

definition header_line :: "string \<times> string \<Rightarrow> string" where
  "header_line = (\<lambda>(k, v). k @ '': '' @ v @ CRLF)"

lemma next_header:
  "ragel_next http_parser_tables r 14 58 = (15, [2])" "ragel_next http_parser_tables r 15 32 = (15, [3])"
  "ragel_next http_parser_tables r 15 13 = (17, [3, 4])" "ragel_next http_parser_tables r 16 13 = (17, [4])"
  "ragel_next http_parser_tables r 17 10 = (13, [])"
  by (simp_all add: hp_14 hp_15 hp_16 hp_17 look.simps)

lemma reaches_field_name:
  assumes "field_name k" "text_at buffer p (k @ '': '')" "length buffer < 2 ^ 63"
  shows "reaches buffer (13, p, parser :: HttpRequestParser)
    (15, p + length k + 2, parser\<lparr>hp_field_start := p, hp_field_len := length k, hp_mark := p + length k + 1\<rparr>)"
proof -
  obtain c s where k: "k = c # s" "token_char c" "list_all token_char s"
    using assms(1) by (cases k) (auto simp: field_name_def)
  note at = assms(2) [unfolded k(1)]
  let ?q = "parser\<lparr>hp_field_start := p\<rparr>"
  have "ragel_next http_parser_tables r 13 (schar c) = (14, [1])" for r
    using k(2) next_first_codes(4) [of r] by (auto simp: token_char_def list_all_iff)
  then have "reaches buffer (13, p, parser) (14, Suc p, ?q)"
    using at by (intro reaches_step [of _ _ c]) (auto simp: act_mark)
  also have "reaches buffer \<dots> (14, Suc p + length s, ?q)"
    using at by (intro quietD quiet_token k(3)) simp
  also have "reaches buffer \<dots> (15, Suc (Suc p + length s), ?q\<lparr>hp_field_len := LEN p (Suc p + length s)\<rparr>)"
    using at by (intro reaches_step [of _ _ "CHR '':''"]) (auto simp: next_header act_mark)
  also have "reaches buffer \<dots> (15, Suc (Suc (Suc p + length s)),
      ?q\<lparr>hp_field_len := LEN p (Suc p + length s), hp_mark := Suc (Suc p + length s)\<rparr>)"
    using at by (intro reaches_step [of _ _ "CHR '' ''"]) (auto simp: next_header act_mark)
  finally show ?thesis
    using at assms(3) by (simp add: k(1) LEN_diff)
qed

lemma reaches_header_line:
  assumes "field_name k" "field_value v" "text_at buffer p (header_line (k, v))" "length buffer < 2 ^ 63" "ready parser"
  shows "reaches buffer (13, p, parser)
    (13, p + length (header_line (k, v)),
     set_request (HttpRequest_setHeader (request parser) k v)
       (parser\<lparr>hp_field_start := p, hp_field_len := length k, hp_mark := p + length k + 2\<rparr>))"
proof -
  note at = assms(3) [unfolded header_line_def CRLF_def, simplified]
  let ?n = "p + length k + 2"
  let ?q = "parser\<lparr>hp_field_start := p, hp_field_len := length k, hp_mark := ?n\<rparr>"
  let ?q' = "set_request (HttpRequest_setHeader (request parser) k v) ?q"
  have "reaches buffer (13, p, parser)
      (15, ?n, parser\<lparr>hp_field_start := p, hp_field_len := length k, hp_mark := p + length k + 1\<rparr>)" (is "reaches _ _ (_, _, ?start)")
    using at assms by (intro reaches_field_name) auto
  also have "reaches buffer \<dots> (17, Suc (?n + length v), ?q')"
  proof (cases v)
    case Nil
    have "http_parser_actions_run buffer ?n [4] ?q = Inr (?q', False)"
      using act_field [of buffer ?q k v ?n] at assms(1,4,5) by (simp add: Nil field_name_def set_request_def)
    then have "reaches buffer (15, ?n, ?start) (17, Suc ?n, ?q')"
      using at by (intro reaches_step [of _ _ "CHR 0x0D"]) (auto simp: Nil next_header act_mark_field)
    then show ?thesis by (simp add: Nil)
  next
    case (Cons c s)
    have c: "schar c < 0 \<or> schar c \<in> set visible_codes" "list_all value_char s"
      using assms(2) by (auto simp: Cons field_value_def value_char_def)
    then have "ragel_next http_parser_tables r 15 (schar c) = (16, [3])" for r
      using next_first_codes(5) [of r] next_high(7) [of c r] by (auto simp: list_all_iff)
    then have "reaches buffer (15, ?n, ?start) (16, Suc ?n, ?q)"
      using at by (intro reaches_step [of _ _ c]) (auto simp: Cons act_mark)
    also have "reaches buffer \<dots> (16, Suc ?n + length s, ?q)"
      using at by (intro quietD quiet_value c(2)) (simp add: Cons)
    also have "reaches buffer \<dots> (17, Suc (Suc ?n + length s), ?q')"
    proof (rule reaches_step [of _ _ "CHR 0x0D"])
      show "http_parser_actions_run buffer (Suc ?n + length s) [4] ?q = Inr (?q', False)"
        using act_field [of buffer ?q k v "Suc ?n + length s"] at assms(1,4,5)
        by (simp add: Cons field_name_def set_request_def)
    qed (use at in \<open>auto simp: Cons next_header\<close>)
    finally show ?thesis by (simp add: Cons)
  qed
  also have "reaches buffer \<dots> (13, Suc (Suc (?n + length v)), ?q')"
    using at by (intro reaches_step [of _ _ "CHR 0x0A"]) (auto simp: next_header)
  finally show ?thesis by (simp add: header_line_def CRLF_def add.assoc)
qed

section \<open>The phases of a request\<close>

text \<open>
  \<open>good buffer rq parser\<close>: the parser is in the middle of its first call of \<open>http_parser_execute\<close> and has
  built the request \<open>rq\<close> so far. \<open>runs\<close> is a Hoare triple over the scanning loop.
\<close>

definition good :: "string \<Rightarrow> HttpRequest \<Rightarrow> HttpRequestParser \<Rightarrow> bool" where
  "good buffer rq parser \<longleftrightarrow>
     ready parser \<and> hp_cs parser = 1 \<and> hp_nread parser = 0 \<and> hp_body_start parser = 0 \<and>
     hp_mark parser < length buffer \<and> hp_field_start parser < length buffer \<and>
     hp_field_len parser \<le> length buffer \<and> hp_data parser = \<lparr>m_data = rq, m_error = 0\<rparr>"

definition runs :: "string \<Rightarrow> int \<Rightarrow> nat \<Rightarrow> HttpRequest \<Rightarrow> int \<Rightarrow> nat \<Rightarrow> HttpRequest \<Rightarrow> bool" where
  "runs buffer cs p rq cs' p' rq' \<longleftrightarrow>
     (\<forall>parser. good buffer rq parser \<longrightarrow>
        (\<exists>parser'. reaches buffer (cs, p, parser) (cs', p', parser') \<and> good buffer rq' parser'))"

lemma good_ready: "good buffer rq parser \<Longrightarrow> ready parser"
  by (simp add: good_def)

lemma runs_refl [simp]: "runs buffer cs p rq cs p rq"
  unfolding runs_def using reaches_refl by blast

lemma runs_trans [trans]:
  "runs buffer cs p rq cs1 p1 rq1 \<Longrightarrow> runs buffer cs1 p1 rq1 cs2 p2 rq2 \<Longrightarrow> runs buffer cs p rq cs2 p2 rq2"
  unfolding runs_def by (meson reaches_trans)

lemma good_set_request:
  "good buffer rq parser \<Longrightarrow> good buffer rq' (set_request rq' parser)"
  by (simp add: good_def set_request_def)

lemma good_updates:
  assumes "good buffer rq parser" "a < length buffer"
  shows "good buffer rq (parser\<lparr>hp_mark := a\<rparr>)" "good buffer rq (parser\<lparr>hp_query_start := b\<rparr>)"
  using assms by (auto simp: good_def)

lemma runs_header_line:
  assumes "field_name k" "field_value v" "text_at buffer p (header_line (k, v))" "length buffer < 2 ^ 63"
  shows "runs buffer 13 p rq 13 (p + length (header_line (k, v))) (HttpRequest_setHeader rq k v)"
  unfolding runs_def
proof (intro allI impI)
  fix parser assume g: "good buffer rq parser"
  let ?q = "set_request (HttpRequest_setHeader (request parser) k v)
       (parser\<lparr>hp_field_start := p, hp_field_len := length k, hp_mark := p + length k + 2\<rparr>)"
  have "good buffer (HttpRequest_setHeader rq k v) ?q"
    using g text_at_length [OF assms(3)] by (simp add: good_def set_request_def header_line_def CRLF_def)
  then show "\<exists>parser'. reaches buffer (13, p, parser) (13, p + length (header_line (k, v)), parser') \<and>
      good buffer (HttpRequest_setHeader rq k v) parser'"
    using reaches_header_line [OF assms good_ready [OF g]] by blast
qed

definition set_headers :: "(string \<times> string) list \<Rightarrow> HttpRequest \<Rightarrow> HttpRequest" where
  "set_headers hs rq = fold (\<lambda>(k, v) rq. HttpRequest_setHeader rq k v) hs rq"

lemma runs_headers:
  "\<forall>(k, v) \<in> set hs. field_name k \<and> field_value v \<Longrightarrow> text_at buffer p (concat (map header_line hs)) \<Longrightarrow>
   length buffer < 2 ^ 63 \<Longrightarrow>
   runs buffer 13 p rq 13 (p + length (concat (map header_line hs))) (set_headers hs rq)"
proof (induction hs arbitrary: p rq)
  case (Cons h hs)
  obtain k v where h: "h = (k, v)" by (cases h)
  have "runs buffer 13 p rq 13 (p + length (header_line (k, v))) (HttpRequest_setHeader rq k v)"
    using Cons.prems by (intro runs_header_line) (auto simp: h)
  also have "runs buffer 13 (p + length (header_line (k, v))) (HttpRequest_setHeader rq k v)
      13 (p + length (header_line (k, v)) + length (concat (map header_line hs))) (set_headers (h # hs) rq)"
    using Cons.prems Cons.IH [of "p + length (header_line (k, v))"] by (simp add: h set_headers_def)
  finally show ?case by (simp add: h add.assoc)
qed (simp add: set_headers_def)

subsection \<open>The method\<close>

lemma runs_method:
  assumes "text_at buffer 0 (m @ '' '')" "m \<noteq> []" "list_all upper_digit m" "length m \<le> 11"
    and "CharsToHttpMethod buffer = M" "M \<noteq> INVALID_METHOD"
  shows "runs buffer 1 0 rq 3 (Suc (length m)) (rq\<lparr>rq_method := M\<rparr>)"
  unfolding runs_def
proof (intro allI impI)
  fix parser assume g: "good buffer rq parser"
  obtain c s where m: "m = c # s" using assms(2) by (cases m) auto
  note at = assms(1) [unfolded m, simplified]
  let ?q = "parser\<lparr>hp_mark := 0\<rparr>"
  have c: "upper_digit c" "list_all upper_digit s" "length s \<le> 10" using assms(3,4) by (auto simp: m)
  have s: "quiet r 2 s (method_state (length s))" for r
    using quiet_method [OF c(2), of 0 r] c(3) by (simp add: method_state_def)
  have "ragel_next http_parser_tables r 1 (schar c) = (2, [0])" for r
    using c(1) next_first_codes(6) [of r] by (auto simp: upper_digit_def list_all_iff)
  then have "reaches buffer (1, 0, parser) (2, Suc 0, ?q)"
    using at by (intro reaches_step [of _ _ c]) (auto simp: act_mark)
  also have "reaches buffer \<dots> (method_state (length s), Suc 0 + length s, ?q)"
    using at by (intro quietD s) simp
  also have "reaches buffer \<dots> (3, Suc (Suc 0 + length s), set_request (rq\<lparr>rq_method := M\<rparr>) ?q)"
  proof (rule reaches_step [of _ _ "CHR '' ''"])
    show "http_parser_actions_run buffer (Suc 0 + length s) [5] ?q = Inr (set_request (rq\<lparr>rq_method := M\<rparr>) ?q, False)"
      using assms(5,6) g by (simp add: actions_eval good_def on_request_method_def)
  qed (use at c(3) in \<open>auto simp: next_method_codes\<close>)
  finally show "\<exists>parser'. reaches buffer (1, 0, parser) (3, Suc (length m), parser') \<and> good buffer (rq\<lparr>rq_method := M\<rparr>) parser'"
    using good_set_request [OF good_updates(1) [OF g, of 0]] at by (auto simp: m)
qed

subsection \<open>The target\<close>

text \<open>The character behind a part of the target and the state it leads to.\<close>

definition after_path :: "(char \<times> int) list" where
  "after_path = [(CHR '' '', 4), (CHR ''#'', 20), (CHR ''?'', 29)]"

definition after_query :: "(char \<times> int) list" where
  "after_query = [(CHR '' '', 4), (CHR ''#'', 20)]"

lemma next_ends:
  "ragel_next http_parser_tables r 26 32 = (4, [11, 6])" "ragel_next http_parser_tables r 33 32 = (4, [11, 6])"
  "ragel_next http_parser_tables r 26 35 = (20, [11, 6])" "ragel_next http_parser_tables r 33 35 = (20, [11, 6])"
  "ragel_next http_parser_tables r 26 63 = (29, [11])" "ragel_next http_parser_tables r 33 63 = (29, [11])"
  "ragel_next http_parser_tables r 30 32 = (4, [9, 6])" "ragel_next http_parser_tables r 30 35 = (20, [9, 6])"
  "ragel_next http_parser_tables r 21 32 = (4, [7])"
  by (simp_all add: hp_26 hp_33 hp_30 hp_21 look.simps)

lemma next_after_path:
  assumes "(c, cs') \<in> set after_path"
  obtains acts where "acts = [11] \<or> acts = [11, 6]" "cs' \<noteq> 0"
    "\<And>r. ragel_next http_parser_tables r 26 (schar c) = (cs', acts)"
    "\<And>r. ragel_next http_parser_tables r 33 (schar c) = (cs', acts)"
proof -
  consider "c = CHR '' ''" "cs' = 4" | "c = CHR ''#''" "cs' = 20" | "c = CHR ''?''" "cs' = 29"
    using assms by (auto simp: after_path_def)
  then show thesis by cases (rule that, simp_all add: next_ends)+
qed

lemma next_after_query:
  assumes "(c, cs') \<in> set after_query"
  shows "ragel_next http_parser_tables r 30 (schar c) = (cs', [9, 6])" "cs' \<noteq> 0"
  using assms by (auto simp: after_query_def next_ends)

definition path_text :: "string \<Rightarrow> bool" where
  "path_text path \<longleftrightarrow>
     (\<exists>xs. path = CHR ''/'' # xs \<and> uri_text path_char xs \<and> (xs = [] \<or> hd xs \<noteq> CHR ''/''))"

lemma runs_path:
  assumes "path_text path" "text_at buffer p (path @ [c])" "(c, cs') \<in> set after_path" "length buffer < 2 ^ 63"
  shows "runs buffer 3 p rq cs' (Suc (p + length path)) (rq\<lparr>rq_path := path\<rparr>)"
  unfolding runs_def
proof (intro allI impI)
  fix parser assume g: "good buffer rq parser"
  obtain xs where path: "path = CHR ''/'' # xs" and xs: "uri_text path_char xs" "xs = [] \<or> hd xs \<noteq> CHR ''/''"
    using assms(1) by (auto simp: path_text_def)
  note at = assms(2) [unfolded path, simplified]
  let ?q = "parser\<lparr>hp_mark := p\<rparr>" and ?cs = "if xs = [] then 33 else 26"
  have "reaches buffer (3, p, parser) (33, Suc p, ?q)"
    using at by (intro reaches_step [of _ _ "CHR ''/''"]) (auto simp: hp_3 look.simps act_mark)
  also have "reaches buffer \<dots> (?cs, Suc p + length xs, ?q)"
    using at xs quietD [of ?q, OF quiet_path_first, of xs buffer "Suc p"] by (cases "xs = []") auto
  also have "reaches buffer \<dots> (cs', Suc (Suc p + length xs), set_request (rq\<lparr>rq_path := path\<rparr>) ?q)"
  proof -
    obtain acts where acts: "acts = [11] \<or> acts = [11, 6]" "cs' \<noteq> 0"
      "ragel_next http_parser_tables (hp_uri_relaxed ?q) ?cs (schar c) = (cs', acts)"
      by (rule next_after_path [OF assms(3)], cases "xs = []") auto
    have "http_parser_actions_run buffer (Suc p + length xs) acts ?q = Inr (set_request (rq\<lparr>rq_path := path\<rparr>) ?q, False)"
    proof -
      have "ready ?q" "text_at buffer p path" "Suc p + length xs = p + length path" "Suc p + length xs \<le> length buffer"
        "request ?q = rq"
        using assms(2) g at by (simp_all add: path good_def)
      then show ?thesis
        using acts(1) act_element(1,2) [OF assms(4), of ?q p path "Suc p + length xs"] by (elim disjE) simp_all
    qed
    then show ?thesis
      using acts(2,3) at by (intro reaches_step [of _ _ c]) auto
  qed
  finally show "\<exists>parser'. reaches buffer (3, p, parser) (cs', Suc (p + length path), parser') \<and>
      good buffer (rq\<lparr>rq_path := path\<rparr>) parser'"
    using good_set_request [OF good_updates(1) [OF g, of p]] at by (auto simp: path)
qed

definition query_text :: "string \<Rightarrow> bool" where
  "query_text q \<longleftrightarrow> q \<noteq> [] \<and> uri_text query_char q"

text \<open>The first character of a query or a fragment sets its start; the rest is quiet.\<close>

lemma query_first:
  assumes "query_text q" "text_at buffer p q"
  shows "reaches buffer (29, p, parser) (30, p + length q, (parser :: HttpRequestParser)\<lparr>hp_query_start := p\<rparr>)"
    and "reaches buffer (20, p, parser) (21, p + length q, parser\<lparr>hp_mark := p\<rparr>)"
proof -
  obtain c s where q: "q = c # s" using assms(1) by (cases q) (auto simp: query_text_def)
  have "\<exists>h h' acts. ragel_next http_parser_tables r 29 (schar c) = (h, [8]) \<and> h \<noteq> 0 \<and> quiet r h s 30 \<and>
      ragel_next http_parser_tables r 20 (schar c) = (h', [0]) \<and> h' \<noteq> 0 \<and> quiet r h' s 21" for r
  proof (cases "c = CHR ''%''")
    case True
    then obtain a b s' where s: "s = a # b # s'" "hex_digit a" "hex_digit b" "uri_text query_char s'"
      using assms(1) q by (auto simp: query_text_def split: list.splits)
    then have "quiet r 31 s 30" "quiet r 22 s 21"
      by (auto simp: hexD intro!: quiet_Cons quiet_query quiet_fragment)
    then show ?thesis by (auto simp: True hp_29 hp_20 look.simps)
  next
    case False
    then have c: "query_char c" "uri_text query_char s" using assms(1) by (auto simp: q query_text_def)
    then have "ragel_next http_parser_tables r 29 (schar c) = (30, [8])" "ragel_next http_parser_tables r 20 (schar c) = (21, [0])"
      using next_first_codes(2,3) [of r] next_high(5,6) [of c r]
      by (auto simp: query_char_def path_char_def list_all_iff)
    then show ?thesis using quiet_query [OF c(2)] quiet_fragment [OF c(2)] by auto
  qed
  then obtain h h' where n: "ragel_next http_parser_tables (hp_uri_relaxed parser) 29 (schar c) = (h, [8])" "h \<noteq> 0"
      "quiet (hp_uri_relaxed parser) h s 30"
      "ragel_next http_parser_tables (hp_uri_relaxed parser) 20 (schar c) = (h', [0])" "h' \<noteq> 0"
      "quiet (hp_uri_relaxed parser) h' s 21" by metis
  have at: "text_at buffer p [c]" "text_at buffer (Suc p) s" using assms(2) by (auto simp: q)
  have "reaches buffer (29, p, parser) (h, Suc p, parser\<lparr>hp_query_start := p\<rparr>)"
    using at n by (intro reaches_step [of _ _ c]) (auto simp: act_mark)
  also have "reaches buffer \<dots> (30, Suc p + length s, parser\<lparr>hp_query_start := p\<rparr>)"
    using at n by (intro quietD) auto
  finally show "reaches buffer (29, p, parser) (30, p + length q, parser\<lparr>hp_query_start := p\<rparr>)" by (simp add: q)
  have "reaches buffer (20, p, parser) (h', Suc p, parser\<lparr>hp_mark := p\<rparr>)"
    using at n by (intro reaches_step [of _ _ c]) (auto simp: act_mark)
  also have "reaches buffer \<dots> (21, Suc p + length s, parser\<lparr>hp_mark := p\<rparr>)"
    using at n by (intro quietD) auto
  finally show "reaches buffer (20, p, parser) (21, p + length q, parser\<lparr>hp_mark := p\<rparr>)" by (simp add: q)
qed

lemma runs_query:
  assumes "query_text q" "text_at buffer p (q @ [c])" "(c, cs') \<in> set after_query" "length buffer < 2 ^ 63"
  shows "runs buffer 29 p rq cs' (Suc (p + length q)) (rq\<lparr>rq_query := q\<rparr>)"
  unfolding runs_def
proof (intro allI impI)
  fix parser assume g: "good buffer rq parser"
  let ?q = "parser\<lparr>hp_query_start := p\<rparr>"
  have "reaches buffer (29, p, parser) (30, p + length q, ?q)"
    using assms by (intro query_first) auto
  also have "reaches buffer \<dots> (cs', Suc (p + length q), set_request (rq\<lparr>rq_query := q\<rparr>) ?q)"
  proof (rule reaches_step [of _ _ c])
    show "http_parser_actions_run buffer (p + length q) [9, 6] ?q = Inr (set_request (rq\<lparr>rq_query := q\<rparr>) ?q, False)"
      using act_element(4) [of buffer ?q p q "p + length q"] assms g by (simp add: good_def)
  qed (use assms next_after_query in auto)
  finally show "\<exists>parser'. reaches buffer (29, p, parser) (cs', Suc (p + length q), parser') \<and>
      good buffer (rq\<lparr>rq_query := q\<rparr>) parser'"
    using good_set_request [OF good_updates(2) [OF g]] assms(2) by fastforce
qed

lemma runs_fragment:
  assumes "query_text f" "text_at buffer p (f @ '' '')" "length buffer < 2 ^ 63"
  shows "runs buffer 20 p rq 4 (Suc (p + length f)) (rq\<lparr>rq_fragment := f\<rparr>)"
  unfolding runs_def
proof (intro allI impI)
  fix parser assume g: "good buffer rq parser"
  let ?q = "parser\<lparr>hp_mark := p\<rparr>"
  have "reaches buffer (20, p, parser) (21, p + length f, ?q)"
    using assms by (intro query_first) auto
  also have "reaches buffer \<dots> (4, Suc (p + length f), set_request (rq\<lparr>rq_fragment := f\<rparr>) ?q)"
  proof (rule reaches_step [of _ _ "CHR '' ''"])
    show "http_parser_actions_run buffer (p + length f) [7] ?q = Inr (set_request (rq\<lparr>rq_fragment := f\<rparr>) ?q, False)"
      using act_element(3) [of buffer ?q p f "p + length f"] assms g by (simp add: good_def)
  qed (use assms in \<open>auto simp: next_ends\<close>)
  finally show "\<exists>parser'. reaches buffer (20, p, parser) (4, Suc (p + length f), parser') \<and>
      good buffer (rq\<lparr>rq_fragment := f\<rparr>) parser'"
    using good_set_request [OF good_updates(1) [OF g, of p]] assms(2) by fastforce
qed

definition target_text :: "string \<Rightarrow> string \<Rightarrow> string \<Rightarrow> string" where
  "target_text path query fragment =
     path @ (if query = [] then [] else ''?'' @ query) @ (if fragment = [] then [] else ''#'' @ fragment)"

lemma runs_target:
  assumes "path_text path" "query = [] \<or> query_text query" "fragment = [] \<or> query_text fragment"
    and "text_at buffer p (target_text path query fragment @ '' '')" "length buffer < 2 ^ 63"
    and "rq_query rq = []" "rq_fragment rq = []"
  shows "runs buffer 3 p rq 4 (p + length (target_text path query fragment) + 1)
    (rq\<lparr>rq_path := path, rq_query := query, rq_fragment := fragment\<rparr>)"
proof -
  note at = assms(4) [unfolded target_text_def]
  have rq: "(rq\<lparr>rq_path := path, rq_query := query, rq_fragment := fragment\<rparr>) =
      (if fragment = [] then id else rq_fragment_update (\<lambda>_. fragment))
        ((if query = [] then id else rq_query_update (\<lambda>_. query)) (rq\<lparr>rq_path := path\<rparr>))"
    using assms(6,7) by simp
  let ?c1 = "if query = [] then if fragment = [] then 4 else 20 else 29 :: int"
  let ?ch = "if query = [] then if fragment = [] then CHR '' '' else CHR ''#'' else CHR ''?''"
  have "runs buffer 3 p rq ?c1 (Suc (p + length path)) (rq\<lparr>rq_path := path\<rparr>)"
    by (rule runs_path [where c = ?ch]) (use assms at in \<open>auto simp: after_path_def split: if_splits\<close>)
  also have "runs buffer ?c1 (Suc (p + length path)) (rq\<lparr>rq_path := path\<rparr>)
      (if fragment = [] then 4 else 20) (Suc (p + length path) + (if query = [] then 0 else length query + 1))
      ((if query = [] then id else rq_query_update (\<lambda>_. query)) (rq\<lparr>rq_path := path\<rparr>))"
  proof (cases "query = []")
    case False
    have "runs buffer 29 (Suc (p + length path)) (rq\<lparr>rq_path := path\<rparr>) (if fragment = [] then 4 else 20)
        (Suc (Suc (p + length path) + length query)) (rq\<lparr>rq_path := path, rq_query := query\<rparr>)"
      by (rule runs_query [where c = "if fragment = [] then CHR '' '' else CHR ''#''"])
         (use assms at False in \<open>auto simp: after_query_def split: if_splits\<close>)
    then show ?thesis using False by simp
  qed simp
  also have "runs buffer (if fragment = [] then 4 else 20)
      (Suc (p + length path) + (if query = [] then 0 else length query + 1))
      ((if query = [] then id else rq_query_update (\<lambda>_. query)) (rq\<lparr>rq_path := path\<rparr>))
      4 (p + length (target_text path query fragment) + 1) (rq\<lparr>rq_path := path, rq_query := query, rq_fragment := fragment\<rparr>)"
  proof (cases "fragment = []")
    case False
    have "runs buffer 20 p' rq' 4 (Suc (p' + length fragment)) (rq'\<lparr>rq_fragment := fragment\<rparr>)"
      if "p' = Suc (p + length path) + (if query = [] then 0 else length query + 1)" for p' rq'
      using assms at False that by (intro runs_fragment) (auto split: if_splits)
    from this [OF refl, of "(if query = [] then id else rq_query_update (\<lambda>_. query)) (rq\<lparr>rq_path := path\<rparr>)"]
    show ?thesis using False unfolding rq by (auto simp: target_text_def add.assoc)
  next
    case True
    then show ?thesis unfolding rq by (auto simp: target_text_def add.assoc)
  qed
  finally show ?thesis .
qed

subsection \<open>The version and the end of the head\<close>

definition version_digit :: "u8 \<Rightarrow> char" where
  "version_digit v = (if v = 0x11 then CHR ''1'' else CHR ''0'')"

lemma next_version:
  "ragel_next http_parser_tables r 4 (schar (CHR ''H'')) = (5, [0])"
  "ragel_next http_parser_tables r 11 (schar (version_digit v)) = (12, [])"
  "ragel_next http_parser_tables r 12 13 = (17, [10])"
  by (simp_all add: schar_def version_digit_def hp_4 hp_11 hp_12 look.simps)

lemma drop_text_at: "text_at buffer p xs \<Longrightarrow> \<exists>ys. drop p buffer = xs @ ys"
  by (metis append_take_drop_id text_at_def)

lemma runs_version:
  assumes "text_at buffer p (''HTTP/1.'' @ [version_digit v] @ CRLF)" "v = 0x11 \<or> v = 0x10" "length buffer < 2 ^ 63"
  shows "runs buffer 4 p rq 13 (p + 10) (rq\<lparr>rq_version := v\<rparr>)"
  unfolding runs_def
proof (intro allI impI)
  fix parser assume g: "good buffer rq parser"
  note at = assms(1) [unfolded CRLF_def, simplified]
  let ?q = "parser\<lparr>hp_mark := p\<rparr>" and ?q' = "set_request (rq\<lparr>rq_version := v\<rparr>) (parser\<lparr>hp_mark := p\<rparr>)"
  have "reaches buffer (4, p, parser) (5, Suc p, ?q)"
    using at by (intro reaches_step [of _ _ "CHR ''H''"]) (auto simp: next_version act_mark)
  also have "reaches buffer \<dots> (11, Suc p + length ''TTP/1.'', ?q)"
    by (intro quietD quiet_version) (use at in simp)
  also have "reaches buffer \<dots> (12, Suc (Suc p + length ''TTP/1.''), ?q)"
    using at by (intro reaches_step [of _ _ "version_digit v"]) (auto simp: next_version eval_nat_numeral)
  also have "reaches buffer \<dots> (17, Suc (Suc (Suc p + length ''TTP/1.'')), ?q')"
  proof (rule reaches_step [of _ _ "CHR 0x0D"])
    obtain ys where ys: "drop p buffer = ''HTTP/1.'' @ [version_digit v] @ CHR 0x0D # CHR 0x0A # ys"
      using drop_text_at [OF assms(1)] by (auto simp: CRLF_def)
    have "LEN p (Suc (Suc p + length ''TTP/1.'')) = 8"
      using assms(3) at by (simp add: LEN_diff)
    moreover have "c_str (drop p buffer) = ''HTTP/1.'' @ version_digit v # CHR 0x0D # CHR 0x0A # c_str ys"
      by (simp add: ys c_str_def version_digit_def)
    then have "strncmp_eq (drop p buffer) ''HTTP/1.1'' 8 = (v = 0x11)" "strncmp_eq (drop p buffer) ''HTTP/1.0'' 8 = (v = 0x10)"
      using assms(2) by (auto simp: strncmp_eq_def version_digit_def c_str_def)
    ultimately show "http_parser_actions_run buffer (Suc (Suc p + length ''TTP/1.'')) [10] ?q = Inr (?q', False)"
      using assms(2) g by (elim disjE) (simp_all add: actions_eval good_def on_request_version_def)
  qed (use at in \<open>auto simp: next_version eval_nat_numeral\<close>)
  also have "reaches buffer \<dots> (13, Suc (Suc (Suc (Suc p + length ''TTP/1.''))), ?q')"
    using at by (intro reaches_step [of _ _ "CHR 0x0A"]) (auto simp: next_header eval_nat_numeral)
  finally show "\<exists>parser'. reaches buffer (4, p, parser) (13, p + 10, parser') \<and> good buffer (rq\<lparr>rq_version := v\<rparr>) parser'"
    using good_set_request [OF good_updates(1) [OF g, of p]] at by (auto simp: eval_nat_numeral)
qed

lemma run_from_end:
  assumes "text_at buffer p CRLF" "good buffer rq parser"
  shows "\<exists>parser'. run_from buffer (13, p, parser) = Inr (348, p + 2, parser') \<and> good buffer rq (parser'\<lparr>hp_body_start := 0\<rparr>) \<and>
    hp_body_start parser' = p + 2"
proof -
  note at = assms(1) [unfolded CRLF_def, simplified]
  let ?q = "parser\<lparr>hp_field_start := p\<rparr>"
  have "reaches buffer (13, p, parser) (18, Suc p, ?q)"
    using at by (intro reaches_step [of _ _ "CHR 0x0D"]) (auto simp: hp_13 look.simps act_mark)
  then have "run_from buffer (13, p, parser) = run_from buffer (18, Suc p, ?q)" by (simp add: reaches_def)
  also have "drop (Suc p) buffer = CHR 0x0A # drop (Suc (Suc p)) buffer"
    using at Cons_nth_drop_Suc [of "Suc p" buffer] by simp
  then have "run_from buffer (18, Suc p, ?q) = Inr (348, Suc (Suc p), ?q\<lparr>hp_body_start := Suc (Suc p)\<rparr>)"
    using assms(2)
    by (simp add: run_from_def hp_18 look.simps actions_eval action_done_def good_def on_request_header_done_def)
  finally show ?thesis
    using assms(2) at by (auto simp: good_def)
qed

section \<open>A whole request\<close>

definition request_head :: "HttpMethod \<Rightarrow> string \<Rightarrow> string \<Rightarrow> string \<Rightarrow> u8 \<Rightarrow> (string \<times> string) list \<Rightarrow> string" where
  "request_head m path query fragment v hs =
     HttpMethodToString m @ '' '' @ target_text path query fragment @ '' HTTP/1.'' @ [version_digit v] @ CRLF @
     concat (map header_line hs) @ CRLF"

definition request_of :: "HttpMethod \<Rightarrow> string \<Rightarrow> string \<Rightarrow> string \<Rightarrow> u8 \<Rightarrow> (string \<times> string) list \<Rightarrow> HttpRequest" where
  "request_of m path query fragment v hs =
     set_headers hs ((HttpRequest_new 0x11 True)\<lparr>rq_method := m, rq_path := path, rq_query := query,
       rq_fragment := fragment, rq_version := v\<rparr>)"

text \<open>What the request grammar allows: every method but \<open>M-SEARCH\<close>, whose hyphen is no method character.\<close>

definition request_ok :: "HttpMethod \<Rightarrow> string \<Rightarrow> string \<Rightarrow> string \<Rightarrow> u8 \<Rightarrow> (string \<times> string) list \<Rightarrow> bool" where
  "request_ok m path query fragment v hs \<longleftrightarrow>
     m \<noteq> INVALID_METHOD \<and> m \<noteq> M_MSEARCH \<and> path_text path \<and> (query = [] \<or> query_text query) \<and>
     (fragment = [] \<or> query_text fragment) \<and> (v = 0x11 \<or> v = 0x10) \<and>
     (\<forall>(k, h) \<in> set hs. field_name k \<and> field_value h)"

lemma method_text:
  assumes "m \<noteq> INVALID_METHOD" "m \<noteq> M_MSEARCH"
  shows "HttpMethodToString m \<noteq> []" "list_all upper_digit (HttpMethodToString m)" "length (HttpMethodToString m) \<le> 11"
proof -
  have digit: "upper_digit c \<longleftrightarrow> 48 \<le> schar c \<and> schar c \<le> 57 \<or> 65 \<le> schar c \<and> schar c \<le> 90" for c
    by (simp only: upper_digit_def upper_digit_codes_def set_append set_upto Un_iff atLeastAtMost_iff)
  have "list_all (\<lambda>(m, s). m = M_MSEARCH \<or> s \<noteq> [] \<and> list_all upper_digit s \<and> length s \<le> 11) HTTP_METHOD_MAP"
    by (simp add: HTTP_METHOD_MAP_def digit schar_def)
  moreover have "(m, HttpMethodToString m) \<in> set HTTP_METHOD_MAP"
    using assms(1) by (cases m) (simp_all add: HttpMethodToString_def HTTP_METHOD_MAP_def)
  ultimately show "HttpMethodToString m \<noteq> []" "list_all upper_digit (HttpMethodToString m)" "length (HttpMethodToString m) \<le> 11"
    using assms(2) by (auto simp: list_all_iff)
qed

lemma good_new:
  "buffer \<noteq> [] \<Longrightarrow> good buffer (HttpRequest_new 0x11 True)
     ((HttpRequestParser_new qs r)\<lparr>hp_nread := 0, hp_mark := 0, hp_field_len := 0, hp_field_start := 0\<rparr>)"
  by (simp add: good_def ready_def HttpRequestParser_new_def http_parser_init_def http_parser_start_def)

lemma runs_request_head:
  assumes ok: "request_ok m path query fragment v hs" and "length buffer < 2 ^ 63"
    and at: "text_at buffer 0 (request_head m path query fragment v hs)" and "CharsToHttpMethod buffer = m"
  shows "runs buffer 1 0 (HttpRequest_new 0x11 True) 13 (length (request_head m path query fragment v hs) - 2)
    (request_of m path query fragment v hs)"
proof -
  let ?m = "HttpMethodToString m" and ?t = "target_text path query fragment"
  note ok' = ok [unfolded request_ok_def]
  note mt = method_text [of m]
  define p1 p2 p3 where "p1 = Suc (length ?m)" and "p2 = p1 + length ?t + 1" and "p3 = p2 + 10"
  have at1: "text_at buffer 0 (?m @ '' '')" "text_at buffer p1 (?t @ '' '')"
    "text_at buffer p2 (''HTTP/1.'' @ [version_digit v] @ CRLF)" "text_at buffer p3 (concat (map header_line hs))"
    using at by (simp_all add: request_head_def p1_def p2_def p3_def CRLF_def eval_nat_numeral)
  let ?rq = "HttpRequest_new 0x11 True"
  have "runs buffer 1 0 ?rq 3 p1 (?rq\<lparr>rq_method := m\<rparr>)"
    unfolding p1_def using ok' mt at1 assms(4) by (intro runs_method) auto
  also have "runs buffer 3 p1 \<dots> 4 p2 (?rq\<lparr>rq_method := m, rq_path := path, rq_query := query, rq_fragment := fragment\<rparr>)"
    unfolding p2_def using ok' at1 assms(2) by (intro runs_target) (auto simp: HttpRequest_new_def)
  also have "runs buffer 4 p2 \<dots> 13 p3 (?rq\<lparr>rq_method := m, rq_path := path, rq_query := query, rq_fragment := fragment, rq_version := v\<rparr>)"
    unfolding p3_def using ok' at1 assms(2) by (intro runs_version) auto
  also have "runs buffer 13 p3 \<dots> 13 (p3 + length (concat (map header_line hs))) (request_of m path query fragment v hs)"
    unfolding request_of_def using ok' at1 assms(2) by (intro runs_headers) auto
  finally show ?thesis
    by (simp add: request_head_def p1_def p2_def p3_def CRLF_def eval_nat_numeral add.assoc)
qed

lemma execute_request_head:
  assumes "request_ok m path query fragment v hs"
    and "length (request_head m path query fragment v hs @ rest) < 2 ^ 63"
  shows "\<exists>parser. HttpRequestParser_execute (HttpRequestParser_new qs r) (request_head m path query fragment v hs @ rest) =
      Inr (length (request_head m path query fragment v hs), rest, parser) \<and>
    HttpRequestParser_isFinished parser = 1 \<and> \<not> HttpRequestParser_hasError parser \<and>
    m_data (hp_data parser) = request_of m path query fragment v hs"
proof -
  let ?h = "request_head m path query fragment v hs"
  define buffer where "buffer = ?h @ rest"
  define n where "n = length ?h - 2"
  let ?q = "(HttpRequestParser_new qs r)\<lparr>hp_nread := 0, hp_mark := 0, hp_field_len := 0, hp_field_start := 0\<rparr>"
  have at: "text_at buffer 0 ?h" by (simp add: buffer_def text_at_def)
  have "m \<noteq> INVALID_METHOD" using assms(1) by (simp add: request_ok_def)
  then have "CharsToHttpMethod buffer = m"
    by (simp add: buffer_def request_head_def CharsToHttpMethod_name)
  then have "runs buffer 1 0 (HttpRequest_new 0x11 True) 13 n (request_of m path query fragment v hs)"
    unfolding n_def using assms at by (intro runs_request_head) (auto simp: buffer_def)
  moreover have "buffer \<noteq> []" by (simp add: buffer_def request_head_def CRLF_def)
  ultimately obtain q1 where q1: "reaches buffer (1, 0, ?q) (13, n, q1)"
      "good buffer (request_of m path query fragment v hs) q1"
    using good_new unfolding runs_def by blast
  have len: "length ?h = n + 2" by (simp add: n_def request_head_def CRLF_def)
  have "text_at buffer n CRLF"
    using at by (simp add: request_head_def n_def CRLF_def eval_nat_numeral add.assoc)
  from run_from_end [OF this q1(2)] obtain q2 where q2: "run_from buffer (13, n, q1) = Inr (348, n + 2, q2)"
      "good buffer (request_of m path query fragment v hs) (q2\<lparr>hp_body_start := 0\<rparr>)" "hp_body_start q2 = n + 2" by blast
  have "http_parser_loop buffer 0 buffer 1 ?q = Inr (348, n + 2, q2)"
    using q1(1) q2(1) by (simp add: reaches_def run_from_def)
  moreover have "hp_cs ?q = 1" by (simp add: HttpRequestParser_new_def http_parser_init_def http_parser_start_def)
  moreover have "n + 2 \<le> length buffer" using len by (simp add: buffer_def)
  ultimately have "http_parser_execute (HttpRequestParser_new qs r) buffer 0 = Inr (n + 2, q2\<lparr>hp_cs := 348, hp_nread := n + 2\<rparr>)"
    using \<open>buffer \<noteq> []\<close> q2(2,3)
    by (simp add: http_parser_execute_def http_parser_error_def http_parser_has_error_def good_def)
  then show ?thesis
    using q2(2) len
    by (simp add: HttpRequestParser_execute_def HttpRequestParser_isFinished_def HttpRequestParser_hasError_def
        http_parser_finish_def http_parser_has_error_def http_parser_is_finished_def http_parser_error_def
        http_parser_first_final_def good_def buffer_def)
qed

end
