(* ===== verification/Http_Session.thy ===== *)
theory Http_Session
  imports Socket_Stream Http_Request_Run
begin

text \<open>
  \<^verbatim>\<open>sylar/http/http_session.cc\<close>: receiving a request from a socket and sending a response.

  \<open>buff_size\<close> is \<open>HttpRequestParser::GetHttpRequestBufferSize()\<close>; \<open>lexical_cast\<close> is \<open>boost::lexical_cast<uint64_t>\<close>;
  \<open>qs\<close> and \<open>relaxed\<close> are the values of the members of \<open>http_parser\<close> that no
  code sets.
\<close>

section \<open>Sessions\<close>

text \<open>\<open>Closed\<close>: the session has been closed and \<open>nullptr\<close> returned; \<open>Raised\<close>: an exception leaves the function.\<close>

datatype recv_result = Got HttpRequest | Closed | Raised parse_exc

definition pieces_left :: "sock_stream \<Rightarrow> nat" where
  "pieces_left s = sum_list (map (\<lambda>seg. Suc (length seg)) (s_input s))"

lemma SocketStream_read_consumes:
  "SocketStream_read n s = (len, bytes, s') \<Longrightarrow> 0 < len \<Longrightarrow> pieces_left s' < pieces_left s"
  by (auto simp: SocketStream_read_def sys_recv_def pieces_left_def split: list.splits if_splits)

text \<open>The \<open>do\<close> loop of \<open>recvRequest\<close>: \<open>data\<close> are the bytes in front of \<open>data + offset\<close>.
  \<^const>\<open>None\<close> on the left: the session has been closed.\<close>

function recv_loop ::
    "nat \<Rightarrow> HttpRequestParser \<Rightarrow> string \<Rightarrow> sock_stream \<Rightarrow>
     (parse_exc option + HttpRequestParser \<times> string) \<times> sock_stream" where
  "recv_loop buff_size parser data s =
     (case SocketStream_read (buff_size - length data) s of (len, bytes, s1) \<Rightarrow>
        if len \<le> 0 then (Inl None, SocketStream_close s1)
        else case HttpRequestParser_execute parser (data @ bytes) of
          Inl e \<Rightarrow> (Inl (Some e), s1)
        | Inr (nparse, data', parser') \<Rightarrow>
            if HttpRequestParser_hasError parser' then (Inl None, SocketStream_close s1)
            else if length data' = buff_size then (Inl None, SocketStream_close s1)
            else if HttpRequestParser_isFinished parser' \<noteq> 0 then (Inr (parser', data'), s1)
            else recv_loop buff_size parser' data' s1)"
  by pat_completeness auto
termination
  by (relation "measure (\<lambda>(buff_size, parser, data, s). pieces_left s)")
     (auto intro: SocketStream_read_consumes [OF sym])

declare recv_loop.simps [simp del]

text \<open>The conversion of \<open>uint64_t\<close> to \<open>int64_t\<close>.\<close>

definition to_int64 :: "nat \<Rightarrow> int" where
  "to_int64 n = (int n + 2 ^ 63) mod 2 ^ 64 - 2 ^ 63"

definition HttpSession_recvRequest ::
    "(string \<Rightarrow> nat option) \<Rightarrow> nat \<Rightarrow> nat \<Rightarrow> bool \<Rightarrow> sock_stream \<Rightarrow> recv_result \<times> sock_stream" where
  "HttpSession_recvRequest lexical_cast buff_size qs relaxed s =
     (case recv_loop buff_size (HttpRequestParser_new qs relaxed) [] s of
        (Inl None, s1) \<Rightarrow> (Closed, s1)
      | (Inl (Some e), s1) \<Rightarrow> (Raised e, s1)
      | (Inr (parser, data), s1) \<Rightarrow>
          let len = to_int64 (HttpRequestParser_getContentLength lexical_cast parser);
              rq = m_data (hp_data parser) in
          if len > 0 then
            if len \<ge> int (length data) then
              let left = nat len - length data in
              if left > 0 then
                (case Stream_readFixSize SocketStream_read left s1 of (rt, bytes, s2) \<Rightarrow>
                   if rt \<le> 0 then (Closed, SocketStream_close s2)
                   else (Got (HttpRequest_init (rq\<lparr>rq_body := data @ bytes\<rparr>)), s2))
              else (Got (HttpRequest_init (rq\<lparr>rq_body := data\<rparr>)), s1)
            else (Got (HttpRequest_init (rq\<lparr>rq_body := take (nat len) data\<rparr>)), s1)
          else (Got (HttpRequest_init rq), s1))"

definition HttpSession_sendResponse :: "HttpResponse \<Rightarrow> sock_stream \<Rightarrow> int \<times> sock_stream" where
  "HttpSession_sendResponse rsp s = Stream_writeFixSize SocketStream_write (HttpResponse_dump rsp) s"

section \<open>Headers that have been parsed\<close>

lemma set_headers_append: "set_headers (hs @ hs') rq = set_headers hs' (set_headers hs rq)"
  by (simp add: set_headers_def)

lemma set_headers_Cons: "set_headers ((k, v) # hs) rq = set_headers hs (HttpRequest_setHeader rq k v)"
  by (simp add: set_headers_def)

text \<open>A header that none of the lines names is as before; the last line that names it wins.\<close>

lemma find_set_headers_other:
  "\<forall>h \<in> set hs. fold_case (fst h) \<noteq> fold_case k \<Longrightarrow>
   omap_find CaseInsensitiveLess k (rq_headers (set_headers hs rq)) = omap_find CaseInsensitiveLess k (rq_headers rq)"
proof (induction hs arbitrary: rq)
  case (Cons h hs)
  obtain k' v where h: "h = (k', v)" by (cases h)
  then show ?case
    using Cons by (simp add: set_headers_Cons HttpRequest_setHeader_def ci.omap_find_set eq_commute [of "fold_case k"])
qed (simp add: set_headers_def)

lemma find_set_headers_last:
  assumes "\<forall>h \<in> set hs'. fold_case (fst h) \<noteq> fold_case k" "fold_case k' = fold_case k"
  shows "omap_find CaseInsensitiveLess k (rq_headers (set_headers (hs @ (k', v) # hs') rq)) = Some v"
  using assms
  by (simp add: set_headers_append set_headers_Cons find_set_headers_other HttpRequest_setHeader_def ci.omap_find_set)

text \<open>Setting the entries of a map, all but those of some keys: the lookups of the other keys are those of the map.\<close>

lemma find_set_headers_map:
  assumes "omap_ok CaseInsensitiveLess m" "\<And>k'. fold_case k' = fold_case k \<Longrightarrow> P k'"
    and "omap_find CaseInsensitiveLess k (rq_headers rq) = None"
  shows "omap_find CaseInsensitiveLess k (rq_headers (set_headers (filter (\<lambda>h. P (fst h)) m) rq)) = omap_find CaseInsensitiveLess k m"
proof (cases "omap_find CaseInsensitiveLess k m")
  case None
  then show ?thesis
    using ci.omap_find_None [OF assms(1) None] assms(3) by (subst find_set_headers_other) auto
next
  case (Some v)
  from ci.omap_find_Some [OF assms(1) this] obtain m1 k' m2 where
    m: "m = m1 @ (k', v) # m2" "fold_case k' = fold_case k" "\<forall>e \<in> set m2. fold_case (fst e) \<noteq> fold_case k" by auto
  then show ?thesis
    using find_set_headers_last [of "filter (\<lambda>h. P (fst h)) m2" k k'] assms(2) [of k'] Some by (simp add: m(1))
qed

lemma set_headers_fields:
  "rq_method (set_headers hs rq) = rq_method rq" "rq_version (set_headers hs rq) = rq_version rq"
  "rq_path (set_headers hs rq) = rq_path rq" "rq_query (set_headers hs rq) = rq_query rq"
  "rq_fragment (set_headers hs rq) = rq_fragment rq" "rq_close (set_headers hs rq) = rq_close rq"
  "rq_body (set_headers hs rq) = rq_body rq" "rq_websocket (set_headers hs rq) = rq_websocket rq"
  by (induction hs arbitrary: rq) (auto simp: set_headers_def HttpRequest_setHeader_def split: prod.splits)

section \<open>The text of a request\<close>

definition dump_lines :: "HttpRequest \<Rightarrow> (string \<times> string) list" where
  "dump_lines rq =
     (''connection'', if rq_close rq then ''close'' else ''keep-alive'') #
     filter (\<lambda>h. fold_case (fst h) \<noteq> ''connection'') (rq_headers rq) @
     (if rq_body rq = [] then [] else [(''content-length'', show_dec (length (rq_body rq)))])"

definition dump_head :: "HttpRequest \<Rightarrow> string" where
  "dump_head rq =
     request_head (rq_method rq) (rq_path rq) (rq_query rq) (rq_fragment rq) (rq_version rq) (dump_lines rq)"

text \<open>The requests that can be printed and parsed again: a method, a target, a version and headers that the
  grammar admits, no web socket, no \<open>content-length\<close> of its own.\<close>

definition printable :: "HttpRequest \<Rightarrow> bool" where
  "printable rq \<longleftrightarrow>
     request_ok (rq_method rq) (rq_path rq) (rq_query rq) (rq_fragment rq) (rq_version rq) (rq_headers rq) \<and>
     \<not> rq_websocket rq \<and> omap_ok CaseInsensitiveLess (rq_headers rq) \<and>
     omap_find CaseInsensitiveLess ''content-length'' (rq_headers rq) = None \<and> length (rq_body rq) < 2 ^ 31"

lemma dump_headers_lines:
  "dump_headers False m = concat (map header_line (filter (\<lambda>h. fold_case (fst h) \<noteq> ''connection'') m))"
  by (induction m) (auto simp: dump_headers_def header_line_def)

lemma HttpRequest_dump_head:
  assumes "printable rq"
  shows "HttpRequest_dump rq = dump_head rq @ rq_body rq"
proof -
  have "rq_version rq = 0x11 \<or> rq_version rq = 0x10" using assms by (simp add: printable_def request_ok_def)
  then have "dump_version (rq_version rq) = ''1.'' @ [version_digit (rq_version rq)]"
    by (auto simp: dump_version_def version_digit_def show_dec_def digits.simps digit_char_def char_of_eq_iff)
  then show ?thesis
    using assms
    by (auto simp: HttpRequest_dump_def dump_head_def request_head_def target_text_def dump_lines_def printable_def
        dump_connection_def dump_headers_lines dump_body_def header_line_def)
qed

lemma digits_ascii: "c \<in> set (digits 10 n) \<Longrightarrow> 48 \<le> schar c \<and> schar c \<le> 57"
proof (induction "10 :: nat" n rule: digits.induct)
  case (1 n)
  have "48 \<le> schar (digit_char d) \<and> schar (digit_char d) \<le> 57" if "d < 10" for d
  proof -
    have "(of_char (char_of (48 + d)) :: int) = int (of_char (char_of (48 + d)))"
      by (simp only: of_nat_of_char)
    also have "\<dots> = 48 + int d" using that by (simp only: of_char_of) simp
    finally show ?thesis using that by (simp add: digit_char_def schar_def)
  qed
  then show ?case using 1 by (auto simp: digits.simps [of 10 n] split: if_splits)
qed

lemma value_char_ascii: "33 \<le> schar c \<and> schar c \<le> 126 \<Longrightarrow> value_char c"
  by (simp add: value_char_def visible_codes_def del: upto_rec_numeral)

lemma token_char_ascii:
  "97 \<le> schar c \<and> schar c \<le> 122 \<or> schar c = 45 \<Longrightarrow> token_char c"
  by (auto simp: token_char_def token_codes_def simp del: upto_rec_numeral)

lemma field_value_lines:
  "field_name ''connection''" "field_value ''close''" "field_value ''keep-alive''" "field_name ''content-length''"
  "field_value (show_dec n)"
proof -
  have "show_dec n \<noteq> []" by (simp add: show_dec_def digits.simps [of 10 n])
  then have "hd (show_dec n) \<in> set (show_dec n)" by simp
  then show "field_value (show_dec n)"
    using digits_ascii [of _ n] by (force simp: field_value_def show_dec_def list_all_iff intro: value_char_ascii)
qed (simp_all add: field_name_def field_value_def token_char_ascii value_char_ascii schar_def)

lemma dump_lines_ok:
  assumes "printable rq"
  shows "request_ok (rq_method rq) (rq_path rq) (rq_query rq) (rq_fragment rq) (rq_version rq) (dump_lines rq)"
  using assms by (auto simp: printable_def request_ok_def dump_lines_def field_value_lines)

lemma fold_case_names [simp]:
  "fold_case ''connection'' = ''connection''" "fold_case ''content-length'' = ''content-length''"
  "fold_case ''keep-alive'' = ''keep-alive''" "fold_case ''close'' = ''close''"
  by (simp_all add: fold_case_def c_str_def ToLower_def tolower_def char_of_eq_iff)

text \<open>What \<open>recvRequest\<close> makes of the text.\<close>

definition received :: "HttpRequest \<Rightarrow> HttpRequest" where
  "received rq =
     HttpRequest_init
       ((request_of (rq_method rq) (rq_path rq) (rq_query rq) (rq_fragment rq) (rq_version rq) (dump_lines rq))
        \<lparr>rq_body := rq_body rq\<rparr>)"

lemma received_headers:
  assumes "printable rq"
  defines "hs \<equiv> rq_headers (request_of (rq_method rq) (rq_path rq) (rq_query rq) (rq_fragment rq) (rq_version rq) (dump_lines rq))"
  shows "omap_find CaseInsensitiveLess ''connection'' hs = Some (if rq_close rq then ''close'' else ''keep-alive'')"
    and "omap_find CaseInsensitiveLess ''content-length'' hs =
      (if rq_body rq = [] then None else Some (show_dec (length (rq_body rq))))"
    and "fold_case k \<noteq> ''connection'' \<Longrightarrow> fold_case k \<noteq> ''content-length'' \<Longrightarrow>
      omap_find CaseInsensitiveLess k hs = omap_find CaseInsensitiveLess k (rq_headers rq)"
proof -
  let ?conn = "(''connection'', if rq_close rq then ''close'' else ''keep-alive'')"
  let ?mid = "filter (\<lambda>h. fold_case (fst h) \<noteq> ''connection'') (rq_headers rq)"
  let ?len = "if rq_body rq = [] then [] else [(''content-length'', show_dec (length (rq_body rq)))]"
  define q where "q = (HttpRequest_new 0x11 True)\<lparr>rq_method := rq_method rq, rq_path := rq_path rq,
    rq_query := rq_query rq, rq_fragment := rq_fragment rq, rq_version := rq_version rq\<rparr>"
  have lines: "dump_lines rq = ?conn # ?mid @ ?len" by (simp add: dump_lines_def)
  have hs: "hs = rq_headers (set_headers ([] @ ?conn # ?mid @ ?len) q)"
    by (simp add: hs_def request_of_def q_def lines)
  have q: "rq_headers q = []" by (simp add: q_def HttpRequest_new_def)
  have ok: "omap_ok CaseInsensitiveLess (rq_headers rq)"
    "omap_find CaseInsensitiveLess ''content-length'' (rq_headers rq) = None"
    using assms(1) by (auto simp: printable_def)
  show "omap_find CaseInsensitiveLess ''connection'' hs = Some (if rq_close rq then ''close'' else ''keep-alive'')"
    unfolding hs by (rule find_set_headers_last) auto
  have mid: "omap_find CaseInsensitiveLess k (rq_headers (set_headers (?conn # ?mid) q)) =
      omap_find CaseInsensitiveLess k (rq_headers rq)" if "fold_case k \<noteq> ''connection''" for k
  proof -
    have "omap_find CaseInsensitiveLess k (omap_set CaseInsensitiveLess ''connection'' v (rq_headers q)) = None" for v
      using that by (subst ci.omap_find_set) (simp add: q)
    then show ?thesis
      unfolding set_headers_Cons using that
      by (intro find_set_headers_map [OF ok(1)]) (auto simp: HttpRequest_setHeader_def)
  qed
  have split: "hs = rq_headers (set_headers ?len (set_headers (?conn # ?mid) q))"
    by (simp add: hs set_headers_append [symmetric])
  show "omap_find CaseInsensitiveLess ''content-length'' hs =
      (if rq_body rq = [] then None else Some (show_dec (length (rq_body rq))))"
    unfolding split using mid [of "''content-length''"] ok(2) find_set_headers_last [of "[]" _ _ "[]"]
    by (auto simp: set_headers_def)
  show "omap_find CaseInsensitiveLess k hs = omap_find CaseInsensitiveLess k (rq_headers rq)"
    if "fold_case k \<noteq> ''connection''" "fold_case k \<noteq> ''content-length''"
    unfolding split using mid [OF that(1)] that(2) by (subst find_set_headers_other) auto
qed

section \<open>Receiving a request\<close>

lemma recv_loop_head:
  assumes "request_ok m path query fragment v hs" and "live s"
    and "s_input s = (request_head m path query fragment v hs @ rest) # segs"
    and "length (request_head m path query fragment v hs @ rest) \<le> buff_size" "buff_size < 2 ^ 63"
  shows "\<exists>parser. recv_loop buff_size (HttpRequestParser_new qs relaxed) [] s = (Inr (parser, rest), s\<lparr>s_input := segs\<rparr>) \<and>
    m_data (hp_data parser) = request_of m path query fragment v hs"
proof -
  let ?h = "request_head m path query fragment v hs"
  have len: "0 < length ?h" by (simp add: request_head_def)
  then have read: "SocketStream_read buff_size s = (int (length (?h @ rest)), ?h @ rest, s\<lparr>s_input := segs\<rparr>)"
    using assms(2-4) by (auto simp: SocketStream_read_def SocketStream_isConnected_def live_def sys_recv_def)
  have "length (?h @ rest) < 2 ^ 63" using assms(4,5) by simp
  from execute_request_head [OF assms(1) this] obtain parser where
    p: "HttpRequestParser_execute (HttpRequestParser_new qs relaxed) (?h @ rest) = Inr (length ?h, rest, parser)"
      "HttpRequestParser_isFinished parser = 1" "\<not> HttpRequestParser_hasError parser"
      "m_data (hp_data parser) = request_of m path query fragment v hs" by blast
  have "length rest \<noteq> buff_size" using assms(4) len by auto
  moreover have "\<not> int (length ?h) + int (length rest) \<le> 0" using len by linarith
  ultimately show ?thesis
    using read p by (subst recv_loop.simps) auto
qed

text \<open>A body of which the first bytes have come with the head.\<close>

lemma recvRequest_head:
  assumes "request_ok m path query fragment v hs" and "live s"
    and "s_input s = (request_head m path query fragment v hs @ rest) # segs"
    and "length (request_head m path query fragment v hs @ rest) \<le> buff_size" "buff_size < 2 ^ 63"
    and "getAs lexical_cast (rq_headers (request_of m path query fragment v hs)) ''content-length'' 0 = length body"
    and "rest @ concat segs = body" "length body < 2 ^ 31"
  shows "\<exists>s'. HttpSession_recvRequest lexical_cast buff_size qs relaxed s =
      (Got (HttpRequest_init ((request_of m path query fragment v hs)\<lparr>rq_body := body\<rparr>)), s') \<and>
    live s' \<and> concat (s_input s') = [] \<and> s_output s' = s_output s \<and> s_room s' = s_room s"
proof -
  let ?rq = "request_of m path query fragment v hs"
  from recv_loop_head [OF assms(1-5), of qs relaxed] obtain parser where
    loop: "recv_loop buff_size (HttpRequestParser_new qs relaxed) [] s = (Inr (parser, rest), s\<lparr>s_input := segs\<rparr>)"
    and rq: "m_data (hp_data parser) = ?rq" by blast
  have len: "to_int64 (HttpRequestParser_getContentLength lexical_cast parser) = int (length body)"
    using assms(6,8) by (simp add: HttpRequestParser_getContentLength_def rq to_int64_def)
  have s1: "live (s\<lparr>s_input := segs\<rparr>)" using assms(2,3) by (auto simp: live_def)
  consider "body = []" | "body \<noteq> []" "concat segs = []" | "body \<noteq> []" "concat segs \<noteq> []" by blast
  then show ?thesis
  proof cases
    case 1
    have "rq_body ?rq = []" by (simp add: request_of_def set_headers_fields HttpRequest_new_def)
    then have "?rq\<lparr>rq_body := []\<rparr> = ?rq" by simp
    then show ?thesis
      using loop len rq s1 1 assms(7) by (simp add: HttpSession_recvRequest_def)
  next
    case 2
    then have "rest = body" using assms(7) by (metis append_Nil2)
    then show ?thesis
      using loop len rq s1 2 by (simp add: HttpSession_recvRequest_def)
  next
    case 3
    define c where "c = concat segs"
    have c: "c \<noteq> []" "rest @ c = body" using 3 assms(7) by (simp_all only: c_def not_False_eq_True)
    then have left: "nat (int (length body)) - length rest = length c" "length rest < length body"
      "length rest \<le> length body" by auto
    obtain s' where s': "Stream_readFixSize SocketStream_read (length c) (s\<lparr>s_input := segs\<rparr>) = (int (length c), c, s')"
      "live s'" "concat (s_input s') = []" "s_output s' = s_output s" "s_room s' = s_room s"
      using read_fix_size_live [OF s1, of "length c"] c assms(8) by (auto simp: c_def)
    have "HttpSession_recvRequest lexical_cast buff_size qs relaxed s =
        (Got (HttpRequest_init (?rq\<lparr>rq_body := rest @ c\<rparr>)), s')"
      using loop len rq 3(1) left s'(1) c(1) by (simp add: HttpSession_recvRequest_def Let_def)
    then show ?thesis using s'(2-) c(2) by blast
  qed
qed

lemma recvRequest_dump:
  assumes "printable rq" "\<And>n. n < 2 ^ 64 \<Longrightarrow> lexical_cast (show_dec n) = Some n"
    and "live s" "s_input s = seg # segs" "concat (s_input s) = HttpRequest_dump rq"
    and "length (dump_head rq) \<le> length seg" "length seg \<le> buff_size" "buff_size < 2 ^ 63"
  shows "\<exists>s'. HttpSession_recvRequest lexical_cast buff_size qs relaxed s = (Got (received rq), s') \<and>
    live s' \<and> concat (s_input s') = [] \<and> s_output s' = s_output s \<and> s_room s' = s_room s"
proof -
  have dump: "seg @ concat segs = dump_head rq @ rq_body rq"
    using assms(1,4,5) HttpRequest_dump_head by simp
  define rest where "rest = drop (length (dump_head rq)) seg"
  have "seg = dump_head rq @ rest"
    using arg_cong [OF dump, of "take (length (dump_head rq))"] assms(6)
      append_take_drop_id [of "length (dump_head rq)" seg] by (simp add: rest_def)
  then have seg: "seg = dump_head rq @ rest" "rest @ concat segs = rq_body rq" using dump by auto
  have "length (rq_body rq) < 2 ^ 31" using assms(1) by (simp add: printable_def)
  moreover have "getAs lexical_cast (rq_headers (request_of (rq_method rq) (rq_path rq) (rq_query rq) (rq_fragment rq)
      (rq_version rq) (dump_lines rq))) ''content-length'' 0 = length (rq_body rq)"
    using received_headers(2) [OF assms(1)] assms(2) [of "length (rq_body rq)"] calculation
    by (simp add: getAs_def)
  ultimately show ?thesis
    unfolding received_def using assms(3,4,7,8) seg
    by (intro recvRequest_head [OF dump_lines_ok [OF assms(1)], where rest = rest and segs = segs])
       (auto simp: dump_head_def)
qed

lemma received_fields:
  assumes "printable rq"
  shows "rq_method (received rq) = rq_method rq" "rq_version (received rq) = rq_version rq"
    "rq_path (received rq) = rq_path rq" "rq_query (received rq) = rq_query rq"
    "rq_fragment (received rq) = rq_fragment rq" "rq_body (received rq) = rq_body rq"
    "rq_close (received rq) = rq_close rq"
    "fold_case k \<noteq> ''connection'' \<Longrightarrow> fold_case k \<noteq> ''content-length'' \<Longrightarrow>
     HttpRequest_getHeader (received rq) k def = HttpRequest_getHeader rq k def"
  using received_headers [OF assms]
  by (auto simp: received_def HttpRequest_init_def HttpRequest_getHeader_def find_or_def Let_def request_of_def
      set_headers_fields)


text \<open>A parser of decimal numbers, for the example below.\<close>

definition decimal :: "string \<Rightarrow> nat option" where
  "decimal s = (if s \<noteq> [] \<and> list_all (\<lambda>c. 48 \<le> schar c \<and> schar c \<le> 57) s
     then Some (foldl (\<lambda>n c. 10 * n + nat (schar c - 48)) 0 s) else None)"

lemma decimal_show: "decimal (show_dec n) = Some n"
proof -
  have digit: "schar (digit_char d) = 48 + int d" if "d < 10" for d
  proof -
    have "(of_char (char_of (48 + d)) :: int) = int (of_char (char_of (48 + d)))"
      by (simp only: of_nat_of_char)
    also have "\<dots> = 48 + int d" using that by (simp only: of_char_of) simp
    finally show ?thesis using that by (simp add: digit_char_def schar_def)
  qed
  have "foldl (\<lambda>n c. 10 * n + nat (schar c - 48)) 0 (digits 10 n) = n"
  proof (induction "10 :: nat" n rule: digits.induct)
    case (1 n)
    then show ?case by (subst digits.simps) (auto simp: digit)
  qed
  moreover have "digits 10 n \<noteq> []" by (simp add: digits.simps [of 10 n])
  ultimately show ?thesis
    using digits_ascii [of _ n] by (auto simp: decimal_def show_dec_def list_all_iff)
qed

definition example_request :: HttpRequest where
  "example_request = (HttpRequest_new 0x11 False)
     \<lparr>rq_method := M_POST, rq_path := ''/a'', rq_query := ''b=1'', rq_headers := [(''Host'', ''h'')], rq_body := ''xyz''\<rparr>"

lemma example_printable: "printable example_request"
proof -
  have "path_char (CHR ''a'')" "query_char (CHR ''b'')" "query_char (CHR ''='')" "query_char (CHR ''1'')"
    "token_char (CHR ''H'')" "token_char (CHR ''o'')" "token_char (CHR ''s'')" "token_char (CHR ''t'')" "value_char (CHR ''h'')"
    by (simp_all add: query_char_def path_char_def path_codes_def token_char_def token_codes_def value_char_def
        visible_codes_def schar_def)
  then have "path_text ''/a''" "query_text ''b=1''" "field_name ''Host''" "field_value ''h''"
    by (simp_all add: path_text_def query_text_def field_name_def field_value_def schar_def)
  moreover have "fold_case ''Host'' = ''host''"
    by (simp add: fold_case_def c_str_def ToLower_def tolower_def char_of_eq_iff)
  ultimately show ?thesis
    by (simp add: printable_def example_request_def HttpRequest_new_def request_ok_def omap_ok_def CaseInsensitiveLess_def)
qed


end
