(* ===== verification/Servlet.thy ===== *)
theory Servlet
  imports Http
begin

text \<open>
  \<^verbatim>\<open>sylar/http/servlet.h\<close> and \<^verbatim>\<open>sylar/http/servlet.cc\<close>: servlets, their creators and the
  \<open>ServletDispatch\<close> that routes a request to one of them. The session is an abstract type; a handler
  maps a request, a response and a session to its return value and their new states. A class derived
  from \<open>Servlet\<close> elsewhere is \<open>UserServlet\<close> with its handler. \<open>fnmatch(pattern, text, 0) == 0\<close> is an argument.
  The mutex makes every operation atomic, so a history of operations is a list.

  Shown here: which servlet answers a path, in terms of the history of registrations alone.
\<close>

type_synonym 's callback = "HttpRequest \<Rightarrow> HttpResponse \<Rightarrow> 's \<Rightarrow> int \<times> HttpRequest \<times> HttpResponse \<times> 's"

datatype 's Servlet =
    FunctionServlet "'s callback"
  | NotFoundServlet string string
  | UserServlet string "'s callback"

datatype 's IServletCreator =
    HoldServletCreator "'s Servlet option"
  | ServletCreator string "'s Servlet"

record 's ServletDispatch =
  m_datas :: "string \<rightharpoonup> 's IServletCreator"
  m_globs :: "(string \<times> 's IServletCreator) list"
  m_default :: "'s Servlet option"

definition Servlet_getName :: "'s Servlet \<Rightarrow> string" where
  "Servlet_getName s =
     (case s of
        FunctionServlet cb \<Rightarrow> ''FunctionServlet''
      | NotFoundServlet name content \<Rightarrow> ''NotFoundServlet''
      | UserServlet name cb \<Rightarrow> name)"

definition FunctionServlet_handle :: "'s callback \<Rightarrow> 's callback" where
  "FunctionServlet_handle m_cb request response session = m_cb request response session"

definition NotFoundServlet_new :: "string \<Rightarrow> 's Servlet" where
  "NotFoundServlet_new name =
     NotFoundServlet name
       (''<html><head><title>404 Not Found'' @
        ''</title></head><body><center><h1>404 Not Found</h1></center>'' @
        ''<hr><center>'' @ name @ ''</center></body></html>'')"

definition NotFoundServlet_handle :: "string \<Rightarrow> 's callback" where
  "NotFoundServlet_handle content request response session =
     (let response = response\<lparr>rs_status := 404\<rparr>;
          response = HttpResponse_setHeader response ''Server'' ''sylar/1.0.0'';
          response = HttpResponse_setHeader response ''Content-Type'' ''text/html'';
          response = response\<lparr>rs_body := content\<rparr> in
      (0, request, response, session))"

definition Servlet_handle :: "'s Servlet \<Rightarrow> 's callback" where
  "Servlet_handle s =
     (case s of
        FunctionServlet cb \<Rightarrow> FunctionServlet_handle cb
      | NotFoundServlet name content \<Rightarrow> NotFoundServlet_handle content
      | UserServlet name cb \<Rightarrow> cb)"

definition IServletCreator_get :: "'s IServletCreator \<Rightarrow> 's Servlet option" where
  "IServletCreator_get c =
     (case c of HoldServletCreator s \<Rightarrow> s | ServletCreator name s \<Rightarrow> Some s)"

text \<open>\<open>getName\<close> of a creator that holds a null pointer dereferences it (\<^const>\<open>None\<close>).\<close>

definition IServletCreator_getName :: "'s IServletCreator \<Rightarrow> string option" where
  "IServletCreator_getName c =
     (case c of
        HoldServletCreator s \<Rightarrow> map_option Servlet_getName s
      | ServletCreator name s \<Rightarrow> Some name)"

section \<open>The dispatcher\<close>

definition ServletDispatch_new :: "'s ServletDispatch" where
  "ServletDispatch_new =
     \<lparr>m_datas = Map.empty, m_globs = [], m_default = Some (NotFoundServlet_new ''sylar/1.0'')\<rparr>"

definition ServletDispatch_addServletCreator ::
    "'s ServletDispatch \<Rightarrow> string \<Rightarrow> 's IServletCreator \<Rightarrow> 's ServletDispatch" where
  "ServletDispatch_addServletCreator d uri creator = d\<lparr>m_datas := (m_datas d)(uri \<mapsto> creator)\<rparr>"

definition ServletDispatch_addServlet ::
    "'s ServletDispatch \<Rightarrow> string \<Rightarrow> 's Servlet option \<Rightarrow> 's ServletDispatch" where
  "ServletDispatch_addServlet d uri slt = d\<lparr>m_datas := (m_datas d)(uri \<mapsto> HoldServletCreator slt)\<rparr>"

definition ServletDispatch_addServlet_cb ::
    "'s ServletDispatch \<Rightarrow> string \<Rightarrow> 's callback \<Rightarrow> 's ServletDispatch" where
  "ServletDispatch_addServlet_cb d uri cb =
     d\<lparr>m_datas := (m_datas d)(uri \<mapsto> HoldServletCreator (Some (FunctionServlet cb)))\<rparr>"

text \<open>The loop that erases the first entry for \<open>uri\<close>.\<close>

fun erase_glob :: "string \<Rightarrow> (string \<times> 'c) list \<Rightarrow> (string \<times> 'c) list" where
  "erase_glob uri [] = []"
| "erase_glob uri (it # rest) = (if fst it = uri then rest else it # erase_glob uri rest)"

definition ServletDispatch_addGlobServletCreator ::
    "'s ServletDispatch \<Rightarrow> string \<Rightarrow> 's IServletCreator \<Rightarrow> 's ServletDispatch" where
  "ServletDispatch_addGlobServletCreator d uri creator =
     d\<lparr>m_globs := erase_glob uri (m_globs d) @ [(uri, creator)]\<rparr>"

definition ServletDispatch_addGlobServlet ::
    "'s ServletDispatch \<Rightarrow> string \<Rightarrow> 's Servlet option \<Rightarrow> 's ServletDispatch" where
  "ServletDispatch_addGlobServlet d uri slt =
     d\<lparr>m_globs := erase_glob uri (m_globs d) @ [(uri, HoldServletCreator slt)]\<rparr>"

definition ServletDispatch_addGlobServlet_cb ::
    "'s ServletDispatch \<Rightarrow> string \<Rightarrow> 's callback \<Rightarrow> 's ServletDispatch" where
  "ServletDispatch_addGlobServlet_cb d uri cb =
     ServletDispatch_addGlobServlet d uri (Some (FunctionServlet cb))"

definition ServletDispatch_delServlet :: "'s ServletDispatch \<Rightarrow> string \<Rightarrow> 's ServletDispatch" where
  "ServletDispatch_delServlet d uri = d\<lparr>m_datas := (m_datas d)(uri := None)\<rparr>"

definition ServletDispatch_delGlobServlet :: "'s ServletDispatch \<Rightarrow> string \<Rightarrow> 's ServletDispatch" where
  "ServletDispatch_delGlobServlet d uri = d\<lparr>m_globs := erase_glob uri (m_globs d)\<rparr>"

definition ServletDispatch_setDefault :: "'s ServletDispatch \<Rightarrow> 's Servlet option \<Rightarrow> 's ServletDispatch" where
  "ServletDispatch_setDefault d v = d\<lparr>m_default := v\<rparr>"

definition ServletDispatch_getServlet :: "'s ServletDispatch \<Rightarrow> string \<Rightarrow> 's Servlet option" where
  "ServletDispatch_getServlet d uri =
     (case m_datas d uri of None \<Rightarrow> None | Some c \<Rightarrow> IServletCreator_get c)"

fun first_glob :: "(string \<Rightarrow> bool) \<Rightarrow> (string \<times> 'c) list \<Rightarrow> 'c option" where
  "first_glob p [] = None"
| "first_glob p (it # rest) = (if p (fst it) then Some (snd it) else first_glob p rest)"

definition ServletDispatch_getGlobServlet :: "'s ServletDispatch \<Rightarrow> string \<Rightarrow> 's Servlet option" where
  "ServletDispatch_getGlobServlet d uri =
     (case first_glob (\<lambda>p. p = uri) (m_globs d) of None \<Rightarrow> None | Some c \<Rightarrow> IServletCreator_get c)"

definition ServletDispatch_getMatchedServlet ::
    "(string \<Rightarrow> string \<Rightarrow> bool) \<Rightarrow> 's ServletDispatch \<Rightarrow> string \<Rightarrow> 's Servlet option" where
  "ServletDispatch_getMatchedServlet fnmatch d uri =
     (case m_datas d uri of
        Some c \<Rightarrow> IServletCreator_get c
      | None \<Rightarrow>
          (case first_glob (\<lambda>p. fnmatch (c_str p) (c_str uri)) (m_globs d) of
             Some c \<Rightarrow> IServletCreator_get c
           | None \<Rightarrow> m_default d))"

definition ServletDispatch_handle ::
    "(string \<Rightarrow> string \<Rightarrow> bool) \<Rightarrow> 's ServletDispatch \<Rightarrow> 's callback" where
  "ServletDispatch_handle fnmatch d request response session =
     (case ServletDispatch_getMatchedServlet fnmatch d (rq_path request) of
        None \<Rightarrow> (0, request, response, session)
      | Some slt \<Rightarrow>
          (let (_, request, response, session) = Servlet_handle slt request response session in
           (0, request, response, session)))"

definition ServletDispatch_listAllServletCreator ::
    "'s ServletDispatch \<Rightarrow> (string \<rightharpoonup> 's IServletCreator) \<Rightarrow> (string \<rightharpoonup> 's IServletCreator)" where
  "ServletDispatch_listAllServletCreator d infos = infos ++ m_datas d"

definition ServletDispatch_listAllGlobServletCreator ::
    "'s ServletDispatch \<Rightarrow> (string \<rightharpoonup> 's IServletCreator) \<Rightarrow> (string \<rightharpoonup> 's IServletCreator)" where
  "ServletDispatch_listAllGlobServletCreator d infos = foldl (\<lambda>m (k, v). m(k \<mapsto> v)) infos (m_globs d)"

section \<open>Histories\<close>

datatype 's dispatch_op =
    AddServlet string "'s Servlet option"
  | AddServletCb string "'s callback"
  | AddServletCreator string "'s IServletCreator"
  | AddGlobServlet string "'s Servlet option"
  | AddGlobServletCb string "'s callback"
  | AddGlobServletCreator string "'s IServletCreator"
  | DelServlet string
  | DelGlobServlet string
  | SetDefault "'s Servlet option"

fun dispatch_step :: "'s ServletDispatch \<Rightarrow> 's dispatch_op \<Rightarrow> 's ServletDispatch" where
  "dispatch_step d (AddServlet uri slt) = ServletDispatch_addServlet d uri slt"
| "dispatch_step d (AddServletCb uri cb) = ServletDispatch_addServlet_cb d uri cb"
| "dispatch_step d (AddServletCreator uri c) = ServletDispatch_addServletCreator d uri c"
| "dispatch_step d (AddGlobServlet uri slt) = ServletDispatch_addGlobServlet d uri slt"
| "dispatch_step d (AddGlobServletCb uri cb) = ServletDispatch_addGlobServlet_cb d uri cb"
| "dispatch_step d (AddGlobServletCreator uri c) = ServletDispatch_addGlobServletCreator d uri c"
| "dispatch_step d (DelServlet uri) = ServletDispatch_delServlet d uri"
| "dispatch_step d (DelGlobServlet uri) = ServletDispatch_delGlobServlet d uri"
| "dispatch_step d (SetDefault v) = ServletDispatch_setDefault d v"

definition dispatch_history :: "'s dispatch_op list \<Rightarrow> 's ServletDispatch" where
  "dispatch_history ops = foldl dispatch_step ServletDispatch_new ops"

text \<open>
  The specification reads the history only. \<open>exact_effect\<close> and \<open>glob_effect\<close> say what an operation
  does to an exact path or a pattern; the last operation on a path decides, and the patterns that are
  registered are tried in the order of their last registration.
\<close>

fun exact_effect :: "'s dispatch_op \<Rightarrow> (string \<times> 's IServletCreator option) option" where
  "exact_effect (AddServlet uri slt) = Some (uri, Some (HoldServletCreator slt))"
| "exact_effect (AddServletCb uri cb) = Some (uri, Some (HoldServletCreator (Some (FunctionServlet cb))))"
| "exact_effect (AddServletCreator uri c) = Some (uri, Some c)"
| "exact_effect (DelServlet uri) = Some (uri, None)"
| "exact_effect _ = None"

fun glob_effect :: "'s dispatch_op \<Rightarrow> (string \<times> 's IServletCreator option) option" where
  "glob_effect (AddGlobServlet uri slt) = Some (uri, Some (HoldServletCreator slt))"
| "glob_effect (AddGlobServletCb uri cb) = Some (uri, Some (HoldServletCreator (Some (FunctionServlet cb))))"
| "glob_effect (AddGlobServletCreator uri c) = Some (uri, Some c)"
| "glob_effect (DelGlobServlet uri) = Some (uri, None)"
| "glob_effect _ = None"

fun last_exact :: "'s dispatch_op list \<Rightarrow> string \<Rightarrow> 's IServletCreator option" where
  "last_exact [] uri = None"
| "last_exact (op # older) uri =
     (case exact_effect op of
        Some (u, e) \<Rightarrow> (if u = uri then e else last_exact older uri)
      | None \<Rightarrow> last_exact older uri)"

definition touches :: "string \<Rightarrow> 's dispatch_op \<Rightarrow> bool" where
  "touches u op = (case glob_effect op of Some (v, e) \<Rightarrow> v = u | None \<Rightarrow> False)"

fun live_globs :: "'s dispatch_op list \<Rightarrow> (string \<times> 's IServletCreator) list" where
  "live_globs [] = []"
| "live_globs (op # later) =
     (case glob_effect op of
        Some (u, Some c) \<Rightarrow>
          (if list_ex (touches u) later then live_globs later
           else (u, c) # live_globs later)
      | _ \<Rightarrow> live_globs later)"

fun last_default :: "'s dispatch_op list \<Rightarrow> 's Servlet option" where
  "last_default [] = Some (NotFoundServlet_new ''sylar/1.0'')"
| "last_default (SetDefault v # older) = v"
| "last_default (op # older) = last_default older"

lemma glob_effect_cases:
  obtains (none) "glob_effect op = None" | (del) u where "glob_effect op = Some (u, None)"
    | (add) u c where "glob_effect op = Some (u, Some c)"
  by (cases "glob_effect op") (auto split: option.splits, metis not_None_eq)

lemma live_globs_touched: "e \<in> set (live_globs ops) \<Longrightarrow> list_ex (touches (fst e)) ops"
proof (induction ops)
  case (Cons op ops)
  then show ?case by (cases op rule: glob_effect_cases) (auto simp: touches_def split: if_splits)
qed simp

lemma live_globs_distinct: "distinct (map fst (live_globs ops))"
proof (induction ops)
  case (Cons op ops)
  then show ?case
    by (cases op rule: glob_effect_cases) (auto dest: live_globs_touched)
qed simp

text \<open>One more operation at the end of the history.\<close>

lemma live_globs_snoc:
  "live_globs (ops @ [op]) =
     (case glob_effect op of
        None \<Rightarrow> live_globs ops
      | Some (u, e) \<Rightarrow> filter (\<lambda>x. fst x \<noteq> u) (live_globs ops) @ (case e of None \<Rightarrow> [] | Some c \<Rightarrow> [(u, c)]))"
proof (induction ops)
  case Nil
  show ?case by (cases op rule: glob_effect_cases) simp_all
next
  case (Cons o1 ops)
  then show ?case
    by (cases o1 rule: glob_effect_cases; cases op rule: glob_effect_cases) (auto simp: touches_def)
qed

lemma erase_glob_filter:
  "distinct (map fst g) \<Longrightarrow> erase_glob uri g = filter (\<lambda>e. fst e \<noteq> uri) g"
proof (induction g)
  case (Cons e g)
  have "filter (\<lambda>x. fst x \<noteq> fst e) g = g"
    using Cons.prems by (intro filter_True) (auto simp: image_iff)
  then show ?case using Cons by auto
qed simp

lemma dispatch_run:
  "foldl dispatch_step ServletDispatch_new ops =
     \<lparr>m_datas = last_exact (rev ops), m_globs = live_globs ops, m_default = last_default (rev ops)\<rparr>"
proof (induction ops rule: rev_induct)
  case Nil
  show ?case by (simp add: ServletDispatch_new_def fun_eq_iff)
next
  case (snoc op ops)
  have "erase_glob u (live_globs ops) = filter (\<lambda>x. fst x \<noteq> u) (live_globs ops)" for u
    by (rule erase_glob_filter [OF live_globs_distinct])
  then show ?case
    using snoc by (cases op) (simp_all add: live_globs_snoc fun_eq_iff ServletDispatch_addServlet_def
      ServletDispatch_addServlet_cb_def ServletDispatch_addServletCreator_def
      ServletDispatch_addGlobServlet_def ServletDispatch_addGlobServlet_cb_def
      ServletDispatch_addGlobServletCreator_def ServletDispatch_delServlet_def
      ServletDispatch_delGlobServlet_def ServletDispatch_setDefault_def)
qed

text \<open>
  C22. Routing. After any sequence of registrations and removals, a request for a path is handled by the
  creator last registered for exactly that path, if it was not removed since; otherwise by the pattern
  that matches and was (re-)registered longest ago among those still registered; otherwise by the
  default, which, unless replaced, answers 404.
\<close>

theorem ServletDispatch_routing:
  "ServletDispatch_getMatchedServlet fnmatch (dispatch_history ops) uri =
           (case last_exact (rev ops) uri of
              Some c \<Rightarrow> IServletCreator_get c
            | None \<Rightarrow>
                (case filter (\<lambda>(p, c). fnmatch (c_str p) (c_str uri)) (live_globs ops) of
                   (p, c) # _ \<Rightarrow> IServletCreator_get c
                 | [] \<Rightarrow> last_default (rev ops))) \<and>
         (ServletDispatch_getMatchedServlet fnmatch (dispatch_history ops) (rq_path rq) =
            Some (NotFoundServlet_new ''sylar/1.0'') \<longrightarrow>
          rs_status (fst (snd (snd (ServletDispatch_handle fnmatch (dispatch_history ops) rq rs ss)))) = 404)"
proof (intro conjI impI)
  have first: "first_glob p g = (case filter (\<lambda>(q, c). p q) g of (q, c) # _ \<Rightarrow> Some c | [] \<Rightarrow> None)"
    for p and g :: "(string \<times> 's IServletCreator) list"
    by (induction g) (auto split: list.splits)
  show "ServletDispatch_getMatchedServlet fnmatch (dispatch_history ops) uri =
      (case last_exact (rev ops) uri of
         Some c \<Rightarrow> IServletCreator_get c
       | None \<Rightarrow>
           (case filter (\<lambda>(p, c). fnmatch (c_str p) (c_str uri)) (live_globs ops) of
              (p, c) # _ \<Rightarrow> IServletCreator_get c
            | [] \<Rightarrow> last_default (rev ops)))"
    unfolding dispatch_history_def dispatch_run ServletDispatch_getMatchedServlet_def first
    by (simp split: option.splits list.splits)
  show "rs_status (fst (snd (snd (ServletDispatch_handle fnmatch (dispatch_history ops) rq rs ss)))) = 404"
    if "ServletDispatch_getMatchedServlet fnmatch (dispatch_history ops) (rq_path rq) =
          Some (NotFoundServlet_new ''sylar/1.0'')"
    using that by (simp add: ServletDispatch_handle_def NotFoundServlet_new_def Servlet_handle_def
        NotFoundServlet_handle_def HttpResponse_setHeader_def Let_def)
qed

text \<open>A matcher for patterns made of plain characters, \<open>*\<close> and \<open>?\<close>, as an instance of \<open>fnmatch\<close>.\<close>

fun simple_fnmatch :: "string \<Rightarrow> string \<Rightarrow> bool" where
  "simple_fnmatch [] s = (s = [])"
| "simple_fnmatch (p # ps) [] = (p = CHR ''*'' \<and> simple_fnmatch ps [])"
| "simple_fnmatch (p # ps) (c # cs) =
     (if p = CHR ''*'' then simple_fnmatch ps (c # cs) \<or> simple_fnmatch (p # ps) cs
      else (p = CHR ''?'' \<or> p = c) \<and> simple_fnmatch ps cs)"

theorem ServletDispatch_routing_witness:
  "ServletDispatch_getMatchedServlet simple_fnmatch
     (dispatch_history [AddGlobServletCreator ''/*'' (ServletCreator ''A'' (NotFoundServlet ''a'' [])),
       AddGlobServletCreator ''/x*'' (ServletCreator ''B'' (NotFoundServlet ''b'' [])),
       AddGlobServletCreator ''/*'' (ServletCreator ''C'' (NotFoundServlet ''c'' []))] :: unit ServletDispatch) ''/xy'' =
       Some (NotFoundServlet ''b'' []) \<and>
   rs_status (fst (snd (snd (ServletDispatch_handle simple_fnmatch (dispatch_history [])
     (HttpRequest_new 0x11 True) (HttpResponse_new 0x11 True) ())))) = 404"
  using ServletDispatch_routing [of simple_fnmatch
      "[AddGlobServletCreator ''/*'' (ServletCreator ''A'' (NotFoundServlet ''a'' [])),
        AddGlobServletCreator ''/x*'' (ServletCreator ''B'' (NotFoundServlet ''b'' [])),
        AddGlobServletCreator ''/*'' (ServletCreator ''C'' (NotFoundServlet ''c'' []))]" "''/xy''"
      "HttpRequest_new 0x11 True" "HttpResponse_new 0x11 True" "()"]
    ServletDispatch_routing [of simple_fnmatch "[]" "rq_path (HttpRequest_new 0x11 True)"
      "HttpRequest_new 0x11 True" "HttpResponse_new 0x11 True" "()"]
  by (simp add: touches_def c_str_def IServletCreator_get_def)

end
