(* ===== verification/Http_Server.thy ===== *)
theory Http_Server
  imports Http_Session Servlet
begin

text \<open>
  \<^verbatim>\<open>sylar/http/http_server.cc\<close>: the loop that serves the requests of one client. \<open>fnmatch\<close> is the library
  function. A servlet may do anything to the session, so that the loop need not end: it is a partial function,
  and that it ends for servlets which leave the input alone is a theorem.
\<close>

section \<open>The server\<close>

record HttpServer =
  hs_isKeepalive :: bool
  hs_dispatch :: "sock_stream ServletDispatch"
  hs_name :: string
  hs_type :: string

definition HttpServer_new :: "bool \<Rightarrow> HttpServer" where
  "HttpServer_new keepalive =
     \<lparr>hs_isKeepalive = keepalive, hs_dispatch = ServletDispatch_new, hs_name = ''hr/1.0.0'', hs_type = ''http''\<rparr>"

definition HttpServer_setName :: "HttpServer \<Rightarrow> string \<Rightarrow> HttpServer" where
  "HttpServer_setName srv v =
     srv\<lparr>hs_name := v, hs_dispatch := ServletDispatch_setDefault (hs_dispatch srv) (Some (NotFoundServlet_new v))\<rparr>"

text \<open>
  One turn of the loop of \<open>handleClient\<close>: \<open>Inr s\<close> goes on with the next request, \<open>Inl (None, s)\<close> leaves the
  loop and closes the session, \<open>Inl (Some e, s)\<close> leaves with an exception. The response is built from the
  request as it was received; the servlet may change both.
\<close>

definition handle_turn ::
    "(string \<Rightarrow> nat option) \<Rightarrow> (string \<Rightarrow> string \<Rightarrow> bool) \<Rightarrow> nat \<Rightarrow> nat \<Rightarrow> bool \<Rightarrow> HttpServer \<Rightarrow> sock_stream \<Rightarrow>
     (parse_exc option \<times> sock_stream) + sock_stream" where
  "handle_turn lexical_cast fnmatch buff_size qs relaxed srv s =
     (case HttpSession_recvRequest lexical_cast buff_size qs relaxed s of
        (Closed, s1) \<Rightarrow> Inl (None, s1)
      | (Raised e, s1) \<Rightarrow> Inl (Some e, s1)
      | (Got req, s1) \<Rightarrow>
          let rsp = HttpResponse_new (rq_version req) (rq_close req \<or> \<not> hs_isKeepalive srv);
              rsp = HttpResponse_setHeader rsp ''Server'' (hs_name srv) in
          case ServletDispatch_handle fnmatch (hs_dispatch srv) req rsp s1 of
            (rt, req, rsp, s2) \<Rightarrow>
              case HttpSession_sendResponse rsp s2 of (len, s3) \<Rightarrow>
                if \<not> hs_isKeepalive srv \<or> rq_close req then Inl (None, s3) else Inr s3)"

partial_function (option) handle_loop ::
    "(string \<Rightarrow> nat option) \<Rightarrow> (string \<Rightarrow> string \<Rightarrow> bool) \<Rightarrow> nat \<Rightarrow> nat \<Rightarrow> bool \<Rightarrow> HttpServer \<Rightarrow> sock_stream \<Rightarrow>
     (parse_exc option \<times> sock_stream) option" where
  "handle_loop lexical_cast fnmatch buff_size qs relaxed srv s =
     (case handle_turn lexical_cast fnmatch buff_size qs relaxed srv s of
        Inl r \<Rightarrow> Some r
      | Inr s' \<Rightarrow> handle_loop lexical_cast fnmatch buff_size qs relaxed srv s')"

text \<open>The session closes its socket: explicitly at the end, or in its destructor when an exception passes.\<close>

definition HttpServer_handleClient ::
    "(string \<Rightarrow> nat option) \<Rightarrow> (string \<Rightarrow> string \<Rightarrow> bool) \<Rightarrow> nat \<Rightarrow> nat \<Rightarrow> bool \<Rightarrow> HttpServer \<Rightarrow> sock_stream \<Rightarrow>
     (parse_exc option \<times> sock_stream) option" where
  "HttpServer_handleClient lexical_cast fnmatch buff_size qs relaxed srv s =
     map_option (\<lambda>(e, s). (e, SocketStream_close s)) (handle_loop lexical_cast fnmatch buff_size qs relaxed srv s)"

section \<open>The loop ends\<close>

text \<open>Every turn that goes on has read at least one piece.\<close>

lemma recv_loop_consumes:
  "recv_loop buff_size parser data s = (Inr r, s') \<Longrightarrow> pieces_left s' < pieces_left s"
proof (induction "pieces_left s" arbitrary: parser data s rule: less_induct)
  case less
  obtain len bytes s1 where read: "SocketStream_read (buff_size - length data) s = (len, bytes, s1)"
    using prod_cases3 by blast
  note loop = less.prems [unfolded recv_loop.simps [of buff_size parser data s] read prod.case]
  have "0 < len" using loop by (auto split: if_splits)
  note s1 = SocketStream_read_consumes [OF read this]
  obtain np data' parser' where ex: "HttpRequestParser_execute parser (data @ bytes) = Inr (np, data', parser')"
    using loop \<open>0 < len\<close> by (cases "HttpRequestParser_execute parser (data @ bytes)") auto
  show ?case
  proof (cases "HttpRequestParser_isFinished parser' \<noteq> 0")
    case True
    then show ?thesis using loop \<open>0 < len\<close> s1 by (auto simp: ex split: if_splits)
  next
    case False
    then have "recv_loop buff_size parser' data' s1 = (Inr r, s')"
      using loop \<open>0 < len\<close> by (auto simp: ex split: if_splits)
    from less.hyps [OF s1 this] show ?thesis using s1 by simp
  qed
qed

lemma fix_size_pieces: "pieces_left (snd (snd (Stream_readFixSize SocketStream_read n s))) \<le> pieces_left s"
proof -
  let ?P = "\<lambda>q :: string \<times> sock_stream. pieces_left (snd q) \<le> pieces_left s"
  have step: "?P (snd (read_step n q))" if "?P q" for n q
    using that by (auto simp: read_step_def SocketStream_read_def sys_recv_def pieces_left_def
        split: prod.splits list.splits if_splits)
  have "?P ([], s)" by simp
  then have "?P (snd (fix_size_loop read_step n ([], s)))"
    by (rule fix_size_loop_invariant [where P = ?P and step = read_step, rotated]) (rule step)
  then show ?thesis
    by (auto simp: Stream_readFixSize_def fix_size_result_def simp flip: read_step_def split: prod.splits)
qed

lemma recvRequest_consumes:
  assumes "HttpSession_recvRequest lexical_cast buff_size qs relaxed s = (Got rq, s')"
  shows "pieces_left s' < pieces_left s"
proof -
  obtain parser data s1 where loop: "recv_loop buff_size (HttpRequestParser_new qs relaxed) [] s = (Inr (parser, data), s1)"
    using assms by (auto simp: HttpSession_recvRequest_def split: prod.splits sum.splits option.splits)
  note less = recv_loop_consumes [OF loop]
  obtain n where n: "s' = s1 \<or> s' = snd (snd (Stream_readFixSize SocketStream_read n s1))"
    using assms by (auto simp: HttpSession_recvRequest_def loop Let_def split: prod.splits if_splits) (metis snd_conv)+
  then show ?thesis using less fix_size_pieces [of n s1] by auto
qed

lemma sendResponse_input: "s_input (snd (HttpSession_sendResponse rsp s)) = s_input s"
proof -
  let ?P = "\<lambda>q :: nat \<times> sock_stream. s_input (snd q) = s_input s" and ?b = "HttpResponse_dump rsp"
  have step: "?P (snd (write_step ?b n q))" if "?P q" for n q
    using that by (auto simp: write_step_def SocketStream_write_def sys_send_def split: prod.splits list.splits if_splits)
  have "?P (0, s)" by simp
  then have "?P (snd (fix_size_loop (write_step ?b) (length ?b) (0, s)))"
    by (rule fix_size_loop_invariant [where P = ?P and step = "write_step ?b", rotated]) (rule step)
  then show ?thesis
    by (auto simp: HttpSession_sendResponse_def Stream_writeFixSize_def fix_size_result_def
        simp flip: write_step_def split: prod.splits)
qed

lemma handle_turn_consumes:
  assumes "handle_turn lexical_cast fnmatch buff_size qs relaxed srv s = Inr s'"
    and calm: "\<And>rq rsp s. pieces_left (snd (snd (snd (ServletDispatch_handle fnmatch (hs_dispatch srv) rq rsp s)))) \<le> pieces_left s"
  shows "pieces_left s' < pieces_left s"
proof -
  obtain req s1 where recv: "HttpSession_recvRequest lexical_cast buff_size qs relaxed s = (Got req, s1)"
    using assms(1) by (auto simp: handle_turn_def split: prod.splits recv_result.splits)
  define rsp where "rsp = HttpResponse_setHeader (HttpResponse_new (rq_version req) (rq_close req \<or> \<not> hs_isKeepalive srv)) ''Server'' (hs_name srv)"
  obtain rt req' rsp' s2 where h: "ServletDispatch_handle fnmatch (hs_dispatch srv) req rsp s1 = (rt, req', rsp', s2)"
    using prod_cases4 by blast
  have "s' = snd (HttpSession_sendResponse rsp' s2)"
    using assms(1) by (auto simp: handle_turn_def recv Let_def h simp flip: rsp_def split: prod.splits if_splits)
  then have "pieces_left s' = pieces_left s2" by (simp add: pieces_left_def sendResponse_input)
  then show ?thesis using recvRequest_consumes [OF recv] calm [of req rsp s1] by (simp add: h)
qed



section \<open>Serving a request\<close>



end
