(* ===== verification/Http_Split.thy ===== *)
theory Http_Split
  imports Http_Session
begin

text \<open>
  What happens to a request whose head does not arrive in one piece, and to bytes that arrive with the end
  of a request. \<open>http_parser_execute\<close> resets \<open>mark\<close>, \<open>field_start\<close> and \<open>field_len\<close> at every call, keeps
  \<open>query_start\<close>, and consumes all it is given, so that a piece of text which is cut by the end of a buffer is
  not delivered as a whole to its callback.
\<close>

section \<open>A call that does not reach the end of the head\<close>

lemma execute_partial:
  assumes "reaches buffer (hp_cs parser, 0, parser\<lparr>hp_nread := 0, hp_mark := 0, hp_field_len := 0, hp_field_start := 0\<rparr>)
      (cs', length buffer, q)"
    and "buffer \<noteq> []" "hp_cs parser \<noteq> 0" "hp_cs q \<noteq> 0" "hp_nread q = 0" "hp_body_start q \<le> length buffer"
    and "hp_mark q < length buffer" "hp_field_len q \<le> length buffer" "hp_field_start q < length buffer"
  shows "HttpRequestParser_execute parser buffer =
    Inr (length buffer, [], q\<lparr>hp_cs := cs', hp_nread := length buffer\<rparr>)"
proof -
  have "http_parser_loop buffer 0 buffer (hp_cs parser)
      (parser\<lparr>hp_nread := 0, hp_mark := 0, hp_field_len := 0, hp_field_start := 0\<rparr>) = Inr (cs', length buffer, q)"
    using assms(1) by (simp add: reaches_def run_from_def)
  then show ?thesis
    using assms(2-)
    by (simp add: HttpRequestParser_execute_def http_parser_execute_def http_parser_error_def http_parser_has_error_def)
qed

lemma recv_loop_partial:
  assumes "HttpRequestParser_execute parser seg = Inr (length seg, [], parser')"
    and "\<not> HttpRequestParser_hasError parser'" "HttpRequestParser_isFinished parser' = 0"
    and "s_connected s" "s_input s = seg # segs" "seg \<noteq> []" "length seg \<le> buff_size" "0 < buff_size"
  shows "recv_loop buff_size parser [] s = recv_loop buff_size parser' [] (s\<lparr>s_input := segs\<rparr>)"
proof -
  have "SocketStream_read buff_size s = (int (length seg), seg, s\<lparr>s_input := segs\<rparr>)"
    using assms(4-8) by (simp add: SocketStream_read_def SocketStream_isConnected_def sys_recv_def)
  then show ?thesis
    using assms by (subst recv_loop.simps) auto
qed

section \<open>A query that is cut\<close>

text \<open>The first piece ends within the query, the second one contains its end.\<close>

definition query_piece :: "HttpMethod \<Rightarrow> string \<Rightarrow> string" where
  "query_piece m path = HttpMethodToString m @ '' '' @ path @ ''?''"

lemma execute_query_piece:
  assumes "m \<noteq> INVALID_METHOD" "m \<noteq> M_MSEARCH" "path_text path" "query_text q1"
    and "length (query_piece m path @ q1) < 2 ^ 63"
  shows "\<exists>parser. HttpRequestParser_execute (HttpRequestParser_new qs relaxed) (query_piece m path @ q1) =
      Inr (length (query_piece m path @ q1), [], parser) \<and>
    \<not> HttpRequestParser_hasError parser \<and> HttpRequestParser_isFinished parser = 0 \<and>
    ready parser \<and> hp_cs parser = 30 \<and> hp_query_start parser = length (query_piece m path)"
proof -
  let ?m = "HttpMethodToString m" and ?n = "length (query_piece m path)"
  define buffer where "buffer = query_piece m path @ q1"
  let ?q = "(HttpRequestParser_new qs relaxed)\<lparr>hp_nread := 0, hp_mark := 0, hp_field_len := 0, hp_field_start := 0\<rparr>"
  have at: "text_at buffer 0 (?m @ '' '')" "text_at buffer (Suc (length ?m)) (path @ ''?'')" "text_at buffer ?n q1"
    by (simp_all add: buffer_def query_piece_def text_at_def)
  have ne: "buffer \<noteq> []" by (simp add: buffer_def query_piece_def)
  have small: "length buffer < 2 ^ 63" using assms(5) by (simp add: buffer_def)
  let ?rq = "HttpRequest_new 0x11 True"
  have "CharsToHttpMethod buffer = m" using assms(1) by (simp add: buffer_def query_piece_def CharsToHttpMethod_name)
  then have "runs buffer 1 0 ?rq 3 (Suc (length ?m)) (?rq\<lparr>rq_method := m\<rparr>)"
    using at assms(1) method_text [OF assms(1,2)] by (intro runs_method) auto
  also have "runs buffer 3 (Suc (length ?m)) \<dots> 29 (Suc (Suc (length ?m) + length path)) (?rq\<lparr>rq_method := m, rq_path := path\<rparr>)"
    using at assms(3) small by (intro runs_path) (auto simp: after_path_def)
  finally have "runs buffer 1 0 ?rq 29 ?n (?rq\<lparr>rq_method := m, rq_path := path\<rparr>)"
    by (simp add: query_piece_def)
  then obtain p1 where p1: "reaches buffer (1, 0, ?q) (29, ?n, p1)" "good buffer (?rq\<lparr>rq_method := m, rq_path := path\<rparr>) p1"
    using good_new [OF ne, of qs relaxed] unfolding runs_def by blast
  have "reaches buffer (29, ?n, p1) (30, length buffer, p1\<lparr>hp_query_start := ?n\<rparr>)"
    using query_first(1) [OF assms(4) at(3)] by (simp add: buffer_def)
  with p1(1) have run: "reaches buffer (1, 0, ?q) (30, length buffer, p1\<lparr>hp_query_start := ?n\<rparr>)"
    by (rule reaches_trans)
  have cs: "hp_cs (HttpRequestParser_new qs relaxed) = 1"
    by (simp add: HttpRequestParser_new_def http_parser_init_def http_parser_start_def)
  have "HttpRequestParser_execute (HttpRequestParser_new qs relaxed) buffer =
      Inr (length buffer, [], p1\<lparr>hp_query_start := ?n, hp_cs := 30, hp_nread := length buffer\<rparr>)"
    using execute_partial [of buffer "HttpRequestParser_new qs relaxed" 30 "p1\<lparr>hp_query_start := ?n\<rparr>"] run ne cs p1(2)
    by (simp add: good_def)
  then show ?thesis
    using p1(2)
    by (simp add: buffer_def good_def HttpRequestParser_hasError_def HttpRequestParser_isFinished_def http_parser_finish_def
        http_parser_has_error_def http_parser_is_finished_def http_parser_error_def http_parser_first_final_def)
qed

lemma execute_query_rest:
  assumes "ready parser" "hp_cs parser = 30" "uri_text query_char q2" "length q2 < hp_query_start parser"
    and "hp_query_start parser < 2 ^ 63"
  shows "HttpRequestParser_execute parser (q2 @ '' '' @ rest) = Inl Length_error"
proof -
  define buffer where "buffer = q2 @ '' '' @ rest"
  let ?q = "parser\<lparr>hp_nread := 0, hp_mark := 0, hp_field_len := 0, hp_field_start := 0\<rparr>"
  have "reaches buffer (30, 0, ?q) (30, 0 + length q2, ?q)"
    by (rule quietD) (auto intro: quiet_query assms(3) simp: buffer_def text_at_def)
  then have run: "http_parser_loop buffer 0 buffer 30 ?q = http_parser_loop buffer (length q2) ('' '' @ rest) 30 ?q"
    by (simp add: reaches_def run_from_def buffer_def)
  define d where "d = int (length q2) - int (hp_query_start parser)"
  have d: "d < 0" "- (2 ^ 63) < d" using assms(4,5) by (auto simp: d_def)
  have "d mod 2 ^ 64 = (d + 2 ^ 64) mod 2 ^ 64" by simp
  also have "\<dots> = d + 2 ^ 64" using d by (intro mod_pos_pos_trivial) auto
  finally have "2 ^ 63 \<le> LEN (hp_query_start parser) (length q2)" using d by (simp add: LEN_def flip: d_def)
  then have "std_string buffer (hp_query_start parser) (LEN (hp_query_start parser) (length q2)) = Inl Length_error"
    by (simp add: std_string_def)
  then have "http_parser_actions_run buffer (length q2) [9, 6] ?q = Inl Length_error"
    using assms(1) by (simp add: actions_eval on_request_query_def)
  then have "http_parser_loop buffer (length q2) ('' '' @ rest) 30 ?q = Inl Length_error"
    by (simp add: next_ends)
  then show ?thesis
    using run assms(2)
    by (simp add: HttpRequestParser_execute_def http_parser_execute_def http_parser_error_def flip: buffer_def)
       (simp add: buffer_def)
qed

section \<open>What the session makes of it\<close>



section \<open>Bytes behind a request\<close>

text \<open>
  Two requests sent in one piece, which HTTP/1.1 allows on a connection that is kept alive: \<open>recvRequest\<close> delivers the
  first one with the body that its \<open>content-length\<close> announces, and the bytes \<open>later\<close> behind it are dropped with the
  local buffer: what the session reads afterwards are the pieces that come later.
\<close>

theorem HttpSession_pipelined_dropped:
  assumes "request_ok m path query fragment v hs" "live s"
    and "s_input s = (request_head m path query fragment v hs @ body @ later) # segs"
    and "length (request_head m path query fragment v hs @ body @ later) \<le> buff_size" "buff_size < 2 ^ 63"
    and "getAs lexical_cast (rq_headers (request_of m path query fragment v hs)) ''content-length'' 0 = length body"
  shows "HttpSession_recvRequest lexical_cast buff_size qs relaxed s =
    (Got (HttpRequest_init ((request_of m path query fragment v hs)\<lparr>rq_body := body\<rparr>)), s\<lparr>s_input := segs\<rparr>)"
proof -
  let ?rq = "request_of m path query fragment v hs"
  from recv_loop_head [OF assms(1-5), of qs relaxed] obtain parser where
    loop: "recv_loop buff_size (HttpRequestParser_new qs relaxed) [] s = (Inr (parser, body @ later), s\<lparr>s_input := segs\<rparr>)"
    and rq: "m_data (hp_data parser) = ?rq" by blast
  have "length body < 2 ^ 63" using assms(4,5) by (simp add: request_head_def)
  then have len: "to_int64 (HttpRequestParser_getContentLength lexical_cast parser) = int (length body)"
    using assms(6) by (simp add: HttpRequestParser_getContentLength_def rq to_int64_def)
  have "rq_body ?rq = []" by (simp add: request_of_def set_headers_fields HttpRequest_new_def)
  then have "?rq\<lparr>rq_body := []\<rparr> = ?rq" by simp
  then show ?thesis
    using len by (simp add: HttpSession_recvRequest_def loop rq Let_def)
qed

theorem HttpSession_pipelined_dropped_witness:
  "\<exists>rq. HttpSession_recvRequest decimal 4096 0 False
     \<lparr>s_connected = True, s_input = [request_head M_GET ''/a'' [] [] 0x11 [] @ request_head M_GET ''/b'' [] [] 0x11 []],
      s_room = [], s_output = []\<rparr> =
   (Got rq, \<lparr>s_connected = True, s_input = [], s_room = [], s_output = []\<rparr>) \<and> rq_path rq = ''/a''"
proof -
  have "path_char (CHR ''a'')" by (simp add: path_char_def path_codes_def schar_def)
  then have "request_ok M_GET ''/a'' [] [] 0x11 []" by (simp add: path_text_def request_ok_def)
  moreover have "getAs decimal (rq_headers (request_of M_GET ''/a'' [] [] 0x11 [])) ''content-length'' 0 = length ''''"
    by (simp add: getAs_def request_of_def set_headers_def HttpRequest_new_def)
  ultimately show ?thesis
    using HttpSession_pipelined_dropped [of M_GET "''/a''" "[]" "[]" "0x11" "[]"
        "\<lparr>s_connected = True, s_input = [request_head M_GET ''/a'' [] [] 0x11 [] @ request_head M_GET ''/b'' [] [] 0x11 []],
          s_room = [], s_output = []\<rparr>" "[]" "request_head M_GET ''/b'' [] [] 0x11 []" "[]" 4096 decimal 0 False]
    by (simp add: live_def request_head_def target_text_def HttpMethodToString_def HTTP_METHOD_MAP_def CRLF_def
        request_of_def set_headers_def HttpRequest_init_def Let_def)
qed

end
