(* ===== verification/Http_Parser_Laws.thy ===== *)
theory Http_Parser_Laws
  imports Http_Request_Run
begin

text \<open>
  Laws of the request scanner that hold for every buffer: the searches agree with a linear scan, the state and the
  counters stay in their ranges, an error is final, and the whole head of a request is parsed in one call.
\<close>

section \<open>The state and the position\<close>

lemma http_parser_actions_cs:
  "http_parser_actions_run buffer p as parser = Inr (parser', out) \<Longrightarrow> hp_cs parser' = hp_cs parser \<and> hp_nread parser' = hp_nread parser"
proof (induction buffer p as parser rule: http_parser_actions_run.induct)
  case (2 buffer p act acts parser)
  have act: "hp_cs q = hp_cs parser \<and> hp_nread q = hp_nread parser" if "http_parser_action buffer p act parser = Inr (q, out')" for q out'
    using that
    by (auto simp: http_parser_action_def call_element_def action_done_def bindE_def Let_def
        split: if_splits option.splits sum.splits)
  obtain q out' where q: "http_parser_action buffer p act parser = Inr (q, out')"
    using "2.prems" by (auto simp: http_parser_actions_run.simps bindE_eq_Inr)
  show ?case
    using "2.prems" "2.IH" [OF q refl] act [OF q] by (cases out') (auto simp: http_parser_actions_run.simps q)
qed simp

lemma http_parser_loop_range:
  assumes "http_parser_loop buffer p rest cs parser = Inr (cs', p', parser')" "0 < cs" "cs < 350"
  shows "0 \<le> cs' \<and> cs' < 350 \<and> p \<le> p' \<and> p' \<le> p + length rest \<and> hp_cs parser' = hp_cs parser \<and> hp_nread parser' = hp_nread parser"
  using assms
proof (induction buffer p rest cs parser rule: http_parser_loop.induct)
  case (2 buffer p c rest cs parser)
  obtain cs1 acts where next1: "ragel_next http_parser_tables (hp_uri_relaxed parser) cs (schar c) = (cs1, acts)"
    by (cases "ragel_next http_parser_tables (hp_uri_relaxed parser) cs (schar c)")
  then have range: "0 \<le> cs1" "cs1 < 350"
    using hp.next_state [OF "2.prems"(2,3), of "hp_uri_relaxed parser" "schar c"] by auto
  obtain q out where acts: "http_parser_actions_run buffer p acts parser = Inr (q, out)"
    using "2.prems"(1) next1 by (auto simp: bindE_eq_Inr)
  note same = http_parser_actions_cs [OF acts]
  show ?case
  proof (cases "out \<or> cs1 = 0")
    case True
    then show ?thesis using "2.prems" next1 acts range same by (auto simp: http_parser_error_def split: if_splits)
  next
    case False
    then have "http_parser_loop buffer (p + 1) rest cs1 q = Inr (cs', p', parser')"
      using "2.prems"(1) next1 acts by (simp add: http_parser_error_def)
    then show ?thesis
      using "2.IH" [OF next1 [symmetric]] False acts range same by (force simp: http_parser_error_def)
  qed
qed auto

section \<open>Properties\<close>

text \<open>
  C24. The two binary searches that find the transition of a state for a character, and the third one that checks its
  condition, do what a linear scan of the keys of the state does, single keys before ranges and the
  default last: on the tables of the request scanner, in every state and for every character, whatever
  \<open>uri_relaxed\<close> is.
\<close>

theorem http_parser_search_correct:
  assumes "0 < cs" "cs < 350"
  shows "ragel_next http_parser_tables relaxed cs c =
    look (single_keys http_parser_tables cs @ range_keys http_parser_tables cs) (outs http_parser_tables relaxed cs) c"
  by (rule hp.next_look [OF assms])

theorem http_parser_search_correct_witness:
  "ragel_next http_parser_tables True 1 71 =
    look (single_keys http_parser_tables 1 @ range_keys http_parser_tables 1) (outs http_parser_tables True 1) 71"
  by (rule http_parser_search_correct) simp_all

text \<open>
  C25. \<open>http_parser_execute\<close> is type-safe: called in one of the 350 states of the machine, with any callbacks and any
  buffer, it returns (when no callback raises and no assertion fails) in one of the 350 states, has read at most the
  buffer, and reports the bytes read; the error state is never left.
\<close>

theorem http_parser_execute_range:
  assumes "0 \<le> hp_cs parser" "hp_cs parser < 350" "buffer \<noteq> []"
    and "http_parser_execute parser buffer off = Inr (n, parser')"
  shows "0 \<le> hp_cs parser' \<and> hp_cs parser' < 350 \<and> off + n \<le> length buffer \<and> hp_nread parser' = n \<and>
    (http_parser_has_error parser \<longrightarrow> http_parser_has_error parser' \<and> n = 0)"
proof -
  let ?q = "parser\<lparr>hp_nread := 0, hp_mark := 0, hp_field_len := 0, hp_field_start := 0\<rparr>"
  have off: "\<not> length buffer < off"
    using assms(3,4) by (auto simp: http_parser_execute_def)
  show ?thesis
  proof (cases "off = length buffer \<or> hp_cs parser = http_parser_error")
    case True
    then show ?thesis
      using assms off
      by (auto simp: http_parser_execute_def http_parser_has_error_def http_parser_error_def Let_def split: if_splits)
  next
    case False
    then obtain cs p q where loop: "http_parser_loop buffer off (drop off buffer) (hp_cs parser) ?q = Inr (cs, p, q)"
      using assms(3,4) off by (auto simp: http_parser_execute_def bindE_eq_Inr)
    have "0 < hp_cs parser" using False assms(1) by (simp add: http_parser_error_def)
    note r = http_parser_loop_range [OF loop this assms(2)]
    show ?thesis
      using False assms(3,4) off loop r
      by (auto simp: http_parser_execute_def http_parser_has_error_def http_parser_error_def Let_def split: if_splits)
  qed
qed

theorem http_parser_execute_range_witness:
  "\<exists>parser'. http_parser_execute (HttpRequestParser_new 7 False) '' '' 0 = Inr (0, parser') \<and>
    0 \<le> hp_cs parser' \<and> hp_cs parser' < 350"
proof -
  let ?p = "HttpRequestParser_new 7 False"
  have cs: "hp_cs ?p = 1" by (simp add: HttpRequestParser_new_def http_parser_init_def http_parser_start_def)
  have "http_parser_execute ?p '' '' 0 = Inr (0, ?p\<lparr>hp_nread := 0, hp_mark := 0, hp_field_len := 0, hp_field_start := 0, hp_cs := 0\<rparr>)"
    using cs by (simp add: http_parser_execute_def http_parser_error_def http_parser_has_error_def hp_1 look.simps schar_def)
       (simp add: HttpRequestParser_new_def http_parser_init_def)
  then show ?thesis
    using http_parser_execute_range [of ?p "'' ''" 0 0] cs by force
qed
text \<open>
  A request whose head arrives in one piece, followed by any bytes: \<open>HttpRequestParser::execute\<close> parses exactly
  the head, leaves the bytes behind it in the buffer, reports no error and that it has finished, and has
  built the request with this method, target, version and these headers. The start of the query string and
  \<open>uri_relaxed\<close> may have any value before.
\<close>

theorem HttpRequestParser_execute_request:
  assumes "request_ok m path query fragment v hs"
    and "length (request_head m path query fragment v hs @ rest) < 2 ^ 63"
  shows "\<exists>parser. HttpRequestParser_execute (HttpRequestParser_new qs relaxed) (request_head m path query fragment v hs @ rest) =
      Inr (length (request_head m path query fragment v hs), rest, parser) \<and>
    HttpRequestParser_isFinished parser = 1 \<and> \<not> HttpRequestParser_hasError parser \<and>
    m_data (hp_data parser) = request_of m path query fragment v hs"
  by (rule execute_request_head [OF assms])

theorem HttpRequestParser_execute_request_witness:
  "\<exists>parser. HttpRequestParser_execute (HttpRequestParser_new 7 True)
      (''GET /a HTTP/1.1'' @ CRLF @ ''h: 1'' @ CRLF @ CRLF @ ''body'') = Inr (25, ''body'', parser) \<and>
    HttpRequestParser_isFinished parser = 1 \<and> rq_path (m_data (hp_data parser)) = ''/a''"
proof -
  have "path_char (CHR ''a'')" "token_char (CHR ''h'')" "value_char (CHR ''1'')"
    by (simp_all add: path_char_def path_codes_def token_char_def token_codes_def value_char_def visible_codes_def schar_def)
  then have "request_ok M_GET ''/a'' [] [] 0x11 [(''h'', ''1'')]"
    by (simp add: request_ok_def path_text_def field_name_def field_value_def schar_def)
  moreover have "request_head M_GET ''/a'' [] [] 0x11 [(''h'', ''1'')] = ''GET /a HTTP/1.1'' @ CRLF @ ''h: 1'' @ CRLF @ CRLF"
    by (simp add: request_head_def target_text_def version_digit_def header_line_def HttpMethodToString_def HTTP_METHOD_MAP_def)
  ultimately show ?thesis
    using HttpRequestParser_execute_request [of M_GET "''/a''" "[]" "[]" "0x11" "[(''h'', ''1'')]" "''body''" 7 True]
    by (auto simp: CRLF_def request_of_def set_headers_def HttpRequest_setHeader_def)
qed

end
