(* ===== verification/Httpclient_Tables.thy ===== *)
theory Httpclient_Tables
  imports Ragel
begin

text \<open>
  The tables of the response scanner, \<open>src/sylar/http/httpclient_parser.cc\<close>, one row per source line (the
  tables longer than 125 lines in parts), and the interpretation of the scanner's laws on them: 124 states, 1044
  transitions. The machine has no condition: its code does not read \<open>_httpclient_parser_trans_cond_spaces\<close>. The
  tables \<open>_httpclient_parser_nfa_*\<close> of the file are not read by its code.
\<close>

section \<open>The tables\<close>

definition httpclient_parser_actions :: "int list list" where
  "httpclient_parser_actions =
    [
     [0, 1, 0, 1, 1, 1, 2, 1],
     [3, 1, 5, 1, 6, 1, 7, 1],
     [8, 1, 9, 1, 10, 1, 11, 1],
     [12, 2, 2, 3, 2, 3, 1, 2],
     [3, 6, 2, 4, 6, 2, 5, 1],
     [2, 5, 12, 2, 6, 11, 2, 6],
     [12, 2, 10, 12, 3, 2, 3, 6],
     [4, 2, 3, 6, 12, 0]]"

definition httpclient_parser_key_offsets :: "int list list" where
  "httpclient_parser_key_offsets =
    [
     [0, 0, 7, 16, 17, 32, 51, 66],
     [84, 85, 86, 87, 88, 90, 93, 95],
     [98, 100, 103, 104, 106, 127, 143, 148],
     [150, 151, 169, 187, 207, 225, 243, 261],
     [279, 297, 315, 331, 338, 362, 367, 369],
     [371, 373, 375, 377, 398, 416, 434, 452],
     [470, 488, 506, 524, 540, 558, 576, 594],
     [612, 630, 648, 666, 684, 700, 707, 731],
     [736, 738, 740, 742, 744, 746, 748, 750],
     [751, 757, 777, 795, 813, 831, 849, 867],
     [885, 891, 895, 899, 903, 907, 911, 915],
     [917, 918, 924, 944, 962, 980, 998, 1016],
     [1022, 1026, 1030, 1034, 1038, 1040, 1058, 1076],
     [1094, 1110, 1128, 1146, 1164, 1182, 1200, 1218],
     [1234, 1241, 1265, 1270, 1274, 1280, 1298, 1304],
     [1308, 1308, 1313, 1318, 0]]"

definition httpclient_parser_trans_keys_1 :: "int list list" where
  "httpclient_parser_trans_keys_1 =
    [
     [72, 48, 57, 65, 70, 97, 102, 10],
     [13, 59, 48, 57, 65, 70, 97, 102],
     [10, 33, 124, 126, 35, 39, 42, 43],
     [45, 46, 48, 57, 65, 90, 94, 122],
     [10, 13, 33, 59, 61, 124, 126, 35],
     [39, 42, 43, 45, 46, 48, 57, 65],
     [90, 94, 122, 33, 124, 126, 35, 39],
     [42, 43, 45, 46, 48, 57, 65, 90],
     [94, 122, 10, 13, 33, 59, 124, 126],
     [35, 39, 42, 43, 45, 46, 48, 57],
     [65, 90, 94, 122, 84, 84, 80, 47],
     [48, 57, 46, 48, 57, 48, 57, 32],
     [48, 57, 48, 57, 32, 48, 57, 10],
     [10, 13, 10, 13, 33, 67, 84, 99],
     [116, 124, 126, 35, 39, 42, 43, 45],
     [46, 48, 57, 65, 90, 94, 122, 33],
     [58, 124, 126, 35, 39, 42, 43, 45],
     [46, 48, 57, 65, 90, 94, 122, 10],
     [13, 32, 9, 12, 10, 13, 10, 33],
     [58, 79, 111, 124, 126, 35, 39, 42],
     [43, 45, 46, 48, 57, 65, 90, 94],
     [122, 33, 58, 78, 110, 124, 126, 35],
     [39, 42, 43, 45, 46, 48, 57, 65],
     [90, 94, 122, 33, 58, 78, 84, 110],
     [116, 124, 126, 35, 39, 42, 43, 45],
     [46, 48, 57, 65, 90, 94, 122, 33],
     [58, 69, 101, 124, 126, 35, 39, 42],
     [43, 45, 46, 48, 57, 65, 90, 94],
     [122, 33, 58, 67, 99, 124, 126, 35],
     [39, 42, 43, 45, 46, 48, 57, 65],
     [90, 94, 122, 33, 58, 84, 116, 124],
     [126, 35, 39, 42, 43, 45, 46, 48],
     [57, 65, 90, 94, 122, 33, 58, 73],
     [105, 124, 126, 35, 39, 42, 43, 45],
     [46, 48, 57, 65, 90, 94, 122, 33],
     [58, 79, 111, 124, 126, 35, 39, 42],
     [43, 45, 46, 48, 57, 65, 90, 94],
     [122, 33, 58, 78, 110, 124, 126, 35],
     [39, 42, 43, 45, 46, 48, 57, 65],
     [90, 94, 122, 33, 58, 124, 126, 35],
     [39, 42, 43, 45, 46, 48, 57, 65],
     [90, 94, 122, 10, 13, 32, 67, 99],
     [9, 12, 10, 13, 32, 33, 67, 84],
     [99, 116, 124, 126, 9, 12, 35, 39],
     [42, 43, 45, 46, 48, 57, 65, 90],
     [94, 122, 32, 67, 99, 9, 13, 76],
     [108, 79, 111, 83, 115, 69, 101, 10],
     [13, 10, 13, 33, 67, 84, 99, 116],
     [124, 126, 35, 39, 42, 43, 45, 46],
     [48, 57, 65, 90, 94, 122, 33, 58],
     [82, 114, 124, 126, 35, 39, 42, 43],
     [45, 46, 48, 57, 65, 90, 94, 122],
     [33, 58, 65, 97, 124, 126, 35, 39],
     [42, 43, 45, 46, 48, 57, 66, 90],
     [94, 122, 33, 58, 78, 110, 124, 126],
     [35, 39, 42, 43, 45, 46, 48, 57],
     [65, 90, 94, 122, 33, 58, 83, 115],
     [124, 126, 35, 39, 42, 43, 45, 46],
     [48, 57, 65, 90, 94, 122, 33, 58],
     [70, 102, 124, 126, 35, 39, 42, 43],
     [45, 46, 48, 57, 65, 90, 94, 122],
     [33, 58, 69, 101, 124, 126, 35, 39],
     [42, 43, 45, 46, 48, 57, 65, 90],
     [94, 122, 33, 58, 82, 114, 124, 126],
     [35, 39, 42, 43, 45, 46, 48, 57],
     [65, 90, 94, 122, 33, 45, 46, 58],
     [124, 126, 35, 39, 42, 43, 48, 57],
     [65, 90, 94, 122, 33, 58, 69, 101],
     [124, 126, 35, 39, 42, 43, 45, 46],
     [48, 57, 65, 90, 94, 122, 33, 58],
     [78, 110, 124, 126, 35, 39, 42, 43],
     [45, 46, 48, 57, 65, 90, 94, 122],
     [33, 58, 67, 99, 124, 126, 35, 39],
     [42, 43, 45, 46, 48, 57, 65, 90],
     [94, 122, 33, 58, 79, 111, 124, 126],
     [35, 39, 42, 43, 45, 46, 48, 57],
     [65, 90, 94, 122, 33, 58, 68, 100],
     [124, 126, 35, 39, 42, 43, 45, 46],
     [48, 57, 65, 90, 94, 122, 33, 58],
     [73, 105, 124, 126, 35, 39, 42, 43],
     [45, 46, 48, 57, 65, 90, 94, 122],
     [33, 58, 78, 110, 124, 126, 35, 39],
     [42, 43, 45, 46, 48, 57, 65, 90]]"

definition httpclient_parser_trans_keys_2 :: "int list list" where
  "httpclient_parser_trans_keys_2 =
    [
     [94, 122, 33, 58, 71, 103, 124, 126],
     [35, 39, 42, 43, 45, 46, 48, 57],
     [65, 90, 94, 122, 33, 58, 124, 126],
     [35, 39, 42, 43, 45, 46, 48, 57],
     [65, 90, 94, 122, 10, 13, 32, 67],
     [99, 9, 12, 10, 13, 32, 33, 67],
     [84, 99, 116, 124, 126, 9, 12, 35],
     [39, 42, 43, 45, 46, 48, 57, 65],
     [90, 94, 122, 32, 67, 99, 9, 13],
     [72, 104, 85, 117, 78, 110, 75, 107],
     [69, 101, 68, 100, 10, 13, 10, 10],
     [32, 67, 99, 9, 13, 33, 58, 72],
     [79, 104, 111, 124, 126, 35, 39, 42],
     [43, 45, 46, 48, 57, 65, 90, 94],
     [122, 33, 58, 85, 117, 124, 126, 35],
     [39, 42, 43, 45, 46, 48, 57, 65],
     [90, 94, 122, 33, 58, 78, 110, 124],
     [126, 35, 39, 42, 43, 45, 46, 48],
     [57, 65, 90, 94, 122, 33, 58, 75],
     [107, 124, 126, 35, 39, 42, 43, 45],
     [46, 48, 57, 65, 90, 94, 122, 33],
     [58, 69, 101, 124, 126, 35, 39, 42],
     [43, 45, 46, 48, 57, 65, 90, 94],
     [122, 33, 58, 68, 100, 124, 126, 35],
     [39, 42, 43, 45, 46, 48, 57, 65],
     [90, 94, 122, 10, 13, 33, 58, 124],
     [126, 35, 39, 42, 43, 45, 46, 48],
     [57, 65, 90, 94, 122, 10, 32, 67],
     [99, 9, 13, 10, 13, 72, 104, 10],
     [13, 85, 117, 10, 13, 78, 110, 10],
     [13, 75, 107, 10, 13, 69, 101, 10],
     [13, 68, 100, 10, 13, 10, 10, 32],
     [67, 99, 9, 13, 33, 58, 76, 79],
     [108, 111, 124, 126, 35, 39, 42, 43],
     [45, 46, 48, 57, 65, 90, 94, 122],
     [33, 58, 79, 111, 124, 126, 35, 39],
     [42, 43, 45, 46, 48, 57, 65, 90],
     [94, 122, 33, 58, 83, 115, 124, 126],
     [35, 39, 42, 43, 45, 46, 48, 57],
     [65, 90, 94, 122, 33, 58, 69, 101],
     [124, 126, 35, 39, 42, 43, 45, 46],
     [48, 57, 65, 90, 94, 122, 10, 13],
     [33, 58, 124, 126, 35, 39, 42, 43],
     [45, 46, 48, 57, 65, 90, 94, 122],
     [10, 32, 67, 99, 9, 13, 10, 13],
     [76, 108, 10, 13, 79, 111, 10, 13],
     [83, 115, 10, 13, 69, 101, 10, 13],
     [33, 58, 69, 101, 124, 126, 35, 39],
     [42, 43, 45, 46, 48, 57, 65, 90],
     [94, 122, 33, 58, 78, 110, 124, 126],
     [35, 39, 42, 43, 45, 46, 48, 57],
     [65, 90, 94, 122, 33, 58, 84, 116],
     [124, 126, 35, 39, 42, 43, 45, 46],
     [48, 57, 65, 90, 94, 122, 33, 45],
     [46, 58, 124, 126, 35, 39, 42, 43],
     [48, 57, 65, 90, 94, 122, 33, 58],
     [76, 108, 124, 126, 35, 39, 42, 43],
     [45, 46, 48, 57, 65, 90, 94, 122],
     [33, 58, 69, 101, 124, 126, 35, 39],
     [42, 43, 45, 46, 48, 57, 65, 90],
     [94, 122, 33, 58, 78, 110, 124, 126],
     [35, 39, 42, 43, 45, 46, 48, 57],
     [65, 90, 94, 122, 33, 58, 71, 103],
     [124, 126, 35, 39, 42, 43, 45, 46],
     [48, 57, 65, 90, 94, 122, 33, 58],
     [84, 116, 124, 126, 35, 39, 42, 43],
     [45, 46, 48, 57, 65, 90, 94, 122],
     [33, 58, 72, 104, 124, 126, 35, 39],
     [42, 43, 45, 46, 48, 57, 65, 90],
     [94, 122, 33, 58, 124, 126, 35, 39],
     [42, 43, 45, 46, 48, 57, 65, 90],
     [94, 122, 10, 13, 32, 9, 12, 48],
     [57, 10, 13, 32, 33, 67, 84, 99],
     [116, 124, 126, 9, 12, 35, 39, 42],
     [43, 45, 46, 48, 57, 65, 90, 94],
     [122, 32, 9, 13, 48, 57, 10, 13],
     [48, 57, 10, 32, 9, 13, 48, 57],
     [10, 13, 33, 58, 124, 126, 35, 39],
     [42, 43, 45, 46, 48, 57, 65, 90],
     [94, 122, 10, 32, 9, 13, 48, 57],
     [10, 13, 48, 57, 32, 67, 99, 9],
     [13, 32, 67, 99, 9, 13, 32, 9],
     [13, 48, 57, 0]]"

definition httpclient_parser_trans_keys :: "int list list" where
  "httpclient_parser_trans_keys = httpclient_parser_trans_keys_1 @ httpclient_parser_trans_keys_2"

definition httpclient_parser_single_lengths :: "int list list" where
  "httpclient_parser_single_lengths =
    [
     [0, 1, 3, 1, 3, 7, 3, 6],
     [1, 1, 1, 1, 0, 1, 0, 1],
     [0, 1, 1, 2, 9, 4, 3, 2],
     [1, 6, 6, 8, 6, 6, 6, 6],
     [6, 6, 4, 5, 10, 3, 2, 2],
     [2, 2, 2, 9, 6, 6, 6, 6],
     [6, 6, 6, 6, 6, 6, 6, 6],
     [6, 6, 6, 6, 4, 5, 10, 3],
     [2, 2, 2, 2, 2, 2, 2, 1],
     [4, 8, 6, 6, 6, 6, 6, 6],
     [4, 4, 4, 4, 4, 4, 4, 2],
     [1, 4, 8, 6, 6, 6, 6, 4],
     [4, 4, 4, 4, 2, 6, 6, 6],
     [6, 6, 6, 6, 6, 6, 6, 4],
     [3, 10, 1, 2, 2, 6, 2, 2],
     [0, 3, 3, 1, 0]]"

definition httpclient_parser_range_lengths :: "int list list" where
  "httpclient_parser_range_lengths =
    [
     [0, 3, 3, 0, 6, 6, 6, 6],
     [0, 0, 0, 0, 1, 1, 1, 1],
     [1, 1, 0, 0, 6, 6, 1, 0],
     [0, 6, 6, 6, 6, 6, 6, 6],
     [6, 6, 6, 1, 7, 1, 0, 0],
     [0, 0, 0, 6, 6, 6, 6, 6],
     [6, 6, 6, 5, 6, 6, 6, 6],
     [6, 6, 6, 6, 6, 1, 7, 1],
     [0, 0, 0, 0, 0, 0, 0, 0],
     [1, 6, 6, 6, 6, 6, 6, 6],
     [1, 0, 0, 0, 0, 0, 0, 0],
     [0, 1, 6, 6, 6, 6, 6, 1],
     [0, 0, 0, 0, 0, 6, 6, 6],
     [5, 6, 6, 6, 6, 6, 6, 6],
     [2, 7, 2, 1, 2, 6, 2, 1],
     [0, 1, 1, 2, 0]]"

definition httpclient_parser_index_offsets :: "int list list" where
  "httpclient_parser_index_offsets =
    [
     [0, 0, 5, 12, 14, 24, 38, 48],
     [61, 63, 65, 67, 69, 71, 74, 76],
     [79, 81, 84, 86, 89, 105, 116, 121],
     [124, 126, 139, 152, 167, 180, 193, 206],
     [219, 232, 245, 256, 263, 281, 286, 289],
     [292, 295, 298, 301, 317, 330, 343, 356],
     [369, 382, 395, 408, 420, 433, 446, 459],
     [472, 485, 498, 511, 524, 535, 542, 560],
     [565, 568, 571, 574, 577, 580, 583, 586],
     [588, 594, 609, 622, 635, 648, 661, 674],
     [687, 693, 698, 703, 708, 713, 718, 723],
     [726, 728, 734, 749, 762, 775, 788, 801],
     [807, 812, 817, 822, 827, 830, 843, 856],
     [869, 881, 894, 907, 920, 933, 946, 959],
     [970, 976, 994, 998, 1002, 1007, 1020, 1025],
     [1029, 1030, 1035, 1040, 0]]"

definition httpclient_parser_trans_cond_spaces_1 :: "int list list" where
  "httpclient_parser_trans_cond_spaces_1 =
    [
     [-1, -1, -1, -1, -1, -1, -1, -1],
     [-1, -1, -1, -1, -1, -1, -1, -1],
     [-1, -1, -1, -1, -1, -1, -1, -1],
     [-1, -1, -1, -1, -1, -1, -1, -1],
     [-1, -1, -1, -1, -1, -1, -1, -1],
     [-1, -1, -1, -1, -1, -1, -1, -1],
     [-1, -1, -1, -1, -1, -1, -1, -1],
     [-1, -1, -1, -1, -1, -1, -1, -1],
     [-1, -1, -1, -1, -1, -1, -1, -1],
     [-1, -1, -1, -1, -1, -1, -1, -1],
     [-1, -1, -1, -1, -1, -1, -1, -1],
     [-1, -1, -1, -1, -1, -1, -1, -1],
     [-1, -1, -1, -1, -1, -1, -1, -1],
     [-1, -1, -1, -1, -1, -1, -1, -1],
     [-1, -1, -1, -1, -1, -1, -1, -1],
     [-1, -1, -1, -1, -1, -1, -1, -1],
     [-1, -1, -1, -1, -1, -1, -1, -1],
     [-1, -1, -1, -1, -1, -1, -1, -1],
     [-1, -1, -1, -1, -1, -1, -1, -1],
     [-1, -1, -1, -1, -1, -1, -1, -1],
     [-1, -1, -1, -1, -1, -1, -1, -1],
     [-1, -1, -1, -1, -1, -1, -1, -1],
     [-1, -1, -1, -1, -1, -1, -1, -1],
     [-1, -1, -1, -1, -1, -1, -1, -1],
     [-1, -1, -1, -1, -1, -1, -1, -1],
     [-1, -1, -1, -1, -1, -1, -1, -1],
     [-1, -1, -1, -1, -1, -1, -1, -1],
     [-1, -1, -1, -1, -1, -1, -1, -1],
     [-1, -1, -1, -1, -1, -1, -1, -1],
     [-1, -1, -1, -1, -1, -1, -1, -1],
     [-1, -1, -1, -1, -1, -1, -1, -1],
     [-1, -1, -1, -1, -1, -1, -1, -1],
     [-1, -1, -1, -1, -1, -1, -1, -1],
     [-1, -1, -1, -1, -1, -1, -1, -1],
     [-1, -1, -1, -1, -1, -1, -1, -1],
     [-1, -1, -1, -1, -1, -1, -1, -1],
     [-1, -1, -1, -1, -1, -1, -1, -1],
     [-1, -1, -1, -1, -1, -1, -1, -1],
     [-1, -1, -1, -1, -1, -1, -1, -1],
     [-1, -1, -1, -1, -1, -1, -1, -1],
     [-1, -1, -1, -1, -1, -1, -1, -1],
     [-1, -1, -1, -1, -1, -1, -1, -1],
     [-1, -1, -1, -1, -1, -1, -1, -1],
     [-1, -1, -1, -1, -1, -1, -1, -1],
     [-1, -1, -1, -1, -1, -1, -1, -1],
     [-1, -1, -1, -1, -1, -1, -1, -1],
     [-1, -1, -1, -1, -1, -1, -1, -1],
     [-1, -1, -1, -1, -1, -1, -1, -1],
     [-1, -1, -1, -1, -1, -1, -1, -1],
     [-1, -1, -1, -1, -1, -1, -1, -1],
     [-1, -1, -1, -1, -1, -1, -1, -1],
     [-1, -1, -1, -1, -1, -1, -1, -1],
     [-1, -1, -1, -1, -1, -1, -1, -1],
     [-1, -1, -1, -1, -1, -1, -1, -1],
     [-1, -1, -1, -1, -1, -1, -1, -1],
     [-1, -1, -1, -1, -1, -1, -1, -1],
     [-1, -1, -1, -1, -1, -1, -1, -1],
     [-1, -1, -1, -1, -1, -1, -1, -1],
     [-1, -1, -1, -1, -1, -1, -1, -1],
     [-1, -1, -1, -1, -1, -1, -1, -1],
     [-1, -1, -1, -1, -1, -1, -1, -1],
     [-1, -1, -1, -1, -1, -1, -1, -1],
     [-1, -1, -1, -1, -1, -1, -1, -1],
     [-1, -1, -1, -1, -1, -1, -1, -1],
     [-1, -1, -1, -1, -1, -1, -1, -1],
     [-1, -1, -1, -1, -1, -1, -1, -1]]"

definition httpclient_parser_trans_cond_spaces_2 :: "int list list" where
  "httpclient_parser_trans_cond_spaces_2 =
    [
     [-1, -1, -1, -1, -1, -1, -1, -1],
     [-1, -1, -1, -1, -1, -1, -1, -1],
     [-1, -1, -1, -1, -1, -1, -1, -1],
     [-1, -1, -1, -1, -1, -1, -1, -1],
     [-1, -1, -1, -1, -1, -1, -1, -1],
     [-1, -1, -1, -1, -1, -1, -1, -1],
     [-1, -1, -1, -1, -1, -1, -1, -1],
     [-1, -1, -1, -1, -1, -1, -1, -1],
     [-1, -1, -1, -1, -1, -1, -1, -1],
     [-1, -1, -1, -1, -1, -1, -1, -1],
     [-1, -1, -1, -1, -1, -1, -1, -1],
     [-1, -1, -1, -1, -1, -1, -1, -1],
     [-1, -1, -1, -1, -1, -1, -1, -1],
     [-1, -1, -1, -1, -1, -1, -1, -1],
     [-1, -1, -1, -1, -1, -1, -1, -1],
     [-1, -1, -1, -1, -1, -1, -1, -1],
     [-1, -1, -1, -1, -1, -1, -1, -1],
     [-1, -1, -1, -1, -1, -1, -1, -1],
     [-1, -1, -1, -1, -1, -1, -1, -1],
     [-1, -1, -1, -1, -1, -1, -1, -1],
     [-1, -1, -1, -1, -1, -1, -1, -1],
     [-1, -1, -1, -1, -1, -1, -1, -1],
     [-1, -1, -1, -1, -1, -1, -1, -1],
     [-1, -1, -1, -1, -1, -1, -1, -1],
     [-1, -1, -1, -1, -1, -1, -1, -1],
     [-1, -1, -1, -1, -1, -1, -1, -1],
     [-1, -1, -1, -1, -1, -1, -1, -1],
     [-1, -1, -1, -1, -1, -1, -1, -1],
     [-1, -1, -1, -1, -1, -1, -1, -1],
     [-1, -1, -1, -1, -1, -1, -1, -1],
     [-1, -1, -1, -1, -1, -1, -1, -1],
     [-1, -1, -1, -1, -1, -1, -1, -1],
     [-1, -1, -1, -1, -1, -1, -1, -1],
     [-1, -1, -1, -1, -1, -1, -1, -1],
     [-1, -1, -1, -1, -1, -1, -1, -1],
     [-1, -1, -1, -1, -1, -1, -1, -1],
     [-1, -1, -1, -1, -1, -1, -1, -1],
     [-1, -1, -1, -1, -1, -1, -1, -1],
     [-1, -1, -1, -1, -1, -1, -1, -1],
     [-1, -1, -1, -1, -1, -1, -1, -1],
     [-1, -1, -1, -1, -1, -1, -1, -1],
     [-1, -1, -1, -1, -1, -1, -1, -1],
     [-1, -1, -1, -1, -1, -1, -1, -1],
     [-1, -1, -1, -1, -1, -1, -1, -1],
     [-1, -1, -1, -1, -1, -1, -1, -1],
     [-1, -1, -1, -1, -1, -1, -1, -1],
     [-1, -1, -1, -1, -1, -1, -1, -1],
     [-1, -1, -1, -1, -1, -1, -1, -1],
     [-1, -1, -1, -1, -1, -1, -1, -1],
     [-1, -1, -1, -1, -1, -1, -1, -1],
     [-1, -1, -1, -1, -1, -1, -1, -1],
     [-1, -1, -1, -1, -1, -1, -1, -1],
     [-1, -1, -1, -1, -1, -1, -1, -1],
     [-1, -1, -1, -1, -1, -1, -1, -1],
     [-1, -1, -1, -1, -1, -1, -1, -1],
     [-1, -1, -1, -1, -1, -1, -1, -1],
     [-1, -1, -1, -1, -1, -1, -1, -1],
     [-1, -1, -1, -1, -1, -1, -1, -1],
     [-1, -1, -1, -1, -1, -1, -1, -1],
     [-1, -1, -1, -1, -1, -1, -1, -1],
     [-1, -1, -1, -1, -1, -1, -1, -1],
     [-1, -1, -1, -1, -1, -1, -1, -1],
     [-1, -1, -1, -1, -1, -1, -1, -1],
     [-1, -1, -1, -1, -1, -1, -1, -1],
     [-1, -1, -1, -1, 0]]"

definition httpclient_parser_trans_cond_spaces :: "int list list" where
  "httpclient_parser_trans_cond_spaces = httpclient_parser_trans_cond_spaces_1 @ httpclient_parser_trans_cond_spaces_2"

definition httpclient_parser_trans_offsets_1 :: "int list list" where
  "httpclient_parser_trans_offsets_1 =
    [
     [0, 1, 2, 3, 4, 5, 6, 7],
     [8, 9, 10, 11, 12, 13, 14, 15],
     [16, 17, 18, 19, 20, 21, 22, 23],
     [24, 25, 26, 27, 28, 29, 30, 31],
     [32, 33, 34, 35, 36, 37, 38, 39],
     [40, 41, 42, 43, 44, 45, 46, 47],
     [48, 49, 50, 51, 52, 53, 54, 55],
     [56, 57, 58, 59, 60, 61, 62, 63],
     [64, 65, 66, 67, 68, 69, 70, 71],
     [72, 73, 74, 75, 76, 77, 78, 79],
     [80, 81, 82, 83, 84, 85, 86, 87],
     [88, 89, 90, 91, 92, 93, 94, 95],
     [96, 97, 98, 99, 100, 101, 102, 103],
     [104, 105, 106, 107, 108, 109, 110, 111],
     [112, 113, 114, 115, 116, 117, 118, 119],
     [120, 121, 122, 123, 124, 125, 126, 127],
     [128, 129, 130, 131, 132, 133, 134, 135],
     [136, 137, 138, 139, 140, 141, 142, 143],
     [144, 145, 146, 147, 148, 149, 150, 151],
     [152, 153, 154, 155, 156, 157, 158, 159],
     [160, 161, 162, 163, 164, 165, 166, 167],
     [168, 169, 170, 171, 172, 173, 174, 175],
     [176, 177, 178, 179, 180, 181, 182, 183],
     [184, 185, 186, 187, 188, 189, 190, 191],
     [192, 193, 194, 195, 196, 197, 198, 199],
     [200, 201, 202, 203, 204, 205, 206, 207],
     [208, 209, 210, 211, 212, 213, 214, 215],
     [216, 217, 218, 219, 220, 221, 222, 223],
     [224, 225, 226, 227, 228, 229, 230, 231],
     [232, 233, 234, 235, 236, 237, 238, 239],
     [240, 241, 242, 243, 244, 245, 246, 247],
     [248, 249, 250, 251, 252, 253, 254, 255],
     [256, 257, 258, 259, 260, 261, 262, 263],
     [264, 265, 266, 267, 268, 269, 270, 271],
     [272, 273, 274, 275, 276, 277, 278, 279],
     [280, 281, 282, 283, 284, 285, 286, 287],
     [288, 289, 290, 291, 292, 293, 294, 295],
     [296, 297, 298, 299, 300, 301, 302, 303],
     [304, 305, 306, 307, 308, 309, 310, 311],
     [312, 313, 314, 315, 316, 317, 318, 319],
     [320, 321, 322, 323, 324, 325, 326, 327],
     [328, 329, 330, 331, 332, 333, 334, 335],
     [336, 337, 338, 339, 340, 341, 342, 343],
     [344, 345, 346, 347, 348, 349, 350, 351],
     [352, 353, 354, 355, 356, 357, 358, 359],
     [360, 361, 362, 363, 364, 365, 366, 367],
     [368, 369, 370, 371, 372, 373, 374, 375],
     [376, 377, 378, 379, 380, 381, 382, 383],
     [384, 385, 386, 387, 388, 389, 390, 391],
     [392, 393, 394, 395, 396, 397, 398, 399],
     [400, 401, 402, 403, 404, 405, 406, 407],
     [408, 409, 410, 411, 412, 413, 414, 415],
     [416, 417, 418, 419, 420, 421, 422, 423],
     [424, 425, 426, 427, 428, 429, 430, 431],
     [432, 433, 434, 435, 436, 437, 438, 439],
     [440, 441, 442, 443, 444, 445, 446, 447],
     [448, 449, 450, 451, 452, 453, 454, 455],
     [456, 457, 458, 459, 460, 461, 462, 463],
     [464, 465, 466, 467, 468, 469, 470, 471],
     [472, 473, 474, 475, 476, 477, 478, 479],
     [480, 481, 482, 483, 484, 485, 486, 487],
     [488, 489, 490, 491, 492, 493, 494, 495],
     [496, 497, 498, 499, 500, 501, 502, 503],
     [504, 505, 506, 507, 508, 509, 510, 511],
     [512, 513, 514, 515, 516, 517, 518, 519],
     [520, 521, 522, 523, 524, 525, 526, 527]]"

definition httpclient_parser_trans_offsets_2 :: "int list list" where
  "httpclient_parser_trans_offsets_2 =
    [
     [528, 529, 530, 531, 532, 533, 534, 535],
     [536, 537, 538, 539, 540, 541, 542, 543],
     [544, 545, 546, 547, 548, 549, 550, 551],
     [552, 553, 554, 555, 556, 557, 558, 559],
     [560, 561, 562, 563, 564, 565, 566, 567],
     [568, 569, 570, 571, 572, 573, 574, 575],
     [576, 577, 578, 579, 580, 581, 582, 583],
     [584, 585, 586, 587, 588, 589, 590, 591],
     [592, 593, 594, 595, 596, 597, 598, 599],
     [600, 601, 602, 603, 604, 605, 606, 607],
     [608, 609, 610, 611, 612, 613, 614, 615],
     [616, 617, 618, 619, 620, 621, 622, 623],
     [624, 625, 626, 627, 628, 629, 630, 631],
     [632, 633, 634, 635, 636, 637, 638, 639],
     [640, 641, 642, 643, 644, 645, 646, 647],
     [648, 649, 650, 651, 652, 653, 654, 655],
     [656, 657, 658, 659, 660, 661, 662, 663],
     [664, 665, 666, 667, 668, 669, 670, 671],
     [672, 673, 674, 675, 676, 677, 678, 679],
     [680, 681, 682, 683, 684, 685, 686, 687],
     [688, 689, 690, 691, 692, 693, 694, 695],
     [696, 697, 698, 699, 700, 701, 702, 703],
     [704, 705, 706, 707, 708, 709, 710, 711],
     [712, 713, 714, 715, 716, 717, 718, 719],
     [720, 721, 722, 723, 724, 725, 726, 727],
     [728, 729, 730, 731, 732, 733, 734, 735],
     [736, 737, 738, 739, 740, 741, 742, 743],
     [744, 745, 746, 747, 748, 749, 750, 751],
     [752, 753, 754, 755, 756, 757, 758, 759],
     [760, 761, 762, 763, 764, 765, 766, 767],
     [768, 769, 770, 771, 772, 773, 774, 775],
     [776, 777, 778, 779, 780, 781, 782, 783],
     [784, 785, 786, 787, 788, 789, 790, 791],
     [792, 793, 794, 795, 796, 797, 798, 799],
     [800, 801, 802, 803, 804, 805, 806, 807],
     [808, 809, 810, 811, 812, 813, 814, 815],
     [816, 817, 818, 819, 820, 821, 822, 823],
     [824, 825, 826, 827, 828, 829, 830, 831],
     [832, 833, 834, 835, 836, 837, 838, 839],
     [840, 841, 842, 843, 844, 845, 846, 847],
     [848, 849, 850, 851, 852, 853, 854, 855],
     [856, 857, 858, 859, 860, 861, 862, 863],
     [864, 865, 866, 867, 868, 869, 870, 871],
     [872, 873, 874, 875, 876, 877, 878, 879],
     [880, 881, 882, 883, 884, 885, 886, 887],
     [888, 889, 890, 891, 892, 893, 894, 895],
     [896, 897, 898, 899, 900, 901, 902, 903],
     [904, 905, 906, 907, 908, 909, 910, 911],
     [912, 913, 914, 915, 916, 917, 918, 919],
     [920, 921, 922, 923, 924, 925, 926, 927],
     [928, 929, 930, 931, 932, 933, 934, 935],
     [936, 937, 938, 939, 940, 941, 942, 943],
     [944, 945, 946, 947, 948, 949, 950, 951],
     [952, 953, 954, 955, 956, 957, 958, 959],
     [960, 961, 962, 963, 964, 965, 966, 967],
     [968, 969, 970, 971, 972, 973, 974, 975],
     [976, 977, 978, 979, 980, 981, 982, 983],
     [984, 985, 986, 987, 988, 989, 990, 991],
     [992, 993, 994, 995, 996, 997, 998, 999],
     [1000, 1001, 1002, 1003, 1004, 1005, 1006, 1007],
     [1008, 1009, 1010, 1011, 1012, 1013, 1014, 1015],
     [1016, 1017, 1018, 1019, 1020, 1021, 1022, 1023],
     [1024, 1025, 1026, 1027, 1028, 1029, 1030, 1031],
     [1032, 1033, 1034, 1035, 1036, 1037, 1038, 1039],
     [1040, 1041, 1042, 1043, 0]]"

definition httpclient_parser_trans_offsets :: "int list list" where
  "httpclient_parser_trans_offsets = httpclient_parser_trans_offsets_1 @ httpclient_parser_trans_offsets_2"

definition httpclient_parser_trans_lengths_1 :: "int list list" where
  "httpclient_parser_trans_lengths_1 =
    [
     [1, 1, 1, 1, 1, 1, 1, 1],
     [1, 1, 1, 1, 1, 1, 1, 1],
     [1, 1, 1, 1, 1, 1, 1, 1],
     [1, 1, 1, 1, 1, 1, 1, 1],
     [1, 1, 1, 1, 1, 1, 1, 1],
     [1, 1, 1, 1, 1, 1, 1, 1],
     [1, 1, 1, 1, 1, 1, 1, 1],
     [1, 1, 1, 1, 1, 1, 1, 1],
     [1, 1, 1, 1, 1, 1, 1, 1],
     [1, 1, 1, 1, 1, 1, 1, 1],
     [1, 1, 1, 1, 1, 1, 1, 1],
     [1, 1, 1, 1, 1, 1, 1, 1],
     [1, 1, 1, 1, 1, 1, 1, 1],
     [1, 1, 1, 1, 1, 1, 1, 1],
     [1, 1, 1, 1, 1, 1, 1, 1],
     [1, 1, 1, 1, 1, 1, 1, 1],
     [1, 1, 1, 1, 1, 1, 1, 1],
     [1, 1, 1, 1, 1, 1, 1, 1],
     [1, 1, 1, 1, 1, 1, 1, 1],
     [1, 1, 1, 1, 1, 1, 1, 1],
     [1, 1, 1, 1, 1, 1, 1, 1],
     [1, 1, 1, 1, 1, 1, 1, 1],
     [1, 1, 1, 1, 1, 1, 1, 1],
     [1, 1, 1, 1, 1, 1, 1, 1],
     [1, 1, 1, 1, 1, 1, 1, 1],
     [1, 1, 1, 1, 1, 1, 1, 1],
     [1, 1, 1, 1, 1, 1, 1, 1],
     [1, 1, 1, 1, 1, 1, 1, 1],
     [1, 1, 1, 1, 1, 1, 1, 1],
     [1, 1, 1, 1, 1, 1, 1, 1],
     [1, 1, 1, 1, 1, 1, 1, 1],
     [1, 1, 1, 1, 1, 1, 1, 1],
     [1, 1, 1, 1, 1, 1, 1, 1],
     [1, 1, 1, 1, 1, 1, 1, 1],
     [1, 1, 1, 1, 1, 1, 1, 1],
     [1, 1, 1, 1, 1, 1, 1, 1],
     [1, 1, 1, 1, 1, 1, 1, 1],
     [1, 1, 1, 1, 1, 1, 1, 1],
     [1, 1, 1, 1, 1, 1, 1, 1],
     [1, 1, 1, 1, 1, 1, 1, 1],
     [1, 1, 1, 1, 1, 1, 1, 1],
     [1, 1, 1, 1, 1, 1, 1, 1],
     [1, 1, 1, 1, 1, 1, 1, 1],
     [1, 1, 1, 1, 1, 1, 1, 1],
     [1, 1, 1, 1, 1, 1, 1, 1],
     [1, 1, 1, 1, 1, 1, 1, 1],
     [1, 1, 1, 1, 1, 1, 1, 1],
     [1, 1, 1, 1, 1, 1, 1, 1],
     [1, 1, 1, 1, 1, 1, 1, 1],
     [1, 1, 1, 1, 1, 1, 1, 1],
     [1, 1, 1, 1, 1, 1, 1, 1],
     [1, 1, 1, 1, 1, 1, 1, 1],
     [1, 1, 1, 1, 1, 1, 1, 1],
     [1, 1, 1, 1, 1, 1, 1, 1],
     [1, 1, 1, 1, 1, 1, 1, 1],
     [1, 1, 1, 1, 1, 1, 1, 1],
     [1, 1, 1, 1, 1, 1, 1, 1],
     [1, 1, 1, 1, 1, 1, 1, 1],
     [1, 1, 1, 1, 1, 1, 1, 1],
     [1, 1, 1, 1, 1, 1, 1, 1],
     [1, 1, 1, 1, 1, 1, 1, 1],
     [1, 1, 1, 1, 1, 1, 1, 1],
     [1, 1, 1, 1, 1, 1, 1, 1],
     [1, 1, 1, 1, 1, 1, 1, 1],
     [1, 1, 1, 1, 1, 1, 1, 1],
     [1, 1, 1, 1, 1, 1, 1, 1]]"

definition httpclient_parser_trans_lengths_2 :: "int list list" where
  "httpclient_parser_trans_lengths_2 =
    [
     [1, 1, 1, 1, 1, 1, 1, 1],
     [1, 1, 1, 1, 1, 1, 1, 1],
     [1, 1, 1, 1, 1, 1, 1, 1],
     [1, 1, 1, 1, 1, 1, 1, 1],
     [1, 1, 1, 1, 1, 1, 1, 1],
     [1, 1, 1, 1, 1, 1, 1, 1],
     [1, 1, 1, 1, 1, 1, 1, 1],
     [1, 1, 1, 1, 1, 1, 1, 1],
     [1, 1, 1, 1, 1, 1, 1, 1],
     [1, 1, 1, 1, 1, 1, 1, 1],
     [1, 1, 1, 1, 1, 1, 1, 1],
     [1, 1, 1, 1, 1, 1, 1, 1],
     [1, 1, 1, 1, 1, 1, 1, 1],
     [1, 1, 1, 1, 1, 1, 1, 1],
     [1, 1, 1, 1, 1, 1, 1, 1],
     [1, 1, 1, 1, 1, 1, 1, 1],
     [1, 1, 1, 1, 1, 1, 1, 1],
     [1, 1, 1, 1, 1, 1, 1, 1],
     [1, 1, 1, 1, 1, 1, 1, 1],
     [1, 1, 1, 1, 1, 1, 1, 1],
     [1, 1, 1, 1, 1, 1, 1, 1],
     [1, 1, 1, 1, 1, 1, 1, 1],
     [1, 1, 1, 1, 1, 1, 1, 1],
     [1, 1, 1, 1, 1, 1, 1, 1],
     [1, 1, 1, 1, 1, 1, 1, 1],
     [1, 1, 1, 1, 1, 1, 1, 1],
     [1, 1, 1, 1, 1, 1, 1, 1],
     [1, 1, 1, 1, 1, 1, 1, 1],
     [1, 1, 1, 1, 1, 1, 1, 1],
     [1, 1, 1, 1, 1, 1, 1, 1],
     [1, 1, 1, 1, 1, 1, 1, 1],
     [1, 1, 1, 1, 1, 1, 1, 1],
     [1, 1, 1, 1, 1, 1, 1, 1],
     [1, 1, 1, 1, 1, 1, 1, 1],
     [1, 1, 1, 1, 1, 1, 1, 1],
     [1, 1, 1, 1, 1, 1, 1, 1],
     [1, 1, 1, 1, 1, 1, 1, 1],
     [1, 1, 1, 1, 1, 1, 1, 1],
     [1, 1, 1, 1, 1, 1, 1, 1],
     [1, 1, 1, 1, 1, 1, 1, 1],
     [1, 1, 1, 1, 1, 1, 1, 1],
     [1, 1, 1, 1, 1, 1, 1, 1],
     [1, 1, 1, 1, 1, 1, 1, 1],
     [1, 1, 1, 1, 1, 1, 1, 1],
     [1, 1, 1, 1, 1, 1, 1, 1],
     [1, 1, 1, 1, 1, 1, 1, 1],
     [1, 1, 1, 1, 1, 1, 1, 1],
     [1, 1, 1, 1, 1, 1, 1, 1],
     [1, 1, 1, 1, 1, 1, 1, 1],
     [1, 1, 1, 1, 1, 1, 1, 1],
     [1, 1, 1, 1, 1, 1, 1, 1],
     [1, 1, 1, 1, 1, 1, 1, 1],
     [1, 1, 1, 1, 1, 1, 1, 1],
     [1, 1, 1, 1, 1, 1, 1, 1],
     [1, 1, 1, 1, 1, 1, 1, 1],
     [1, 1, 1, 1, 1, 1, 1, 1],
     [1, 1, 1, 1, 1, 1, 1, 1],
     [1, 1, 1, 1, 1, 1, 1, 1],
     [1, 1, 1, 1, 1, 1, 1, 1],
     [1, 1, 1, 1, 1, 1, 1, 1],
     [1, 1, 1, 1, 1, 1, 1, 1],
     [1, 1, 1, 1, 1, 1, 1, 1],
     [1, 1, 1, 1, 1, 1, 1, 1],
     [1, 1, 1, 1, 1, 1, 1, 1],
     [1, 1, 1, 1, 0]]"

definition httpclient_parser_trans_lengths :: "int list list" where
  "httpclient_parser_trans_lengths = httpclient_parser_trans_lengths_1 @ httpclient_parser_trans_lengths_2"

definition httpclient_parser_cond_keys_1 :: "int list list" where
  "httpclient_parser_cond_keys_1 =
    [
     [0, 0, 0, 0, 0, 0, 0, 0],
     [0, 0, 0, 0, 0, 0, 0, 0],
     [0, 0, 0, 0, 0, 0, 0, 0],
     [0, 0, 0, 0, 0, 0, 0, 0],
     [0, 0, 0, 0, 0, 0, 0, 0],
     [0, 0, 0, 0, 0, 0, 0, 0],
     [0, 0, 0, 0, 0, 0, 0, 0],
     [0, 0, 0, 0, 0, 0, 0, 0],
     [0, 0, 0, 0, 0, 0, 0, 0],
     [0, 0, 0, 0, 0, 0, 0, 0],
     [0, 0, 0, 0, 0, 0, 0, 0],
     [0, 0, 0, 0, 0, 0, 0, 0],
     [0, 0, 0, 0, 0, 0, 0, 0],
     [0, 0, 0, 0, 0, 0, 0, 0],
     [0, 0, 0, 0, 0, 0, 0, 0],
     [0, 0, 0, 0, 0, 0, 0, 0],
     [0, 0, 0, 0, 0, 0, 0, 0],
     [0, 0, 0, 0, 0, 0, 0, 0],
     [0, 0, 0, 0, 0, 0, 0, 0],
     [0, 0, 0, 0, 0, 0, 0, 0],
     [0, 0, 0, 0, 0, 0, 0, 0],
     [0, 0, 0, 0, 0, 0, 0, 0],
     [0, 0, 0, 0, 0, 0, 0, 0],
     [0, 0, 0, 0, 0, 0, 0, 0],
     [0, 0, 0, 0, 0, 0, 0, 0],
     [0, 0, 0, 0, 0, 0, 0, 0],
     [0, 0, 0, 0, 0, 0, 0, 0],
     [0, 0, 0, 0, 0, 0, 0, 0],
     [0, 0, 0, 0, 0, 0, 0, 0],
     [0, 0, 0, 0, 0, 0, 0, 0],
     [0, 0, 0, 0, 0, 0, 0, 0],
     [0, 0, 0, 0, 0, 0, 0, 0],
     [0, 0, 0, 0, 0, 0, 0, 0],
     [0, 0, 0, 0, 0, 0, 0, 0],
     [0, 0, 0, 0, 0, 0, 0, 0],
     [0, 0, 0, 0, 0, 0, 0, 0],
     [0, 0, 0, 0, 0, 0, 0, 0],
     [0, 0, 0, 0, 0, 0, 0, 0],
     [0, 0, 0, 0, 0, 0, 0, 0],
     [0, 0, 0, 0, 0, 0, 0, 0],
     [0, 0, 0, 0, 0, 0, 0, 0],
     [0, 0, 0, 0, 0, 0, 0, 0],
     [0, 0, 0, 0, 0, 0, 0, 0],
     [0, 0, 0, 0, 0, 0, 0, 0],
     [0, 0, 0, 0, 0, 0, 0, 0],
     [0, 0, 0, 0, 0, 0, 0, 0],
     [0, 0, 0, 0, 0, 0, 0, 0],
     [0, 0, 0, 0, 0, 0, 0, 0],
     [0, 0, 0, 0, 0, 0, 0, 0],
     [0, 0, 0, 0, 0, 0, 0, 0],
     [0, 0, 0, 0, 0, 0, 0, 0],
     [0, 0, 0, 0, 0, 0, 0, 0],
     [0, 0, 0, 0, 0, 0, 0, 0],
     [0, 0, 0, 0, 0, 0, 0, 0],
     [0, 0, 0, 0, 0, 0, 0, 0],
     [0, 0, 0, 0, 0, 0, 0, 0],
     [0, 0, 0, 0, 0, 0, 0, 0],
     [0, 0, 0, 0, 0, 0, 0, 0],
     [0, 0, 0, 0, 0, 0, 0, 0],
     [0, 0, 0, 0, 0, 0, 0, 0],
     [0, 0, 0, 0, 0, 0, 0, 0],
     [0, 0, 0, 0, 0, 0, 0, 0],
     [0, 0, 0, 0, 0, 0, 0, 0],
     [0, 0, 0, 0, 0, 0, 0, 0],
     [0, 0, 0, 0, 0, 0, 0, 0],
     [0, 0, 0, 0, 0, 0, 0, 0]]"

definition httpclient_parser_cond_keys_2 :: "int list list" where
  "httpclient_parser_cond_keys_2 =
    [
     [0, 0, 0, 0, 0, 0, 0, 0],
     [0, 0, 0, 0, 0, 0, 0, 0],
     [0, 0, 0, 0, 0, 0, 0, 0],
     [0, 0, 0, 0, 0, 0, 0, 0],
     [0, 0, 0, 0, 0, 0, 0, 0],
     [0, 0, 0, 0, 0, 0, 0, 0],
     [0, 0, 0, 0, 0, 0, 0, 0],
     [0, 0, 0, 0, 0, 0, 0, 0],
     [0, 0, 0, 0, 0, 0, 0, 0],
     [0, 0, 0, 0, 0, 0, 0, 0],
     [0, 0, 0, 0, 0, 0, 0, 0],
     [0, 0, 0, 0, 0, 0, 0, 0],
     [0, 0, 0, 0, 0, 0, 0, 0],
     [0, 0, 0, 0, 0, 0, 0, 0],
     [0, 0, 0, 0, 0, 0, 0, 0],
     [0, 0, 0, 0, 0, 0, 0, 0],
     [0, 0, 0, 0, 0, 0, 0, 0],
     [0, 0, 0, 0, 0, 0, 0, 0],
     [0, 0, 0, 0, 0, 0, 0, 0],
     [0, 0, 0, 0, 0, 0, 0, 0],
     [0, 0, 0, 0, 0, 0, 0, 0],
     [0, 0, 0, 0, 0, 0, 0, 0],
     [0, 0, 0, 0, 0, 0, 0, 0],
     [0, 0, 0, 0, 0, 0, 0, 0],
     [0, 0, 0, 0, 0, 0, 0, 0],
     [0, 0, 0, 0, 0, 0, 0, 0],
     [0, 0, 0, 0, 0, 0, 0, 0],
     [0, 0, 0, 0, 0, 0, 0, 0],
     [0, 0, 0, 0, 0, 0, 0, 0],
     [0, 0, 0, 0, 0, 0, 0, 0],
     [0, 0, 0, 0, 0, 0, 0, 0],
     [0, 0, 0, 0, 0, 0, 0, 0],
     [0, 0, 0, 0, 0, 0, 0, 0],
     [0, 0, 0, 0, 0, 0, 0, 0],
     [0, 0, 0, 0, 0, 0, 0, 0],
     [0, 0, 0, 0, 0, 0, 0, 0],
     [0, 0, 0, 0, 0, 0, 0, 0],
     [0, 0, 0, 0, 0, 0, 0, 0],
     [0, 0, 0, 0, 0, 0, 0, 0],
     [0, 0, 0, 0, 0, 0, 0, 0],
     [0, 0, 0, 0, 0, 0, 0, 0],
     [0, 0, 0, 0, 0, 0, 0, 0],
     [0, 0, 0, 0, 0, 0, 0, 0],
     [0, 0, 0, 0, 0, 0, 0, 0],
     [0, 0, 0, 0, 0, 0, 0, 0],
     [0, 0, 0, 0, 0, 0, 0, 0],
     [0, 0, 0, 0, 0, 0, 0, 0],
     [0, 0, 0, 0, 0, 0, 0, 0],
     [0, 0, 0, 0, 0, 0, 0, 0],
     [0, 0, 0, 0, 0, 0, 0, 0],
     [0, 0, 0, 0, 0, 0, 0, 0],
     [0, 0, 0, 0, 0, 0, 0, 0],
     [0, 0, 0, 0, 0, 0, 0, 0],
     [0, 0, 0, 0, 0, 0, 0, 0],
     [0, 0, 0, 0, 0, 0, 0, 0],
     [0, 0, 0, 0, 0, 0, 0, 0],
     [0, 0, 0, 0, 0, 0, 0, 0],
     [0, 0, 0, 0, 0, 0, 0, 0],
     [0, 0, 0, 0, 0, 0, 0, 0],
     [0, 0, 0, 0, 0, 0, 0, 0],
     [0, 0, 0, 0, 0, 0, 0, 0],
     [0, 0, 0, 0, 0, 0, 0, 0],
     [0, 0, 0, 0, 0, 0, 0, 0],
     [0, 0, 0, 0, 0, 0, 0, 0],
     [0, 0, 0, 0, 0]]"

definition httpclient_parser_cond_keys :: "int list list" where
  "httpclient_parser_cond_keys = httpclient_parser_cond_keys_1 @ httpclient_parser_cond_keys_2"

definition httpclient_parser_cond_targs_1 :: "int list list" where
  "httpclient_parser_cond_targs_1 =
    [
     [8, 2, 2, 2, 0, 120, 3, 4],
     [2, 2, 2, 0, 120, 0, 5, 5],
     [5, 5, 5, 5, 5, 5, 5, 0],
     [120, 3, 5, 4, 6, 5, 5, 5],
     [5, 5, 5, 5, 5, 0, 7, 7],
     [7, 7, 7, 7, 7, 7, 7, 0],
     [120, 3, 7, 4, 7, 7, 7, 7],
     [7, 7, 7, 7, 0, 9, 0, 10],
     [0, 11, 0, 12, 0, 13, 0, 14],
     [13, 0, 15, 0, 16, 15, 0, 17],
     [0, 18, 17, 0, 0, 19, 20, 24],
     [19, 120, 3, 21, 25, 44, 25, 44],
     [21, 21, 21, 21, 21, 21, 21, 21],
     [0, 21, 22, 21, 21, 21, 21, 21],
     [21, 21, 21, 0, 20, 24, 22, 22],
     [23, 20, 24, 23, 20, 0, 21, 22],
     [26, 26, 21, 21, 21, 21, 21, 21],
     [21, 21, 0, 21, 22, 27, 27, 21],
     [21, 21, 21, 21, 21, 21, 21, 0],
     [21, 22, 28, 101, 28, 101, 21, 21],
     [21, 21, 21, 21, 21, 21, 0, 21],
     [22, 29, 29, 21, 21, 21, 21, 21],
     [21, 21, 21, 0, 21, 22, 30, 30],
     [21, 21, 21, 21, 21, 21, 21, 21],
     [0, 21, 22, 31, 31, 21, 21, 21],
     [21, 21, 21, 21, 21, 0, 21, 22],
     [32, 32, 21, 21, 21, 21, 21, 21],
     [21, 21, 0, 21, 22, 33, 33, 21],
     [21, 21, 21, 21, 21, 21, 21, 0],
     [21, 22, 34, 34, 21, 21, 21, 21],
     [21, 21, 21, 21, 0, 21, 35, 21],
     [21, 21, 21, 21, 21, 21, 21, 0],
     [36, 95, 35, 96, 96, 35, 23, 122],
     [89, 37, 21, 90, 44, 90, 44, 21],
     [21, 37, 21, 21, 21, 21, 21, 21],
     [0, 37, 38, 38, 37, 0, 39, 39],
     [0, 40, 40, 0, 41, 41, 0, 42],
     [42, 0, 43, 88, 0, 120, 3, 21],
     [25, 44, 25, 44, 21, 21, 21, 21],
     [21, 21, 21, 21, 0, 21, 22, 45],
     [45, 21, 21, 21, 21, 21, 21, 21],
     [21, 0, 21, 22, 46, 46, 21, 21],
     [21, 21, 21, 21, 21, 21, 0, 21],
     [22, 47, 47, 21, 21, 21, 21, 21],
     [21, 21, 21, 0, 21, 22, 48, 48],
     [21, 21, 21, 21, 21, 21, 21, 21],
     [0, 21, 22, 49, 49, 21, 21, 21],
     [21, 21, 21, 21, 21, 0, 21, 22],
     [50, 50, 21, 21, 21, 21, 21, 21],
     [21, 21, 0, 21, 22, 51, 51, 21],
     [21, 21, 21, 21, 21, 21, 21, 0],
     [21, 52, 21, 22, 21, 21, 21, 21],
     [21, 21, 21, 0, 21, 22, 53, 53],
     [21, 21, 21, 21, 21, 21, 21, 21],
     [0, 21, 22, 54, 54, 21, 21, 21],
     [21, 21, 21, 21, 21, 0, 21, 22],
     [55, 55, 21, 21, 21, 21, 21, 21],
     [21, 21, 0, 21, 22, 56, 56, 21],
     [21, 21, 21, 21, 21, 21, 21, 0],
     [21, 22, 57, 57, 21, 21, 21, 21],
     [21, 21, 21, 21, 0, 21, 22, 58],
     [58, 21, 21, 21, 21, 21, 21, 21],
     [21, 0, 21, 22, 59, 59, 21, 21],
     [21, 21, 21, 21, 21, 21, 0, 21],
     [22, 60, 60, 21, 21, 21, 21, 21],
     [21, 21, 21, 0, 21, 61, 21, 21]]"

definition httpclient_parser_cond_targs_2 :: "int list list" where
  "httpclient_parser_cond_targs_2 =
    [
     [21, 21, 21, 21, 21, 21, 0, 62],
     [80, 61, 81, 81, 61, 23, 121, 72],
     [63, 21, 73, 44, 73, 44, 21, 21],
     [63, 21, 21, 21, 21, 21, 21, 0],
     [63, 64, 64, 63, 0, 65, 65, 0],
     [66, 66, 0, 67, 67, 0, 68, 68],
     [0, 69, 69, 0, 70, 70, 0, 20],
     [71, 0, 20, 0, 121, 63, 64, 64],
     [63, 0, 21, 22, 74, 26, 74, 26],
     [21, 21, 21, 21, 21, 21, 21, 21],
     [0, 21, 22, 75, 75, 21, 21, 21],
     [21, 21, 21, 21, 21, 0, 21, 22],
     [76, 76, 21, 21, 21, 21, 21, 21],
     [21, 21, 0, 21, 22, 77, 77, 21],
     [21, 21, 21, 21, 21, 21, 21, 0],
     [21, 22, 78, 78, 21, 21, 21, 21],
     [21, 21, 21, 21, 0, 21, 22, 79],
     [79, 21, 21, 21, 21, 21, 21, 21],
     [21, 0, 20, 71, 21, 22, 21, 21],
     [21, 21, 21, 21, 21, 21, 0, 62],
     [63, 64, 64, 63, 0, 20, 24, 82],
     [82, 23, 20, 24, 83, 83, 23, 20],
     [24, 84, 84, 23, 20, 24, 85, 85],
     [23, 20, 24, 86, 86, 23, 20, 24],
     [87, 87, 23, 20, 71, 23, 43, 0],
     [122, 37, 38, 38, 37, 0, 21, 22],
     [91, 26, 91, 26, 21, 21, 21, 21],
     [21, 21, 21, 21, 0, 21, 22, 92],
     [92, 21, 21, 21, 21, 21, 21, 21],
     [21, 0, 21, 22, 93, 93, 21, 21],
     [21, 21, 21, 21, 21, 21, 0, 21],
     [22, 94, 94, 21, 21, 21, 21, 21],
     [21, 21, 21, 0, 43, 88, 21, 22],
     [21, 21, 21, 21, 21, 21, 21, 21],
     [0, 36, 37, 38, 38, 37, 0, 20],
     [24, 97, 97, 23, 20, 24, 98, 98],
     [23, 20, 24, 99, 99, 23, 20, 24],
     [100, 100, 23, 43, 88, 23, 21, 22],
     [102, 102, 21, 21, 21, 21, 21, 21],
     [21, 21, 0, 21, 22, 103, 103, 21],
     [21, 21, 21, 21, 21, 21, 21, 0],
     [21, 22, 104, 104, 21, 21, 21, 21],
     [21, 21, 21, 21, 0, 21, 105, 21],
     [22, 21, 21, 21, 21, 21, 21, 21],
     [0, 21, 22, 106, 106, 21, 21, 21],
     [21, 21, 21, 21, 21, 0, 21, 22],
     [107, 107, 21, 21, 21, 21, 21, 21],
     [21, 21, 0, 21, 22, 108, 108, 21],
     [21, 21, 21, 21, 21, 21, 21, 0],
     [21, 22, 109, 109, 21, 21, 21, 21],
     [21, 21, 21, 21, 0, 21, 22, 110],
     [110, 21, 21, 21, 21, 21, 21, 21],
     [21, 0, 21, 22, 111, 111, 21, 21],
     [21, 21, 21, 21, 21, 21, 0, 21],
     [112, 21, 21, 21, 21, 21, 21, 21],
     [21, 0, 113, 118, 112, 112, 119, 23],
     [123, 116, 114, 21, 25, 44, 25, 44],
     [21, 21, 114, 21, 21, 21, 117, 21],
     [21, 0, 114, 114, 115, 0, 20, 24],
     [115, 0, 123, 114, 114, 115, 0, 20],
     [24, 21, 22, 21, 21, 21, 21, 21],
     [117, 21, 21, 0, 113, 114, 114, 115],
     [0, 20, 24, 119, 23, 0, 63, 64],
     [64, 63, 0, 37, 38, 38, 37, 0],
     [114, 114, 115, 0, 0]]"

definition httpclient_parser_cond_targs :: "int list list" where
  "httpclient_parser_cond_targs = httpclient_parser_cond_targs_1 @ httpclient_parser_cond_targs_2"

definition httpclient_parser_cond_actions_1 :: "int list list" where
  "httpclient_parser_cond_actions_1 =
    [
     [1, 1, 1, 1, 0, 49, 19, 19],
     [0, 0, 0, 0, 23, 0, 3, 3],
     [3, 3, 3, 3, 3, 3, 3, 0],
     [56, 52, 0, 52, 25, 0, 0, 0],
     [0, 0, 0, 0, 0, 0, 7, 7],
     [7, 7, 7, 7, 7, 7, 7, 0],
     [46, 11, 0, 11, 0, 0, 0, 0],
     [0, 0, 0, 0, 0, 0, 0, 0],
     [0, 0, 0, 0, 0, 0, 0, 0],
     [0, 0, 0, 0, 17, 0, 0, 1],
     [0, 15, 0, 0, 0, 1, 13, 13],
     [0, 23, 0, 3, 3, 3, 3, 3],
     [3, 3, 3, 3, 3, 3, 3, 3],
     [0, 0, 5, 0, 0, 0, 0, 0],
     [0, 0, 0, 0, 31, 31, 7, 7],
     [7, 11, 11, 0, 0, 0, 0, 5],
     [0, 0, 0, 0, 0, 0, 0, 0],
     [0, 0, 0, 0, 5, 0, 0, 0],
     [0, 0, 0, 0, 0, 0, 0, 0],
     [0, 5, 0, 0, 0, 0, 0, 0],
     [0, 0, 0, 0, 0, 0, 0, 0],
     [5, 0, 0, 0, 0, 0, 0, 0],
     [0, 0, 0, 0, 0, 5, 0, 0],
     [0, 0, 0, 0, 0, 0, 0, 0],
     [0, 0, 5, 0, 0, 0, 0, 0],
     [0, 0, 0, 0, 0, 0, 0, 5],
     [0, 0, 0, 0, 0, 0, 0, 0],
     [0, 0, 0, 0, 5, 0, 0, 0],
     [0, 0, 0, 0, 0, 0, 0, 0],
     [0, 5, 0, 0, 0, 0, 0, 0],
     [0, 0, 0, 0, 0, 0, 5, 0],
     [0, 0, 0, 0, 0, 0, 0, 0],
     [31, 31, 7, 7, 7, 7, 7, 23],
     [0, 0, 3, 3, 3, 3, 3, 3],
     [3, 0, 3, 3, 3, 3, 3, 3],
     [0, 0, 0, 0, 0, 0, 0, 0],
     [0, 0, 0, 0, 0, 0, 0, 0],
     [0, 0, 0, 0, 0, 40, 9, 37],
     [37, 37, 37, 37, 37, 37, 37, 37],
     [37, 37, 37, 37, 0, 0, 5, 0],
     [0, 0, 0, 0, 0, 0, 0, 0],
     [0, 0, 0, 5, 0, 0, 0, 0],
     [0, 0, 0, 0, 0, 0, 0, 0],
     [5, 0, 0, 0, 0, 0, 0, 0],
     [0, 0, 0, 0, 0, 5, 0, 0],
     [0, 0, 0, 0, 0, 0, 0, 0],
     [0, 0, 5, 0, 0, 0, 0, 0],
     [0, 0, 0, 0, 0, 0, 0, 5],
     [0, 0, 0, 0, 0, 0, 0, 0],
     [0, 0, 0, 0, 5, 0, 0, 0],
     [0, 0, 0, 0, 0, 0, 0, 0],
     [0, 0, 0, 5, 0, 0, 0, 0],
     [0, 0, 0, 0, 0, 5, 0, 0],
     [0, 0, 0, 0, 0, 0, 0, 0],
     [0, 0, 5, 0, 0, 0, 0, 0],
     [0, 0, 0, 0, 0, 0, 0, 5],
     [0, 0, 0, 0, 0, 0, 0, 0],
     [0, 0, 0, 0, 5, 0, 0, 0],
     [0, 0, 0, 0, 0, 0, 0, 0],
     [0, 5, 0, 0, 0, 0, 0, 0],
     [0, 0, 0, 0, 0, 0, 5, 0],
     [0, 0, 0, 0, 0, 0, 0, 0],
     [0, 0, 0, 5, 0, 0, 0, 0],
     [0, 0, 0, 0, 0, 0, 0, 0],
     [5, 0, 0, 0, 0, 0, 0, 0],
     [0, 0, 0, 0, 0, 5, 0, 0]]"

definition httpclient_parser_cond_actions_2 :: "int list list" where
  "httpclient_parser_cond_actions_2 =
    [
     [0, 0, 0, 0, 0, 0, 0, 31],
     [31, 7, 7, 7, 7, 7, 23, 0],
     [0, 3, 28, 3, 28, 3, 3, 3],
     [0, 3, 3, 3, 3, 3, 3, 0],
     [0, 7, 7, 0, 0, 0, 0, 0],
     [0, 0, 0, 0, 0, 0, 0, 0],
     [0, 0, 0, 0, 0, 0, 0, 43],
     [11, 0, 21, 0, 23, 0, 7, 7],
     [0, 0, 0, 5, 0, 0, 0, 0],
     [0, 0, 0, 0, 0, 0, 0, 0],
     [0, 0, 5, 0, 0, 0, 0, 0],
     [0, 0, 0, 0, 0, 0, 0, 5],
     [0, 0, 0, 0, 0, 0, 0, 0],
     [0, 0, 0, 0, 5, 0, 0, 0],
     [0, 0, 0, 0, 0, 0, 0, 0],
     [0, 5, 0, 0, 0, 0, 0, 0],
     [0, 0, 0, 0, 0, 0, 5, 0],
     [0, 0, 0, 0, 0, 0, 0, 0],
     [0, 0, 43, 11, 0, 5, 0, 0],
     [0, 0, 0, 0, 0, 0, 0, 0],
     [0, 7, 7, 0, 0, 11, 11, 0],
     [0, 0, 11, 11, 0, 0, 0, 11],
     [11, 0, 0, 0, 11, 11, 0, 0],
     [0, 11, 11, 0, 0, 0, 11, 11],
     [0, 0, 0, 43, 11, 0, 0, 0],
     [23, 0, 0, 0, 0, 0, 0, 5],
     [0, 0, 0, 0, 0, 0, 0, 0],
     [0, 0, 0, 0, 0, 0, 5, 0],
     [0, 0, 0, 0, 0, 0, 0, 0],
     [0, 0, 0, 5, 0, 0, 0, 0],
     [0, 0, 0, 0, 0, 0, 0, 0],
     [5, 0, 0, 0, 0, 0, 0, 0],
     [0, 0, 0, 0, 0, 0, 0, 5],
     [0, 0, 0, 0, 0, 0, 0, 0],
     [0, 0, 0, 0, 0, 0, 0, 11],
     [11, 0, 0, 0, 11, 11, 0, 0],
     [0, 11, 11, 0, 0, 0, 11, 11],
     [0, 0, 0, 11, 11, 0, 0, 5],
     [0, 0, 0, 0, 0, 0, 0, 0],
     [0, 0, 0, 0, 5, 0, 0, 0],
     [0, 0, 0, 0, 0, 0, 0, 0],
     [0, 5, 0, 0, 0, 0, 0, 0],
     [0, 0, 0, 0, 0, 0, 0, 0],
     [5, 0, 0, 0, 0, 0, 0, 0],
     [0, 0, 5, 0, 0, 0, 0, 0],
     [0, 0, 0, 0, 0, 0, 0, 5],
     [0, 0, 0, 0, 0, 0, 0, 0],
     [0, 0, 0, 0, 5, 0, 0, 0],
     [0, 0, 0, 0, 0, 0, 0, 0],
     [0, 5, 0, 0, 0, 0, 0, 0],
     [0, 0, 0, 0, 0, 0, 5, 0],
     [0, 0, 0, 0, 0, 0, 0, 0],
     [0, 0, 0, 5, 0, 0, 0, 0],
     [0, 0, 0, 0, 0, 0, 0, 0],
     [5, 0, 0, 0, 0, 0, 0, 0],
     [0, 0, 31, 31, 7, 7, 7, 7],
     [23, 0, 0, 3, 3, 3, 3, 3],
     [3, 3, 0, 3, 3, 3, 28, 3],
     [3, 0, 0, 0, 7, 0, 34, 34],
     [0, 0, 23, 0, 0, 7, 0, 34],
     [34, 0, 5, 0, 0, 0, 0, 0],
     [0, 0, 0, 0, 0, 0, 0, 7],
     [0, 34, 34, 0, 0, 0, 0, 7],
     [7, 0, 0, 0, 0, 0, 0, 0],
     [0, 0, 7, 0, 0]]"

definition httpclient_parser_cond_actions :: "int list list" where
  "httpclient_parser_cond_actions = httpclient_parser_cond_actions_1 @ httpclient_parser_cond_actions_2"

definition httpclient_parser_tables :: ragel where
  "httpclient_parser_tables =
     \<lparr>actions = httpclient_parser_actions,
      key_offsets = httpclient_parser_key_offsets,
      trans_keys = httpclient_parser_trans_keys,
      single_lengths = httpclient_parser_single_lengths,
      range_lengths = httpclient_parser_range_lengths,
      index_offsets = httpclient_parser_index_offsets,
      trans_cond_spaces = httpclient_parser_trans_cond_spaces,
      trans_offsets = httpclient_parser_trans_offsets,
      trans_lengths = httpclient_parser_trans_lengths,
      cond_keys = httpclient_parser_cond_keys,
      cond_targs = httpclient_parser_cond_targs,
      cond_actions = httpclient_parser_cond_actions\<rparr>"

definition httpclient_parser_start :: int where
  "httpclient_parser_start = 1"

definition httpclient_parser_first_final :: int where
  "httpclient_parser_first_final = 120"

definition httpclient_parser_error :: int where
  "httpclient_parser_error = 0"

section \<open>The laws hold of the tables\<close>

lemma httpclient_parser_walk:
  "walk (-129) (-129) 0 0 0 (concat (trans_keys httpclient_parser_tables))
     (zip (concat (key_offsets httpclient_parser_tables))
       (zip (concat (single_lengths httpclient_parser_tables)) (concat (range_lengths httpclient_parser_tables))))"
  by (simp add: walk_numeral httpclient_parser_tables_def httpclient_parser_trans_keys_def httpclient_parser_trans_keys_1_def httpclient_parser_trans_keys_2_def httpclient_parser_key_offsets_def httpclient_parser_single_lengths_def httpclient_parser_range_lengths_def)

lemma httpclient_parser_index:
  "index_ok 1044 (concat (index_offsets httpclient_parser_tables)) (concat (single_lengths httpclient_parser_tables))
     (concat (range_lengths httpclient_parser_tables))"
  by (simp add: httpclient_parser_tables_def httpclient_parser_index_offsets_def httpclient_parser_single_lengths_def httpclient_parser_range_lengths_def)

lemma httpclient_parser_states:
  "int (length (concat (single_lengths httpclient_parser_tables))) = 124 + 1"
  "int (length (concat (range_lengths httpclient_parser_tables))) = 124 + 1"
  "int (length (concat (key_offsets httpclient_parser_tables))) = 124 + 1"
  by (simp_all add: httpclient_parser_tables_def httpclient_parser_single_lengths_def httpclient_parser_range_lengths_def httpclient_parser_key_offsets_def)

lemma httpclient_parser_branches:
  "table_upto (\<lambda>i x. x = i) 1044 0 (trans_offsets httpclient_parser_tables)"
  "table_upto (\<lambda>i x. x = 1) 1044 0 (trans_lengths httpclient_parser_tables)"
  "table_upto (\<lambda>i x. 0 \<le> x \<and> x < 124) 1044 0 (cond_targs httpclient_parser_tables)"
  by (simp_all add: httpclient_parser_tables_def httpclient_parser_trans_offsets_def httpclient_parser_trans_offsets_1_def httpclient_parser_trans_offsets_2_def httpclient_parser_trans_lengths_def httpclient_parser_trans_lengths_1_def httpclient_parser_trans_lengths_2_def httpclient_parser_cond_targs_def httpclient_parser_cond_targs_1_def httpclient_parser_cond_targs_2_def)

lemma httpclient_parser_starts_ok: "list_all (act_ok httpclient_parser_tables) [0, 1, 3, 5, 7, 9, 11, 13, 15, 17, 19, 21, 23, 25, 28, 31, 34, 37, 40, 43, 46, 49, 52, 56]"
  by (simp add: act_ok_def tab_def httpclient_parser_tables_def httpclient_parser_actions_def)

lemma httpclient_parser_entries:
  "table_upto (\<lambda>i x. x \<in> set [0, 1, 3, 5, 7, 9, 11, 13, 15, 17, 19, 21, 23, 25, 28, 31, 34, 37, 40, 43, 46, 49, 52, 56]) 1044 0 (cond_actions httpclient_parser_tables)"
  "table_upto (\<lambda>i x. True) 1044 0 (cond_keys httpclient_parser_tables)"
  "table_upto (\<lambda>i x. True) 1044 0 (trans_cond_spaces httpclient_parser_tables)"
  by (simp_all add: httpclient_parser_tables_def httpclient_parser_cond_actions_def httpclient_parser_cond_actions_1_def httpclient_parser_cond_actions_2_def httpclient_parser_cond_keys_def httpclient_parser_cond_keys_1_def httpclient_parser_cond_keys_2_def httpclient_parser_trans_cond_spaces_def httpclient_parser_trans_cond_spaces_1_def httpclient_parser_trans_cond_spaces_2_def)

interpretation hc: ragel_machine httpclient_parser_tables 124 1044
  by (rule ragel_machineI [OF httpclient_parser_walk httpclient_parser_index httpclient_parser_states httpclient_parser_branches
        httpclient_parser_entries(1) httpclient_parser_starts_ok httpclient_parser_entries(2,3)])

section \<open>The shape of the tables\<close>

lemma httpclient_parser_table_sizes:
  "length httpclient_parser_trans_keys_1 = 83"
  "length httpclient_parser_trans_keys_2 = 83"
  "length httpclient_parser_trans_cond_spaces_1 = 66"
  "length httpclient_parser_trans_cond_spaces_2 = 65"
  "length httpclient_parser_trans_offsets_1 = 66"
  "length httpclient_parser_trans_offsets_2 = 65"
  "length httpclient_parser_trans_lengths_1 = 66"
  "length httpclient_parser_trans_lengths_2 = 65"
  "length httpclient_parser_cond_keys_1 = 66"
  "length httpclient_parser_cond_keys_2 = 65"
  "length httpclient_parser_cond_targs_1 = 66"
  "length httpclient_parser_cond_targs_2 = 65"
  "length httpclient_parser_cond_actions_1 = 66"
  "length httpclient_parser_cond_actions_2 = 65"
  "length httpclient_parser_actions = 8"
  "length httpclient_parser_key_offsets = 16"
  "length httpclient_parser_trans_keys = 166"
  "length httpclient_parser_single_lengths = 16"
  "length httpclient_parser_range_lengths = 16"
  "length httpclient_parser_index_offsets = 16"
  "length httpclient_parser_trans_cond_spaces = 131"
  "length httpclient_parser_trans_offsets = 131"
  "length httpclient_parser_trans_lengths = 131"
  "length httpclient_parser_cond_keys = 131"
  "length httpclient_parser_cond_targs = 131"
  "length httpclient_parser_cond_actions = 131"
  by (simp_all add: httpclient_parser_actions_def httpclient_parser_key_offsets_def httpclient_parser_trans_keys_1_def httpclient_parser_trans_keys_2_def httpclient_parser_trans_keys_def httpclient_parser_single_lengths_def httpclient_parser_range_lengths_def httpclient_parser_index_offsets_def httpclient_parser_trans_cond_spaces_1_def httpclient_parser_trans_cond_spaces_2_def httpclient_parser_trans_cond_spaces_def httpclient_parser_trans_offsets_1_def httpclient_parser_trans_offsets_2_def httpclient_parser_trans_offsets_def httpclient_parser_trans_lengths_1_def httpclient_parser_trans_lengths_2_def httpclient_parser_trans_lengths_def httpclient_parser_cond_keys_1_def httpclient_parser_cond_keys_2_def httpclient_parser_cond_keys_def httpclient_parser_cond_targs_1_def httpclient_parser_cond_targs_2_def httpclient_parser_cond_targs_def httpclient_parser_cond_actions_1_def httpclient_parser_cond_actions_2_def httpclient_parser_cond_actions_def)

lemma httpclient_parser_octets:
  "octets httpclient_parser_actions"
  "octets httpclient_parser_key_offsets"
  "octets httpclient_parser_trans_keys"
  "octets httpclient_parser_single_lengths"
  "octets httpclient_parser_range_lengths"
  "octets httpclient_parser_index_offsets"
  "octets httpclient_parser_trans_cond_spaces"
  "octets httpclient_parser_trans_offsets"
  "octets httpclient_parser_trans_lengths"
  "octets httpclient_parser_cond_keys"
  "octets httpclient_parser_cond_targs"
  "octets httpclient_parser_cond_actions"
  by (simp_all add: httpclient_parser_actions_def httpclient_parser_key_offsets_def httpclient_parser_trans_keys_1_def httpclient_parser_trans_keys_2_def httpclient_parser_trans_keys_def httpclient_parser_single_lengths_def httpclient_parser_range_lengths_def httpclient_parser_index_offsets_def httpclient_parser_trans_cond_spaces_1_def httpclient_parser_trans_cond_spaces_2_def httpclient_parser_trans_cond_spaces_def httpclient_parser_trans_offsets_1_def httpclient_parser_trans_offsets_2_def httpclient_parser_trans_offsets_def httpclient_parser_trans_lengths_1_def httpclient_parser_trans_lengths_2_def httpclient_parser_trans_lengths_def httpclient_parser_cond_keys_1_def httpclient_parser_cond_keys_2_def httpclient_parser_cond_keys_def httpclient_parser_cond_targs_1_def httpclient_parser_cond_targs_2_def httpclient_parser_cond_targs_def httpclient_parser_cond_actions_1_def httpclient_parser_cond_actions_2_def httpclient_parser_cond_actions_def)

lemmas httpclient_parser_shape = httpclient_parser_table_sizes httpclient_parser_octets

lemma httpclient_parser_fields:
  "actions httpclient_parser_tables = httpclient_parser_actions"
  "key_offsets httpclient_parser_tables = httpclient_parser_key_offsets"
  "trans_keys httpclient_parser_tables = httpclient_parser_trans_keys"
  "single_lengths httpclient_parser_tables = httpclient_parser_single_lengths"
  "range_lengths httpclient_parser_tables = httpclient_parser_range_lengths"
  "index_offsets httpclient_parser_tables = httpclient_parser_index_offsets"
  "trans_cond_spaces httpclient_parser_tables = httpclient_parser_trans_cond_spaces"
  "trans_offsets httpclient_parser_tables = httpclient_parser_trans_offsets"
  "trans_lengths httpclient_parser_tables = httpclient_parser_trans_lengths"
  "cond_keys httpclient_parser_tables = httpclient_parser_cond_keys"
  "cond_targs httpclient_parser_tables = httpclient_parser_cond_targs"
  "cond_actions httpclient_parser_tables = httpclient_parser_cond_actions"
  by (simp_all add: httpclient_parser_tables_def)

lemma httpclient_parser_acts:
  "acts_at httpclient_parser_tables 0 = []"
  "acts_at httpclient_parser_tables 1 = [0]"
  "acts_at httpclient_parser_tables 3 = [1]"
  "acts_at httpclient_parser_tables 5 = [2]"
  "acts_at httpclient_parser_tables 7 = [3]"
  "acts_at httpclient_parser_tables 9 = [5]"
  "acts_at httpclient_parser_tables 11 = [6]"
  "acts_at httpclient_parser_tables 13 = [7]"
  "acts_at httpclient_parser_tables 15 = [8]"
  "acts_at httpclient_parser_tables 17 = [9]"
  "acts_at httpclient_parser_tables 19 = [10]"
  "acts_at httpclient_parser_tables 21 = [11]"
  "acts_at httpclient_parser_tables 23 = [12]"
  "acts_at httpclient_parser_tables 25 = [2, 3]"
  "acts_at httpclient_parser_tables 28 = [3, 1]"
  "acts_at httpclient_parser_tables 31 = [3, 6]"
  "acts_at httpclient_parser_tables 34 = [4, 6]"
  "acts_at httpclient_parser_tables 37 = [5, 1]"
  "acts_at httpclient_parser_tables 40 = [5, 12]"
  "acts_at httpclient_parser_tables 43 = [6, 11]"
  "acts_at httpclient_parser_tables 46 = [6, 12]"
  "acts_at httpclient_parser_tables 49 = [10, 12]"
  "acts_at httpclient_parser_tables 52 = [2, 3, 6]"
  "acts_at httpclient_parser_tables 56 = [2, 3, 6, 12]"
  by (simp_all add: acts_at_def slice_def tab_def httpclient_parser_tables_def httpclient_parser_actions_def)

lemmas httpclient_parser_small = httpclient_parser_key_offsets_def httpclient_parser_single_lengths_def httpclient_parser_range_lengths_def httpclient_parser_index_offsets_def

lemmas httpclient_parser_whole = httpclient_parser_trans_keys_def httpclient_parser_trans_cond_spaces_def httpclient_parser_trans_offsets_def httpclient_parser_trans_lengths_def httpclient_parser_cond_keys_def httpclient_parser_cond_targs_def httpclient_parser_cond_actions_def

lemmas httpclient_parser_part = httpclient_parser_trans_keys_1_def httpclient_parser_trans_keys_2_def httpclient_parser_trans_cond_spaces_1_def httpclient_parser_trans_cond_spaces_2_def httpclient_parser_trans_offsets_1_def httpclient_parser_trans_offsets_2_def httpclient_parser_trans_lengths_1_def httpclient_parser_trans_lengths_2_def httpclient_parser_cond_keys_1_def httpclient_parser_cond_keys_2_def httpclient_parser_cond_targs_1_def httpclient_parser_cond_targs_2_def httpclient_parser_cond_actions_1_def httpclient_parser_cond_actions_2_def

end
