(* ===== verification/Httpclient_Parser.thy ===== *)
theory Httpclient_Parser
  imports Httpclient_Tables Http_Parser Socket_Stream
begin

text \<open>
  \<open>httpclient_parser_init\<close>, \<open>httpclient_parser_execute\<close> and \<open>httpclient_parser_finish\<close> of
  \<open>src/sylar/http/httpclient_parser.cc\<close> and the class \<open>HttpResponseParser\<close> of \<open>src/sylar/http/http_parser.cc\<close>
  with its callbacks.

  As in \<open>Http_Parser\<close> the buffer is a string and pointers into it are positions. The code asserts that the
  byte behind the buffer is NUL: it is the argument \<open>term\<close>; \<open>strtol\<close> and \<open>atoi\<close> stop there at the latest. The
  member \<open>status\<close>, which \<open>httpclient_parser_init\<close> does not set, is a parameter of the constructor.
\<close>

section \<open>Numbers in text\<close>

text \<open>\<open>strtol(s, NULL, base)\<close> for the bases 10 and 16, \<open>long\<close> having 64 bits.\<close>

definition digit_val :: "int \<Rightarrow> char \<Rightarrow> int option" where
  "digit_val base c =
     (let k = schar c;
          d = (if 48 \<le> k \<and> k \<le> 57 then k - 48 else if 65 \<le> k \<and> k \<le> 90 then k - 55
               else if 97 \<le> k \<and> k \<le> 122 then k - 87 else 99) in
      if d < base then Some d else None)"

fun digits_val :: "int \<Rightarrow> int \<Rightarrow> string \<Rightarrow> int" where
  "digits_val base n [] = n"
| "digits_val base n (c # s) = (case digit_val base c of None \<Rightarrow> n | Some d \<Rightarrow> digits_val base (base * n + d) s)"

definition hex_prefix :: "string \<Rightarrow> bool" where
  "hex_prefix s =
     (case s of a # b # c # _ \<Rightarrow> a = CHR ''0'' \<and> (b = CHR ''x'' \<or> b = CHR ''X'') \<and> digit_val 16 c \<noteq> None | _ \<Rightarrow> False)"

definition strtol :: "int \<Rightarrow> string \<Rightarrow> int" where
  "strtol base s =
     (let s = dropWhile is_space s;
          neg = (s \<noteq> [] \<and> hd s = CHR ''-'');
          s = (if s \<noteq> [] \<and> (hd s = CHR ''-'' \<or> hd s = CHR ''+'') then tl s else s);
          s = (if base = 16 \<and> hex_prefix s then drop 2 s else s);
          v = digits_val base 0 s in
      if neg then max (- (2 ^ 63)) (- v) else min (2 ^ 63 - 1) v)"

definition atoi :: "string \<Rightarrow> int" where
  "atoi s = to_int (strtol 10 s)"

section \<open>The structure\<close>

record 'd httpclient_parser =
  cp_cs :: int
  cp_body_start :: nat
  cp_content_len :: int
  cp_status :: int
  cp_chunked :: bool
  cp_chunks_done :: bool
  cp_close :: bool
  cp_nread :: nat
  cp_mark :: nat
  cp_field_start :: nat
  cp_field_len :: nat
  cp_data :: 'd
  cp_http_field :: "'d field_cb option"
  cp_reason_phrase :: "'d element_cb option"
  cp_status_code :: "'d element_cb option"
  cp_chunk_size :: "'d element_cb option"
  cp_http_version :: "'d element_cb option"
  cp_header_done :: "'d element_cb option"
  cp_last_chunk :: "'d element_cb option"

definition httpclient_parser_init :: "'d httpclient_parser \<Rightarrow> 'd httpclient_parser" where
  "httpclient_parser_init parser =
     parser\<lparr>cp_cs := httpclient_parser_start, cp_body_start := 0, cp_content_len := -1, cp_chunked := False,
            cp_chunks_done := False, cp_mark := 0, cp_nread := 0, cp_field_len := 0, cp_field_start := 0,
            cp_close := False\<rparr>"

definition call_part ::
    "'d element_cb option \<Rightarrow> string \<Rightarrow> nat \<Rightarrow> nat \<Rightarrow> 'd httpclient_parser \<Rightarrow> parse_exc + 'd httpclient_parser" where
  "call_part cb buffer at len parser =
     (case cb of
        None \<Rightarrow> Inr parser
      | Some f \<Rightarrow> bindE (f (cp_data parser) buffer at len) (\<lambda>d. Inr (parser\<lparr>cp_data := d\<rparr>)))"

definition action_chunk_size :: "string \<Rightarrow> nat \<Rightarrow> 'd httpclient_parser \<Rightarrow> parse_exc + 'd httpclient_parser" where
  "action_chunk_size buffer p parser =
     (let n = to_int (strtol 16 (drop (cp_mark parser) buffer));
          parser = parser\<lparr>cp_chunked := True, cp_content_len := n, cp_chunks_done := (n \<le> 0)\<rparr> in
      if cp_chunks_done parser \<and> cp_last_chunk parser \<noteq> None
      then call_part (cp_last_chunk parser) buffer (cp_mark parser) (LEN (cp_mark parser) p) parser
      else call_part (cp_chunk_size parser) buffer (cp_mark parser) (LEN (cp_mark parser) p) parser)"

text \<open>\<open>{p += 1; goto _out;}\<close> of the action \<open>done\<close> is the flag \<^const>\<open>True\<close>.\<close>

definition httpclient_parser_action ::
    "string \<Rightarrow> nat \<Rightarrow> int \<Rightarrow> 'd httpclient_parser \<Rightarrow> parse_exc + ('d httpclient_parser \<times> bool)" where
  "httpclient_parser_action buffer p act parser =
     (let go = (\<lambda>r. bindE r (\<lambda>q. Inr (q, False)));
          mark = cp_mark parser in
      if act = 0 \<or> act = 3 then Inr (parser\<lparr>cp_mark := p\<rparr>, False)
      else if act = 1 then Inr (parser\<lparr>cp_field_start := p\<rparr>, False)
      else if act = 2 then Inr (parser\<lparr>cp_field_len := LEN (cp_field_start parser) p\<rparr>, False)
      else if act = 4 then Inr (parser\<lparr>cp_content_len := to_int (strtol 10 (drop mark buffer))\<rparr>, False)
      else if act = 5 then Inr (parser\<lparr>cp_close := True\<rparr>, False)
      else if act = 6 then
        (case cp_http_field parser of
           None \<Rightarrow> Inr (parser, False)
         | Some f \<Rightarrow>
             bindE (f (cp_data parser) buffer (cp_field_start parser) (cp_field_len parser) mark (LEN mark p))
               (\<lambda>d. Inr (parser\<lparr>cp_data := d\<rparr>, False)))
      else if act = 7 then go (call_part (cp_reason_phrase parser) buffer mark (LEN mark p) parser)
      else if act = 8 then
        go (call_part (cp_status_code parser) buffer mark (LEN mark p)
              (parser\<lparr>cp_status := to_int (strtol 10 (drop mark buffer))\<rparr>))
      else if act = 9 then go (call_part (cp_http_version parser) buffer mark (LEN mark p) parser)
      else if act = 10 then go (action_chunk_size buffer p parser)
      else if act = 11 then Inr (parser\<lparr>cp_chunked := True\<rparr>, False)
      else if act = 12 then
        bindE (call_part (cp_header_done parser) buffer (p + 1) (length buffer - p - 1) (parser\<lparr>cp_body_start := p + 1\<rparr>))
          (\<lambda>q. Inr (q, True))
      else Inr (parser, False))"

fun httpclient_parser_actions_run ::
    "string \<Rightarrow> nat \<Rightarrow> int list \<Rightarrow> 'd httpclient_parser \<Rightarrow> parse_exc + ('d httpclient_parser \<times> bool)" where
  "httpclient_parser_actions_run buffer p [] parser = Inr (parser, False)"
| "httpclient_parser_actions_run buffer p (act # acts) parser =
     bindE (httpclient_parser_action buffer p act parser)
       (\<lambda>(parser, out). if out then Inr (parser, True) else httpclient_parser_actions_run buffer p acts parser)"

text \<open>From the label \<open>_resume\<close> on, as in \<^const>\<open>http_parser_loop\<close>. The machine has no condition.\<close>

fun httpclient_parser_loop ::
    "string \<Rightarrow> nat \<Rightarrow> string \<Rightarrow> int \<Rightarrow> 'd httpclient_parser \<Rightarrow> parse_exc + (int \<times> nat \<times> 'd httpclient_parser)" where
  "httpclient_parser_loop buffer p [] cs parser = Inr (cs, p, parser)"
| "httpclient_parser_loop buffer p (c # rest) cs parser =
     (let (cs', acts) = ragel_next httpclient_parser_tables False cs (schar c) in
      bindE (httpclient_parser_actions_run buffer p acts parser)
        (\<lambda>(parser, out).
           if out then Inr (cs', p + 1, parser)
           else if cs' = httpclient_parser_error then Inr (cs', p, parser)
           else httpclient_parser_loop buffer (p + 1) rest cs' parser))"

text \<open>The result of \<open>httpclient_parser_execute\<close> is \<open>-1\<close> where one of its checks fails.\<close>

definition httpclient_parser_execute ::
    "'d httpclient_parser \<Rightarrow> string \<Rightarrow> char \<Rightarrow> nat \<Rightarrow> parse_exc + (int \<times> 'd httpclient_parser)" where
  "httpclient_parser_execute parser buffer term off =
     (let parser = parser\<lparr>cp_nread := 0, cp_mark := 0, cp_field_len := 0, cp_field_start := 0\<rparr> in
      if length buffer < off \<or> term \<noteq> CHR 0x00 then Inl Assert_failed
      else bindE
        (if off = length buffer \<or> cp_cs parser = 0 then Inr (cp_cs parser, off, parser)
         else httpclient_parser_loop buffer off (drop off buffer) (cp_cs parser) parser)
        (\<lambda>(cs, p, parser).
           let parser = parser\<lparr>cp_cs := cs, cp_nread := cp_nread parser + (p - off)\<rparr> in
           if \<not> (cp_nread parser \<le> length buffer \<and> cp_body_start parser \<le> length buffer) then Inl Assert_failed
           else if cp_mark parser < length buffer \<and> cp_field_len parser \<le> length buffer \<and>
                   cp_field_start parser < length buffer
           then Inr (to_int (int (cp_nread parser)), parser) else Inr (-1, parser)))"

definition httpclient_parser_has_error :: "'d httpclient_parser \<Rightarrow> bool" where
  "httpclient_parser_has_error parser \<longleftrightarrow> cp_cs parser = httpclient_parser_error"

definition httpclient_parser_is_finished :: "'d httpclient_parser \<Rightarrow> bool" where
  "httpclient_parser_is_finished parser \<longleftrightarrow> cp_cs parser = httpclient_parser_first_final"

definition httpclient_parser_finish :: "'d httpclient_parser \<Rightarrow> int" where
  "httpclient_parser_finish parser =
     (if httpclient_parser_has_error parser then -1 else if httpclient_parser_is_finished parser then 1 else 0)"

section \<open>\<open>HttpResponseParser\<close>\<close>

record response_data =
  rp_data :: HttpResponse
  rp_error :: int

type_synonym HttpResponseParser = "response_data httpclient_parser"

definition on_response_reason :: "response_data element_cb" where
  "on_response_reason parser buffer at len =
     bindE (std_string buffer at len) (\<lambda>s. Inr (parser\<lparr>rp_data := (rp_data parser)\<lparr>rs_reason := s\<rparr>\<rparr>))"

definition on_response_status :: "response_data element_cb" where
  "on_response_status parser buffer at len =
     Inr (parser\<lparr>rp_data := (rp_data parser)\<lparr>rs_status := atoi (drop at buffer)\<rparr>\<rparr>)"

definition on_response_chunk :: "response_data element_cb" where
  "on_response_chunk parser buffer at len = Inr parser"

definition on_response_version :: "response_data element_cb" where
  "on_response_version parser buffer at len =
     (if strncmp_eq (drop at buffer) ''HTTP/1.1'' len then Inr (parser\<lparr>rp_data := (rp_data parser)\<lparr>rs_version := 0x11\<rparr>\<rparr>)
      else if strncmp_eq (drop at buffer) ''HTTP/1.0'' len then Inr (parser\<lparr>rp_data := (rp_data parser)\<lparr>rs_version := 0x10\<rparr>\<rparr>)
      else Inr (parser\<lparr>rp_error := 1001\<rparr>))"

definition on_response_header_done :: "response_data element_cb" where
  "on_response_header_done parser buffer at len = Inr parser"

definition on_response_last_chunk :: "response_data element_cb" where
  "on_response_last_chunk parser buffer at len = Inr parser"

definition on_response_http_field :: "response_data field_cb" where
  "on_response_http_field parser buffer field flen val vlen =
     (if flen = 0 then Inr parser
      else bindE (std_string buffer field flen) (\<lambda>k.
           bindE (std_string buffer val vlen) (\<lambda>v.
           Inr (parser\<lparr>rp_data := HttpResponse_setHeader (rp_data parser) k v\<rparr>))))"

definition HttpResponseParser_new :: "int \<Rightarrow> HttpResponseParser" where
  "HttpResponseParser_new status =
     httpclient_parser_init
       \<lparr>cp_cs = 0, cp_body_start = 0, cp_content_len = 0, cp_status = status, cp_chunked = False, cp_chunks_done = False,
        cp_close = False, cp_nread = 0, cp_mark = 0, cp_field_start = 0, cp_field_len = 0,
        cp_data = \<lparr>rp_data = HttpResponse_new 0x11 True, rp_error = 0\<rparr>,
        cp_http_field = Some on_response_http_field, cp_reason_phrase = Some on_response_reason,
        cp_status_code = Some on_response_status, cp_chunk_size = Some on_response_chunk,
        cp_http_version = Some on_response_version, cp_header_done = Some on_response_header_done,
        cp_last_chunk = Some on_response_last_chunk\<rparr>"

text \<open>
  The result is the number of bytes parsed, the buffer after the \<open>memmove\<close> and the parser. When the scanner
  returns \<open>-1\<close> the \<open>memmove\<close> reads the byte in front of the buffer.
\<close>

definition HttpResponseParser_execute ::
    "HttpResponseParser \<Rightarrow> string \<Rightarrow> char \<Rightarrow> bool \<Rightarrow> parse_exc + (nat \<times> string \<times> HttpResponseParser)" where
  "HttpResponseParser_execute parser buffer term chunck =
     (let parser = (if chunck then httpclient_parser_init parser else parser) in
      bindE (httpclient_parser_execute parser buffer term 0)
        (\<lambda>(offset, parser).
           if offset < 0 then Inl Out_of_bounds else Inr (nat offset, drop (nat offset) buffer, parser)))"

definition HttpResponseParser_isFinished :: "HttpResponseParser \<Rightarrow> int" where
  "HttpResponseParser_isFinished parser = httpclient_parser_finish parser"

definition HttpResponseParser_hasError :: "HttpResponseParser \<Rightarrow> bool" where
  "HttpResponseParser_hasError parser \<longleftrightarrow> rp_error (cp_data parser) \<noteq> 0 \<or> httpclient_parser_has_error parser"

definition HttpResponseParser_getContentLength :: "(string \<Rightarrow> nat option) \<Rightarrow> HttpResponseParser \<Rightarrow> nat" where
  "HttpResponseParser_getContentLength lexical_cast parser =
     getAs lexical_cast (rs_headers (rp_data (cp_data parser))) ''content-length'' 0"

end
