(* ===== verification/Scan_Loop.thy ===== *)
theory Scan_Loop
  imports Http_Request_Run Httpclient_Parser
begin

text \<open>
  The scanning loops of \<open>http_parser_execute\<close> and \<open>httpclient_parser_execute\<close> have one shape: look up the
  transition, run its actions, go on with the next character. The locale \<open>scan_loop\<close> has the law of one such
  turn, and a Hoare logic over it: \<open>triple buffer A p \<Phi> B p' \<Psi>\<close> says that the loop, from any state of \<open>A\<close> at
  position \<open>p\<close> with a structure that satisfies \<open>\<Phi>\<close>, gets to a state of \<open>B\<close> at position \<open>p'\<close> with a
  structure that satisfies \<open>\<Psi>\<close>. It is interpreted on both loops.
\<close>

locale scan_loop =
  fixes step :: "'q \<Rightarrow> int \<Rightarrow> int \<Rightarrow> int \<times> int list"
    and acts :: "string \<Rightarrow> nat \<Rightarrow> int list \<Rightarrow> 'q \<Rightarrow> parse_exc + ('q \<times> bool)"
    and loop :: "string \<Rightarrow> nat \<Rightarrow> string \<Rightarrow> int \<Rightarrow> 'q \<Rightarrow> parse_exc + (int \<times> nat \<times> 'q)"
  assumes acts_Nil: "acts buffer p [] q = Inr (q, False)"
    and loop_turn: "step q cs (schar c) = (cs', as) \<Longrightarrow> acts buffer p as q = Inr (q', False) \<Longrightarrow> cs' \<noteq> 0 \<Longrightarrow>
      loop buffer p (c # rest) cs q = loop buffer (p + 1) rest cs' q'"
    and loop_out: "step q cs (schar c) = (cs', as) \<Longrightarrow> acts buffer p as q = Inr (q', True) \<Longrightarrow>
      loop buffer p (c # rest) cs q = Inr (cs', p + 1, q')"
begin

definition triple :: "string \<Rightarrow> int set \<Rightarrow> nat \<Rightarrow> ('q \<Rightarrow> bool) \<Rightarrow> int set \<Rightarrow> nat \<Rightarrow> ('q \<Rightarrow> bool) \<Rightarrow> bool" where
  "triple buffer A p \<Phi> B p' \<Psi> \<longleftrightarrow>
     (\<forall>cs \<in> A. \<forall>q. \<Phi> q \<longrightarrow>
        (\<exists>cs' \<in> B. \<exists>q'. loop buffer p (drop p buffer) cs q = loop buffer p' (drop p' buffer) cs' q' \<and> \<Psi> q'))"

lemma triple_refl: "triple buffer A p \<Phi> A p \<Phi>"
  by (auto simp: triple_def)

lemma triple_trans [trans]:
  assumes "triple buffer A p \<Phi> B p' \<Psi>" "triple buffer B p' \<Psi> C p'' \<Theta>"
  shows "triple buffer A p \<Phi> C p'' \<Theta>"
  unfolding triple_def
proof (intro ballI allI impI)
  fix cs q assume "cs \<in> A" "\<Phi> q"
  then obtain cs1 q1 where "cs1 \<in> B" "\<Psi> q1" "loop buffer p (drop p buffer) cs q = loop buffer p' (drop p' buffer) cs1 q1"
    using assms(1) unfolding triple_def by metis
  moreover from this obtain cs2 q2 where "cs2 \<in> C" "\<Theta> q2"
      "loop buffer p' (drop p' buffer) cs1 q1 = loop buffer p'' (drop p'' buffer) cs2 q2"
    using assms(2) unfolding triple_def by metis
  ultimately show "\<exists>cs'\<in>C. \<exists>q'. loop buffer p (drop p buffer) cs q = loop buffer p'' (drop p'' buffer) cs' q' \<and> \<Theta> q'"
    by auto
qed

lemma triple_conseq:
  "triple buffer A p \<Phi> B p' \<Psi> \<Longrightarrow> A' \<subseteq> A \<Longrightarrow> B \<subseteq> B' \<Longrightarrow> (\<And>q. \<Phi>' q \<Longrightarrow> \<Phi> q) \<Longrightarrow> (\<And>q. \<Psi> q \<Longrightarrow> \<Psi>' q) \<Longrightarrow>
   triple buffer A' p \<Phi>' B' p' \<Psi>'"
  unfolding triple_def by (meson subsetD)

lemma triple_step:
  assumes "text_at buffer p [c]"
    and "\<And>cs q. cs \<in> A \<Longrightarrow> \<Phi> q \<Longrightarrow> \<exists>cs' as q'. step q cs (schar c) = (cs', as) \<and> cs' \<in> B \<and> cs' \<noteq> 0 \<and>
      acts buffer p as q = Inr (q', False) \<and> \<Psi> q'"
  shows "triple buffer A p \<Phi> B (Suc p) \<Psi>"
  unfolding triple_def
proof (intro ballI allI impI)
  fix cs q assume "cs \<in> A" "\<Phi> q"
  with assms(2) obtain cs' as q' where
    s: "step q cs (schar c) = (cs', as)" "cs' \<in> B" "cs' \<noteq> 0" "acts buffer p as q = Inr (q', False)" "\<Psi> q'" by blast
  have "drop p buffer = c # drop (Suc p) buffer" using assms(1) by (auto simp: Cons_nth_drop_Suc)
  then show "\<exists>cs'\<in>B. \<exists>q'. loop buffer p (drop p buffer) cs q = loop buffer (Suc p) (drop (Suc p) buffer) cs' q' \<and> \<Psi> q'"
    using loop_turn [OF s(1,4,3), of "drop (Suc p) buffer"] s(2,5) by auto
qed

text \<open>A piece of text over which the machine runs no action.\<close>

lemma triple_quiet:
  assumes "text_at buffer p xs" "list_all P xs" "0 \<notin> A"
    and "\<And>cs q c. cs \<in> A \<Longrightarrow> P c \<Longrightarrow> \<exists>cs' \<in> A. step q cs (schar c) = (cs', [])"
  shows "triple buffer A p \<Phi> A (p + length xs) \<Phi>"
  using assms(1,2)
proof (induction xs arbitrary: p)
  case (Cons c xs)
  have "triple buffer A p \<Phi> A (Suc p) \<Phi>"
  proof (rule triple_step)
    fix cs q assume "cs \<in> A" "\<Phi> q"
    then obtain cs' where "cs' \<in> A" "step q cs (schar c) = (cs', [])"
      using assms(4) [of cs c q] Cons.prems(2) by auto
    then show "\<exists>cs' as q'. step q cs (schar c) = (cs', as) \<and> cs' \<in> A \<and> cs' \<noteq> 0 \<and> acts buffer p as q = Inr (q', False) \<and> \<Phi> q'"
      using \<open>\<Phi> q\<close> assms(3) acts_Nil by auto
  qed (use Cons.prems in simp)
  also have "triple buffer A (Suc p) \<Phi> A (Suc p + length xs) \<Phi>"
    using Cons.IH [of "Suc p"] Cons.prems by simp
  finally show ?case by simp
qed (simp add: triple_refl)

lemma triple_out:
  assumes "triple buffer A p \<Phi> B p' \<Psi>" "cs \<in> A" "\<Phi> q" "text_at buffer p' [c]"
    and "\<And>cs q. cs \<in> B \<Longrightarrow> \<Psi> q \<Longrightarrow> \<exists>as q'. step q cs (schar c) = (cs', as) \<and> acts buffer p' as q = Inr (q', True) \<and> \<Theta> q'"
  shows "\<exists>q'. loop buffer p (drop p buffer) cs q = Inr (cs', Suc p', q') \<and> \<Theta> q'"
proof -
  obtain cs1 q1 where 1: "cs1 \<in> B" "\<Psi> q1" "loop buffer p (drop p buffer) cs q = loop buffer p' (drop p' buffer) cs1 q1"
    using assms(1-3) unfolding triple_def by metis
  then obtain as q' where 2: "step q1 cs1 (schar c) = (cs', as)" "acts buffer p' as q1 = Inr (q', True)" "\<Theta> q'"
    using assms(5) by blast
  have "drop p' buffer = c # drop (Suc p') buffer" using assms(4) by (auto simp: Cons_nth_drop_Suc)
  then show ?thesis using loop_out [OF 2(1,2)] 1(3) 2(3) by auto
qed

end

interpretation rq_scan: scan_loop "\<lambda>q. ragel_next http_parser_tables (hp_uri_relaxed q)" http_parser_actions_run http_parser_loop
  by unfold_locales (simp_all add: http_parser_error_def)

interpretation rs_scan: scan_loop "\<lambda>q. ragel_next httpclient_parser_tables False" httpclient_parser_actions_run httpclient_parser_loop
  by unfold_locales (simp_all add: httpclient_parser_error_def)

end
