(* ===== verification/Httpclient_Edges.thy ===== *)
theory Httpclient_Edges
  imports Httpclient_Tables
begin

text \<open>
  The edges of the states of the response scanner that a response head passes through, evaluated from the
  tables: for each state the keys in the order the code tries them and the branches they lead to, the last
  one being the default.
\<close>

lemma hc_tab_1:
  "tab (key_offsets httpclient_parser_tables) 1 = 0" "tab (single_lengths httpclient_parser_tables) 1 = 1"
  "tab (range_lengths httpclient_parser_tables) 1 = 3" "tab (index_offsets httpclient_parser_tables) 1 = 0"
  by (simp_all add: httpclient_parser_fields tab_row httpclient_parser_shape, simp_all add: httpclient_parser_small)

lemma hc_1:
  "ragel_next httpclient_parser_tables r 1 c =
     look [(72, 72), (48, 57), (65, 70), (97, 102)]
     [(8, [0]), (2, [0]), (2, [0]), (2, [0]), (0, [])] c"
  by (simp add: hc.state_edges [OF _ _ hc_tab_1] httpclient_parser_fields slice_rows httpclient_parser_shape,
      simp add: httpclient_parser_shape httpclient_parser_whole, simp add: httpclient_parser_part httpclient_parser_acts)

lemma hc_tab_3:
  "tab (key_offsets httpclient_parser_tables) 3 = 16" "tab (single_lengths httpclient_parser_tables) 3 = 1"
  "tab (range_lengths httpclient_parser_tables) 3 = 0" "tab (index_offsets httpclient_parser_tables) 3 = 12"
  by (simp_all add: httpclient_parser_fields tab_row httpclient_parser_shape, simp_all add: httpclient_parser_small)

lemma hc_3:
  "ragel_next httpclient_parser_tables r 3 c =
     look [(10, 10)]
     [(120, [12]), (0, [])] c"
  by (simp add: hc.state_edges [OF _ _ hc_tab_3] httpclient_parser_fields slice_rows httpclient_parser_shape,
      simp add: httpclient_parser_shape httpclient_parser_whole, simp add: httpclient_parser_part httpclient_parser_acts)

lemma hc_tab_8:
  "tab (key_offsets httpclient_parser_tables) 8 = 84" "tab (single_lengths httpclient_parser_tables) 8 = 1"
  "tab (range_lengths httpclient_parser_tables) 8 = 0" "tab (index_offsets httpclient_parser_tables) 8 = 61"
  by (simp_all add: httpclient_parser_fields tab_row httpclient_parser_shape, simp_all add: httpclient_parser_small)

lemma hc_8:
  "ragel_next httpclient_parser_tables r 8 c =
     look [(84, 84)]
     [(9, []), (0, [])] c"
  by (simp add: hc.state_edges [OF _ _ hc_tab_8] httpclient_parser_fields slice_rows httpclient_parser_shape,
      simp add: httpclient_parser_shape httpclient_parser_whole, simp add: httpclient_parser_part httpclient_parser_acts)

lemma hc_tab_9:
  "tab (key_offsets httpclient_parser_tables) 9 = 85" "tab (single_lengths httpclient_parser_tables) 9 = 1"
  "tab (range_lengths httpclient_parser_tables) 9 = 0" "tab (index_offsets httpclient_parser_tables) 9 = 63"
  by (simp_all add: httpclient_parser_fields tab_row httpclient_parser_shape, simp_all add: httpclient_parser_small)

lemma hc_9:
  "ragel_next httpclient_parser_tables r 9 c =
     look [(84, 84)]
     [(10, []), (0, [])] c"
  by (simp add: hc.state_edges [OF _ _ hc_tab_9] httpclient_parser_fields slice_rows httpclient_parser_shape,
      simp add: httpclient_parser_shape httpclient_parser_whole, simp add: httpclient_parser_part httpclient_parser_acts)

lemma hc_tab_10:
  "tab (key_offsets httpclient_parser_tables) 10 = 86" "tab (single_lengths httpclient_parser_tables) 10 = 1"
  "tab (range_lengths httpclient_parser_tables) 10 = 0" "tab (index_offsets httpclient_parser_tables) 10 = 65"
  by (simp_all add: httpclient_parser_fields tab_row httpclient_parser_shape, simp_all add: httpclient_parser_small)

lemma hc_10:
  "ragel_next httpclient_parser_tables r 10 c =
     look [(80, 80)]
     [(11, []), (0, [])] c"
  by (simp add: hc.state_edges [OF _ _ hc_tab_10] httpclient_parser_fields slice_rows httpclient_parser_shape,
      simp add: httpclient_parser_shape httpclient_parser_whole, simp add: httpclient_parser_part httpclient_parser_acts)

lemma hc_tab_11:
  "tab (key_offsets httpclient_parser_tables) 11 = 87" "tab (single_lengths httpclient_parser_tables) 11 = 1"
  "tab (range_lengths httpclient_parser_tables) 11 = 0" "tab (index_offsets httpclient_parser_tables) 11 = 67"
  by (simp_all add: httpclient_parser_fields tab_row httpclient_parser_shape, simp_all add: httpclient_parser_small)

lemma hc_11:
  "ragel_next httpclient_parser_tables r 11 c =
     look [(47, 47)]
     [(12, []), (0, [])] c"
  by (simp add: hc.state_edges [OF _ _ hc_tab_11] httpclient_parser_fields slice_rows httpclient_parser_shape,
      simp add: httpclient_parser_shape httpclient_parser_whole, simp add: httpclient_parser_part httpclient_parser_acts)

lemma hc_tab_12:
  "tab (key_offsets httpclient_parser_tables) 12 = 88" "tab (single_lengths httpclient_parser_tables) 12 = 0"
  "tab (range_lengths httpclient_parser_tables) 12 = 1" "tab (index_offsets httpclient_parser_tables) 12 = 69"
  by (simp_all add: httpclient_parser_fields tab_row httpclient_parser_shape, simp_all add: httpclient_parser_small)

lemma hc_12:
  "ragel_next httpclient_parser_tables r 12 c =
     look [(48, 57)]
     [(13, []), (0, [])] c"
  by (simp add: hc.state_edges [OF _ _ hc_tab_12] httpclient_parser_fields slice_rows httpclient_parser_shape,
      simp add: httpclient_parser_shape httpclient_parser_whole, simp add: httpclient_parser_part httpclient_parser_acts)

lemma hc_tab_13:
  "tab (key_offsets httpclient_parser_tables) 13 = 90" "tab (single_lengths httpclient_parser_tables) 13 = 1"
  "tab (range_lengths httpclient_parser_tables) 13 = 1" "tab (index_offsets httpclient_parser_tables) 13 = 71"
  by (simp_all add: httpclient_parser_fields tab_row httpclient_parser_shape, simp_all add: httpclient_parser_small)

lemma hc_13:
  "ragel_next httpclient_parser_tables r 13 c =
     look [(46, 46), (48, 57)]
     [(14, []), (13, []), (0, [])] c"
  by (simp add: hc.state_edges [OF _ _ hc_tab_13] httpclient_parser_fields slice_rows httpclient_parser_shape,
      simp add: httpclient_parser_shape httpclient_parser_whole, simp add: httpclient_parser_part httpclient_parser_acts)

lemma hc_tab_14:
  "tab (key_offsets httpclient_parser_tables) 14 = 93" "tab (single_lengths httpclient_parser_tables) 14 = 0"
  "tab (range_lengths httpclient_parser_tables) 14 = 1" "tab (index_offsets httpclient_parser_tables) 14 = 74"
  by (simp_all add: httpclient_parser_fields tab_row httpclient_parser_shape, simp_all add: httpclient_parser_small)

lemma hc_14:
  "ragel_next httpclient_parser_tables r 14 c =
     look [(48, 57)]
     [(15, []), (0, [])] c"
  by (simp add: hc.state_edges [OF _ _ hc_tab_14] httpclient_parser_fields slice_rows httpclient_parser_shape,
      simp add: httpclient_parser_shape httpclient_parser_whole, simp add: httpclient_parser_part httpclient_parser_acts)

lemma hc_tab_15:
  "tab (key_offsets httpclient_parser_tables) 15 = 95" "tab (single_lengths httpclient_parser_tables) 15 = 1"
  "tab (range_lengths httpclient_parser_tables) 15 = 1" "tab (index_offsets httpclient_parser_tables) 15 = 76"
  by (simp_all add: httpclient_parser_fields tab_row httpclient_parser_shape, simp_all add: httpclient_parser_small)

lemma hc_15:
  "ragel_next httpclient_parser_tables r 15 c =
     look [(32, 32), (48, 57)]
     [(16, [9]), (15, []), (0, [])] c"
  by (simp add: hc.state_edges [OF _ _ hc_tab_15] httpclient_parser_fields slice_rows httpclient_parser_shape,
      simp add: httpclient_parser_shape httpclient_parser_whole, simp add: httpclient_parser_part httpclient_parser_acts)

lemma hc_tab_16:
  "tab (key_offsets httpclient_parser_tables) 16 = 98" "tab (single_lengths httpclient_parser_tables) 16 = 0"
  "tab (range_lengths httpclient_parser_tables) 16 = 1" "tab (index_offsets httpclient_parser_tables) 16 = 79"
  by (simp_all add: httpclient_parser_fields tab_row httpclient_parser_shape, simp_all add: httpclient_parser_small)

lemma hc_16:
  "ragel_next httpclient_parser_tables r 16 c =
     look [(48, 57)]
     [(17, [0]), (0, [])] c"
  by (simp add: hc.state_edges [OF _ _ hc_tab_16] httpclient_parser_fields slice_rows httpclient_parser_shape,
      simp add: httpclient_parser_shape httpclient_parser_whole, simp add: httpclient_parser_part httpclient_parser_acts)

lemma hc_tab_17:
  "tab (key_offsets httpclient_parser_tables) 17 = 100" "tab (single_lengths httpclient_parser_tables) 17 = 1"
  "tab (range_lengths httpclient_parser_tables) 17 = 1" "tab (index_offsets httpclient_parser_tables) 17 = 81"
  by (simp_all add: httpclient_parser_fields tab_row httpclient_parser_shape, simp_all add: httpclient_parser_small)

lemma hc_17:
  "ragel_next httpclient_parser_tables r 17 c =
     look [(32, 32), (48, 57)]
     [(18, [8]), (17, []), (0, [])] c"
  by (simp add: hc.state_edges [OF _ _ hc_tab_17] httpclient_parser_fields slice_rows httpclient_parser_shape,
      simp add: httpclient_parser_shape httpclient_parser_whole, simp add: httpclient_parser_part httpclient_parser_acts)

lemma hc_tab_18:
  "tab (key_offsets httpclient_parser_tables) 18 = 103" "tab (single_lengths httpclient_parser_tables) 18 = 1"
  "tab (range_lengths httpclient_parser_tables) 18 = 0" "tab (index_offsets httpclient_parser_tables) 18 = 84"
  by (simp_all add: httpclient_parser_fields tab_row httpclient_parser_shape, simp_all add: httpclient_parser_small)

lemma hc_18:
  "ragel_next httpclient_parser_tables r 18 c =
     look [(10, 10)]
     [(0, []), (19, [0])] c"
  by (simp add: hc.state_edges [OF _ _ hc_tab_18] httpclient_parser_fields slice_rows httpclient_parser_shape,
      simp add: httpclient_parser_shape httpclient_parser_whole, simp add: httpclient_parser_part httpclient_parser_acts)

lemma hc_tab_19:
  "tab (key_offsets httpclient_parser_tables) 19 = 104" "tab (single_lengths httpclient_parser_tables) 19 = 2"
  "tab (range_lengths httpclient_parser_tables) 19 = 0" "tab (index_offsets httpclient_parser_tables) 19 = 86"
  by (simp_all add: httpclient_parser_fields tab_row httpclient_parser_shape, simp_all add: httpclient_parser_small)

lemma hc_19:
  "ragel_next httpclient_parser_tables r 19 c =
     look [(10, 10), (13, 13)]
     [(20, [7]), (24, [7]), (19, [])] c"
  by (simp add: hc.state_edges [OF _ _ hc_tab_19] httpclient_parser_fields slice_rows httpclient_parser_shape,
      simp add: httpclient_parser_shape httpclient_parser_whole, simp add: httpclient_parser_part httpclient_parser_acts)

lemma hc_tab_20:
  "tab (key_offsets httpclient_parser_tables) 20 = 106" "tab (single_lengths httpclient_parser_tables) 20 = 9"
  "tab (range_lengths httpclient_parser_tables) 20 = 6" "tab (index_offsets httpclient_parser_tables) 20 = 89"
  by (simp_all add: httpclient_parser_fields tab_row httpclient_parser_shape, simp_all add: httpclient_parser_small)

lemma hc_20:
  "ragel_next httpclient_parser_tables r 20 c =
     look [(10, 10), (13, 13), (33, 33), (67, 67), (84, 84), (99, 99), (116, 116), (124, 124), (126,
         126), (35, 39), (42, 43), (45, 46), (48, 57), (65, 90), (94, 122)]
     [(120, [12]), (3, []), (21, [1]), (25, [1]), (44, [1]), (25, [1]), (44, [1]), (21, [1]), (21, [1]),
         (21, [1]), (21, [1]), (21, [1]), (21, [1]), (21, [1]), (21, [1]), (0, [])] c"
  by (simp add: hc.state_edges [OF _ _ hc_tab_20] httpclient_parser_fields slice_rows httpclient_parser_shape,
      simp add: httpclient_parser_shape httpclient_parser_whole, simp add: httpclient_parser_part httpclient_parser_acts)

lemma hc_tab_21:
  "tab (key_offsets httpclient_parser_tables) 21 = 127" "tab (single_lengths httpclient_parser_tables) 21 = 4"
  "tab (range_lengths httpclient_parser_tables) 21 = 6" "tab (index_offsets httpclient_parser_tables) 21 = 105"
  by (simp_all add: httpclient_parser_fields tab_row httpclient_parser_shape, simp_all add: httpclient_parser_small)

lemma hc_21:
  "ragel_next httpclient_parser_tables r 21 c =
     look [(33, 33), (58, 58), (124, 124), (126, 126), (35, 39), (42, 43), (45, 46), (48, 57), (65, 90),
         (94, 122)]
     [(21, []), (22, [2]), (21, []), (21, []), (21, []), (21, []), (21, []), (21, []), (21, []), (21,
         []), (0, [])] c"
  by (simp add: hc.state_edges [OF _ _ hc_tab_21] httpclient_parser_fields slice_rows httpclient_parser_shape,
      simp add: httpclient_parser_shape httpclient_parser_whole, simp add: httpclient_parser_part httpclient_parser_acts)

lemma hc_tab_22:
  "tab (key_offsets httpclient_parser_tables) 22 = 143" "tab (single_lengths httpclient_parser_tables) 22 = 3"
  "tab (range_lengths httpclient_parser_tables) 22 = 1" "tab (index_offsets httpclient_parser_tables) 22 = 116"
  by (simp_all add: httpclient_parser_fields tab_row httpclient_parser_shape, simp_all add: httpclient_parser_small)

lemma hc_22:
  "ragel_next httpclient_parser_tables r 22 c =
     look [(10, 10), (13, 13), (32, 32), (9, 12)]
     [(20, [3, 6]), (24, [3, 6]), (22, [3]), (22, [3]), (23, [3])] c"
  by (simp add: hc.state_edges [OF _ _ hc_tab_22] httpclient_parser_fields slice_rows httpclient_parser_shape,
      simp add: httpclient_parser_shape httpclient_parser_whole, simp add: httpclient_parser_part httpclient_parser_acts)

lemma hc_tab_23:
  "tab (key_offsets httpclient_parser_tables) 23 = 148" "tab (single_lengths httpclient_parser_tables) 23 = 2"
  "tab (range_lengths httpclient_parser_tables) 23 = 0" "tab (index_offsets httpclient_parser_tables) 23 = 121"
  by (simp_all add: httpclient_parser_fields tab_row httpclient_parser_shape, simp_all add: httpclient_parser_small)

lemma hc_23:
  "ragel_next httpclient_parser_tables r 23 c =
     look [(10, 10), (13, 13)]
     [(20, [6]), (24, [6]), (23, [])] c"
  by (simp add: hc.state_edges [OF _ _ hc_tab_23] httpclient_parser_fields slice_rows httpclient_parser_shape,
      simp add: httpclient_parser_shape httpclient_parser_whole, simp add: httpclient_parser_part httpclient_parser_acts)

lemma hc_tab_24:
  "tab (key_offsets httpclient_parser_tables) 24 = 150" "tab (single_lengths httpclient_parser_tables) 24 = 1"
  "tab (range_lengths httpclient_parser_tables) 24 = 0" "tab (index_offsets httpclient_parser_tables) 24 = 124"
  by (simp_all add: httpclient_parser_fields tab_row httpclient_parser_shape, simp_all add: httpclient_parser_small)

lemma hc_24:
  "ragel_next httpclient_parser_tables r 24 c =
     look [(10, 10)]
     [(20, []), (0, [])] c"
  by (simp add: hc.state_edges [OF _ _ hc_tab_24] httpclient_parser_fields slice_rows httpclient_parser_shape,
      simp add: httpclient_parser_shape httpclient_parser_whole, simp add: httpclient_parser_part httpclient_parser_acts)

lemma hc_tab_25:
  "tab (key_offsets httpclient_parser_tables) 25 = 151" "tab (single_lengths httpclient_parser_tables) 25 = 6"
  "tab (range_lengths httpclient_parser_tables) 25 = 6" "tab (index_offsets httpclient_parser_tables) 25 = 126"
  by (simp_all add: httpclient_parser_fields tab_row httpclient_parser_shape, simp_all add: httpclient_parser_small)

lemma hc_25:
  "ragel_next httpclient_parser_tables r 25 c =
     look [(33, 33), (58, 58), (79, 79), (111, 111), (124, 124), (126, 126), (35, 39), (42, 43), (45,
         46), (48, 57), (65, 90), (94, 122)]
     [(21, []), (22, [2]), (26, []), (26, []), (21, []), (21, []), (21, []), (21, []), (21, []), (21,
         []), (21, []), (21, []), (0, [])] c"
  by (simp add: hc.state_edges [OF _ _ hc_tab_25] httpclient_parser_fields slice_rows httpclient_parser_shape,
      simp add: httpclient_parser_shape httpclient_parser_whole, simp add: httpclient_parser_part httpclient_parser_acts)

lemma hc_tab_26:
  "tab (key_offsets httpclient_parser_tables) 26 = 169" "tab (single_lengths httpclient_parser_tables) 26 = 6"
  "tab (range_lengths httpclient_parser_tables) 26 = 6" "tab (index_offsets httpclient_parser_tables) 26 = 139"
  by (simp_all add: httpclient_parser_fields tab_row httpclient_parser_shape, simp_all add: httpclient_parser_small)

lemma hc_26:
  "ragel_next httpclient_parser_tables r 26 c =
     look [(33, 33), (58, 58), (78, 78), (110, 110), (124, 124), (126, 126), (35, 39), (42, 43), (45,
         46), (48, 57), (65, 90), (94, 122)]
     [(21, []), (22, [2]), (27, []), (27, []), (21, []), (21, []), (21, []), (21, []), (21, []), (21,
         []), (21, []), (21, []), (0, [])] c"
  by (simp add: hc.state_edges [OF _ _ hc_tab_26] httpclient_parser_fields slice_rows httpclient_parser_shape,
      simp add: httpclient_parser_shape httpclient_parser_whole, simp add: httpclient_parser_part httpclient_parser_acts)

lemma hc_tab_27:
  "tab (key_offsets httpclient_parser_tables) 27 = 187" "tab (single_lengths httpclient_parser_tables) 27 = 8"
  "tab (range_lengths httpclient_parser_tables) 27 = 6" "tab (index_offsets httpclient_parser_tables) 27 = 152"
  by (simp_all add: httpclient_parser_fields tab_row httpclient_parser_shape, simp_all add: httpclient_parser_small)

lemma hc_27:
  "ragel_next httpclient_parser_tables r 27 c =
     look [(33, 33), (58, 58), (78, 78), (84, 84), (110, 110), (116, 116), (124, 124), (126, 126), (35,
         39), (42, 43), (45, 46), (48, 57), (65, 90), (94, 122)]
     [(21, []), (22, [2]), (28, []), (101, []), (28, []), (101, []), (21, []), (21, []), (21, []), (21,
         []), (21, []), (21, []), (21, []), (21, []), (0, [])] c"
  by (simp add: hc.state_edges [OF _ _ hc_tab_27] httpclient_parser_fields slice_rows httpclient_parser_shape,
      simp add: httpclient_parser_shape httpclient_parser_whole, simp add: httpclient_parser_part httpclient_parser_acts)

lemma hc_tab_28:
  "tab (key_offsets httpclient_parser_tables) 28 = 207" "tab (single_lengths httpclient_parser_tables) 28 = 6"
  "tab (range_lengths httpclient_parser_tables) 28 = 6" "tab (index_offsets httpclient_parser_tables) 28 = 167"
  by (simp_all add: httpclient_parser_fields tab_row httpclient_parser_shape, simp_all add: httpclient_parser_small)

lemma hc_28:
  "ragel_next httpclient_parser_tables r 28 c =
     look [(33, 33), (58, 58), (69, 69), (101, 101), (124, 124), (126, 126), (35, 39), (42, 43), (45,
         46), (48, 57), (65, 90), (94, 122)]
     [(21, []), (22, [2]), (29, []), (29, []), (21, []), (21, []), (21, []), (21, []), (21, []), (21,
         []), (21, []), (21, []), (0, [])] c"
  by (simp add: hc.state_edges [OF _ _ hc_tab_28] httpclient_parser_fields slice_rows httpclient_parser_shape,
      simp add: httpclient_parser_shape httpclient_parser_whole, simp add: httpclient_parser_part httpclient_parser_acts)

lemma hc_tab_29:
  "tab (key_offsets httpclient_parser_tables) 29 = 225" "tab (single_lengths httpclient_parser_tables) 29 = 6"
  "tab (range_lengths httpclient_parser_tables) 29 = 6" "tab (index_offsets httpclient_parser_tables) 29 = 180"
  by (simp_all add: httpclient_parser_fields tab_row httpclient_parser_shape, simp_all add: httpclient_parser_small)

lemma hc_29:
  "ragel_next httpclient_parser_tables r 29 c =
     look [(33, 33), (58, 58), (67, 67), (99, 99), (124, 124), (126, 126), (35, 39), (42, 43), (45, 46),
         (48, 57), (65, 90), (94, 122)]
     [(21, []), (22, [2]), (30, []), (30, []), (21, []), (21, []), (21, []), (21, []), (21, []), (21,
         []), (21, []), (21, []), (0, [])] c"
  by (simp add: hc.state_edges [OF _ _ hc_tab_29] httpclient_parser_fields slice_rows httpclient_parser_shape,
      simp add: httpclient_parser_shape httpclient_parser_whole, simp add: httpclient_parser_part httpclient_parser_acts)

lemma hc_tab_30:
  "tab (key_offsets httpclient_parser_tables) 30 = 243" "tab (single_lengths httpclient_parser_tables) 30 = 6"
  "tab (range_lengths httpclient_parser_tables) 30 = 6" "tab (index_offsets httpclient_parser_tables) 30 = 193"
  by (simp_all add: httpclient_parser_fields tab_row httpclient_parser_shape, simp_all add: httpclient_parser_small)

lemma hc_30:
  "ragel_next httpclient_parser_tables r 30 c =
     look [(33, 33), (58, 58), (84, 84), (116, 116), (124, 124), (126, 126), (35, 39), (42, 43), (45,
         46), (48, 57), (65, 90), (94, 122)]
     [(21, []), (22, [2]), (31, []), (31, []), (21, []), (21, []), (21, []), (21, []), (21, []), (21,
         []), (21, []), (21, []), (0, [])] c"
  by (simp add: hc.state_edges [OF _ _ hc_tab_30] httpclient_parser_fields slice_rows httpclient_parser_shape,
      simp add: httpclient_parser_shape httpclient_parser_whole, simp add: httpclient_parser_part httpclient_parser_acts)

lemma hc_tab_31:
  "tab (key_offsets httpclient_parser_tables) 31 = 261" "tab (single_lengths httpclient_parser_tables) 31 = 6"
  "tab (range_lengths httpclient_parser_tables) 31 = 6" "tab (index_offsets httpclient_parser_tables) 31 = 206"
  by (simp_all add: httpclient_parser_fields tab_row httpclient_parser_shape, simp_all add: httpclient_parser_small)

lemma hc_31:
  "ragel_next httpclient_parser_tables r 31 c =
     look [(33, 33), (58, 58), (73, 73), (105, 105), (124, 124), (126, 126), (35, 39), (42, 43), (45,
         46), (48, 57), (65, 90), (94, 122)]
     [(21, []), (22, [2]), (32, []), (32, []), (21, []), (21, []), (21, []), (21, []), (21, []), (21,
         []), (21, []), (21, []), (0, [])] c"
  by (simp add: hc.state_edges [OF _ _ hc_tab_31] httpclient_parser_fields slice_rows httpclient_parser_shape,
      simp add: httpclient_parser_shape httpclient_parser_whole, simp add: httpclient_parser_part httpclient_parser_acts)

lemma hc_tab_32:
  "tab (key_offsets httpclient_parser_tables) 32 = 279" "tab (single_lengths httpclient_parser_tables) 32 = 6"
  "tab (range_lengths httpclient_parser_tables) 32 = 6" "tab (index_offsets httpclient_parser_tables) 32 = 219"
  by (simp_all add: httpclient_parser_fields tab_row httpclient_parser_shape, simp_all add: httpclient_parser_small)

lemma hc_32:
  "ragel_next httpclient_parser_tables r 32 c =
     look [(33, 33), (58, 58), (79, 79), (111, 111), (124, 124), (126, 126), (35, 39), (42, 43), (45,
         46), (48, 57), (65, 90), (94, 122)]
     [(21, []), (22, [2]), (33, []), (33, []), (21, []), (21, []), (21, []), (21, []), (21, []), (21,
         []), (21, []), (21, []), (0, [])] c"
  by (simp add: hc.state_edges [OF _ _ hc_tab_32] httpclient_parser_fields slice_rows httpclient_parser_shape,
      simp add: httpclient_parser_shape httpclient_parser_whole, simp add: httpclient_parser_part httpclient_parser_acts)

lemma hc_tab_33:
  "tab (key_offsets httpclient_parser_tables) 33 = 297" "tab (single_lengths httpclient_parser_tables) 33 = 6"
  "tab (range_lengths httpclient_parser_tables) 33 = 6" "tab (index_offsets httpclient_parser_tables) 33 = 232"
  by (simp_all add: httpclient_parser_fields tab_row httpclient_parser_shape, simp_all add: httpclient_parser_small)

lemma hc_33:
  "ragel_next httpclient_parser_tables r 33 c =
     look [(33, 33), (58, 58), (78, 78), (110, 110), (124, 124), (126, 126), (35, 39), (42, 43), (45,
         46), (48, 57), (65, 90), (94, 122)]
     [(21, []), (22, [2]), (34, []), (34, []), (21, []), (21, []), (21, []), (21, []), (21, []), (21,
         []), (21, []), (21, []), (0, [])] c"
  by (simp add: hc.state_edges [OF _ _ hc_tab_33] httpclient_parser_fields slice_rows httpclient_parser_shape,
      simp add: httpclient_parser_shape httpclient_parser_whole, simp add: httpclient_parser_part httpclient_parser_acts)

lemma hc_tab_34:
  "tab (key_offsets httpclient_parser_tables) 34 = 315" "tab (single_lengths httpclient_parser_tables) 34 = 4"
  "tab (range_lengths httpclient_parser_tables) 34 = 6" "tab (index_offsets httpclient_parser_tables) 34 = 245"
  by (simp_all add: httpclient_parser_fields tab_row httpclient_parser_shape, simp_all add: httpclient_parser_small)

lemma hc_34:
  "ragel_next httpclient_parser_tables r 34 c =
     look [(33, 33), (58, 58), (124, 124), (126, 126), (35, 39), (42, 43), (45, 46), (48, 57), (65, 90),
         (94, 122)]
     [(21, []), (35, [2]), (21, []), (21, []), (21, []), (21, []), (21, []), (21, []), (21, []), (21,
         []), (0, [])] c"
  by (simp add: hc.state_edges [OF _ _ hc_tab_34] httpclient_parser_fields slice_rows httpclient_parser_shape,
      simp add: httpclient_parser_shape httpclient_parser_whole, simp add: httpclient_parser_part httpclient_parser_acts)

lemma hc_tab_35:
  "tab (key_offsets httpclient_parser_tables) 35 = 331" "tab (single_lengths httpclient_parser_tables) 35 = 5"
  "tab (range_lengths httpclient_parser_tables) 35 = 1" "tab (index_offsets httpclient_parser_tables) 35 = 256"
  by (simp_all add: httpclient_parser_fields tab_row httpclient_parser_shape, simp_all add: httpclient_parser_small)

lemma hc_35:
  "ragel_next httpclient_parser_tables r 35 c =
     look [(10, 10), (13, 13), (32, 32), (67, 67), (99, 99), (9, 12)]
     [(36, [3, 6]), (95, [3, 6]), (35, [3]), (96, [3]), (96, [3]), (35, [3]), (23, [3])] c"
  by (simp add: hc.state_edges [OF _ _ hc_tab_35] httpclient_parser_fields slice_rows httpclient_parser_shape,
      simp add: httpclient_parser_shape httpclient_parser_whole, simp add: httpclient_parser_part httpclient_parser_acts)

lemma hc_tab_43:
  "tab (key_offsets httpclient_parser_tables) 43 = 377" "tab (single_lengths httpclient_parser_tables) 43 = 9"
  "tab (range_lengths httpclient_parser_tables) 43 = 6" "tab (index_offsets httpclient_parser_tables) 43 = 301"
  by (simp_all add: httpclient_parser_fields tab_row httpclient_parser_shape, simp_all add: httpclient_parser_small)

lemma hc_43:
  "ragel_next httpclient_parser_tables r 43 c =
     look [(10, 10), (13, 13), (33, 33), (67, 67), (84, 84), (99, 99), (116, 116), (124, 124), (126,
         126), (35, 39), (42, 43), (45, 46), (48, 57), (65, 90), (94, 122)]
     [(120, [5, 12]), (3, [5]), (21, [5, 1]), (25, [5, 1]), (44, [5, 1]), (25, [5, 1]), (44, [5, 1]),
         (21, [5, 1]), (21, [5, 1]), (21, [5, 1]), (21, [5, 1]), (21, [5, 1]), (21, [5, 1]), (21,
         [5, 1]), (21, [5, 1]), (0, [])] c"
  by (simp add: hc.state_edges [OF _ _ hc_tab_43] httpclient_parser_fields slice_rows httpclient_parser_shape,
      simp add: httpclient_parser_shape httpclient_parser_whole, simp add: httpclient_parser_part httpclient_parser_acts)

lemma hc_tab_44:
  "tab (key_offsets httpclient_parser_tables) 44 = 398" "tab (single_lengths httpclient_parser_tables) 44 = 6"
  "tab (range_lengths httpclient_parser_tables) 44 = 6" "tab (index_offsets httpclient_parser_tables) 44 = 317"
  by (simp_all add: httpclient_parser_fields tab_row httpclient_parser_shape, simp_all add: httpclient_parser_small)

lemma hc_44:
  "ragel_next httpclient_parser_tables r 44 c =
     look [(33, 33), (58, 58), (82, 82), (114, 114), (124, 124), (126, 126), (35, 39), (42, 43), (45,
         46), (48, 57), (65, 90), (94, 122)]
     [(21, []), (22, [2]), (45, []), (45, []), (21, []), (21, []), (21, []), (21, []), (21, []), (21,
         []), (21, []), (21, []), (0, [])] c"
  by (simp add: hc.state_edges [OF _ _ hc_tab_44] httpclient_parser_fields slice_rows httpclient_parser_shape,
      simp add: httpclient_parser_shape httpclient_parser_whole, simp add: httpclient_parser_part httpclient_parser_acts)

lemma hc_tab_45:
  "tab (key_offsets httpclient_parser_tables) 45 = 416" "tab (single_lengths httpclient_parser_tables) 45 = 6"
  "tab (range_lengths httpclient_parser_tables) 45 = 6" "tab (index_offsets httpclient_parser_tables) 45 = 330"
  by (simp_all add: httpclient_parser_fields tab_row httpclient_parser_shape, simp_all add: httpclient_parser_small)

lemma hc_45:
  "ragel_next httpclient_parser_tables r 45 c =
     look [(33, 33), (58, 58), (65, 65), (97, 97), (124, 124), (126, 126), (35, 39), (42, 43), (45, 46),
         (48, 57), (66, 90), (94, 122)]
     [(21, []), (22, [2]), (46, []), (46, []), (21, []), (21, []), (21, []), (21, []), (21, []), (21,
         []), (21, []), (21, []), (0, [])] c"
  by (simp add: hc.state_edges [OF _ _ hc_tab_45] httpclient_parser_fields slice_rows httpclient_parser_shape,
      simp add: httpclient_parser_shape httpclient_parser_whole, simp add: httpclient_parser_part httpclient_parser_acts)

lemma hc_tab_46:
  "tab (key_offsets httpclient_parser_tables) 46 = 434" "tab (single_lengths httpclient_parser_tables) 46 = 6"
  "tab (range_lengths httpclient_parser_tables) 46 = 6" "tab (index_offsets httpclient_parser_tables) 46 = 343"
  by (simp_all add: httpclient_parser_fields tab_row httpclient_parser_shape, simp_all add: httpclient_parser_small)

lemma hc_46:
  "ragel_next httpclient_parser_tables r 46 c =
     look [(33, 33), (58, 58), (78, 78), (110, 110), (124, 124), (126, 126), (35, 39), (42, 43), (45,
         46), (48, 57), (65, 90), (94, 122)]
     [(21, []), (22, [2]), (47, []), (47, []), (21, []), (21, []), (21, []), (21, []), (21, []), (21,
         []), (21, []), (21, []), (0, [])] c"
  by (simp add: hc.state_edges [OF _ _ hc_tab_46] httpclient_parser_fields slice_rows httpclient_parser_shape,
      simp add: httpclient_parser_shape httpclient_parser_whole, simp add: httpclient_parser_part httpclient_parser_acts)

lemma hc_tab_47:
  "tab (key_offsets httpclient_parser_tables) 47 = 452" "tab (single_lengths httpclient_parser_tables) 47 = 6"
  "tab (range_lengths httpclient_parser_tables) 47 = 6" "tab (index_offsets httpclient_parser_tables) 47 = 356"
  by (simp_all add: httpclient_parser_fields tab_row httpclient_parser_shape, simp_all add: httpclient_parser_small)

lemma hc_47:
  "ragel_next httpclient_parser_tables r 47 c =
     look [(33, 33), (58, 58), (83, 83), (115, 115), (124, 124), (126, 126), (35, 39), (42, 43), (45,
         46), (48, 57), (65, 90), (94, 122)]
     [(21, []), (22, [2]), (48, []), (48, []), (21, []), (21, []), (21, []), (21, []), (21, []), (21,
         []), (21, []), (21, []), (0, [])] c"
  by (simp add: hc.state_edges [OF _ _ hc_tab_47] httpclient_parser_fields slice_rows httpclient_parser_shape,
      simp add: httpclient_parser_shape httpclient_parser_whole, simp add: httpclient_parser_part httpclient_parser_acts)

lemma hc_tab_48:
  "tab (key_offsets httpclient_parser_tables) 48 = 470" "tab (single_lengths httpclient_parser_tables) 48 = 6"
  "tab (range_lengths httpclient_parser_tables) 48 = 6" "tab (index_offsets httpclient_parser_tables) 48 = 369"
  by (simp_all add: httpclient_parser_fields tab_row httpclient_parser_shape, simp_all add: httpclient_parser_small)

lemma hc_48:
  "ragel_next httpclient_parser_tables r 48 c =
     look [(33, 33), (58, 58), (70, 70), (102, 102), (124, 124), (126, 126), (35, 39), (42, 43), (45,
         46), (48, 57), (65, 90), (94, 122)]
     [(21, []), (22, [2]), (49, []), (49, []), (21, []), (21, []), (21, []), (21, []), (21, []), (21,
         []), (21, []), (21, []), (0, [])] c"
  by (simp add: hc.state_edges [OF _ _ hc_tab_48] httpclient_parser_fields slice_rows httpclient_parser_shape,
      simp add: httpclient_parser_shape httpclient_parser_whole, simp add: httpclient_parser_part httpclient_parser_acts)

lemma hc_tab_49:
  "tab (key_offsets httpclient_parser_tables) 49 = 488" "tab (single_lengths httpclient_parser_tables) 49 = 6"
  "tab (range_lengths httpclient_parser_tables) 49 = 6" "tab (index_offsets httpclient_parser_tables) 49 = 382"
  by (simp_all add: httpclient_parser_fields tab_row httpclient_parser_shape, simp_all add: httpclient_parser_small)

lemma hc_49:
  "ragel_next httpclient_parser_tables r 49 c =
     look [(33, 33), (58, 58), (69, 69), (101, 101), (124, 124), (126, 126), (35, 39), (42, 43), (45,
         46), (48, 57), (65, 90), (94, 122)]
     [(21, []), (22, [2]), (50, []), (50, []), (21, []), (21, []), (21, []), (21, []), (21, []), (21,
         []), (21, []), (21, []), (0, [])] c"
  by (simp add: hc.state_edges [OF _ _ hc_tab_49] httpclient_parser_fields slice_rows httpclient_parser_shape,
      simp add: httpclient_parser_shape httpclient_parser_whole, simp add: httpclient_parser_part httpclient_parser_acts)

lemma hc_tab_50:
  "tab (key_offsets httpclient_parser_tables) 50 = 506" "tab (single_lengths httpclient_parser_tables) 50 = 6"
  "tab (range_lengths httpclient_parser_tables) 50 = 6" "tab (index_offsets httpclient_parser_tables) 50 = 395"
  by (simp_all add: httpclient_parser_fields tab_row httpclient_parser_shape, simp_all add: httpclient_parser_small)

lemma hc_50:
  "ragel_next httpclient_parser_tables r 50 c =
     look [(33, 33), (58, 58), (82, 82), (114, 114), (124, 124), (126, 126), (35, 39), (42, 43), (45,
         46), (48, 57), (65, 90), (94, 122)]
     [(21, []), (22, [2]), (51, []), (51, []), (21, []), (21, []), (21, []), (21, []), (21, []), (21,
         []), (21, []), (21, []), (0, [])] c"
  by (simp add: hc.state_edges [OF _ _ hc_tab_50] httpclient_parser_fields slice_rows httpclient_parser_shape,
      simp add: httpclient_parser_shape httpclient_parser_whole, simp add: httpclient_parser_part httpclient_parser_acts)

lemma hc_tab_51:
  "tab (key_offsets httpclient_parser_tables) 51 = 524" "tab (single_lengths httpclient_parser_tables) 51 = 6"
  "tab (range_lengths httpclient_parser_tables) 51 = 5" "tab (index_offsets httpclient_parser_tables) 51 = 408"
  by (simp_all add: httpclient_parser_fields tab_row httpclient_parser_shape, simp_all add: httpclient_parser_small)

lemma hc_51:
  "ragel_next httpclient_parser_tables r 51 c =
     look [(33, 33), (45, 45), (46, 46), (58, 58), (124, 124), (126, 126), (35, 39), (42, 43), (48, 57),
         (65, 90), (94, 122)]
     [(21, []), (52, []), (21, []), (22, [2]), (21, []), (21, []), (21, []), (21, []), (21, []), (21,
         []), (21, []), (0, [])] c"
  by (simp add: hc.state_edges [OF _ _ hc_tab_51] httpclient_parser_fields slice_rows httpclient_parser_shape,
      simp add: httpclient_parser_shape httpclient_parser_whole, simp add: httpclient_parser_part httpclient_parser_acts)

lemma hc_tab_52:
  "tab (key_offsets httpclient_parser_tables) 52 = 540" "tab (single_lengths httpclient_parser_tables) 52 = 6"
  "tab (range_lengths httpclient_parser_tables) 52 = 6" "tab (index_offsets httpclient_parser_tables) 52 = 420"
  by (simp_all add: httpclient_parser_fields tab_row httpclient_parser_shape, simp_all add: httpclient_parser_small)

lemma hc_52:
  "ragel_next httpclient_parser_tables r 52 c =
     look [(33, 33), (58, 58), (69, 69), (101, 101), (124, 124), (126, 126), (35, 39), (42, 43), (45,
         46), (48, 57), (65, 90), (94, 122)]
     [(21, []), (22, [2]), (53, []), (53, []), (21, []), (21, []), (21, []), (21, []), (21, []), (21,
         []), (21, []), (21, []), (0, [])] c"
  by (simp add: hc.state_edges [OF _ _ hc_tab_52] httpclient_parser_fields slice_rows httpclient_parser_shape,
      simp add: httpclient_parser_shape httpclient_parser_whole, simp add: httpclient_parser_part httpclient_parser_acts)

lemma hc_tab_53:
  "tab (key_offsets httpclient_parser_tables) 53 = 558" "tab (single_lengths httpclient_parser_tables) 53 = 6"
  "tab (range_lengths httpclient_parser_tables) 53 = 6" "tab (index_offsets httpclient_parser_tables) 53 = 433"
  by (simp_all add: httpclient_parser_fields tab_row httpclient_parser_shape, simp_all add: httpclient_parser_small)

lemma hc_53:
  "ragel_next httpclient_parser_tables r 53 c =
     look [(33, 33), (58, 58), (78, 78), (110, 110), (124, 124), (126, 126), (35, 39), (42, 43), (45,
         46), (48, 57), (65, 90), (94, 122)]
     [(21, []), (22, [2]), (54, []), (54, []), (21, []), (21, []), (21, []), (21, []), (21, []), (21,
         []), (21, []), (21, []), (0, [])] c"
  by (simp add: hc.state_edges [OF _ _ hc_tab_53] httpclient_parser_fields slice_rows httpclient_parser_shape,
      simp add: httpclient_parser_shape httpclient_parser_whole, simp add: httpclient_parser_part httpclient_parser_acts)

lemma hc_tab_54:
  "tab (key_offsets httpclient_parser_tables) 54 = 576" "tab (single_lengths httpclient_parser_tables) 54 = 6"
  "tab (range_lengths httpclient_parser_tables) 54 = 6" "tab (index_offsets httpclient_parser_tables) 54 = 446"
  by (simp_all add: httpclient_parser_fields tab_row httpclient_parser_shape, simp_all add: httpclient_parser_small)

lemma hc_54:
  "ragel_next httpclient_parser_tables r 54 c =
     look [(33, 33), (58, 58), (67, 67), (99, 99), (124, 124), (126, 126), (35, 39), (42, 43), (45, 46),
         (48, 57), (65, 90), (94, 122)]
     [(21, []), (22, [2]), (55, []), (55, []), (21, []), (21, []), (21, []), (21, []), (21, []), (21,
         []), (21, []), (21, []), (0, [])] c"
  by (simp add: hc.state_edges [OF _ _ hc_tab_54] httpclient_parser_fields slice_rows httpclient_parser_shape,
      simp add: httpclient_parser_shape httpclient_parser_whole, simp add: httpclient_parser_part httpclient_parser_acts)

lemma hc_tab_55:
  "tab (key_offsets httpclient_parser_tables) 55 = 594" "tab (single_lengths httpclient_parser_tables) 55 = 6"
  "tab (range_lengths httpclient_parser_tables) 55 = 6" "tab (index_offsets httpclient_parser_tables) 55 = 459"
  by (simp_all add: httpclient_parser_fields tab_row httpclient_parser_shape, simp_all add: httpclient_parser_small)

lemma hc_55:
  "ragel_next httpclient_parser_tables r 55 c =
     look [(33, 33), (58, 58), (79, 79), (111, 111), (124, 124), (126, 126), (35, 39), (42, 43), (45,
         46), (48, 57), (65, 90), (94, 122)]
     [(21, []), (22, [2]), (56, []), (56, []), (21, []), (21, []), (21, []), (21, []), (21, []), (21,
         []), (21, []), (21, []), (0, [])] c"
  by (simp add: hc.state_edges [OF _ _ hc_tab_55] httpclient_parser_fields slice_rows httpclient_parser_shape,
      simp add: httpclient_parser_shape httpclient_parser_whole, simp add: httpclient_parser_part httpclient_parser_acts)

lemma hc_tab_56:
  "tab (key_offsets httpclient_parser_tables) 56 = 612" "tab (single_lengths httpclient_parser_tables) 56 = 6"
  "tab (range_lengths httpclient_parser_tables) 56 = 6" "tab (index_offsets httpclient_parser_tables) 56 = 472"
  by (simp_all add: httpclient_parser_fields tab_row httpclient_parser_shape, simp_all add: httpclient_parser_small)

lemma hc_56:
  "ragel_next httpclient_parser_tables r 56 c =
     look [(33, 33), (58, 58), (68, 68), (100, 100), (124, 124), (126, 126), (35, 39), (42, 43), (45,
         46), (48, 57), (65, 90), (94, 122)]
     [(21, []), (22, [2]), (57, []), (57, []), (21, []), (21, []), (21, []), (21, []), (21, []), (21,
         []), (21, []), (21, []), (0, [])] c"
  by (simp add: hc.state_edges [OF _ _ hc_tab_56] httpclient_parser_fields slice_rows httpclient_parser_shape,
      simp add: httpclient_parser_shape httpclient_parser_whole, simp add: httpclient_parser_part httpclient_parser_acts)

lemma hc_tab_57:
  "tab (key_offsets httpclient_parser_tables) 57 = 630" "tab (single_lengths httpclient_parser_tables) 57 = 6"
  "tab (range_lengths httpclient_parser_tables) 57 = 6" "tab (index_offsets httpclient_parser_tables) 57 = 485"
  by (simp_all add: httpclient_parser_fields tab_row httpclient_parser_shape, simp_all add: httpclient_parser_small)

lemma hc_57:
  "ragel_next httpclient_parser_tables r 57 c =
     look [(33, 33), (58, 58), (73, 73), (105, 105), (124, 124), (126, 126), (35, 39), (42, 43), (45,
         46), (48, 57), (65, 90), (94, 122)]
     [(21, []), (22, [2]), (58, []), (58, []), (21, []), (21, []), (21, []), (21, []), (21, []), (21,
         []), (21, []), (21, []), (0, [])] c"
  by (simp add: hc.state_edges [OF _ _ hc_tab_57] httpclient_parser_fields slice_rows httpclient_parser_shape,
      simp add: httpclient_parser_shape httpclient_parser_whole, simp add: httpclient_parser_part httpclient_parser_acts)

lemma hc_tab_58:
  "tab (key_offsets httpclient_parser_tables) 58 = 648" "tab (single_lengths httpclient_parser_tables) 58 = 6"
  "tab (range_lengths httpclient_parser_tables) 58 = 6" "tab (index_offsets httpclient_parser_tables) 58 = 498"
  by (simp_all add: httpclient_parser_fields tab_row httpclient_parser_shape, simp_all add: httpclient_parser_small)

lemma hc_58:
  "ragel_next httpclient_parser_tables r 58 c =
     look [(33, 33), (58, 58), (78, 78), (110, 110), (124, 124), (126, 126), (35, 39), (42, 43), (45,
         46), (48, 57), (65, 90), (94, 122)]
     [(21, []), (22, [2]), (59, []), (59, []), (21, []), (21, []), (21, []), (21, []), (21, []), (21,
         []), (21, []), (21, []), (0, [])] c"
  by (simp add: hc.state_edges [OF _ _ hc_tab_58] httpclient_parser_fields slice_rows httpclient_parser_shape,
      simp add: httpclient_parser_shape httpclient_parser_whole, simp add: httpclient_parser_part httpclient_parser_acts)

lemma hc_tab_59:
  "tab (key_offsets httpclient_parser_tables) 59 = 666" "tab (single_lengths httpclient_parser_tables) 59 = 6"
  "tab (range_lengths httpclient_parser_tables) 59 = 6" "tab (index_offsets httpclient_parser_tables) 59 = 511"
  by (simp_all add: httpclient_parser_fields tab_row httpclient_parser_shape, simp_all add: httpclient_parser_small)

lemma hc_59:
  "ragel_next httpclient_parser_tables r 59 c =
     look [(33, 33), (58, 58), (71, 71), (103, 103), (124, 124), (126, 126), (35, 39), (42, 43), (45,
         46), (48, 57), (65, 90), (94, 122)]
     [(21, []), (22, [2]), (60, []), (60, []), (21, []), (21, []), (21, []), (21, []), (21, []), (21,
         []), (21, []), (21, []), (0, [])] c"
  by (simp add: hc.state_edges [OF _ _ hc_tab_59] httpclient_parser_fields slice_rows httpclient_parser_shape,
      simp add: httpclient_parser_shape httpclient_parser_whole, simp add: httpclient_parser_part httpclient_parser_acts)

lemma hc_tab_60:
  "tab (key_offsets httpclient_parser_tables) 60 = 684" "tab (single_lengths httpclient_parser_tables) 60 = 4"
  "tab (range_lengths httpclient_parser_tables) 60 = 6" "tab (index_offsets httpclient_parser_tables) 60 = 524"
  by (simp_all add: httpclient_parser_fields tab_row httpclient_parser_shape, simp_all add: httpclient_parser_small)

lemma hc_60:
  "ragel_next httpclient_parser_tables r 60 c =
     look [(33, 33), (58, 58), (124, 124), (126, 126), (35, 39), (42, 43), (45, 46), (48, 57), (65, 90),
         (94, 122)]
     [(21, []), (61, [2]), (21, []), (21, []), (21, []), (21, []), (21, []), (21, []), (21, []), (21,
         []), (0, [])] c"
  by (simp add: hc.state_edges [OF _ _ hc_tab_60] httpclient_parser_fields slice_rows httpclient_parser_shape,
      simp add: httpclient_parser_shape httpclient_parser_whole, simp add: httpclient_parser_part httpclient_parser_acts)

lemma hc_tab_61:
  "tab (key_offsets httpclient_parser_tables) 61 = 700" "tab (single_lengths httpclient_parser_tables) 61 = 5"
  "tab (range_lengths httpclient_parser_tables) 61 = 1" "tab (index_offsets httpclient_parser_tables) 61 = 535"
  by (simp_all add: httpclient_parser_fields tab_row httpclient_parser_shape, simp_all add: httpclient_parser_small)

lemma hc_61:
  "ragel_next httpclient_parser_tables r 61 c =
     look [(10, 10), (13, 13), (32, 32), (67, 67), (99, 99), (9, 12)]
     [(62, [3, 6]), (80, [3, 6]), (61, [3]), (81, [3]), (81, [3]), (61, [3]), (23, [3])] c"
  by (simp add: hc.state_edges [OF _ _ hc_tab_61] httpclient_parser_fields slice_rows httpclient_parser_shape,
      simp add: httpclient_parser_shape httpclient_parser_whole, simp add: httpclient_parser_part httpclient_parser_acts)

lemma hc_tab_71:
  "tab (key_offsets httpclient_parser_tables) 71 = 750" "tab (single_lengths httpclient_parser_tables) 71 = 1"
  "tab (range_lengths httpclient_parser_tables) 71 = 0" "tab (index_offsets httpclient_parser_tables) 71 = 586"
  by (simp_all add: httpclient_parser_fields tab_row httpclient_parser_shape, simp_all add: httpclient_parser_small)

lemma hc_71:
  "ragel_next httpclient_parser_tables r 71 c =
     look [(10, 10)]
     [(20, [11]), (0, [])] c"
  by (simp add: hc.state_edges [OF _ _ hc_tab_71] httpclient_parser_fields slice_rows httpclient_parser_shape,
      simp add: httpclient_parser_shape httpclient_parser_whole, simp add: httpclient_parser_part httpclient_parser_acts)

lemma hc_tab_81:
  "tab (key_offsets httpclient_parser_tables) 81 = 891" "tab (single_lengths httpclient_parser_tables) 81 = 4"
  "tab (range_lengths httpclient_parser_tables) 81 = 0" "tab (index_offsets httpclient_parser_tables) 81 = 693"
  by (simp_all add: httpclient_parser_fields tab_row httpclient_parser_shape, simp_all add: httpclient_parser_small)

lemma hc_81:
  "ragel_next httpclient_parser_tables r 81 c =
     look [(10, 10), (13, 13), (72, 72), (104, 104)]
     [(20, [6]), (24, [6]), (82, []), (82, []), (23, [])] c"
  by (simp add: hc.state_edges [OF _ _ hc_tab_81] httpclient_parser_fields slice_rows httpclient_parser_shape,
      simp add: httpclient_parser_shape httpclient_parser_whole, simp add: httpclient_parser_part httpclient_parser_acts)

lemma hc_tab_82:
  "tab (key_offsets httpclient_parser_tables) 82 = 895" "tab (single_lengths httpclient_parser_tables) 82 = 4"
  "tab (range_lengths httpclient_parser_tables) 82 = 0" "tab (index_offsets httpclient_parser_tables) 82 = 698"
  by (simp_all add: httpclient_parser_fields tab_row httpclient_parser_shape, simp_all add: httpclient_parser_small)

lemma hc_82:
  "ragel_next httpclient_parser_tables r 82 c =
     look [(10, 10), (13, 13), (85, 85), (117, 117)]
     [(20, [6]), (24, [6]), (83, []), (83, []), (23, [])] c"
  by (simp add: hc.state_edges [OF _ _ hc_tab_82] httpclient_parser_fields slice_rows httpclient_parser_shape,
      simp add: httpclient_parser_shape httpclient_parser_whole, simp add: httpclient_parser_part httpclient_parser_acts)

lemma hc_tab_83:
  "tab (key_offsets httpclient_parser_tables) 83 = 899" "tab (single_lengths httpclient_parser_tables) 83 = 4"
  "tab (range_lengths httpclient_parser_tables) 83 = 0" "tab (index_offsets httpclient_parser_tables) 83 = 703"
  by (simp_all add: httpclient_parser_fields tab_row httpclient_parser_shape, simp_all add: httpclient_parser_small)

lemma hc_83:
  "ragel_next httpclient_parser_tables r 83 c =
     look [(10, 10), (13, 13), (78, 78), (110, 110)]
     [(20, [6]), (24, [6]), (84, []), (84, []), (23, [])] c"
  by (simp add: hc.state_edges [OF _ _ hc_tab_83] httpclient_parser_fields slice_rows httpclient_parser_shape,
      simp add: httpclient_parser_shape httpclient_parser_whole, simp add: httpclient_parser_part httpclient_parser_acts)

lemma hc_tab_84:
  "tab (key_offsets httpclient_parser_tables) 84 = 903" "tab (single_lengths httpclient_parser_tables) 84 = 4"
  "tab (range_lengths httpclient_parser_tables) 84 = 0" "tab (index_offsets httpclient_parser_tables) 84 = 708"
  by (simp_all add: httpclient_parser_fields tab_row httpclient_parser_shape, simp_all add: httpclient_parser_small)

lemma hc_84:
  "ragel_next httpclient_parser_tables r 84 c =
     look [(10, 10), (13, 13), (75, 75), (107, 107)]
     [(20, [6]), (24, [6]), (85, []), (85, []), (23, [])] c"
  by (simp add: hc.state_edges [OF _ _ hc_tab_84] httpclient_parser_fields slice_rows httpclient_parser_shape,
      simp add: httpclient_parser_shape httpclient_parser_whole, simp add: httpclient_parser_part httpclient_parser_acts)

lemma hc_tab_85:
  "tab (key_offsets httpclient_parser_tables) 85 = 907" "tab (single_lengths httpclient_parser_tables) 85 = 4"
  "tab (range_lengths httpclient_parser_tables) 85 = 0" "tab (index_offsets httpclient_parser_tables) 85 = 713"
  by (simp_all add: httpclient_parser_fields tab_row httpclient_parser_shape, simp_all add: httpclient_parser_small)

lemma hc_85:
  "ragel_next httpclient_parser_tables r 85 c =
     look [(10, 10), (13, 13), (69, 69), (101, 101)]
     [(20, [6]), (24, [6]), (86, []), (86, []), (23, [])] c"
  by (simp add: hc.state_edges [OF _ _ hc_tab_85] httpclient_parser_fields slice_rows httpclient_parser_shape,
      simp add: httpclient_parser_shape httpclient_parser_whole, simp add: httpclient_parser_part httpclient_parser_acts)

lemma hc_tab_86:
  "tab (key_offsets httpclient_parser_tables) 86 = 911" "tab (single_lengths httpclient_parser_tables) 86 = 4"
  "tab (range_lengths httpclient_parser_tables) 86 = 0" "tab (index_offsets httpclient_parser_tables) 86 = 718"
  by (simp_all add: httpclient_parser_fields tab_row httpclient_parser_shape, simp_all add: httpclient_parser_small)

lemma hc_86:
  "ragel_next httpclient_parser_tables r 86 c =
     look [(10, 10), (13, 13), (68, 68), (100, 100)]
     [(20, [6]), (24, [6]), (87, []), (87, []), (23, [])] c"
  by (simp add: hc.state_edges [OF _ _ hc_tab_86] httpclient_parser_fields slice_rows httpclient_parser_shape,
      simp add: httpclient_parser_shape httpclient_parser_whole, simp add: httpclient_parser_part httpclient_parser_acts)

lemma hc_tab_87:
  "tab (key_offsets httpclient_parser_tables) 87 = 915" "tab (single_lengths httpclient_parser_tables) 87 = 2"
  "tab (range_lengths httpclient_parser_tables) 87 = 0" "tab (index_offsets httpclient_parser_tables) 87 = 723"
  by (simp_all add: httpclient_parser_fields tab_row httpclient_parser_shape, simp_all add: httpclient_parser_small)

lemma hc_87:
  "ragel_next httpclient_parser_tables r 87 c =
     look [(10, 10), (13, 13)]
     [(20, [6, 11]), (71, [6]), (23, [])] c"
  by (simp add: hc.state_edges [OF _ _ hc_tab_87] httpclient_parser_fields slice_rows httpclient_parser_shape,
      simp add: httpclient_parser_shape httpclient_parser_whole, simp add: httpclient_parser_part httpclient_parser_acts)

lemma hc_tab_88:
  "tab (key_offsets httpclient_parser_tables) 88 = 917" "tab (single_lengths httpclient_parser_tables) 88 = 1"
  "tab (range_lengths httpclient_parser_tables) 88 = 0" "tab (index_offsets httpclient_parser_tables) 88 = 726"
  by (simp_all add: httpclient_parser_fields tab_row httpclient_parser_shape, simp_all add: httpclient_parser_small)

lemma hc_88:
  "ragel_next httpclient_parser_tables r 88 c =
     look [(10, 10)]
     [(43, []), (0, [])] c"
  by (simp add: hc.state_edges [OF _ _ hc_tab_88] httpclient_parser_fields slice_rows httpclient_parser_shape,
      simp add: httpclient_parser_shape httpclient_parser_whole, simp add: httpclient_parser_part httpclient_parser_acts)

lemma hc_tab_96:
  "tab (key_offsets httpclient_parser_tables) 96 = 1022" "tab (single_lengths httpclient_parser_tables) 96 = 4"
  "tab (range_lengths httpclient_parser_tables) 96 = 0" "tab (index_offsets httpclient_parser_tables) 96 = 807"
  by (simp_all add: httpclient_parser_fields tab_row httpclient_parser_shape, simp_all add: httpclient_parser_small)

lemma hc_96:
  "ragel_next httpclient_parser_tables r 96 c =
     look [(10, 10), (13, 13), (76, 76), (108, 108)]
     [(20, [6]), (24, [6]), (97, []), (97, []), (23, [])] c"
  by (simp add: hc.state_edges [OF _ _ hc_tab_96] httpclient_parser_fields slice_rows httpclient_parser_shape,
      simp add: httpclient_parser_shape httpclient_parser_whole, simp add: httpclient_parser_part httpclient_parser_acts)

lemma hc_tab_97:
  "tab (key_offsets httpclient_parser_tables) 97 = 1026" "tab (single_lengths httpclient_parser_tables) 97 = 4"
  "tab (range_lengths httpclient_parser_tables) 97 = 0" "tab (index_offsets httpclient_parser_tables) 97 = 812"
  by (simp_all add: httpclient_parser_fields tab_row httpclient_parser_shape, simp_all add: httpclient_parser_small)

lemma hc_97:
  "ragel_next httpclient_parser_tables r 97 c =
     look [(10, 10), (13, 13), (79, 79), (111, 111)]
     [(20, [6]), (24, [6]), (98, []), (98, []), (23, [])] c"
  by (simp add: hc.state_edges [OF _ _ hc_tab_97] httpclient_parser_fields slice_rows httpclient_parser_shape,
      simp add: httpclient_parser_shape httpclient_parser_whole, simp add: httpclient_parser_part httpclient_parser_acts)

lemma hc_tab_98:
  "tab (key_offsets httpclient_parser_tables) 98 = 1030" "tab (single_lengths httpclient_parser_tables) 98 = 4"
  "tab (range_lengths httpclient_parser_tables) 98 = 0" "tab (index_offsets httpclient_parser_tables) 98 = 817"
  by (simp_all add: httpclient_parser_fields tab_row httpclient_parser_shape, simp_all add: httpclient_parser_small)

lemma hc_98:
  "ragel_next httpclient_parser_tables r 98 c =
     look [(10, 10), (13, 13), (83, 83), (115, 115)]
     [(20, [6]), (24, [6]), (99, []), (99, []), (23, [])] c"
  by (simp add: hc.state_edges [OF _ _ hc_tab_98] httpclient_parser_fields slice_rows httpclient_parser_shape,
      simp add: httpclient_parser_shape httpclient_parser_whole, simp add: httpclient_parser_part httpclient_parser_acts)

lemma hc_tab_99:
  "tab (key_offsets httpclient_parser_tables) 99 = 1034" "tab (single_lengths httpclient_parser_tables) 99 = 4"
  "tab (range_lengths httpclient_parser_tables) 99 = 0" "tab (index_offsets httpclient_parser_tables) 99 = 822"
  by (simp_all add: httpclient_parser_fields tab_row httpclient_parser_shape, simp_all add: httpclient_parser_small)

lemma hc_99:
  "ragel_next httpclient_parser_tables r 99 c =
     look [(10, 10), (13, 13), (69, 69), (101, 101)]
     [(20, [6]), (24, [6]), (100, []), (100, []), (23, [])] c"
  by (simp add: hc.state_edges [OF _ _ hc_tab_99] httpclient_parser_fields slice_rows httpclient_parser_shape,
      simp add: httpclient_parser_shape httpclient_parser_whole, simp add: httpclient_parser_part httpclient_parser_acts)

lemma hc_tab_100:
  "tab (key_offsets httpclient_parser_tables) 100 = 1038" "tab (single_lengths httpclient_parser_tables) 100 = 2"
  "tab (range_lengths httpclient_parser_tables) 100 = 0" "tab (index_offsets httpclient_parser_tables) 100 = 827"
  by (simp_all add: httpclient_parser_fields tab_row httpclient_parser_shape, simp_all add: httpclient_parser_small)

lemma hc_100:
  "ragel_next httpclient_parser_tables r 100 c =
     look [(10, 10), (13, 13)]
     [(43, [6]), (88, [6]), (23, [])] c"
  by (simp add: hc.state_edges [OF _ _ hc_tab_100] httpclient_parser_fields slice_rows httpclient_parser_shape,
      simp add: httpclient_parser_shape httpclient_parser_whole, simp add: httpclient_parser_part httpclient_parser_acts)

lemma hc_tab_101:
  "tab (key_offsets httpclient_parser_tables) 101 = 1040" "tab (single_lengths httpclient_parser_tables) 101 = 6"
  "tab (range_lengths httpclient_parser_tables) 101 = 6" "tab (index_offsets httpclient_parser_tables) 101 = 830"
  by (simp_all add: httpclient_parser_fields tab_row httpclient_parser_shape, simp_all add: httpclient_parser_small)

lemma hc_101:
  "ragel_next httpclient_parser_tables r 101 c =
     look [(33, 33), (58, 58), (69, 69), (101, 101), (124, 124), (126, 126), (35, 39), (42, 43), (45,
         46), (48, 57), (65, 90), (94, 122)]
     [(21, []), (22, [2]), (102, []), (102, []), (21, []), (21, []), (21, []), (21, []), (21, []), (21,
         []), (21, []), (21, []), (0, [])] c"
  by (simp add: hc.state_edges [OF _ _ hc_tab_101] httpclient_parser_fields slice_rows httpclient_parser_shape,
      simp add: httpclient_parser_shape httpclient_parser_whole, simp add: httpclient_parser_part httpclient_parser_acts)

lemma hc_tab_102:
  "tab (key_offsets httpclient_parser_tables) 102 = 1058" "tab (single_lengths httpclient_parser_tables) 102 = 6"
  "tab (range_lengths httpclient_parser_tables) 102 = 6" "tab (index_offsets httpclient_parser_tables) 102 = 843"
  by (simp_all add: httpclient_parser_fields tab_row httpclient_parser_shape, simp_all add: httpclient_parser_small)

lemma hc_102:
  "ragel_next httpclient_parser_tables r 102 c =
     look [(33, 33), (58, 58), (78, 78), (110, 110), (124, 124), (126, 126), (35, 39), (42, 43), (45,
         46), (48, 57), (65, 90), (94, 122)]
     [(21, []), (22, [2]), (103, []), (103, []), (21, []), (21, []), (21, []), (21, []), (21, []), (21,
         []), (21, []), (21, []), (0, [])] c"
  by (simp add: hc.state_edges [OF _ _ hc_tab_102] httpclient_parser_fields slice_rows httpclient_parser_shape,
      simp add: httpclient_parser_shape httpclient_parser_whole, simp add: httpclient_parser_part httpclient_parser_acts)

lemma hc_tab_103:
  "tab (key_offsets httpclient_parser_tables) 103 = 1076" "tab (single_lengths httpclient_parser_tables) 103 = 6"
  "tab (range_lengths httpclient_parser_tables) 103 = 6" "tab (index_offsets httpclient_parser_tables) 103 = 856"
  by (simp_all add: httpclient_parser_fields tab_row httpclient_parser_shape, simp_all add: httpclient_parser_small)

lemma hc_103:
  "ragel_next httpclient_parser_tables r 103 c =
     look [(33, 33), (58, 58), (84, 84), (116, 116), (124, 124), (126, 126), (35, 39), (42, 43), (45,
         46), (48, 57), (65, 90), (94, 122)]
     [(21, []), (22, [2]), (104, []), (104, []), (21, []), (21, []), (21, []), (21, []), (21, []), (21,
         []), (21, []), (21, []), (0, [])] c"
  by (simp add: hc.state_edges [OF _ _ hc_tab_103] httpclient_parser_fields slice_rows httpclient_parser_shape,
      simp add: httpclient_parser_shape httpclient_parser_whole, simp add: httpclient_parser_part httpclient_parser_acts)

lemma hc_tab_104:
  "tab (key_offsets httpclient_parser_tables) 104 = 1094" "tab (single_lengths httpclient_parser_tables) 104 = 6"
  "tab (range_lengths httpclient_parser_tables) 104 = 5" "tab (index_offsets httpclient_parser_tables) 104 = 869"
  by (simp_all add: httpclient_parser_fields tab_row httpclient_parser_shape, simp_all add: httpclient_parser_small)

lemma hc_104:
  "ragel_next httpclient_parser_tables r 104 c =
     look [(33, 33), (45, 45), (46, 46), (58, 58), (124, 124), (126, 126), (35, 39), (42, 43), (48, 57),
         (65, 90), (94, 122)]
     [(21, []), (105, []), (21, []), (22, [2]), (21, []), (21, []), (21, []), (21, []), (21, []), (21,
         []), (21, []), (0, [])] c"
  by (simp add: hc.state_edges [OF _ _ hc_tab_104] httpclient_parser_fields slice_rows httpclient_parser_shape,
      simp add: httpclient_parser_shape httpclient_parser_whole, simp add: httpclient_parser_part httpclient_parser_acts)

lemma hc_tab_105:
  "tab (key_offsets httpclient_parser_tables) 105 = 1110" "tab (single_lengths httpclient_parser_tables) 105 = 6"
  "tab (range_lengths httpclient_parser_tables) 105 = 6" "tab (index_offsets httpclient_parser_tables) 105 = 881"
  by (simp_all add: httpclient_parser_fields tab_row httpclient_parser_shape, simp_all add: httpclient_parser_small)

lemma hc_105:
  "ragel_next httpclient_parser_tables r 105 c =
     look [(33, 33), (58, 58), (76, 76), (108, 108), (124, 124), (126, 126), (35, 39), (42, 43), (45,
         46), (48, 57), (65, 90), (94, 122)]
     [(21, []), (22, [2]), (106, []), (106, []), (21, []), (21, []), (21, []), (21, []), (21, []), (21,
         []), (21, []), (21, []), (0, [])] c"
  by (simp add: hc.state_edges [OF _ _ hc_tab_105] httpclient_parser_fields slice_rows httpclient_parser_shape,
      simp add: httpclient_parser_shape httpclient_parser_whole, simp add: httpclient_parser_part httpclient_parser_acts)

lemma hc_tab_106:
  "tab (key_offsets httpclient_parser_tables) 106 = 1128" "tab (single_lengths httpclient_parser_tables) 106 = 6"
  "tab (range_lengths httpclient_parser_tables) 106 = 6" "tab (index_offsets httpclient_parser_tables) 106 = 894"
  by (simp_all add: httpclient_parser_fields tab_row httpclient_parser_shape, simp_all add: httpclient_parser_small)

lemma hc_106:
  "ragel_next httpclient_parser_tables r 106 c =
     look [(33, 33), (58, 58), (69, 69), (101, 101), (124, 124), (126, 126), (35, 39), (42, 43), (45,
         46), (48, 57), (65, 90), (94, 122)]
     [(21, []), (22, [2]), (107, []), (107, []), (21, []), (21, []), (21, []), (21, []), (21, []), (21,
         []), (21, []), (21, []), (0, [])] c"
  by (simp add: hc.state_edges [OF _ _ hc_tab_106] httpclient_parser_fields slice_rows httpclient_parser_shape,
      simp add: httpclient_parser_shape httpclient_parser_whole, simp add: httpclient_parser_part httpclient_parser_acts)

lemma hc_tab_107:
  "tab (key_offsets httpclient_parser_tables) 107 = 1146" "tab (single_lengths httpclient_parser_tables) 107 = 6"
  "tab (range_lengths httpclient_parser_tables) 107 = 6" "tab (index_offsets httpclient_parser_tables) 107 = 907"
  by (simp_all add: httpclient_parser_fields tab_row httpclient_parser_shape, simp_all add: httpclient_parser_small)

lemma hc_107:
  "ragel_next httpclient_parser_tables r 107 c =
     look [(33, 33), (58, 58), (78, 78), (110, 110), (124, 124), (126, 126), (35, 39), (42, 43), (45,
         46), (48, 57), (65, 90), (94, 122)]
     [(21, []), (22, [2]), (108, []), (108, []), (21, []), (21, []), (21, []), (21, []), (21, []), (21,
         []), (21, []), (21, []), (0, [])] c"
  by (simp add: hc.state_edges [OF _ _ hc_tab_107] httpclient_parser_fields slice_rows httpclient_parser_shape,
      simp add: httpclient_parser_shape httpclient_parser_whole, simp add: httpclient_parser_part httpclient_parser_acts)

lemma hc_tab_108:
  "tab (key_offsets httpclient_parser_tables) 108 = 1164" "tab (single_lengths httpclient_parser_tables) 108 = 6"
  "tab (range_lengths httpclient_parser_tables) 108 = 6" "tab (index_offsets httpclient_parser_tables) 108 = 920"
  by (simp_all add: httpclient_parser_fields tab_row httpclient_parser_shape, simp_all add: httpclient_parser_small)

lemma hc_108:
  "ragel_next httpclient_parser_tables r 108 c =
     look [(33, 33), (58, 58), (71, 71), (103, 103), (124, 124), (126, 126), (35, 39), (42, 43), (45,
         46), (48, 57), (65, 90), (94, 122)]
     [(21, []), (22, [2]), (109, []), (109, []), (21, []), (21, []), (21, []), (21, []), (21, []), (21,
         []), (21, []), (21, []), (0, [])] c"
  by (simp add: hc.state_edges [OF _ _ hc_tab_108] httpclient_parser_fields slice_rows httpclient_parser_shape,
      simp add: httpclient_parser_shape httpclient_parser_whole, simp add: httpclient_parser_part httpclient_parser_acts)

lemma hc_tab_109:
  "tab (key_offsets httpclient_parser_tables) 109 = 1182" "tab (single_lengths httpclient_parser_tables) 109 = 6"
  "tab (range_lengths httpclient_parser_tables) 109 = 6" "tab (index_offsets httpclient_parser_tables) 109 = 933"
  by (simp_all add: httpclient_parser_fields tab_row httpclient_parser_shape, simp_all add: httpclient_parser_small)

lemma hc_109:
  "ragel_next httpclient_parser_tables r 109 c =
     look [(33, 33), (58, 58), (84, 84), (116, 116), (124, 124), (126, 126), (35, 39), (42, 43), (45,
         46), (48, 57), (65, 90), (94, 122)]
     [(21, []), (22, [2]), (110, []), (110, []), (21, []), (21, []), (21, []), (21, []), (21, []), (21,
         []), (21, []), (21, []), (0, [])] c"
  by (simp add: hc.state_edges [OF _ _ hc_tab_109] httpclient_parser_fields slice_rows httpclient_parser_shape,
      simp add: httpclient_parser_shape httpclient_parser_whole, simp add: httpclient_parser_part httpclient_parser_acts)

lemma hc_tab_110:
  "tab (key_offsets httpclient_parser_tables) 110 = 1200" "tab (single_lengths httpclient_parser_tables) 110 = 6"
  "tab (range_lengths httpclient_parser_tables) 110 = 6" "tab (index_offsets httpclient_parser_tables) 110 = 946"
  by (simp_all add: httpclient_parser_fields tab_row httpclient_parser_shape, simp_all add: httpclient_parser_small)

lemma hc_110:
  "ragel_next httpclient_parser_tables r 110 c =
     look [(33, 33), (58, 58), (72, 72), (104, 104), (124, 124), (126, 126), (35, 39), (42, 43), (45,
         46), (48, 57), (65, 90), (94, 122)]
     [(21, []), (22, [2]), (111, []), (111, []), (21, []), (21, []), (21, []), (21, []), (21, []), (21,
         []), (21, []), (21, []), (0, [])] c"
  by (simp add: hc.state_edges [OF _ _ hc_tab_110] httpclient_parser_fields slice_rows httpclient_parser_shape,
      simp add: httpclient_parser_shape httpclient_parser_whole, simp add: httpclient_parser_part httpclient_parser_acts)

lemma hc_tab_111:
  "tab (key_offsets httpclient_parser_tables) 111 = 1218" "tab (single_lengths httpclient_parser_tables) 111 = 4"
  "tab (range_lengths httpclient_parser_tables) 111 = 6" "tab (index_offsets httpclient_parser_tables) 111 = 959"
  by (simp_all add: httpclient_parser_fields tab_row httpclient_parser_shape, simp_all add: httpclient_parser_small)

lemma hc_111:
  "ragel_next httpclient_parser_tables r 111 c =
     look [(33, 33), (58, 58), (124, 124), (126, 126), (35, 39), (42, 43), (45, 46), (48, 57), (65, 90),
         (94, 122)]
     [(21, []), (112, [2]), (21, []), (21, []), (21, []), (21, []), (21, []), (21, []), (21, []), (21,
         []), (0, [])] c"
  by (simp add: hc.state_edges [OF _ _ hc_tab_111] httpclient_parser_fields slice_rows httpclient_parser_shape,
      simp add: httpclient_parser_shape httpclient_parser_whole, simp add: httpclient_parser_part httpclient_parser_acts)

lemma hc_tab_112:
  "tab (key_offsets httpclient_parser_tables) 112 = 1234" "tab (single_lengths httpclient_parser_tables) 112 = 3"
  "tab (range_lengths httpclient_parser_tables) 112 = 2" "tab (index_offsets httpclient_parser_tables) 112 = 970"
  by (simp_all add: httpclient_parser_fields tab_row httpclient_parser_shape, simp_all add: httpclient_parser_small)

lemma hc_112:
  "ragel_next httpclient_parser_tables r 112 c =
     look [(10, 10), (13, 13), (32, 32), (9, 12), (48, 57)]
     [(113, [3, 6]), (118, [3, 6]), (112, [3]), (112, [3]), (119, [3]), (23, [3])] c"
  by (simp add: hc.state_edges [OF _ _ hc_tab_112] httpclient_parser_fields slice_rows httpclient_parser_shape,
      simp add: httpclient_parser_shape httpclient_parser_whole, simp add: httpclient_parser_part httpclient_parser_acts)

lemma hc_tab_119:
  "tab (key_offsets httpclient_parser_tables) 119 = 1304" "tab (single_lengths httpclient_parser_tables) 119 = 2"
  "tab (range_lengths httpclient_parser_tables) 119 = 1" "tab (index_offsets httpclient_parser_tables) 119 = 1025"
  by (simp_all add: httpclient_parser_fields tab_row httpclient_parser_shape, simp_all add: httpclient_parser_small)

lemma hc_119:
  "ragel_next httpclient_parser_tables r 119 c =
     look [(10, 10), (13, 13), (48, 57)]
     [(20, [4, 6]), (24, [4, 6]), (119, []), (23, [])] c"
  by (simp add: hc.state_edges [OF _ _ hc_tab_119] httpclient_parser_fields slice_rows httpclient_parser_shape,
      simp add: httpclient_parser_shape httpclient_parser_whole, simp add: httpclient_parser_part httpclient_parser_acts)

end
