(* ===== verification/Http_Response_Run.thy ===== *)
theory Http_Response_Run
  imports Scan_Loop Httpclient_Edges Http_Session
begin

text \<open>
  The response scanner on the head of a response: the status line and the header lines. The scanner follows the
  names \<open>Connection\<close>, \<open>Content-Length\<close> and \<open>Transfer-Encoding\<close> and some of their values in states of their own, so
  that the states of a header line form sets, which the tables are shown to respect.
\<close>

section \<open>Ranges of characters\<close>

text \<open>\<open>look_range ks bs P l h\<close> checks that every character from \<open>l\<close> to \<open>h\<close> is looked up to a branch with the property \<open>P\<close>.\<close>

fun look_range :: "(int \<times> int) list \<Rightarrow> 'a list \<Rightarrow> ('a \<Rightarrow> bool) \<Rightarrow> int \<Rightarrow> int \<Rightarrow> bool" where
  "look_range ((a, b) # ks) (x # xs) P l h =
     (if h < a \<or> b < l then look_range ks xs P l h
      else if a \<le> l then if h \<le> b then P x else P x \<and> look_range ks xs P (b + 1) h
      else if h \<le> b then P x \<and> look_range ks xs P l (a - 1)
      else P x \<and> look_range ks xs P l (a - 1) \<and> look_range ks xs P (b + 1) h)"
| "look_range ks xs P l h = P (hd xs)"

lemma look_range: "look_range ks xs P l h \<Longrightarrow> l \<le> c \<Longrightarrow> c \<le> h \<Longrightarrow> P (look ks xs c)"
proof (induction ks xs P l h rule: look_range.induct)
  case (1 a b ks x xs P l h)
  consider "h < a \<or> b < l" | "a \<le> c" "c \<le> b" | "\<not> (h < a \<or> b < l)" "c < a" | "\<not> (h < a \<or> b < l)" "\<not> c < a" "b < c" by linarith
  then show ?case
  proof cases
    case 1
    then show ?thesis using "1.IH"(1) "1.prems" by (auto simp: look.simps)
  qed (use 1 in \<open>auto simp: look.simps split: if_splits\<close>)
qed (auto simp: look.simps)

section \<open>The states of a header line\<close>

text \<open>Inside a name; behind the colon; inside a value.\<close>

definition in_name :: "int \<Rightarrow> bool" where
  "in_name s \<longleftrightarrow> s = 21 \<or> 25 \<le> s \<and> s \<le> 34 \<or> 44 \<le> s \<and> s \<le> 60 \<or> 101 \<le> s \<and> s \<le> 111"

definition before_value :: "int \<Rightarrow> bool" where
  "before_value s \<longleftrightarrow> s = 22 \<or> s = 35 \<or> s = 61 \<or> s = 112"

definition in_value :: "int \<Rightarrow> bool" where
  "in_value s \<longleftrightarrow> s = 23 \<or> 81 \<le> s \<and> s \<le> 87 \<or> 96 \<le> s \<and> s \<le> 100 \<or> s = 119"

definition goes :: "(int \<Rightarrow> bool) \<Rightarrow> int list \<Rightarrow> int \<times> int list \<Rightarrow> bool" where
  "goes S as b \<longleftrightarrow> S (fst b) \<and> snd b = as"

lemma goes_pair [simp]: "goes S as (s, bs) \<longleftrightarrow> S s \<and> bs = as"
  by (simp add: goes_def)

abbreviation hc_next :: "int \<Rightarrow> int \<Rightarrow> int \<times> int list" where
  "hc_next \<equiv> ragel_next httpclient_parser_tables False"

lemmas hc_names = hc_21 hc_25 hc_26 hc_27 hc_28 hc_29 hc_30 hc_31 hc_32 hc_33 hc_34 hc_44 hc_45 hc_46 hc_47 hc_48 hc_49
  hc_50 hc_51 hc_52 hc_53 hc_54 hc_55 hc_56 hc_57 hc_58 hc_59 hc_60 hc_101 hc_102 hc_103 hc_104 hc_105 hc_106 hc_107
  hc_108 hc_109 hc_110 hc_111

lemmas hc_values = hc_23 hc_119 hc_81 hc_82 hc_83 hc_84 hc_85 hc_86 hc_87 hc_96 hc_97 hc_98 hc_99 hc_100

definition name_list :: "int list" where
  "name_list = 21 # [25..34] @ [44..60] @ [101..111]"

definition value_list :: "int list" where
  "value_list = 23 # 119 # [81..87] @ [96..100]"

lemma in_lists: "in_name s \<longleftrightarrow> s \<in> set name_list" "in_value s \<longleftrightarrow> s \<in> set value_list"
  by (auto simp: in_name_def in_value_def name_list_def value_list_def simp del: upto_rec_numeral)

definition token_ranges :: "(int \<times> int) list" where
  "token_ranges = [(33, 33), (35, 39), (42, 43), (45, 46), (48, 57), (65, 90), (94, 122), (124, 124), (126, 126)]"

lemma token_ranges: "token_char c \<Longrightarrow> list_ex (\<lambda>(l, h). l \<le> schar c \<and> schar c \<le> h) token_ranges"
  unfolding token_char_def token_codes_def token_ranges_def set_append set_upto list.set Un_iff insert_iff empty_iff
    atLeastAtMost_iff list_ex_Nil_iff list_ex_Cons_iff case_prod_conv
  by (elim disjE FalseE conjE) simp_all

text \<open>The characters of a value: all but the control characters; none, or white space, may come first.\<close>

definition value_ranges :: "(int \<times> int) list" where
  "value_ranges = [(-128, -1), (9, 9), (32, 126)]"

definition first_ranges :: "(int \<times> int) list" where
  "first_ranges = [(-128, -1), (33, 126)]"

lemma value_ranges:
  "value_char c \<Longrightarrow> list_ex (\<lambda>(l, h). l \<le> schar c \<and> schar c \<le> h) value_ranges"
  "value_char c \<Longrightarrow> schar c \<noteq> 9 \<Longrightarrow> schar c \<noteq> 32 \<Longrightarrow> list_ex (\<lambda>(l, h). l \<le> schar c \<and> schar c \<le> h) first_ranges"
  using schar_range [of c]
  unfolding value_char_def visible_codes_def value_ranges_def first_ranges_def list.set set_upto insert_iff
    atLeastAtMost_iff list_ex_Nil_iff list_ex_Cons_iff case_prod_conv
  by linarith+

definition edges_ok :: "((int \<times> int list) \<Rightarrow> bool) \<Rightarrow> (int \<times> int) list \<Rightarrow> int \<Rightarrow> bool" where
  "edges_ok P rs s \<longleftrightarrow> (\<forall>c. list_ex (\<lambda>(l, h). l \<le> c \<and> c \<le> h) rs \<longrightarrow> P (hc_next s c))"

lemma edges_okI:
  "(\<And>c. hc_next s c = look ks xs c) \<Longrightarrow> list_all (\<lambda>(l, h). look_range ks xs P l h) rs \<Longrightarrow> edges_ok P rs s"
  by (auto simp: edges_ok_def list_ex_iff list_all_iff intro: look_range)

lemma edges_okD: "edges_ok P rs s \<Longrightarrow> list_ex (\<lambda>(l, h). l \<le> c \<and> c \<le> h) rs \<Longrightarrow> P (hc_next s c)"
  by (simp add: edges_ok_def)

lemma name_edges:
  "list_all (edges_ok (goes in_name []) token_ranges) name_list"
  "list_all (edges_ok (goes before_value [2]) [(58, 58)]) name_list"
  by (simp add: name_list_def upto_rec_numeral,
      intro conjI; rule edges_okI, rule hc_names, simp add: token_ranges_def in_name_def before_value_def)+

lemma line_edges:
  "edges_ok (goes in_name [1]) token_ranges 20" "edges_ok (goes in_name [5, 1]) token_ranges 43"
  by (rule edges_okI, rule hc_20 hc_43, simp add: token_ranges_def in_name_def)+

lemma before_value_edges:
  "list_all (edges_ok (goes before_value [3]) [(32, 32)]) [22, 35, 61, 112]"
  "list_all (edges_ok (goes in_value [3]) first_ranges) [22, 35, 61, 112]"
  by (simp, intro conjI; rule edges_okI, rule hc_22 hc_35 hc_61 hc_112,
      simp add: first_ranges_def before_value_def in_value_def)+

lemma value_edges:
  "list_all (edges_ok (goes in_value []) value_ranges) value_list"
  by (simp add: value_list_def upto_rec_numeral,
      intro conjI; rule edges_okI, rule hc_values, simp add: value_ranges_def in_value_def)

text \<open>The end of a line: some values set a flag besides.\<close>

lemma end_edges:
  "list_all (\<lambda>s. hc_next s 13 \<in> {(24, [6]), (24, [4, 6]), (71, [6]), (88, [6])}) value_list"
  "hc_next 24 10 = (20, [])" "hc_next 71 10 = (20, [11])" "hc_next 88 10 = (43, [])"
  by (simp_all add: value_list_def upto_rec_numeral hc_values hc_24 hc_71 hc_88 look.simps)

section \<open>Callbacks\<close>

definition cready :: "HttpResponseParser \<Rightarrow> bool" where
  "cready parser \<longleftrightarrow>
     cp_http_field parser = Some on_response_http_field \<and> cp_reason_phrase parser = Some on_response_reason \<and>
     cp_status_code parser = Some on_response_status \<and> cp_http_version parser = Some on_response_version \<and>
     cp_header_done parser = Some on_response_header_done"

text \<open>The parser is in the middle of a call of \<open>httpclient_parser_execute\<close> and has built the response \<open>rs\<close> so far.\<close>

definition sound :: "string \<Rightarrow> HttpResponse \<Rightarrow> HttpResponseParser \<Rightarrow> bool" where
  "sound buffer rs parser \<longleftrightarrow>
     cready parser \<and> cp_nread parser = 0 \<and> cp_body_start parser = 0 \<and>
     cp_mark parser < length buffer \<and> cp_field_start parser < length buffer \<and>
     cp_field_len parser \<le> length buffer \<and> cp_data parser = \<lparr>rp_data = rs, rp_error = 0\<rparr>"

declare httpclient_parser_actions_run.simps(2) [simp del]

lemmas cact_eval = httpclient_parser_actions_run.simps httpclient_parser_action_def call_part_def Let_def cready_def

lemma sound_updates:
  assumes "sound buffer rs q"
  shows "a < length buffer \<Longrightarrow> sound buffer rs (q\<lparr>cp_mark := a\<rparr>)" "a < length buffer \<Longrightarrow> sound buffer rs (q\<lparr>cp_field_start := a\<rparr>)"
    "a \<le> length buffer \<Longrightarrow> sound buffer rs (q\<lparr>cp_field_len := a\<rparr>)" "sound buffer rs (q\<lparr>cp_close := b\<rparr>)"
    "sound buffer rs (q\<lparr>cp_chunked := b\<rparr>)" "sound buffer rs (q\<lparr>cp_content_len := n\<rparr>)" "sound buffer rs (q\<lparr>cp_status := n\<rparr>)"
    "sound buffer rs' (q\<lparr>cp_data := \<lparr>rp_data = rs', rp_error = 0\<rparr>\<rparr>)"
  using assms by (auto simp: sound_def cready_def)

lemma cact_mark:
  "httpclient_parser_actions_run buffer p [0] q = Inr (q\<lparr>cp_mark := p\<rparr>, False)"
  "httpclient_parser_actions_run buffer p [3] q = Inr (q\<lparr>cp_mark := p\<rparr>, False)"
  "httpclient_parser_actions_run buffer p [1] q = Inr (q\<lparr>cp_field_start := p\<rparr>, False)"
  "httpclient_parser_actions_run buffer p [5] q = Inr (q\<lparr>cp_close := True\<rparr>, False)"
  "httpclient_parser_actions_run buffer p [11] q = Inr (q\<lparr>cp_chunked := True\<rparr>, False)"
  "httpclient_parser_actions_run buffer p [5, 1] q = Inr (q\<lparr>cp_close := True, cp_field_start := p\<rparr>, False)"
  "httpclient_parser_actions_run buffer p [2] q = Inr (q\<lparr>cp_field_len := LEN (cp_field_start q) p\<rparr>, False)"
  by (simp_all add: cact_eval)

text \<open>The field callback at position \<open>p\<close>, just behind the value.\<close>

lemma cact_field:
  assumes "sound buffer rs q" "length buffer < 2 ^ 63"
    and "text_at buffer (cp_field_start q) k" "cp_field_len q = length k" "k \<noteq> []"
    and "text_at buffer (cp_mark q) v" "p = cp_mark q + length v" "p \<le> length buffer"
  shows "httpclient_parser_actions_run buffer p [6] q =
      Inr (q\<lparr>cp_data := \<lparr>rp_data = HttpResponse_setHeader rs k v, rp_error = 0\<rparr>\<rparr>, False)"
    "httpclient_parser_actions_run buffer p [4, 6] q =
      Inr (q\<lparr>cp_content_len := to_int (strtol 10 (drop (cp_mark q) buffer)),
             cp_data := \<lparr>rp_data = HttpResponse_setHeader rs k v, rp_error = 0\<rparr>\<rparr>, False)"
proof -
  have "LEN (cp_mark q) p = length v" "std_string buffer (cp_mark q) (length v) = Inr v"
    using assms by (simp_all add: LEN_diff std_string_text_at)
  moreover have "std_string buffer (cp_field_start q) (length k) = Inr k"
    using assms text_at_length [OF assms(3,5)] by (simp add: std_string_text_at)
  ultimately show "httpclient_parser_actions_run buffer p [6] q =
      Inr (q\<lparr>cp_data := \<lparr>rp_data = HttpResponse_setHeader rs k v, rp_error = 0\<rparr>\<rparr>, False)"
    "httpclient_parser_actions_run buffer p [4, 6] q =
      Inr (q\<lparr>cp_content_len := to_int (strtol 10 (drop (cp_mark q) buffer)),
             cp_data := \<lparr>rp_data = HttpResponse_setHeader rs k v, rp_error = 0\<rparr>\<rparr>, False)"
    using assms(1,4,5) by (simp_all add: cact_eval sound_def on_response_http_field_def)
qed

section \<open>A header line\<close>

abbreviation line_states :: "int set" where
  "line_states \<equiv> {20, 43}"

abbreviation name_states :: "int set" where
  "name_states \<equiv> {s. in_name s}"

abbreviation before_states :: "int set" where
  "before_states \<equiv> {s. before_value s}"

abbreviation value_states :: "int set" where
  "value_states \<equiv> {s. in_value s}"

text \<open>A step along an edge that is known up to a set of states.\<close>

lemma step_goes:
  assumes "text_at buffer p [c]" "\<And>cs. cs \<in> A \<Longrightarrow> goes S as (hc_next cs (schar c))" "\<not> S 0"
    and "\<And>q. \<Phi> q \<Longrightarrow> \<exists>q'. httpclient_parser_actions_run buffer p as q = Inr (q', False) \<and> \<Psi> q'"
  shows "rs_scan.triple buffer A p \<Phi> {s. S s} (Suc p) \<Psi>"
proof (rule rs_scan.triple_step [OF assms(1)])
  fix cs q assume "cs \<in> A" "\<Phi> q"
  then have "S (fst (hc_next cs (schar c)))" "snd (hc_next cs (schar c)) = as"
    using assms(2) by (auto simp: goes_def)
  moreover obtain q' where "httpclient_parser_actions_run buffer p as q = Inr (q', False)" "\<Psi> q'"
    using assms(4) \<open>\<Phi> q\<close> by blast
  ultimately show "\<exists>cs' as q'. hc_next cs (schar c) = (cs', as) \<and> cs' \<in> {s. S s} \<and> cs' \<noteq> 0 \<and>
      httpclient_parser_actions_run buffer p as q = Inr (q', False) \<and> \<Psi> q'"
    using assms(3) by (metis mem_Collect_eq prod.collapse)
qed

lemma triple_name:
  assumes "field_name k" "text_at buffer p (k @ '': '')" "length buffer < 2 ^ 63"
  shows "rs_scan.triple buffer line_states p (sound buffer rs) before_states (p + length k + 2)
    (\<lambda>q. sound buffer rs q \<and> cp_field_start q = p \<and> cp_field_len q = length k)"
proof -
  obtain c s where k: "k = c # s" "token_char c" "list_all token_char s"
    using assms(1) by (cases k) (auto simp: field_name_def)
  note at = assms(2) [unfolded k(1), simplified]
  let ?P = "\<lambda>q. sound buffer rs q \<and> cp_field_start q = p"
  have "rs_scan.triple buffer line_states p (sound buffer rs) name_states (Suc p) ?P"
  proof (rule rs_scan.triple_step [of _ _ c])
    fix cs q assume "cs \<in> line_states" "sound buffer rs q"
    then show "\<exists>cs' as q'. hc_next cs (schar c) = (cs', as) \<and> cs' \<in> name_states \<and> cs' \<noteq> 0 \<and>
        httpclient_parser_actions_run buffer p as q = Inr (q', False) \<and> ?P q'"
      using edges_okD [OF line_edges(1) token_ranges [OF k(2)]] edges_okD [OF line_edges(2) token_ranges [OF k(2)]] at
      by (cases "hc_next cs (schar c)") (auto simp: cact_mark sound_updates in_name_def)
  qed (use at in simp)
  also have "rs_scan.triple buffer name_states (Suc p) ?P name_states (Suc p + length s) ?P"
  proof (rule rs_scan.triple_quiet [where P = token_char])
    fix cs c assume "cs \<in> name_states" "token_char c"
    then have "goes in_name [] (hc_next cs (schar c))"
      using name_edges(1) edges_okD [OF _ token_ranges, of "goes in_name []" cs c]
      by (simp add: in_lists(1) list_all_iff)
    then show "\<exists>cs' \<in> name_states. hc_next cs (schar c) = (cs', [])"
      by (cases "hc_next cs (schar c)") auto
  qed (use at k(3) in \<open>auto simp: in_name_def\<close>)
  also have "rs_scan.triple buffer name_states (Suc p + length s) ?P before_states (Suc (Suc p + length s))
      (\<lambda>q. ?P q \<and> cp_field_len q = length k)"
  proof (rule step_goes [of _ _ "CHR '':''" _ _ "[2]"])
    fix cs assume "cs \<in> name_states"
    then show "goes before_value [2] (hc_next cs (schar (CHR '':'')))"
      using name_edges(2) edges_okD [of "goes before_value [2]" "[(58, 58)]" cs 58]
      by (simp add: in_lists(1) list_all_iff)
  qed (use at assms(3) in \<open>auto simp: cact_mark sound_updates before_value_def LEN_diff k(1)\<close>)
  also have "rs_scan.triple buffer before_states (Suc (Suc p + length s)) (\<lambda>q. ?P q \<and> cp_field_len q = length k)
      before_states (Suc (Suc (Suc p + length s))) (\<lambda>q. ?P q \<and> cp_field_len q = length k)"
  proof (rule step_goes [of _ _ "CHR '' ''" _ _ "[3]"])
    fix cs assume "cs \<in> before_states"
    then show "goes before_value [3] (hc_next cs (schar (CHR '' '')))"
      using before_value_edges(1) edges_okD [of "goes before_value [3]" "[(32, 32)]" cs 32]
      by (auto simp: before_value_def)
  qed (use at in \<open>auto simp: cact_mark sound_updates before_value_def\<close>)
  finally show ?thesis by (simp add: k(1) conj_assoc)
qed

lemma triple_value:
  assumes "field_value v" "v \<noteq> []" "text_at buffer p v"
  shows "rs_scan.triple buffer before_states p (\<lambda>q. sound buffer rs q \<and> cp_field_start q = a \<and> cp_field_len q = n)
    value_states (p + length v) (\<lambda>q. sound buffer rs q \<and> cp_field_start q = a \<and> cp_field_len q = n \<and> cp_mark q = p)"
proof -
  obtain c s where v: "v = c # s" "value_char c" "schar c \<noteq> 9" "schar c \<noteq> 32" "list_all value_char s"
    using assms(1,2) by (cases v) (auto simp: field_value_def)
  note at = assms(3) [unfolded v(1), simplified]
  let ?P = "\<lambda>q. sound buffer rs q \<and> cp_field_start q = a \<and> cp_field_len q = n"
  have "rs_scan.triple buffer before_states p ?P value_states (Suc p) (\<lambda>q. ?P q \<and> cp_mark q = p)"
  proof (rule step_goes [of _ _ c _ _ "[3]"])
    fix cs assume "cs \<in> before_states"
    then show "goes in_value [3] (hc_next cs (schar c))"
      using before_value_edges(2) edges_okD [OF _ value_ranges(2) [OF v(2-4)], of "goes in_value [3]" cs]
      by (auto simp: before_value_def)
  qed (use at in \<open>auto simp: cact_mark sound_updates in_value_def\<close>)
  also have "rs_scan.triple buffer value_states (Suc p) (\<lambda>q. ?P q \<and> cp_mark q = p)
      value_states (Suc p + length s) (\<lambda>q. ?P q \<and> cp_mark q = p)"
  proof (rule rs_scan.triple_quiet [where P = value_char])
    fix cs c assume "cs \<in> value_states" "value_char c"
    then have "goes in_value [] (hc_next cs (schar c))"
      using value_edges edges_okD [OF _ value_ranges(1), of "goes in_value []" cs c]
      by (simp add: in_lists(2) list_all_iff)
    then show "\<exists>cs' \<in> value_states. hc_next cs (schar c) = (cs', [])"
      by (cases "hc_next cs (schar c)") auto
  qed (use at v(5) in \<open>auto simp: in_value_def\<close>)
  finally show ?thesis by (simp add: v(1) conj_assoc)
qed

lemma triple_header_line:
  assumes "field_name k" "field_value v" "v \<noteq> []" "text_at buffer p (header_line (k, v))" "length buffer < 2 ^ 63"
  shows "rs_scan.triple buffer line_states p (sound buffer rs) line_states (p + length (header_line (k, v)))
    (sound buffer (HttpResponse_setHeader rs k v))"
proof -
  note at = assms(4) [unfolded header_line_def CRLF_def, simplified]
  let ?n = "p + length k + 2" and ?rs = "HttpResponse_setHeader rs k v"
  let ?m = "?n + length v"
  let ?P = "\<lambda>q. sound buffer rs q \<and> cp_field_start q = p \<and> cp_field_len q = length k \<and> cp_mark q = ?n"
  have "rs_scan.triple buffer line_states p (sound buffer rs) before_states ?n
      (\<lambda>q. sound buffer rs q \<and> cp_field_start q = p \<and> cp_field_len q = length k)"
    using at assms by (intro triple_name) auto
  also have "rs_scan.triple buffer before_states ?n \<dots> value_states ?m ?P"
    using at assms by (intro triple_value) auto
  also have "rs_scan.triple buffer value_states ?m ?P {24, 71, 88} (Suc ?m) (sound buffer ?rs)"
  proof (rule rs_scan.triple_step [of _ _ "CHR 0x0D"])
    fix cs q assume cs: "cs \<in> value_states" and q: "?P q"
    have "hc_next cs 13 \<in> {(24, [6]), (24, [4, 6]), (71, [6]), (88, [6])}"
      using end_edges(1) cs by (simp add: in_lists(2) list_all_iff)
    moreover have "k \<noteq> []" using assms(1) by (simp add: field_name_def)
    ultimately show "\<exists>cs' as q'. hc_next cs (schar (CHR 0x0D)) = (cs', as) \<and> cs' \<in> {24, 71, 88} \<and> cs' \<noteq> 0 \<and>
        httpclient_parser_actions_run buffer ?m as q = Inr (q', False) \<and> sound buffer ?rs q'"
      using q at assms(5) cact_field [of buffer rs q k v ?m]
      by (auto intro: sound_updates(8) sound_updates(8) [OF sound_updates(6)])
  qed (use at in simp)
  also have "rs_scan.triple buffer {24, 71, 88} (Suc ?m) (sound buffer ?rs) line_states (Suc (Suc ?m)) (sound buffer ?rs)"
    by (rule rs_scan.triple_step [of _ _ "CHR 0x0A"]) (use at in \<open>auto simp: end_edges cact_mark sound_updates\<close>)
  finally show ?thesis by (simp add: header_line_def CRLF_def add.assoc)
qed

definition set_rs_headers :: "(string \<times> string) list \<Rightarrow> HttpResponse \<Rightarrow> HttpResponse" where
  "set_rs_headers hs rs = fold (\<lambda>(k, v) rs. HttpResponse_setHeader rs k v) hs rs"

lemma triple_headers:
  "\<forall>(k, v) \<in> set hs. field_name k \<and> field_value v \<and> v \<noteq> [] \<Longrightarrow> text_at buffer p (concat (map header_line hs)) \<Longrightarrow>
   length buffer < 2 ^ 63 \<Longrightarrow>
   rs_scan.triple buffer line_states p (sound buffer rs) line_states (p + length (concat (map header_line hs)))
     (sound buffer (set_rs_headers hs rs))"
proof (induction hs arbitrary: p rs)
  case (Cons h hs)
  obtain k v where h: "h = (k, v)" by (cases h)
  have "rs_scan.triple buffer line_states p (sound buffer rs) line_states (p + length (header_line (k, v)))
      (sound buffer (HttpResponse_setHeader rs k v))"
    using Cons.prems by (intro triple_header_line) (auto simp: h)
  also have "rs_scan.triple buffer line_states (p + length (header_line (k, v))) \<dots> line_states
      (p + length (header_line (k, v)) + length (concat (map header_line hs))) (sound buffer (set_rs_headers (h # hs) rs))"
    using Cons.prems Cons.IH [of "p + length (header_line (k, v))"] by (simp add: h set_rs_headers_def)
  finally show ?case by (simp add: h add.assoc)
qed (simp add: set_rs_headers_def rs_scan.triple_refl)

section \<open>The status line\<close>

lemma digits_val_append:
  assumes "list_all (\<lambda>c. 48 \<le> schar c \<and> schar c \<le> 57) ds" "schar c < 48"
  shows "digits_val 10 (int n) (ds @ c # ys) = int (foldl (\<lambda>n c. 10 * n + nat (schar c - 48)) n ds)"
  using assms(1)
proof (induction ds arbitrary: n)
  case Nil
  then show ?case using assms(2) by (simp add: digit_val_def)
next
  case (Cons d ds)
  have "digits_val 10 (int n) (d # ds @ c # ys) = digits_val 10 (int (10 * n + nat (schar d - 48))) (ds @ c # ys)"
    using Cons.prems by (simp add: digit_val_def)
  also have "\<dots> = int (foldl (\<lambda>n c. 10 * n + nat (schar c - 48)) (10 * n + nat (schar d - 48)) ds)"
    using Cons.prems by (intro Cons.IH) simp
  finally show ?case by simp
qed

lemma is_space_schar: "is_space c \<Longrightarrow> schar c = 32 \<or> 9 \<le> schar c \<and> schar c \<le> 13"
proof -
  have "(of_char c :: int) = int (of_char c)" by (simp only: of_nat_of_char)
  then show "is_space c \<Longrightarrow> schar c = 32 \<or> 9 \<le> schar c \<and> schar c \<le> 13"
    by (auto simp: is_space_def schar_def Let_def)
qed

lemma atoi_show_dec:
  assumes "n < 2 ^ 31"
  shows "atoi (show_dec n @ '' '' @ ys) = int n"
proof -
  let ?ds = "show_dec n"
  have dec: "list_all (\<lambda>c. 48 \<le> schar c \<and> schar c \<le> 57) ?ds" "?ds \<noteq> []"
      "foldl (\<lambda>n c. 10 * n + nat (schar c - 48)) 0 ?ds = n"
    using decimal_show [of n] by (auto simp: decimal_def split: if_splits)
  then obtain c s where ds: "?ds = c # s" "48 \<le> schar c" "schar c \<le> 57" by (cases ?ds) auto
  have "\<not> is_space c" using is_space_schar [of c] ds by auto
  moreover have "c \<noteq> CHR ''-''" "c \<noteq> CHR ''+''" using ds by (auto simp: schar_def)
  moreover have "digits_val 10 (int 0) (?ds @ CHR '' '' # ys) = int n"
    using digits_val_append [OF dec(1), of "CHR '' ''" 0 ys] dec(3) by (simp add: schar_def)
  ultimately show ?thesis using assms by (simp add: atoi_def strtol_def ds(1))
qed

lemma step_quiet:
  assumes "text_at buffer p [c]" "hc_next a (schar c) = (b, [])" "b \<noteq> 0"
  shows "rs_scan.triple buffer {a} p \<Phi> {b} (Suc p) \<Phi>"
  by (rule rs_scan.triple_step [OF assms(1)]) (use assms in auto)

lemma schar_status [simp]:
  "schar (CHR ''H'') = 72" "schar (CHR ''T'') = 84" "schar (CHR ''P'') = 80" "schar (CHR ''/'') = 47" "schar (CHR ''1'') = 49"
  "schar (CHR ''.'') = 46"
  by (simp_all add: schar_def)

lemma status_edges:
  "hc_next 1 72 = (8, [0])" "hc_next 8 84 = (9, [])" "hc_next 9 84 = (10, [])" "hc_next 10 80 = (11, [])"
  "hc_next 11 47 = (12, [])" "hc_next 12 49 = (13, [])" "hc_next 13 46 = (14, [])"
  "hc_next 14 (schar (version_digit v)) = (15, [])" "hc_next 15 32 = (16, [9])" "hc_next 17 32 = (18, [8])"
  "hc_next 19 13 = (24, [7])" "hc_next 20 13 = (3, [])" "hc_next 43 13 = (3, [5])" "hc_next 3 10 = (120, [12])"
  "48 \<le> c \<Longrightarrow> c \<le> 57 \<Longrightarrow> hc_next 16 c = (17, [0])" "48 \<le> c \<Longrightarrow> c \<le> 57 \<Longrightarrow> hc_next 17 c = (17, [])"
  "-128 \<le> c \<Longrightarrow> c \<le> 127 \<Longrightarrow> c \<noteq> 10 \<Longrightarrow> hc_next 18 c = (19, [0])"
  "-128 \<le> c \<Longrightarrow> c \<le> 127 \<Longrightarrow> c \<noteq> 10 \<Longrightarrow> c \<noteq> 13 \<Longrightarrow> hc_next 19 c = (19, [])"
  by (simp_all add: schar_def version_digit_def hc_1 hc_8 hc_9 hc_10 hc_11 hc_12 hc_13 hc_14 hc_15 hc_16 hc_17 hc_18 hc_19
      hc_20 hc_43 hc_3 look.simps)

text \<open>\<open>HTTP/1.0\<close> or \<open>HTTP/1.1\<close> and a blank.\<close>

lemma triple_version:
  assumes "text_at buffer 0 (''HTTP/1.'' @ version_digit v # '' '')" "v = 0x11 \<or> v = 0x10" "length buffer < 2 ^ 63"
  shows "rs_scan.triple buffer {1} 0 (sound buffer rs) {16} 9 (sound buffer (rs\<lparr>rs_version := v\<rparr>))"
proof -
  note at = assms(1) [simplified]
  let ?P = "\<lambda>q. sound buffer rs q \<and> cp_mark q = 0"
  have "rs_scan.triple buffer {1} 0 (sound buffer rs) {8} (Suc 0) ?P"
    by (rule rs_scan.triple_step [of _ _ "CHR ''H''"])
       (use at in \<open>auto simp: status_edges cact_mark sound_updates\<close>)
  also have "rs_scan.triple buffer {8} (Suc 0) ?P {9} 2 ?P"
    using step_quiet [of buffer "Suc 0" "CHR ''T''" 8 9] at by (simp add: status_edges numeral_2_eq_2)
  also have "rs_scan.triple buffer {9} 2 ?P {10} 3 ?P"
    using step_quiet [of buffer 2 "CHR ''T''" 9 10] at by (simp add: status_edges eval_nat_numeral)
  also have "rs_scan.triple buffer {10} 3 ?P {11} 4 ?P"
    using step_quiet [of buffer 3 "CHR ''P''" 10 11] at by (simp add: status_edges eval_nat_numeral)
  also have "rs_scan.triple buffer {11} 4 ?P {12} 5 ?P"
    using step_quiet [of buffer 4 "CHR ''/''" 11 12] at by (simp add: status_edges eval_nat_numeral)
  also have "rs_scan.triple buffer {12} 5 ?P {13} 6 ?P"
    using step_quiet [of buffer 5 "CHR ''1''" 12 13] at by (simp add: status_edges eval_nat_numeral)
  also have "rs_scan.triple buffer {13} 6 ?P {14} 7 ?P"
    using step_quiet [of buffer 6 "CHR ''.''" 13 14] at by (simp add: status_edges eval_nat_numeral)
  also have "rs_scan.triple buffer {14} 7 ?P {15} 8 ?P"
    using step_quiet [of buffer 7 "version_digit v" 14 15] at by (simp add: status_edges eval_nat_numeral)
  also have "rs_scan.triple buffer {15} 8 ?P {16} (Suc 8) (sound buffer (rs\<lparr>rs_version := v\<rparr>))"
  proof (rule rs_scan.triple_step [of _ _ "CHR '' ''"])
    fix cs q assume "cs \<in> {15 :: int}" and q: "?P q"
    obtain ys where ys: "buffer = ''HTTP/1.'' @ version_digit v # CHR '' '' # ys"
      using drop_text_at [OF assms(1)] by auto
    then have "c_str buffer = ''HTTP/1.'' @ version_digit v # CHR '' '' # c_str ys"
      by (simp add: c_str_def version_digit_def)
    then have "strncmp_eq buffer ''HTTP/1.1'' 8 = (v = 0x11)" "strncmp_eq buffer ''HTTP/1.0'' 8 = (v = 0x10)"
      using assms(2) by (auto simp: strncmp_eq_def version_digit_def c_str_def)
    moreover have "LEN 0 8 = 8" by (simp add: LEN_def)
    ultimately have "httpclient_parser_actions_run buffer 8 [9] q =
        Inr (q\<lparr>cp_data := \<lparr>rp_data = rs\<lparr>rs_version := v\<rparr>, rp_error = 0\<rparr>\<rparr>, False)"
      using assms(2) q by (elim disjE) (simp_all add: cact_eval sound_def on_response_version_def)
    then show "\<exists>cs' as q'. hc_next cs (schar (CHR '' '')) = (cs', as) \<and> cs' \<in> {16} \<and> cs' \<noteq> 0 \<and>
        httpclient_parser_actions_run buffer 8 as q = Inr (q', False) \<and> sound buffer (rs\<lparr>rs_version := v\<rparr>) q'"
      using \<open>cs \<in> {15}\<close> q by (auto simp: status_edges intro: sound_updates(8))
  qed (use at in \<open>simp add: eval_nat_numeral\<close>)
  finally show ?thesis by simp
qed

lemma triple_status:
  assumes "text_at buffer p (show_dec n @ '' '')" "n < 2 ^ 31"
  shows "rs_scan.triple buffer {16} p (sound buffer rs) {18} (p + length (show_dec n) + 1) (sound buffer (rs\<lparr>rs_status := int n\<rparr>))"
proof -
  have dec: "list_all (\<lambda>c. 48 \<le> schar c \<and> schar c \<le> 57) (show_dec n)" "show_dec n \<noteq> []"
    using decimal_show [of n] by (auto simp: decimal_def split: if_splits)
  then obtain c s where n: "show_dec n = c # s" "48 \<le> schar c" "schar c \<le> 57"
      "list_all (\<lambda>c. 48 \<le> schar c \<and> schar c \<le> 57) s"
    by (cases "show_dec n") auto
  note at = assms(1) [unfolded n(1), simplified]
  let ?P = "\<lambda>q. sound buffer rs q \<and> cp_mark q = p"
  have "rs_scan.triple buffer {16} p (sound buffer rs) {17} (Suc p) ?P"
    by (rule rs_scan.triple_step [of _ _ c]) (use at n in \<open>auto simp: status_edges cact_mark sound_updates\<close>)
  also have "rs_scan.triple buffer {17} (Suc p) ?P {17} (Suc p + length s) ?P"
    by (rule rs_scan.triple_quiet [OF _ n(4)]) (use at in \<open>auto simp: status_edges\<close>)
  also have "rs_scan.triple buffer {17} (Suc p + length s) ?P {18} (Suc (Suc p + length s)) (sound buffer (rs\<lparr>rs_status := int n\<rparr>))"
  proof (rule rs_scan.triple_step [of _ _ "CHR '' ''"])
    fix cs q assume "cs \<in> {17 :: int}" and q: "?P q"
    obtain ys where "drop p buffer = (show_dec n @ '' '') @ ys"
      using drop_text_at [OF assms(1)] by blast
    then have "atoi (drop p buffer) = int n" using atoi_show_dec [OF assms(2)] by simp
    then have "httpclient_parser_actions_run buffer (Suc p + length s) [8] q =
        Inr (q\<lparr>cp_status := to_int (strtol 10 (drop p buffer)), cp_data := \<lparr>rp_data = rs\<lparr>rs_status := int n\<rparr>, rp_error = 0\<rparr>\<rparr>, False)"
      using q by (simp add: cact_eval sound_def on_response_status_def)
    then show "\<exists>cs' as q'. hc_next cs (schar (CHR '' '')) = (cs', as) \<and> cs' \<in> {18} \<and> cs' \<noteq> 0 \<and>
        httpclient_parser_actions_run buffer (Suc p + length s) as q = Inr (q', False) \<and>
        sound buffer (rs\<lparr>rs_status := int n\<rparr>) q'"
      using \<open>cs \<in> {17}\<close> q by (auto simp: status_edges intro: sound_updates(8) [OF sound_updates(7)])
  qed (use at in simp)
  finally show ?thesis by (simp add: n(1))
qed

definition reason_text :: "string \<Rightarrow> bool" where
  "reason_text r \<longleftrightarrow> r \<noteq> [] \<and> list_all (\<lambda>c. schar c \<noteq> 10 \<and> schar c \<noteq> 13) r"

lemma triple_reason:
  assumes "reason_text r" "text_at buffer p (r @ CRLF)" "length buffer < 2 ^ 63"
  shows "rs_scan.triple buffer {18} p (sound buffer rs) line_states (p + length r + 2) (sound buffer (rs\<lparr>rs_reason := r\<rparr>))"
proof -
  obtain c s where r: "r = c # s" "schar c \<noteq> 10" "list_all (\<lambda>c. schar c \<noteq> 10 \<and> schar c \<noteq> 13) s"
    using assms(1) by (cases r) (auto simp: reason_text_def)
  note at = assms(2) [unfolded CRLF_def, simplified]
  let ?P = "\<lambda>q. sound buffer rs q \<and> cp_mark q = p"
  let ?rs = "rs\<lparr>rs_reason := r\<rparr>"
  have "rs_scan.triple buffer {18} p (sound buffer rs) {19} (Suc p) ?P"
    by (rule rs_scan.triple_step [of _ _ c])
       (use at r schar_range [of c] in \<open>auto simp: status_edges cact_mark sound_updates\<close>)
  also have "rs_scan.triple buffer {19} (Suc p) ?P {19} (Suc p + length s) ?P"
    by (rule rs_scan.triple_quiet [OF _ r(3)]) (use at schar_range in \<open>auto simp: r(1) status_edges\<close>)
  also have "Suc p + length s = p + length r" by (simp add: r(1))
  also have "rs_scan.triple buffer {19} (p + length r) ?P {24} (Suc (p + length r)) (sound buffer ?rs)"
  proof (rule rs_scan.triple_step [of _ _ "CHR 0x0D"])
    fix cs q assume "cs \<in> {19 :: int}" and q: "?P q"
    have "LEN p (p + length r) = length r" "std_string buffer p (length r) = Inr r"
      using at assms(3) by (simp_all add: LEN_diff std_string_text_at)
    then have "httpclient_parser_actions_run buffer (p + length r) [7] q = Inr (q\<lparr>cp_data := \<lparr>rp_data = ?rs, rp_error = 0\<rparr>\<rparr>, False)"
      using q by (simp add: cact_eval sound_def on_response_reason_def)
    then show "\<exists>cs' as q'. hc_next cs (schar (CHR 0x0D)) = (cs', as) \<and> cs' \<in> {24} \<and> cs' \<noteq> 0 \<and>
        httpclient_parser_actions_run buffer (p + length r) as q = Inr (q', False) \<and> sound buffer ?rs q'"
      using \<open>cs \<in> {19}\<close> q by (auto simp: status_edges intro: sound_updates(8))
  qed (use at in simp)
  also have "rs_scan.triple buffer {24} (Suc (p + length r)) (sound buffer ?rs) line_states (Suc (Suc (p + length r))) (sound buffer ?rs)"
    by (rule rs_scan.triple_step [of _ _ "CHR 0x0A"]) (use at in \<open>auto simp: end_edges\<close>)
  finally show ?thesis by simp
qed

section \<open>A whole head\<close>

definition response_head :: "u8 \<Rightarrow> nat \<Rightarrow> string \<Rightarrow> (string \<times> string) list \<Rightarrow> string" where
  "response_head v n reason hs =
     ''HTTP/1.'' @ [version_digit v] @ '' '' @ show_dec n @ '' '' @ reason @ CRLF @ concat (map header_line hs) @ CRLF"

definition response_of :: "u8 \<Rightarrow> nat \<Rightarrow> string \<Rightarrow> (string \<times> string) list \<Rightarrow> HttpResponse" where
  "response_of v n reason hs =
     set_rs_headers hs ((HttpResponse_new 0x11 True)\<lparr>rs_version := v, rs_status := int n, rs_reason := reason\<rparr>)"

text \<open>What the response grammar allows; the scanner does not finish after some headers with an empty value.\<close>

definition response_ok :: "u8 \<Rightarrow> nat \<Rightarrow> string \<Rightarrow> (string \<times> string) list \<Rightarrow> bool" where
  "response_ok v n reason hs \<longleftrightarrow>
     (v = 0x11 \<or> v = 0x10) \<and> n < 2 ^ 31 \<and> reason_text reason \<and>
     (\<forall>(k, h) \<in> set hs. field_name k \<and> field_value h \<and> h \<noteq> [])"

lemma triple_head:
  assumes "response_ok v n reason hs" "text_at buffer 0 (response_head v n reason hs)" "length buffer < 2 ^ 63"
  shows "rs_scan.triple buffer {1} 0 (sound buffer (HttpResponse_new 0x11 True)) {3} (length (response_head v n reason hs) - 1)
    (sound buffer (response_of v n reason hs))"
proof -
  note ok = assms(1) [unfolded response_ok_def]
  define p1 p2 p3 where "p1 = 9 + length (show_dec n) + 1" and "p2 = p1 + length reason + 2"
    and "p3 = p2 + length (concat (map header_line hs))"
  have at: "text_at buffer 0 (''HTTP/1.'' @ version_digit v # '' '')" "text_at buffer 9 (show_dec n @ '' '')"
    "text_at buffer p1 (reason @ CRLF)" "text_at buffer p2 (concat (map header_line hs))" "text_at buffer p3 CRLF"
    using assms(2) by (simp_all add: response_head_def p1_def p2_def p3_def CRLF_def eval_nat_numeral)
  have "rs_scan.triple buffer {1} 0 (sound buffer (HttpResponse_new 0x11 True)) {16} 9
      (sound buffer ((HttpResponse_new 0x11 True)\<lparr>rs_version := v\<rparr>))"
    using at ok assms(3) by (intro triple_version) auto
  also have "rs_scan.triple buffer {16} 9 \<dots> {18} p1
      (sound buffer ((HttpResponse_new 0x11 True)\<lparr>rs_version := v, rs_status := int n\<rparr>))"
    unfolding p1_def using at ok by (intro triple_status) auto
  also have "rs_scan.triple buffer {18} p1 \<dots> line_states p2
      (sound buffer ((HttpResponse_new 0x11 True)\<lparr>rs_version := v, rs_status := int n, rs_reason := reason\<rparr>))"
    unfolding p2_def using at ok assms(3) by (intro triple_reason) auto
  also have "rs_scan.triple buffer line_states p2 \<dots> line_states p3 (sound buffer (response_of v n reason hs))"
    unfolding p3_def response_of_def using at ok assms(3) by (intro triple_headers) auto
  also have "rs_scan.triple buffer line_states p3 \<dots> {3} (Suc p3) (sound buffer (response_of v n reason hs))"
    by (rule rs_scan.triple_step [of _ _ "CHR 0x0D"])
       (use at in \<open>auto simp: CRLF_def status_edges cact_mark sound_updates\<close>)
  finally show ?thesis
    by (simp add: response_head_def p1_def p2_def p3_def CRLF_def eval_nat_numeral add.assoc)
qed

lemma sound_new:
  "buffer \<noteq> [] \<Longrightarrow> sound buffer (HttpResponse_new 0x11 True)
     ((HttpResponseParser_new st)\<lparr>cp_nread := 0, cp_mark := 0, cp_field_len := 0, cp_field_start := 0\<rparr>)"
  by (simp add: sound_def cready_def HttpResponseParser_new_def httpclient_parser_init_def)

lemma init_new: "httpclient_parser_init (HttpResponseParser_new st) = HttpResponseParser_new st"
  by (simp add: HttpResponseParser_new_def httpclient_parser_init_def)

lemma execute_response_head:
  assumes "response_ok v n reason hs" "length (response_head v n reason hs @ rest) < 2 ^ 31"
  shows "\<exists>parser. HttpResponseParser_execute (HttpResponseParser_new st) (response_head v n reason hs @ rest) (CHR 0x00) chunck =
      Inr (length (response_head v n reason hs), rest, parser) \<and>
    HttpResponseParser_isFinished parser = 1 \<and> \<not> HttpResponseParser_hasError parser \<and>
    rp_data (cp_data parser) = response_of v n reason hs"
proof -
  let ?h = "response_head v n reason hs"
  define buffer where "buffer = ?h @ rest"
  define m where "m = length ?h - 1"
  let ?new = "HttpResponseParser_new st"
  let ?q = "?new\<lparr>cp_nread := 0, cp_mark := 0, cp_field_len := 0, cp_field_start := 0\<rparr>"
  let ?S = "\<lambda>q. sound buffer (response_of v n reason hs) (q\<lparr>cp_body_start := 0\<rparr>) \<and> cp_body_start q = Suc m"
  have len: "length ?h = Suc m" by (simp add: m_def response_head_def)
  have at: "text_at buffer 0 ?h" by (simp add: buffer_def text_at_def)
  have ne: "buffer \<noteq> []" "length buffer < 2 ^ 31" "Suc m \<le> length buffer"
    using assms(2) len by (auto simp: buffer_def response_head_def)
  have lf: "text_at buffer m [CHR 0x0A]"
    using at by (simp add: response_head_def m_def CRLF_def eval_nat_numeral add.assoc)
  have head: "rs_scan.triple buffer {1} 0 (sound buffer (HttpResponse_new 0x11 True)) {3} m (sound buffer (response_of v n reason hs))"
    unfolding m_def using assms(1) at ne(2) by (intro triple_head) auto
  have "\<exists>q'. httpclient_parser_loop buffer 0 (drop 0 buffer) 1 ?q = Inr (120, Suc m, q') \<and> ?S q'"
  proof (rule rs_scan.triple_out [OF head _ _ lf])
    fix cs q assume "cs \<in> {3 :: int}" and q: "sound buffer (response_of v n reason hs) q"
    then show "\<exists>as q'. hc_next cs (schar (CHR 0x0A)) = (120, as) \<and>
        httpclient_parser_actions_run buffer m as q = Inr (q', True) \<and> ?S q'"
      by (auto simp: status_edges cact_eval sound_def on_response_header_done_def)
  qed (use sound_new [OF ne(1)] in auto)
  then obtain q' where loop: "httpclient_parser_loop buffer 0 buffer 1 ?q = Inr (120, Suc m, q')" and q': "?S q'"
    by auto
  have cs: "cp_cs ?new = 1" by (simp add: HttpResponseParser_new_def httpclient_parser_init_def httpclient_parser_start_def)
  have "httpclient_parser_execute ?new buffer (CHR 0x00) 0 = Inr (int (Suc m), q'\<lparr>cp_cs := 120, cp_nread := Suc m\<rparr>)"
    using loop q' ne cs by (simp add: httpclient_parser_execute_def sound_def)
  then show ?thesis
    using q' len
    by (simp add: HttpResponseParser_execute_def init_new HttpResponseParser_isFinished_def HttpResponseParser_hasError_def
        httpclient_parser_finish_def httpclient_parser_has_error_def httpclient_parser_is_finished_def
        httpclient_parser_error_def httpclient_parser_first_final_def sound_def buffer_def)
qed

end
