(* ===== verification/Http_Response_Trip.thy ===== *)
theory Http_Response_Trip
  imports Http_Response_Run
begin

text \<open>
  A response that the server prints (\<open>HttpResponse::dump\<close>) is parsed by the client
  (\<open>HttpResponseParser::execute\<close>), and what the response scanner does for every buffer.
\<close>

section \<open>The text of a response\<close>

definition response_lines :: "HttpResponse \<Rightarrow> (string \<times> string) list" where
  "response_lines rs =
     filter (\<lambda>h. fold_case (fst h) \<noteq> ''connection'') (rs_headers rs) @
     map (\<lambda>c. (''Set-Cookie'', c)) (rs_cookies rs) @
     (''connection'', if rs_close rs then ''close'' else ''keep-alive'') #
     (if rs_body rs = [] then [] else [(''content-length'', show_dec (length (rs_body rs)))])"

definition reason_of :: "HttpResponse \<Rightarrow> string" where
  "reason_of rs = (if rs_reason rs = [] then HttpStatusToString (rs_status rs) else rs_reason rs)"

text \<open>The responses that can be printed and parsed again.\<close>

definition rs_printable :: "HttpResponse \<Rightarrow> bool" where
  "rs_printable rs \<longleftrightarrow>
     0 \<le> rs_status rs \<and> response_ok (rs_version rs) (nat (rs_status rs)) (reason_of rs) (rs_headers rs) \<and>
     (\<forall>c \<in> set (rs_cookies rs). field_value c \<and> c \<noteq> []) \<and>
     \<not> rs_websocket rs \<and> omap_ok CaseInsensitiveLess (rs_headers rs) \<and>
     omap_find CaseInsensitiveLess ''content-length'' (rs_headers rs) = None"

lemma HttpResponse_dump_head:
  assumes "rs_printable rs"
  shows "HttpResponse_dump rs =
    response_head (rs_version rs) (nat (rs_status rs)) (reason_of rs) (response_lines rs) @ rs_body rs"
proof -
  have "rs_version rs = 0x11 \<or> rs_version rs = 0x10" using assms by (simp add: rs_printable_def response_ok_def)
  then have "dump_version (rs_version rs) = ''1.'' @ [version_digit (rs_version rs)]"
    by (auto simp: dump_version_def version_digit_def show_dec_def digits.simps digit_char_def char_of_eq_iff)
  moreover have "rs_status rs mod 2 ^ 32 = rs_status rs"
    using assms by (intro mod_pos_pos_trivial) (auto simp: rs_printable_def response_ok_def)
  moreover have "concat (map (\<lambda>i. ''Set-Cookie: '' @ i @ CRLF) cs) = concat (map header_line (map (\<lambda>c. (''Set-Cookie'', c)) cs))" for cs
    by (simp add: comp_def header_line_def)
  ultimately show ?thesis
    using assms
    by (auto simp: HttpResponse_dump_def response_head_def response_lines_def rs_printable_def reason_of_def
        dump_connection_def dump_headers_lines dump_body_def header_line_def)
qed

lemma set_cookie_name: "field_name ''Set-Cookie''" "fold_case ''Set-Cookie'' = ''set-cookie''"
proof -
  have "list_all token_char ''Set-Cookie''"
    by (simp add: token_char_def token_codes_def schar_def)
  then show "field_name ''Set-Cookie''" by (simp add: field_name_def)
qed (simp add: fold_case_def c_str_def ToLower_def tolower_def char_of_eq_iff)

lemma response_lines_ok:
  assumes "rs_printable rs"
  shows "response_ok (rs_version rs) (nat (rs_status rs)) (reason_of rs) (response_lines rs)"
proof -
  have "show_dec n \<noteq> []" for n by (simp add: show_dec_def digits.simps [of 10 n])
  then show ?thesis
    using assms by (auto simp: rs_printable_def response_ok_def response_lines_def field_value_lines set_cookie_name)
qed

section \<open>What is parsed\<close>

text \<open>The headers of a response behave as those of a request.\<close>

lemma set_rs_headers_same:
  "rs_headers (set_rs_headers hs rs) = rq_headers (set_headers hs ((HttpRequest_new 0x11 True)\<lparr>rq_headers := rs_headers rs\<rparr>))"
proof (induction hs arbitrary: rs)
  case (Cons h hs)
  obtain k v where h: "h = (k, v)" by (cases h)
  show ?case
    using Cons [of "HttpResponse_setHeader rs k v"]
    by (simp add: h set_rs_headers_def set_headers_def HttpResponse_setHeader_def HttpRequest_setHeader_def)
qed (simp add: set_rs_headers_def set_headers_def)

lemma set_rs_headers_fields:
  "rs_status (set_rs_headers hs rs) = rs_status rs" "rs_version (set_rs_headers hs rs) = rs_version rs"
  "rs_reason (set_rs_headers hs rs) = rs_reason rs"
  by (induction hs arbitrary: rs) (auto simp: set_rs_headers_def HttpResponse_setHeader_def split: prod.splits)

lemma response_of_header:
  assumes "rs_printable rs"
    and "fold_case k \<noteq> ''connection''" "fold_case k \<noteq> ''content-length''" "fold_case k \<noteq> ''set-cookie''"
  shows "HttpResponse_getHeader (response_of (rs_version rs) (nat (rs_status rs)) (reason_of rs) (response_lines rs)) k d =
    HttpResponse_getHeader rs k d"
proof -
  let ?mid = "filter (\<lambda>h. fold_case (fst h) \<noteq> ''connection'') (rs_headers rs)"
  define tl where "tl = map (\<lambda>c. (''Set-Cookie'', c)) (rs_cookies rs) @
     (''connection'', if rs_close rs then ''close'' else ''keep-alive'') #
     (if rs_body rs = [] then [] else [(''content-length'', show_dec (length (rs_body rs)))])"
  have lines: "response_lines rs = ?mid @ tl" by (simp add: response_lines_def tl_def)
  have other: "\<forall>h \<in> set tl. fold_case (fst h) \<noteq> fold_case k"
    using assms(2-4) by (auto simp: tl_def set_cookie_name)
  have "omap_find CaseInsensitiveLess k (rq_headers (set_headers (response_lines rs) (HttpRequest_new 0x11 True))) =
      omap_find CaseInsensitiveLess k (rq_headers (set_headers ?mid (HttpRequest_new 0x11 True)))"
    unfolding lines set_headers_append using other by (rule find_set_headers_other)
  also have "\<dots> = omap_find CaseInsensitiveLess k (rs_headers rs)"
    using assms(1,2) by (intro find_set_headers_map) (auto simp: rs_printable_def HttpRequest_new_def)
  finally show ?thesis
    by (simp add: HttpResponse_getHeader_def find_or_def response_of_def set_rs_headers_same HttpResponse_new_def HttpRequest_new_def)
qed

section \<open>Properties\<close>

text \<open>
  C30. A response printed by \<open>HttpResponse::dump\<close> and parsed by \<open>HttpResponseParser::execute\<close>: the parser consumes exactly
  the head, leaves the body in the buffer, has finished without an error, and has the version, the status, the reason
  (the standard text of the status when the response had none) and the value of every header that the printer does not
  write itself. The keep-alive choice is not taken over: the parsed response keeps the default of its constructor. The
  byte behind the buffer is NUL, as the scanner asserts; \<open>st\<close> is the value of the member that is not initialised.
\<close>

theorem HttpResponseParser_execute_dump:
  assumes "rs_printable rs" "length (HttpResponse_dump rs) < 2 ^ 31"
  shows "\<exists>parser n. HttpResponseParser_execute (HttpResponseParser_new st) (HttpResponse_dump rs) (CHR 0x00) chunck =
      Inr (n, rs_body rs, parser) \<and>
    HttpResponseParser_isFinished parser = 1 \<and> \<not> HttpResponseParser_hasError parser \<and>
    rs_version (rp_data (cp_data parser)) = rs_version rs \<and> rs_status (rp_data (cp_data parser)) = rs_status rs \<and>
    rs_reason (rp_data (cp_data parser)) = reason_of rs \<and>
    (\<forall>k d. fold_case k \<notin> {''connection'', ''content-length'', ''set-cookie''} \<longrightarrow>
       HttpResponse_getHeader (rp_data (cp_data parser)) k d = HttpResponse_getHeader rs k d) \<and>
    rs_close (rp_data (cp_data parser))"
proof -
  note dump = HttpResponse_dump_head [OF assms(1)]
  have close: "rs_close (set_rs_headers hs r) = rs_close r" for hs r
    by (induction hs arbitrary: r) (auto simp: set_rs_headers_def HttpResponse_setHeader_def split: prod.splits)
  from execute_response_head [OF response_lines_ok [OF assms(1)], of "rs_body rs" st chunck] assms(2)
  obtain parser where "HttpResponseParser_execute (HttpResponseParser_new st) (HttpResponse_dump rs) (CHR 0x00) chunck =
      Inr (length (response_head (rs_version rs) (nat (rs_status rs)) (reason_of rs) (response_lines rs)), rs_body rs, parser)"
    "HttpResponseParser_isFinished parser = 1" "\<not> HttpResponseParser_hasError parser"
    "rp_data (cp_data parser) = response_of (rs_version rs) (nat (rs_status rs)) (reason_of rs) (response_lines rs)"
    unfolding dump by blast
  moreover have "0 \<le> rs_status rs" using assms(1) by (simp add: rs_printable_def)
  ultimately show ?thesis
    using response_of_header [OF assms(1)]
    by (simp add: response_of_def set_rs_headers_fields close HttpResponse_new_def)
qed

definition example_response :: HttpResponse where
  "example_response = (HttpResponse_new 0x11 False)\<lparr>rs_status := 404, rs_reason := ''gone'', rs_headers := [(''host'', ''h'')], rs_body := ''xyz''\<rparr>"

theorem HttpResponseParser_execute_dump_witness:
  "\<exists>parser n. HttpResponseParser_execute (HttpResponseParser_new 7) (HttpResponse_dump example_response) (CHR 0x00) False =
      Inr (n, ''xyz'', parser) \<and> HttpResponseParser_isFinished parser = 1 \<and>
    rs_status (rp_data (cp_data parser)) = 404 \<and> rs_reason (rp_data (cp_data parser)) = ''gone'' \<and> rs_close (rp_data (cp_data parser))"
proof -
  have "reason_text ''gone''" by (simp add: reason_text_def schar_def)
  moreover have "field_name ''host''" "field_value ''h''"
    by (simp_all add: field_name_def field_value_def token_char_ascii value_char_ascii schar_def)
  moreover have "fold_case ''host'' = ''host''"
    by (simp add: fold_case_def c_str_def ToLower_def tolower_def char_of_eq_iff)
  ultimately have ok: "rs_printable example_response"
    by (simp add: rs_printable_def example_response_def HttpResponse_new_def response_ok_def reason_of_def omap_ok_def
        CaseInsensitiveLess_def)
  have "length (HttpResponse_dump example_response) < 2 ^ 31"
    unfolding HttpResponse_dump_head [OF ok]
    by (simp add: response_head_def response_lines_def header_line_def reason_of_def
        example_response_def HttpResponse_new_def CRLF_def show_dec_def digits.simps)
  from HttpResponseParser_execute_dump [OF ok this, of 7 False] show ?thesis
    by (auto simp: example_response_def HttpResponse_new_def reason_of_def)
qed

end
