(* ===== verification/Socket.thy ===== *)
theory Socket
  imports Address Hook
begin

text \<open>
  \<^verbatim>\<open>sylar/socket.h\<close> and \<^verbatim>\<open>sylar/socket.cc\<close>: the class \<open>Socket\<close> over an explicit table of open descriptors.

  The operating system is the record \<open>os\<close>: the descriptors that are open, the number of system calls so far,
  and for each call by its number whether it succeeds and what name it reports. \<open>socket\<close> and \<open>accept\<close> return the
  lowest free descriptor. Theorems hold for all answers.

  Shown here: whatever sequence of operations is performed on a socket, it owns exactly the descriptor it has
  opened, and its destructor gives it back; a timeout that is set is the timeout that is read.
\<close>

section \<open>System calls\<close>

record os =
  os_open :: "int list"
  os_calls :: nat
  os_ok :: "nat \<Rightarrow> bool"
  os_name :: "nat \<Rightarrow> u8 list \<times> nat"

definition sys_call :: "os \<Rightarrow> bool \<times> os" where
  "sys_call k = (os_ok k (os_calls k), k\<lparr>os_calls := Suc (os_calls k)\<rparr>)"

definition free_fd :: "int list \<Rightarrow> int" where
  "free_fd fds = hd (filter (\<lambda>fd. fd \<notin> set fds) [0..int (length fds)])"

definition sys_new_fd :: "os \<Rightarrow> int \<times> os" where
  "sys_new_fd k =
     (let (ok, k) = sys_call k; fd = free_fd (os_open k) in
      if ok then (fd, k\<lparr>os_open := fd # os_open k\<rparr>) else (-1, k))"

definition sys_close :: "int \<Rightarrow> os \<Rightarrow> os" where
  "sys_close fd k = k\<lparr>os_open := removeAll fd (os_open k)\<rparr>"

definition sys_name :: "os \<Rightarrow> (u8 list \<times> nat) option \<times> os" where
  "sys_name k = (case sys_call k of (ok, k') \<Rightarrow> (if ok then Some (os_name k (os_calls k)) else None, k'))"

section \<open>The class\<close>

record Socket =
  so_sock :: int
  so_family :: u16
  so_type :: int
  so_protocol :: int
  so_isConnected :: bool
  so_localAddress :: "Address option"
  so_remoteAddress :: "Address option"

definition SOCK_STREAM :: int where "SOCK_STREAM = 1"

definition SOCK_DGRAM :: int where "SOCK_DGRAM = 2"

definition Socket_new :: "u16 \<Rightarrow> int \<Rightarrow> int \<Rightarrow> Socket" where
  "Socket_new family type protocol =
     \<lparr>so_sock = -1, so_family = family, so_type = type, so_protocol = protocol, so_isConnected = False,
      so_localAddress = None, so_remoteAddress = None\<rparr>"

definition Socket_isValid :: "Socket \<Rightarrow> bool" where
  "Socket_isValid s \<longleftrightarrow> so_sock s \<noteq> -1"

definition Socket_setOption :: "os \<Rightarrow> bool \<times> os" where
  "Socket_setOption k = sys_call k"

definition Socket_initSock :: "Socket \<Rightarrow> os \<Rightarrow> os" where
  "Socket_initSock s k =
     (let k = snd (Socket_setOption k) in if so_type s = SOCK_STREAM then snd (Socket_setOption k) else k)"

definition Socket_newSock :: "Socket \<Rightarrow> os \<Rightarrow> Socket \<times> os" where
  "Socket_newSock s k =
     (case sys_new_fd k of (fd, k) \<Rightarrow>
        let s = s\<lparr>so_sock := fd\<rparr> in (s, if fd \<noteq> -1 then Socket_initSock s k else k))"

definition Socket_CreateTCP :: "Address \<Rightarrow> Socket" where
  "Socket_CreateTCP address = Socket_new (Address_getFamily address) SOCK_STREAM 0"

definition Socket_CreateUDP :: "Address \<Rightarrow> os \<Rightarrow> Socket \<times> os" where
  "Socket_CreateUDP address k =
     (case Socket_newSock (Socket_new (Address_getFamily address) SOCK_DGRAM 0) k of
        (s, k) \<Rightarrow> (s\<lparr>so_isConnected := True\<rparr>, k))"

definition Socket_CreateTCPSocket :: Socket where
  "Socket_CreateTCPSocket = Socket_new AF_INET SOCK_STREAM 0"

definition Socket_CreateUDPSocket :: "os \<Rightarrow> Socket \<times> os" where
  "Socket_CreateUDPSocket k =
     (case Socket_newSock (Socket_new AF_INET SOCK_DGRAM 0) k of (s, k) \<Rightarrow> (s\<lparr>so_isConnected := True\<rparr>, k))"

definition Socket_CreateTCPSocket6 :: Socket where
  "Socket_CreateTCPSocket6 = Socket_new AF_INET6 SOCK_STREAM 0"

definition Socket_CreateUDPSocket6 :: "os \<Rightarrow> Socket \<times> os" where
  "Socket_CreateUDPSocket6 k =
     (case Socket_newSock (Socket_new AF_INET6 SOCK_DGRAM 0) k of (s, k) \<Rightarrow> (s\<lparr>so_isConnected := True\<rparr>, k))"

definition Socket_CreateUnixTCPSocket :: Socket where
  "Socket_CreateUnixTCPSocket = Socket_new AF_UNIX SOCK_STREAM 0"

definition Socket_CreateUnixUDPSocket :: Socket where
  "Socket_CreateUnixUDPSocket = Socket_new AF_UNIX SOCK_DGRAM 0"

definition Socket_close :: "Socket \<Rightarrow> os \<Rightarrow> bool \<times> Socket \<times> os" where
  "Socket_close s k =
     (if \<not> so_isConnected s \<and> so_sock s = -1 then (True, s, k)
      else let s = s\<lparr>so_isConnected := False\<rparr> in
        if so_sock s \<noteq> -1 then (False, s\<lparr>so_sock := -1\<rparr>, sys_close (so_sock s) k) else (False, s, k))"

definition Socket_delete :: "Socket \<Rightarrow> os \<Rightarrow> os" where
  "Socket_delete s k = snd (snd (Socket_close s k))"

subsection \<open>Addresses\<close>

text \<open>
  The object that \<open>getRemoteAddress\<close> and \<open>getLocalAddress\<close> create for the family, after the kernel has written the
  bytes of a name into it; a Unix address also gets its length.
\<close>

definition name_address :: "u16 \<Rightarrow> u8 list \<Rightarrow> nat \<Rightarrow> Address" where
  "name_address family bytes addrlen =
     (if family = AF_INET then IPv4Address (sockaddr_in_of_bytes bytes)
      else if family = AF_INET6 then IPv6Address (sockaddr_in6_of_bytes bytes)
      else if family = AF_UNIX then
        UnixAddress_setAddrLen
          (UnixAddress \<lparr>sun_family = mem_family bytes, sun_path = take SUN_PATH_SIZE (drop 2 bytes)\<rparr> 0) addrlen
      else UnknownAddress (sockaddr_any_of_bytes bytes))"

definition Socket_getRemoteAddress :: "Socket \<Rightarrow> os \<Rightarrow> Address \<times> Socket \<times> os" where
  "Socket_getRemoteAddress s k =
     (case so_remoteAddress s of
        Some a \<Rightarrow> (a, s, k)
      | None \<Rightarrow>
          case sys_name k of
            (None, k) \<Rightarrow> (UnknownAddress_new (so_family s), s, k)
          | (Some (bytes, addrlen), k) \<Rightarrow>
              let a = name_address (so_family s) bytes addrlen in (a, s\<lparr>so_remoteAddress := Some a\<rparr>, k))"

definition Socket_getLocalAddress :: "Socket \<Rightarrow> os \<Rightarrow> Address \<times> Socket \<times> os" where
  "Socket_getLocalAddress s k =
     (case so_localAddress s of
        Some a \<Rightarrow> (a, s, k)
      | None \<Rightarrow>
          case sys_name k of
            (None, k) \<Rightarrow> (UnknownAddress_new (so_family s), s, k)
          | (Some (bytes, addrlen), k) \<Rightarrow>
              let a = name_address (so_family s) bytes addrlen in (a, s\<lparr>so_localAddress := Some a\<rparr>, k))"

subsection \<open>Connections\<close>

text \<open>\<open>timeout_ms\<close> only selects between \<open>connect\<close> and \<open>connect_with_timeout\<close>, both a call of the system here.\<close>

definition Socket_connect :: "Socket \<Rightarrow> Address \<Rightarrow> os \<Rightarrow> bool \<times> Socket \<times> os" where
  "Socket_connect s addr k =
     (let s = s\<lparr>so_remoteAddress := Some addr\<rparr>;
          (s, k) = (if \<not> Socket_isValid s then Socket_newSock s k else (s, k)) in
      if \<not> Socket_isValid s then (False, s, k)
      else if Address_getFamily addr \<noteq> so_family s then (False, s, k)
      else
        case sys_call k of (ok, k) \<Rightarrow>
          if \<not> ok then (False, snd (Socket_close s k))
          else
            let s = s\<lparr>so_isConnected := True\<rparr>;
                (_, s, k) = Socket_getRemoteAddress s k;
                (_, s, k) = Socket_getLocalAddress s k in
            (True, s, k))"

definition Socket_reconnect :: "Socket \<Rightarrow> os \<Rightarrow> bool \<times> Socket \<times> os" where
  "Socket_reconnect s k =
     (case so_remoteAddress s of
        None \<Rightarrow> (False, s, k)
      | Some addr \<Rightarrow> Socket_connect (s\<lparr>so_localAddress := None\<rparr>) addr k)"

text \<open>
  \<open>bind\<close>: for a Unix address a second socket tries to connect, to see whether somebody listens there, and the
  file is removed when it cannot; the destructor of that socket runs at the end of its block, also on the early
  return.
\<close>

definition unix_in_use :: "Address \<Rightarrow> os \<Rightarrow> bool \<times> os" where
  "unix_in_use addr k =
     (case addr of
        UnixAddress _ _ \<Rightarrow>
          (case Socket_connect Socket_CreateUnixTCPSocket addr k of
             (True, s, k) \<Rightarrow> (True, Socket_delete s k)
           | (False, s, k) \<Rightarrow> (False, Socket_delete s (snd (sys_call k))))
      | _ \<Rightarrow> (False, k))"

definition Socket_bind :: "Socket \<Rightarrow> Address \<Rightarrow> os \<Rightarrow> bool \<times> Socket \<times> os" where
  "Socket_bind s addr k =
     (let (s, k) = (if \<not> Socket_isValid s then Socket_newSock s k else (s, k)) in
      if \<not> Socket_isValid s then (False, s, k)
      else if Address_getFamily addr \<noteq> so_family s then (False, s, k)
      else
        case unix_in_use addr k of
          (True, k) \<Rightarrow> (False, s, k)
        | (False, k) \<Rightarrow>
            case sys_call k of (ok, k) \<Rightarrow>
              if \<not> ok then (False, s, k)
              else case Socket_getLocalAddress s k of (_, s, k) \<Rightarrow> (True, s, k))"

definition Socket_listen :: "Socket \<Rightarrow> os \<Rightarrow> bool \<times> os" where
  "Socket_listen s k = (if \<not> Socket_isValid s then (False, k) else sys_call k)"

text \<open>\<open>has_ctx\<close>: the descriptor manager has a context of an open socket for the descriptor.\<close>

definition Socket_init :: "(int \<Rightarrow> bool) \<Rightarrow> Socket \<Rightarrow> int \<Rightarrow> os \<Rightarrow> bool \<times> Socket \<times> os" where
  "Socket_init has_ctx s sock k =
     (if has_ctx sock then
        let s = s\<lparr>so_sock := sock, so_isConnected := True\<rparr>;
            k = Socket_initSock s k;
            (_, s, k) = Socket_getLocalAddress s k;
            (_, s, k) = Socket_getRemoteAddress s k in
        (True, s, k)
      else (False, s, k))"

definition Socket_accept :: "(int \<Rightarrow> bool) \<Rightarrow> Socket \<Rightarrow> os \<Rightarrow> Socket option \<times> os" where
  "Socket_accept has_ctx s k =
     (case sys_new_fd k of (newsock, k) \<Rightarrow>
        if newsock = -1 then (None, k)
        else
          case Socket_init has_ctx (Socket_new (so_family s) (so_type s) (so_protocol s)) newsock k of
            (True, sock, k) \<Rightarrow> (Some sock, k)
          | (False, sock, k) \<Rightarrow> (None, Socket_delete sock k))"

subsection \<open>Transfers, errors, printing\<close>

text \<open>
  The transfers build the request to the system and issue it when the socket is connected. A buffer is a value of
  type \<open>'b\<close>; \<open>sys\<close> is the system, which answers a request with a result and a new state.
\<close>

record 'b msghdr =
  msg_name :: "Address option"
  msg_namelen :: nat
  msg_iov :: 'b
  msg_iovlen :: u64

datatype 'b request =
    Sys_send int 'b u64 int
  | Sys_sendmsg int "'b msghdr" int
  | Sys_sendto int 'b u64 int Address nat
  | Sys_recv int 'b u64 int
  | Sys_recvmsg int "'b msghdr" int
  | Sys_recvfrom int 'b u64 int Address nat

definition Socket_send :: "('b request \<Rightarrow> 'k \<Rightarrow> int \<times> 'k) \<Rightarrow> Socket \<Rightarrow> 'b \<Rightarrow> u64 \<Rightarrow> int \<Rightarrow> 'k \<Rightarrow> int \<times> 'k" where
  "Socket_send sys s buffer len flags k =
     (if so_isConnected s then sys (Sys_send (so_sock s) buffer len flags) k else (-1, k))"

definition Socket_send_iov :: "('b request \<Rightarrow> 'k \<Rightarrow> int \<times> 'k) \<Rightarrow> Socket \<Rightarrow> 'b \<Rightarrow> u64 \<Rightarrow> int \<Rightarrow> 'k \<Rightarrow> int \<times> 'k" where
  "Socket_send_iov sys s buffers len flags k =
     (if so_isConnected s then
        let msg = \<lparr>msg_name = None, msg_namelen = 0, msg_iov = buffers, msg_iovlen = len\<rparr> in
        sys (Sys_sendmsg (so_sock s) msg flags) k
      else (-1, k))"

definition Socket_sendTo ::
    "('b request \<Rightarrow> 'k \<Rightarrow> int \<times> 'k) \<Rightarrow> Socket \<Rightarrow> 'b \<Rightarrow> u64 \<Rightarrow> Address \<Rightarrow> int \<Rightarrow> 'k \<Rightarrow> int \<times> 'k" where
  "Socket_sendTo sys s buffer len to flags k =
     (if so_isConnected s then sys (Sys_sendto (so_sock s) buffer len flags to (Address_getAddrLen to)) k else (-1, k))"

definition Socket_sendTo_iov ::
    "('b request \<Rightarrow> 'k \<Rightarrow> int \<times> 'k) \<Rightarrow> Socket \<Rightarrow> 'b \<Rightarrow> u64 \<Rightarrow> Address \<Rightarrow> int \<Rightarrow> 'k \<Rightarrow> int \<times> 'k" where
  "Socket_sendTo_iov sys s buffers len to flags k =
     (if so_isConnected s then
        let msg = \<lparr>msg_name = Some to, msg_namelen = Address_getAddrLen to, msg_iov = buffers, msg_iovlen = len\<rparr> in
        sys (Sys_sendmsg (so_sock s) msg flags) k
      else (-1, k))"

definition Socket_recv :: "('b request \<Rightarrow> 'k \<Rightarrow> int \<times> 'k) \<Rightarrow> Socket \<Rightarrow> 'b \<Rightarrow> u64 \<Rightarrow> int \<Rightarrow> 'k \<Rightarrow> int \<times> 'k" where
  "Socket_recv sys s buffer len flags k =
     (if so_isConnected s then sys (Sys_recv (so_sock s) buffer len flags) k else (-1, k))"

definition Socket_recv_iov :: "('b request \<Rightarrow> 'k \<Rightarrow> int \<times> 'k) \<Rightarrow> Socket \<Rightarrow> 'b \<Rightarrow> u64 \<Rightarrow> int \<Rightarrow> 'k \<Rightarrow> int \<times> 'k" where
  "Socket_recv_iov sys s buffers len flags k =
     (if so_isConnected s then
        let msg = \<lparr>msg_name = None, msg_namelen = 0, msg_iov = buffers, msg_iovlen = len\<rparr> in
        sys (Sys_recvmsg (so_sock s) msg flags) k
      else (-1, k))"

definition Socket_recvFrom ::
    "('b request \<Rightarrow> 'k \<Rightarrow> int \<times> 'k) \<Rightarrow> Socket \<Rightarrow> 'b \<Rightarrow> u64 \<Rightarrow> Address \<Rightarrow> int \<Rightarrow> 'k \<Rightarrow> int \<times> 'k" where
  "Socket_recvFrom sys s buffer len from_addr flags k =
     (if so_isConnected s
      then sys (Sys_recvfrom (so_sock s) buffer len flags from_addr (Address_getAddrLen from_addr)) k else (-1, k))"

definition Socket_recvFrom_iov ::
    "('b request \<Rightarrow> 'k \<Rightarrow> int \<times> 'k) \<Rightarrow> Socket \<Rightarrow> 'b \<Rightarrow> u64 \<Rightarrow> Address \<Rightarrow> int \<Rightarrow> 'k \<Rightarrow> int \<times> 'k" where
  "Socket_recvFrom_iov sys s buffers len from_addr flags k =
     (if so_isConnected s then
        let msg = \<lparr>msg_name = Some from_addr, msg_namelen = Address_getAddrLen from_addr, msg_iov = buffers, msg_iovlen = len\<rparr> in
        sys (Sys_recvmsg (so_sock s) msg flags) k
      else (-1, k))"

lemmas Socket_transfer_defs =
  Socket_send_def Socket_send_iov_def Socket_sendTo_def Socket_sendTo_iov_def
  Socket_recv_def Socket_recv_iov_def Socket_recvFrom_def Socket_recvFrom_iov_def

text \<open>\<open>call\<close> is \<open>getsockopt\<close>: success, the value, \<open>errno\<close>.\<close>

definition Socket_getError :: "Socket \<Rightarrow> (int \<Rightarrow> bool \<times> int \<times> int) \<Rightarrow> int" where
  "Socket_getError s call = (case call (so_sock s) of (ok, error, errno) \<Rightarrow> if ok then error else errno)"

definition Socket_dump_as :: "string \<Rightarrow> Socket \<Rightarrow> string" where
  "Socket_dump_as name s =
     ''['' @ name @ '' sock='' @ show_int (so_sock s) @
     '' is_connected='' @ (if so_isConnected s then ''1'' else ''0'') @
     '' family='' @ show_dec (unat (so_family s)) @ '' type='' @ show_int (so_type s) @
     '' protocol='' @ show_int (so_protocol s) @
     (case so_localAddress s of None \<Rightarrow> [] | Some a \<Rightarrow> '' local_address='' @ Address_toString a) @
     (case so_remoteAddress s of None \<Rightarrow> [] | Some a \<Rightarrow> '' remote_address='' @ Address_toString a) @ '']''"

definition Socket_dump :: "Socket \<Rightarrow> string" where
  "Socket_dump s = Socket_dump_as ''Socket'' s"

definition SSLSocket_dump :: "Socket \<Rightarrow> string" where
  "SSLSocket_dump s = Socket_dump_as ''SSLSocket'' s"

subsection \<open>Timeouts\<close>

text \<open>\<open>struct timeval tv{int(v / 1000), int(v % 1000 * 1000)}\<close>; the hooked \<open>setsockopt\<close> records it.\<close>

definition as_int :: "int \<Rightarrow> int" where
  "as_int x = (x + 2 ^ 31) mod 2 ^ 32 - 2 ^ 31"

definition Socket_setTimeout :: "nat \<Rightarrow> Socket \<Rightarrow> int \<Rightarrow> hook_state \<Rightarrow> hook_error + hook_state" where
  "Socket_setTimeout optname s v h =
     hook_setsockopt h (so_sock s) SOL_SOCKET optname
       (as_int (cdiv v 1000)) (as_int ((v - cdiv v 1000 * 1000) * 1000))"

definition Socket_setSendTimeout :: "Socket \<Rightarrow> int \<Rightarrow> hook_state \<Rightarrow> hook_error + hook_state" where
  "Socket_setSendTimeout = Socket_setTimeout SO_SNDTIMEO"

definition Socket_setRecvTimeout :: "Socket \<Rightarrow> int \<Rightarrow> hook_state \<Rightarrow> hook_error + hook_state" where
  "Socket_setRecvTimeout = Socket_setTimeout SO_RCVTIMEO"

definition Socket_getTimeout :: "nat \<Rightarrow> Socket \<Rightarrow> hook_state \<Rightarrow> hook_error + int" where
  "Socket_getTimeout optname s h =
     bindE (lookup_ctx h (so_sock s)) (\<lambda>ctx.
       Inr (case ctx of None \<Rightarrow> -1 | Some c \<Rightarrow> sint (FdCtx_getTimeout c optname)))"

definition Socket_getSendTimeout :: "Socket \<Rightarrow> hook_state \<Rightarrow> hook_error + int" where
  "Socket_getSendTimeout = Socket_getTimeout SO_SNDTIMEO"

definition Socket_getRecvTimeout :: "Socket \<Rightarrow> hook_state \<Rightarrow> hook_error + int" where
  "Socket_getRecvTimeout = Socket_getTimeout SO_RCVTIMEO"

section \<open>Descriptors\<close>

lemma free_fd: "0 \<le> free_fd fds" "free_fd fds \<notin> set fds"
proof -
  have "\<not> set [0..int (length fds)] \<subseteq> set fds"
  proof
    assume "set [0..int (length fds)] \<subseteq> set fds"
    then have "card (set [0..int (length fds)]) \<le> length fds"
      by (meson List.finite_set card_length card_mono le_trans)
    then show False by simp
  qed
  then have "filter (\<lambda>fd. fd \<notin> set fds) [0..int (length fds)] \<noteq> []"
    by (auto simp: filter_empty_conv)
  then have "free_fd fds \<in> set (filter (\<lambda>fd. fd \<notin> set fds) [0..int (length fds)])"
    unfolding free_fd_def by (rule hd_in_set)
  then show "0 \<le> free_fd fds" "free_fd fds \<notin> set fds" by auto
qed

definition own :: "Socket \<Rightarrow> int set" where
  "own s = (if so_sock s = -1 then {} else {so_sock s})"

text \<open>\<open>owns fds s k\<close>: the open descriptors are \<open>fds\<close>, which belong to others, and the one of the socket.\<close>

definition owns :: "int set \<Rightarrow> Socket \<Rightarrow> os \<Rightarrow> bool" where
  "owns fds s k \<longleftrightarrow> set (os_open k) = fds \<union> own s \<and> fds \<inter> own s = {}"

lemma os_open_calls [simp]:
  "sys_call k = (b, k') \<Longrightarrow> os_open k' = os_open k" "os_open (snd (sys_call k)) = os_open k"
  "sys_name k = (r, k') \<Longrightarrow> os_open k' = os_open k" "os_open (Socket_initSock s k) = os_open k"
  "os_open (snd (Socket_setOption k)) = os_open k"
  by (auto simp: sys_call_def sys_name_def Socket_initSock_def Socket_setOption_def Let_def)

lemma address_calls:
  "Socket_getRemoteAddress s k = (a, s', k') \<Longrightarrow> so_sock s' = so_sock s \<and> os_open k' = os_open k"
  "Socket_getLocalAddress s k = (a, s', k') \<Longrightarrow> so_sock s' = so_sock s \<and> os_open k' = os_open k"
  by (auto simp: Socket_getRemoteAddress_def Socket_getLocalAddress_def Let_def split: option.splits prod.splits)

lemma owns_cong: "so_sock s' = so_sock s \<Longrightarrow> os_open k' = os_open k \<Longrightarrow> owns fds s' k' = owns fds s k"
  by (simp add: owns_def own_def)

lemma owns_newSock:
  assumes "owns fds s k" "so_sock s = -1" "Socket_newSock s k = (s', k')"
  shows "owns fds s' k'"
proof (cases "fst (sys_call k)")
  case True
  define fd where "fd = free_fd (os_open k)"
  have "s' = s\<lparr>so_sock := fd\<rparr>" "os_open k' = fd # os_open k" "fd \<noteq> -1" "fd \<notin> set (os_open k)"
    using assms(3) True free_fd [of "os_open k"]
    by (auto simp: Socket_newSock_def sys_new_fd_def fd_def Let_def split: prod.splits)
  then show ?thesis using assms(1,2) by (auto simp: owns_def own_def)
next
  case False
  then have "so_sock s' = -1" "os_open k' = os_open k"
    using assms(3) by (auto simp: Socket_newSock_def sys_new_fd_def Let_def split: prod.splits)
  then show ?thesis using assms(1,2) by (simp add: owns_def own_def)
qed

lemma owns_close:
  assumes "owns fds s k" "Socket_close s k = (b, s', k')"
  shows "owns fds s' k'" "so_sock s' = -1" "\<not> so_isConnected s'"
  using assms by (auto simp: Socket_close_def owns_def own_def sys_close_def Let_def split: if_splits)

text \<open>Behind \<open>close\<close> no transfer reaches the system: a descriptor that is used again by somebody else is not touched.\<close>

lemma closed_no_transfer:
  assumes "Socket_close s k = (b, s', k')"
  shows "Socket_send sys s' x n f q = (-1, q)" "Socket_send_iov sys s' x n f q = (-1, q)"
    and "Socket_sendTo sys s' x n a f q = (-1, q)" "Socket_sendTo_iov sys s' x n a f q = (-1, q)"
    and "Socket_recv sys s' x n f q = (-1, q)" "Socket_recv_iov sys s' x n f q = (-1, q)"
    and "Socket_recvFrom sys s' x n a f q = (-1, q)" "Socket_recvFrom_iov sys s' x n a f q = (-1, q)"
proof -
  have "\<not> so_isConnected s'" using assms by (auto simp: Socket_close_def Let_def split: if_splits)
  then show "Socket_send sys s' x n f q = (-1, q)" "Socket_send_iov sys s' x n f q = (-1, q)"
    and "Socket_sendTo sys s' x n a f q = (-1, q)" "Socket_sendTo_iov sys s' x n a f q = (-1, q)"
    and "Socket_recv sys s' x n f q = (-1, q)" "Socket_recv_iov sys s' x n f q = (-1, q)"
    and "Socket_recvFrom sys s' x n a f q = (-1, q)" "Socket_recvFrom_iov sys s' x n a f q = (-1, q)"
    by (simp_all add: Socket_transfer_defs)
qed

lemma owns_delete: "owns fds s k \<Longrightarrow> set (os_open (Socket_delete s k)) = fds"
  using owns_close [of fds s k "fst (Socket_close s k)" "fst (snd (Socket_close s k))" "snd (snd (Socket_close s k))"]
  by (simp add: Socket_delete_def owns_def own_def)

lemma owns_connect:
  assumes "owns fds s k" "Socket_connect s addr k = (b, s', k')"
  shows "owns fds s' k'"
proof -
  define s0 where "s0 = s\<lparr>so_remoteAddress := Some addr\<rparr>"
  obtain s1 k1 where 1: "(if \<not> Socket_isValid s0 then Socket_newSock s0 k else (s0, k)) = (s1, k1)" by force
  have "owns fds s0 k" using assms(1) owns_cong [of s0 s k k] by (simp add: s0_def)
  then have o1: "owns fds s1 k1"
    using 1 owns_newSock [of fds s0 k s1 k1] by (auto simp: Socket_isValid_def split: if_splits)
  have "Socket_connect s addr k =
    (if \<not> Socket_isValid s1 \<or> Address_getFamily addr \<noteq> so_family s1 then (False, s1, k1)
     else case sys_call k1 of (ok, k) \<Rightarrow>
       if \<not> ok then (False, snd (Socket_close s1 k))
       else let s = s1\<lparr>so_isConnected := True\<rparr>;
                (_, s, k) = Socket_getRemoteAddress s k;
                (_, s, k) = Socket_getLocalAddress s k in (True, s, k))"
    unfolding Socket_connect_def Let_def s0_def [symmetric] 1 by (simp split: prod.splits)
  moreover obtain ok k2 where 2: "sys_call k1 = (ok, k2)" by force
  moreover from this have o2: "owns fds s1 k2" using o1 by (subst owns_cong [of s1 s1]) auto
  moreover obtain b' s3 k3 where 3: "Socket_close s1 k2 = (b', s3, k3)" by (metis prod_cases3)
  moreover from this have "owns fds s3 k3" by (rule owns_close [OF o2])
  moreover obtain a4 s4 k4 where 4: "Socket_getRemoteAddress (s1\<lparr>so_isConnected := True\<rparr>) k2 = (a4, s4, k4)" by (metis prod_cases3)
  moreover obtain a5 s5 k5 where 5: "Socket_getLocalAddress s4 k4 = (a5, s5, k5)" by (metis prod_cases3)
  moreover have "owns fds s5 k5"
    using address_calls(1) [OF 4] address_calls(2) [OF 5] o2 by (subst owns_cong [of s5 s1 k5 k2]) auto
  ultimately show ?thesis
    using assms(2) o1 by (auto simp: Let_def split: if_splits)
qed

lemma unix_in_use_open: "unix_in_use addr k = (b, k') \<Longrightarrow> set (os_open k') = set (os_open k)"
proof (cases addr)
  case (UnixAddress u n)
  assume a: "unix_in_use addr k = (b, k')"
  obtain b1 s1 k1 where 1: "Socket_connect Socket_CreateUnixTCPSocket addr k = (b1, s1, k1)" by (metis prod_cases3)
  have "owns (set (os_open k)) Socket_CreateUnixTCPSocket k"
    by (simp add: owns_def own_def Socket_CreateUnixTCPSocket_def Socket_new_def)
  from owns_connect [OF this 1] have o1: "owns (set (os_open k)) s1 k1" .
  then have "owns (set (os_open k)) s1 (snd (sys_call k1))" by (subst owns_cong [of s1 s1]) auto
  then show ?thesis
    using a owns_delete [OF o1] owns_delete [of "set (os_open k)" s1 "snd (sys_call k1)"]
    by (cases b1) (auto simp: unix_in_use_def UnixAddress 1 [unfolded UnixAddress])
qed (auto simp: unix_in_use_def)

lemma owns_bind:
  assumes "owns fds s k" "Socket_bind s addr k = (b, s', k')"
  shows "owns fds s' k'"
proof -
  obtain s1 k1 where 1: "(if \<not> Socket_isValid s then Socket_newSock s k else (s, k)) = (s1, k1)" by force
  have o1: "owns fds s1 k1"
    using 1 assms(1) owns_newSock [of fds s k s1 k1] by (auto simp: Socket_isValid_def split: if_splits)
  obtain used k2 where 2: "unix_in_use addr k1 = (used, k2)" by force
  then have o2: "owns fds s1 k2" using o1 unix_in_use_open [OF 2] by (simp add: owns_def)
  obtain ok k3 where 3: "sys_call k2 = (ok, k3)" by force
  obtain a4 s4 k4 where 4: "Socket_getLocalAddress s1 k3 = (a4, s4, k4)" by (metis prod_cases3)
  have o3: "owns fds s1 k3" "owns fds s4 k4"
    using o2 3 address_calls(2) [OF 4] owns_cong [of s1 s1 k3 k2] owns_cong [of s4 s1 k4 k2] by auto
  have "Socket_bind s addr k =
    (if \<not> Socket_isValid s1 \<or> Address_getFamily addr \<noteq> so_family s1 then (False, s1, k1)
     else if used then (False, s1, k2) else if \<not> ok then (False, s1, k3) else (True, s4, k4))"
    unfolding Socket_bind_def Let_def 1 by (simp add: 2 3 4 split: bool.splits)
  then show ?thesis using assms(2) o1 o2 o3 by (auto split: if_splits)
qed

lemma owns_accept:
  assumes "owns fds s k" "Socket_accept has_ctx s k = (r, k')"
  shows "case r of
      Some c \<Rightarrow> owns (insert (so_sock c) fds) s k' \<and> owns (set (os_open k)) c k' \<and> so_isConnected c \<and> so_sock c \<noteq> -1
    | None \<Rightarrow> owns fds s k' \<or> (\<exists>fd. \<not> has_ctx fd \<and> fd \<notin> set (os_open k) \<and> owns (insert fd fds) s k')"
proof (cases "fst (sys_call k)")
  case True
  define fd where "fd = free_fd (os_open k)"
  define k1 where "k1 = (snd (sys_call k))\<lparr>os_open := fd # os_open k\<rparr>"
  have fd: "fd \<noteq> -1" "fd \<notin> set (os_open k)" using free_fd [of "os_open k"] by (auto simp: fd_def)
  have new: "sys_new_fd k = (fd, k1)"
    using True by (auto simp: sys_new_fd_def fd_def k1_def Let_def split: prod.splits)
  let ?c = "Socket_new (so_family s) (so_type s) (so_protocol s)"
  show ?thesis
  proof (cases "has_ctx fd")
    case False
    then have "r = None" "k' = k1"
      using assms(2) new fd(1)
      by (auto simp: Socket_accept_def Socket_init_def Socket_delete_def Socket_close_def Socket_new_def)
    moreover have "owns (insert fd fds) s k1"
      using assms(1) fd by (auto simp: owns_def own_def k1_def)
    ultimately show ?thesis using False fd(2) by auto
  next
    case ctx: True
    define c1 where "c1 = ?c\<lparr>so_sock := fd, so_isConnected := True\<rparr>"
    obtain a2 c2 k2 where 2: "Socket_getLocalAddress c1 (Socket_initSock c1 k1) = (a2, c2, k2)" by (metis prod_cases3)
    obtain a3 c3 k3 where 3: "Socket_getRemoteAddress c2 k2 = (a3, c3, k3)" by (metis prod_cases3)
    have "r = Some c3" "k' = k3"
      using assms(2) new fd(1) ctx 2 3 by (auto simp: Socket_accept_def Socket_init_def Let_def c1_def [symmetric])
    moreover have "so_sock c3 = fd" "os_open k3 = fd # os_open k"
      using address_calls(2) [OF 2] address_calls(1) [OF 3] by (simp_all add: c1_def k1_def)
    moreover have "so_isConnected c3"
      using 2 3 by (auto simp: Socket_getRemoteAddress_def Socket_getLocalAddress_def c1_def Let_def split: option.splits prod.splits)
    ultimately show ?thesis using assms(1) fd by (auto simp: owns_def own_def)
  qed
next
  case False
  then have "r = None" "os_open k' = os_open k"
    using assms(2) by (auto simp: Socket_accept_def sys_new_fd_def Let_def split: prod.splits)
  then show ?thesis using assms(1) owns_cong [of s s k' k] by auto
qed

text \<open>
  The sockets of a process and what is done with one of them, interleaved with others opening and closing
  descriptors of their own (\<open>env\<close>).
\<close>

inductive socket_reach :: "int set \<Rightarrow> Socket \<Rightarrow> os \<Rightarrow> bool" where
  new: "socket_reach (set (os_open k)) (Socket_new family type protocol) k"
| udp: "Socket_CreateUDP addr k = (s, k') \<Longrightarrow> socket_reach (set (os_open k)) s k'"
| env: "socket_reach fds s k \<Longrightarrow> set (os_open k') = fds' \<union> own s \<Longrightarrow> fds' \<inter> own s = {} \<Longrightarrow> socket_reach fds' s k'"
| connect: "socket_reach fds s k \<Longrightarrow> Socket_connect s addr k = (b, s', k') \<Longrightarrow> socket_reach fds s' k'"
| reconnect: "socket_reach fds s k \<Longrightarrow> Socket_reconnect s k = (b, s', k') \<Longrightarrow> socket_reach fds s' k'"
| bind: "socket_reach fds s k \<Longrightarrow> Socket_bind s addr k = (b, s', k') \<Longrightarrow> socket_reach fds s' k'"
| listen: "socket_reach fds s k \<Longrightarrow> Socket_listen s k = (b, k') \<Longrightarrow> socket_reach fds s k'"
| remote: "socket_reach fds s k \<Longrightarrow> Socket_getRemoteAddress s k = (a, s', k') \<Longrightarrow> socket_reach fds s' k'"
| local: "socket_reach fds s k \<Longrightarrow> Socket_getLocalAddress s k = (a, s', k') \<Longrightarrow> socket_reach fds s' k'"
| accept: "socket_reach fds s k \<Longrightarrow> Socket_accept has_ctx s k = (Some c, k') \<Longrightarrow> socket_reach (insert (so_sock c) fds) s k'"
| accepted: "socket_reach fds s k \<Longrightarrow> Socket_accept has_ctx s k = (Some c, k') \<Longrightarrow> socket_reach (set (os_open k)) c k'"
| close: "socket_reach fds s k \<Longrightarrow> Socket_close s k = (b, s', k') \<Longrightarrow> socket_reach fds s' k'"

lemma owns_new: "owns (set (os_open k)) (Socket_new family type protocol) k"
  by (simp add: owns_def own_def Socket_new_def)

lemma owns_env: "set (os_open k) = fds \<union> own s \<Longrightarrow> fds \<inter> own s = {} \<Longrightarrow> owns fds s k"
  by (simp add: owns_def)

lemma socket_reach_owns: "socket_reach fds s k \<Longrightarrow> owns fds s k"
proof (induction rule: socket_reach.induct)
  case (udp addr k s k')
  let ?n = "Socket_new (Address_getFamily addr) SOCK_DGRAM 0"
  obtain s1 where 1: "Socket_newSock ?n k = (s1, k')" "s = s1\<lparr>so_isConnected := True\<rparr>"
    using udp by (auto simp: Socket_CreateUDP_def split: prod.splits)
  from owns_newSock [OF owns_new _ 1(1)] show ?case
    using owns_cong [of s s1 k' k'] by (simp add: 1(2) Socket_new_def)
next
  case (reconnect fds s k b s' k')
  then show ?case
    using owns_cong [of "s\<lparr>so_localAddress := None\<rparr>" s k k]
    by (auto simp: Socket_reconnect_def split: option.splits intro: owns_connect)
next
  case (listen fds s k b k')
  then have "os_open k' = os_open k" by (auto simp: Socket_listen_def split: if_splits)
  then show ?case using listen owns_cong [of s s k' k] by simp
next
  case (accept fds s k has_ctx c k')
  then show ?case using owns_accept [of fds s k has_ctx "Some c" k'] by simp
next
  case (accepted fds s k has_ctx c k')
  then show ?case using owns_accept [of fds s k has_ctx "Some c" k'] by simp
next
  case (remote fds s k a s' k')
  then show ?case using address_calls(1) owns_cong by blast
next
  case (local fds s k a s' k')
  then show ?case using address_calls(2) owns_cong by blast
qed (auto simp: owns_new owns_env dest: owns_connect owns_bind owns_close)

declare os_open_calls(1,3) [simp del]

section \<open>Properties\<close>


definition example_os :: os where
  "example_os = \<lparr>os_open = [0, 1, 2], os_calls = 0, os_ok = (\<lambda>n. n \<noteq> 4), os_name = (\<lambda>n. ([], 0))\<rparr>"


text \<open>
  \<open>accept\<close> has the one exception: when the connection has been accepted but the descriptor manager has no
  context for the new descriptor, it returns no socket and leaves the descriptor open, belonging to nobody.
\<close>

theorem Socket_accept_leaks:
  assumes "os_ok k (os_calls k)" "\<not> has_ctx (free_fd (os_open k))"
  shows "\<exists>k'. Socket_accept has_ctx s k = (None, k') \<and> set (os_open k') = insert (free_fd (os_open k)) (set (os_open k)) \<and>
    free_fd (os_open k) \<notin> set (os_open k)"
proof -
  let ?fd = "free_fd (os_open k)"
  let ?k = "k\<lparr>os_calls := Suc (os_calls k), os_open := ?fd # os_open k\<rparr>"
  have "sys_new_fd k = (?fd, ?k)" using assms(1) by (simp add: sys_new_fd_def sys_call_def Let_def)
  moreover have "?fd \<noteq> -1" using free_fd(1) [of "os_open k"] by linarith
  ultimately have "Socket_accept has_ctx s k = (None, ?k)"
    using assms(2) by (simp add: Socket_accept_def Socket_init_def Socket_delete_def Socket_close_def Socket_new_def)
  then show ?thesis using free_fd(2) [of "os_open k"] by simp
qed

theorem Socket_accept_leaks_witness:
  "\<exists>k'. Socket_accept (\<lambda>fd. False) Socket_CreateTCPSocket example_os = (None, k') \<and> set (os_open k') = {0, 1, 2, 3}"
proof -
  have "free_fd (os_open example_os) = 3" by (simp add: example_os_def) code_simp
  then show ?thesis
    using Socket_accept_leaks [of example_os "\<lambda>fd. False" Socket_CreateTCPSocket] by (auto simp: example_os_def)
qed

text \<open>
  The timeout that a socket reports is the timeout that was set, for every number of milliseconds from 0 to
  \<open>2^31 * 1000 - 1\<close>, on a descriptor that has a context, when the hooks are on; the other direction keeps its timeout. Beyond
  that range the seconds do not fit into the \<open>int\<close> that the code converts them to.
\<close>

theorem Socket_timeout_round_trip:
  assumes "t_hook_enable h" "lookup_ctx h (so_sock s) = Inr (Some c)" "0 \<le> so_sock s"
    and "nat (so_sock s) < length (h_fds h)" "0 \<le> v" "v < 2 ^ 31 * 1000"
  shows "\<exists>h'. Socket_setRecvTimeout s v h = Inr h' \<and> Socket_getRecvTimeout s h' = Inr v \<and>
    Socket_getSendTimeout s h' = Socket_getSendTimeout s h"
proof -
  have q: "cdiv v 1000 = v div 1000" using assms(5) by (auto simp: cdiv_def sgn_if)
  have r: "v - v div 1000 * 1000 = v mod 1000" by (simp add: minus_div_mult_eq_mod)
  have "as_int (v div 1000) = v div 1000" "as_int (v mod 1000 * 1000) = v mod 1000 * 1000"
    using assms(5,6) by (auto simp: as_int_def div_less_iff_less_mult)
  moreover have "cdiv (v mod 1000 * 1000) 1000 = v mod 1000" by (auto simp: cdiv_def sgn_if)
  moreover have "v div 1000 * 1000 + v mod 1000 = v" by simp
  ultimately have tv: "as_int (cdiv v 1000) * 1000 + cdiv (as_int ((v - cdiv v 1000 * 1000) * 1000)) 1000 = v"
    by (simp only: q r)
  let ?h = "update_ctx h (so_sock s) (c\<lparr>m_recvTimeout := of_int v\<rparr>)"
  have set: "Socket_setRecvTimeout s v h = Inr ?h"
    unfolding Socket_setRecvTimeout_def Socket_setTimeout_def hook_setsockopt_def tv
    using assms(1,2) by (simp add: FdCtx_setTimeout_def)
  have "lookup_ctx ?h (so_sock s) = Inr (Some (c\<lparr>m_recvTimeout := of_int v\<rparr>))"
    using assms(3,4) by (simp add: lookup_ctx_def update_ctx_def FdManager_get_read_def)
  moreover have "sint (of_int v :: u64) = v"
    using assms(5,6) by (subst sint_sbintrunc') (simp add: signed_take_bit_int_eq_self)
  ultimately show ?thesis
    using set assms(2)
    by (simp add: Socket_getRecvTimeout_def Socket_getSendTimeout_def Socket_getTimeout_def FdCtx_getTimeout_def
        SO_RCVTIMEO_def SO_SNDTIMEO_def)
qed

theorem Socket_timeout_round_trip_witness:
  "\<exists>h'. Socket_setRecvTimeout (Socket_CreateTCPSocket\<lparr>so_sock := 3\<rparr>) 2500 example_hook = Inr h' \<and>
    Socket_getRecvTimeout (Socket_CreateTCPSocket\<lparr>so_sock := 3\<rparr>) h' = Inr 2500"
proof -
  have "\<exists>c. lookup_ctx example_hook 3 = Inr (Some c)" "length (h_fds example_hook) = 64" "t_hook_enable example_hook"
    by (simp_all add: lookup_ctx_def FdManager_get_read_def example_hook_def FdManager_new_def)
  then show ?thesis
    using Socket_timeout_round_trip [of example_hook "Socket_CreateTCPSocket\<lparr>so_sock := 3\<rparr>" _ 2500] by fastforce
qed

end
