(* ===== verification/Ssl_Socket.thy ===== *)
theory Ssl_Socket
  imports Socket
begin

text \<open>
  The class \<open>SSLSocket\<close> of \<^verbatim>\<open>sylar/socket.cc\<close>: a socket with a TLS context and, once the handshake has begun, a TLS
  connection. OpenSSL is not modelled: \<open>handshake\<close> tells whether \<open>SSL_connect\<close> or \<open>SSL_accept\<close> returns 1, \<open>load\<close> whether
  the three calls that load a certificate succeed, and \<open>io\<close> is \<open>SSL_write\<close> or \<open>SSL_read\<close> on one buffer.

  Shown here: a failed handshake closes an accepted socket and leaves a connecting one open; what a
  transfer over several buffers reports.
\<close>

section \<open>The class\<close>

record SSLSocket =
  ss_base :: Socket
  ss_ctx :: bool
  ss_ssl :: bool

definition SSLSocket_new :: "u16 \<Rightarrow> int \<Rightarrow> int \<Rightarrow> SSLSocket" where
  "SSLSocket_new family type protocol = \<lparr>ss_base = Socket_new family type protocol, ss_ctx = False, ss_ssl = False\<rparr>"

definition SSLSocket_CreateTCP :: "Address \<Rightarrow> SSLSocket" where
  "SSLSocket_CreateTCP address = SSLSocket_new (Address_getFamily address) SOCK_STREAM 0"

definition SSLSocket_CreateTCPSocket :: SSLSocket where
  "SSLSocket_CreateTCPSocket = SSLSocket_new AF_INET SOCK_STREAM 0"

definition SSLSocket_CreateTCPSocket6 :: SSLSocket where
  "SSLSocket_CreateTCPSocket6 = SSLSocket_new AF_INET6 SOCK_STREAM 0"

definition SSLSocket_bind :: "SSLSocket \<Rightarrow> Address \<Rightarrow> os \<Rightarrow> bool \<times> SSLSocket \<times> os" where
  "SSLSocket_bind s addr k = (case Socket_bind (ss_base s) addr k of (b, base, k) \<Rightarrow> (b, s\<lparr>ss_base := base\<rparr>, k))"

definition SSLSocket_listen :: "SSLSocket \<Rightarrow> os \<Rightarrow> bool \<times> os" where
  "SSLSocket_listen s k = Socket_listen (ss_base s) k"

definition SSLSocket_close :: "SSLSocket \<Rightarrow> os \<Rightarrow> bool \<times> SSLSocket \<times> os" where
  "SSLSocket_close s k = (case Socket_close (ss_base s) k of (b, base, k) \<Rightarrow> (b, s\<lparr>ss_base := base\<rparr>, k))"

definition SSLSocket_delete :: "SSLSocket \<Rightarrow> os \<Rightarrow> os" where
  "SSLSocket_delete s k = Socket_delete (ss_base s) k"

definition SSLSocket_connect :: "(int \<Rightarrow> bool) \<Rightarrow> SSLSocket \<Rightarrow> Address \<Rightarrow> os \<Rightarrow> bool \<times> SSLSocket \<times> os" where
  "SSLSocket_connect handshake s addr k =
     (case Socket_connect (ss_base s) addr k of (v, base, k) \<Rightarrow>
        let s = s\<lparr>ss_base := base\<rparr> in
        if v then (handshake (so_sock base), s\<lparr>ss_ctx := True, ss_ssl := True\<rparr>, k) else (v, s, k))"

text \<open>\<open>init\<close> creates the connection from the context that \<open>accept\<close> has copied from the listening socket.\<close>

definition SSLSocket_init ::
    "(int \<Rightarrow> bool) \<Rightarrow> (int \<Rightarrow> bool) \<Rightarrow> SSLSocket \<Rightarrow> int \<Rightarrow> os \<Rightarrow> bool \<times> SSLSocket \<times> os" where
  "SSLSocket_init has_ctx handshake s sock k =
     (case Socket_init has_ctx (ss_base s) sock k of (v, base, k) \<Rightarrow>
        let s = s\<lparr>ss_base := base\<rparr> in
        if v then (handshake (so_sock base), s\<lparr>ss_ssl := True\<rparr>, k) else (v, s, k))"

definition SSLSocket_accept :: "(int \<Rightarrow> bool) \<Rightarrow> (int \<Rightarrow> bool) \<Rightarrow> SSLSocket \<Rightarrow> os \<Rightarrow> SSLSocket option \<times> os" where
  "SSLSocket_accept has_ctx handshake s k =
     (case sys_new_fd k of (newsock, k) \<Rightarrow>
        if newsock = -1 then (None, k)
        else
          let base = ss_base s;
              sock = (SSLSocket_new (so_family base) (so_type base) (so_protocol base))\<lparr>ss_ctx := ss_ctx s\<rparr> in
          case SSLSocket_init has_ctx handshake sock newsock k of
            (True, sock, k) \<Rightarrow> (Some sock, k)
          | (False, sock, k) \<Rightarrow> (None, SSLSocket_delete sock k))"

definition SSLSocket_loadCertificates :: "bool \<times> bool \<times> bool \<Rightarrow> SSLSocket \<Rightarrow> bool \<times> SSLSocket" where
  "SSLSocket_loadCertificates load s =
     (let s = s\<lparr>ss_ctx := True\<rparr> in
      case load of (chain, key, check) \<Rightarrow>
        if \<not> chain then (False, s) else if \<not> key then (False, s) else if \<not> check then (False, s) else (True, s))"

section \<open>Transfers over buffers\<close>

text \<open>
  The loops of \<open>SSLSocket::send\<close> and \<open>recv\<close> over an \<open>iovec\<close>; \<open>io\<close> is \<open>SSL_write\<close> or \<open>SSL_read\<close> on one buffer of the given
  length. The result is that of the first call that fails, or the total.
\<close>

fun ssl_iov_loop :: "(nat \<Rightarrow> 's \<Rightarrow> int \<times> 's) \<Rightarrow> nat list \<Rightarrow> int \<Rightarrow> 's \<Rightarrow> int \<times> 's" where
  "ssl_iov_loop io [] acc st = (acc, st)"
| "ssl_iov_loop io (len # lens) acc st =
     (case io len st of (tmp, st) \<Rightarrow>
        if tmp \<le> 0 then (tmp, st)
        else if tmp \<noteq> int len then (acc + tmp, st)
        else ssl_iov_loop io lens (acc + tmp) st)"

definition SSLSocket_iov :: "SSLSocket \<Rightarrow> (nat \<Rightarrow> 's \<Rightarrow> int \<times> 's) \<Rightarrow> nat list \<Rightarrow> 's \<Rightarrow> int \<times> 's" where
  "SSLSocket_iov s io lens st = (if \<not> ss_ssl s then (-1, st) else ssl_iov_loop io lens 0 st)"

definition SSLSocket_transfer :: "SSLSocket \<Rightarrow> (nat \<Rightarrow> 's \<Rightarrow> int \<times> 's) \<Rightarrow> nat \<Rightarrow> 's \<Rightarrow> int \<times> 's" where
  "SSLSocket_transfer s io len st = (if ss_ssl s then io len st else (-1, st))"

text \<open>\<open>sendTo\<close> and \<open>recvFrom\<close> abort: they hold an assertion that is false.\<close>

datatype ssl_error = Assertion_failed

definition SSLSocket_datagram :: "ssl_error + int" where
  "SSLSocket_datagram = Inl Assertion_failed"

section \<open>Properties\<close>

text \<open>
  A transfer over several buffers in which a call fails after others have succeeded returns the failure, and the
  number of bytes already moved is lost.
\<close>

lemma SSLSocket_iov_lost:
  assumes "io n st = (int n, st1)" "0 < n" "io m st1 = (e, st2)" "e \<le> 0" "ss_ssl s"
  shows "SSLSocket_iov s io [n, m] st = (e, st2)"
  using assms by (simp add: SSLSocket_iov_def)

text \<open>Without a failure, and with full transfers up to the last, the result is the number of bytes moved.\<close>

lemma ssl_iov_total:
  assumes "\<And>n st. n \<in> set lens \<Longrightarrow> fst (io n st) = int n \<and> 0 < n"
  shows "fst (ssl_iov_loop io lens acc st) = acc + int (sum_list lens)"
  using assms
proof (induction lens arbitrary: acc st)
  case (Cons n lens)
  have "fst (ssl_iov_loop io lens (acc + int n) (snd (io n st))) = acc + int n + int (sum_list lens)"
    using Cons.IH Cons.prems by simp
  moreover from Cons.prems [of n st] have "fst (io n st) = int n" "0 < n" by simp_all
  ultimately show ?case by (cases "io n st") simp
qed simp

lemma accept_addresses: "Socket_init has_ctx s sock k = (True, s', k') \<Longrightarrow> so_sock s' = sock \<and> os_open k' = os_open k"
  by (auto simp: Socket_init_def Let_def split: if_splits prod.splits dest!: address_calls)

text \<open>
  A handshake that fails on an accepted connection: no socket is returned and the descriptor is closed again.
  A handshake that fails on a connecting socket: \<open>connect\<close> returns false, yet the socket says it is connected and keeps its
  descriptor, unlike after a failure of the connection itself.
\<close>

lemma SSLSocket_accept_handshake_fails:
  assumes "has_ctx (free_fd (os_open k))" "\<And>fd. \<not> handshake fd"
  shows "\<exists>k'. SSLSocket_accept has_ctx handshake s k = (None, k') \<and> set (os_open k') = set (os_open k)"
proof (cases "fst (sys_call k)")
  case True
  let ?fd = "free_fd (os_open k)" and ?b = "Socket_new (so_family (ss_base s)) (so_type (ss_base s)) (so_protocol (ss_base s))"
  let ?k = "(snd (sys_call k))\<lparr>os_open := ?fd # os_open k\<rparr>"
  have new: "sys_new_fd k = (?fd, ?k)" using True by (simp add: sys_new_fd_def Let_def sys_call_def)
  have fd: "?fd \<noteq> -1" "?fd \<notin> set (os_open k)" using free_fd [of "os_open k"] by auto
  obtain v b' k' where init: "Socket_init has_ctx ?b ?fd ?k = (v, b', k')" by (metis prod_cases3)
  then have "v" using assms(1) by (auto simp: Socket_init_def Let_def split: prod.splits)
  from accept_addresses [OF init [unfolded eqTrueI [OF this]]] have b': "so_sock b' = ?fd" "os_open k' = ?fd # os_open k" by simp_all
  have "SSLSocket_accept has_ctx handshake s k = (None, Socket_delete b' k')"
    using new fd init \<open>v\<close> assms(2)
    by (simp add: SSLSocket_accept_def SSLSocket_new_def SSLSocket_init_def SSLSocket_delete_def Let_def)
  moreover have "set (os_open (Socket_delete b' k')) = set (os_open k)"
    using fd b' by (auto simp: Socket_delete_def Socket_close_def sys_close_def Let_def)
  ultimately show ?thesis by blast
qed (auto simp: SSLSocket_accept_def sys_new_fd_def sys_call_def Let_def)

lemma SSLSocket_connect_handshake_fails:
  assumes "Socket_connect (ss_base s) addr k = (True, base, k')" "\<not> handshake (so_sock base)"
  shows "\<exists>s'. SSLSocket_connect handshake s addr k = (False, s', k') \<and> ss_base s' = base"
  using assms by (simp add: SSLSocket_connect_def)

end
