(* ===== verification/Log.thy ===== *)
theory Log
  imports String_Util
begin

text \<open>
  \<^verbatim>\<open>sylar/log.h\<close> and \<^verbatim>\<open>sylar/log.cc\<close>: levels, events, the formatter with its pattern language, appenders, loggers and their
  manager. \<open>strftime\<close> stands for \<open>localtime_r\<close> followed by \<open>strftime\<close> with a buffer of 64 bytes. Appenders and loggers are
  shared objects: they live in stores and are referred to by numbers. The conversions to YAML are not modelled.

  Shown here: a pattern built from literal text and conversions is parsed into exactly these; what a
  logger writes and where; a file appender loses what it wrote before.
\<close>

section \<open>Levels and events\<close>

datatype LogLevel = UNKNOW | DEBUG | INFO | WARN | ERROR | FATAL

definition level_num :: "LogLevel \<Rightarrow> nat" where
  "level_num l = (case l of UNKNOW \<Rightarrow> 0 | DEBUG \<Rightarrow> 1 | INFO \<Rightarrow> 2 | WARN \<Rightarrow> 3 | ERROR \<Rightarrow> 4 | FATAL \<Rightarrow> 5)"

text \<open>The levels are compared as the numbers of the enumeration.\<close>

instantiation LogLevel :: linorder
begin

definition less_eq_LogLevel :: "LogLevel \<Rightarrow> LogLevel \<Rightarrow> bool" where
  "less_eq_LogLevel a b = (level_num a \<le> level_num b)"

definition less_LogLevel :: "LogLevel \<Rightarrow> LogLevel \<Rightarrow> bool" where
  "less_LogLevel a b = (level_num a < level_num b)"

instance
proof
  fix a b :: LogLevel
  show "a \<le> b \<Longrightarrow> b \<le> a \<Longrightarrow> a = b"
    by (cases a; cases b) (simp_all add: less_eq_LogLevel_def level_num_def)
qed (auto simp: less_eq_LogLevel_def less_LogLevel_def)

end

lemma level_below_DEBUG: "level < DEBUG \<longleftrightarrow> level = UNKNOW"
  by (cases level) (simp_all add: less_LogLevel_def level_num_def)

definition LogLevel_ToString :: "LogLevel \<Rightarrow> string" where
  "LogLevel_ToString l =
     (case l of DEBUG \<Rightarrow> ''DEBUG'' | INFO \<Rightarrow> ''INFO'' | WARN \<Rightarrow> ''WARN'' | ERROR \<Rightarrow> ''ERROR'' | FATAL \<Rightarrow> ''FATAL'' | UNKNOW \<Rightarrow> ''UNKNOW'')"

definition LogLevel_FromString :: "string \<Rightarrow> LogLevel" where
  "LogLevel_FromString s =
     (if s = ''DEBUG'' then DEBUG else if s = ''INFO'' then INFO else if s = ''WARN'' then WARN
      else if s = ''ERROR'' then ERROR else if s = ''FATAL'' then FATAL
      else if s = ''debug'' then DEBUG else if s = ''info'' then INFO else if s = ''warn'' then WARN
      else if s = ''error'' then ERROR else if s = ''fatal'' then FATAL else UNKNOW)"

text \<open>\<open>ev_name\<close> is the name of the event's logger, \<open>ev_content\<close> the text of its stream.\<close>

record LogEvent =
  ev_name :: string
  ev_level :: LogLevel
  ev_file :: string
  ev_line :: int
  ev_elapse :: u32
  ev_threadId :: u32
  ev_fiberId :: u32
  ev_time :: u64
  ev_threadName :: string
  ev_content :: string

section \<open>The formatter\<close>

datatype FormatItem =
    MessageFormatItem | LevelFormatItem | ElapseFormatItem | NameFormatItem | ThreadIdFormatItem
  | NewLineFormatItem | DateTimeFormatItem string | FilenameFormatItem | LineFormatItem | TabFormatItem
  | FiberIdFormatItem | ThreadNameFormatItem | StringFormatItem string

definition FormatItem_format :: "(string \<Rightarrow> u64 \<Rightarrow> string) \<Rightarrow> LogLevel \<Rightarrow> LogEvent \<Rightarrow> FormatItem \<Rightarrow> string" where
  "FormatItem_format strftime level ev item =
     (case item of
        MessageFormatItem \<Rightarrow> ev_content ev
      | LevelFormatItem \<Rightarrow> LogLevel_ToString level
      | ElapseFormatItem \<Rightarrow> show_dec (unat (ev_elapse ev))
      | NameFormatItem \<Rightarrow> ev_name ev
      | ThreadIdFormatItem \<Rightarrow> show_dec (unat (ev_threadId ev))
      | NewLineFormatItem \<Rightarrow> [CHR 0x0A]
      | DateTimeFormatItem fmt \<Rightarrow> strftime fmt (ev_time ev)
      | FilenameFormatItem \<Rightarrow> ev_file ev
      | LineFormatItem \<Rightarrow> show_int (ev_line ev)
      | TabFormatItem \<Rightarrow> [CHR 0x09]
      | FiberIdFormatItem \<Rightarrow> show_dec (unat (ev_fiberId ev))
      | ThreadNameFormatItem \<Rightarrow> ev_threadName ev
      | StringFormatItem s \<Rightarrow> s)"

definition DateTimeFormatItem_new :: "string \<Rightarrow> FormatItem" where
  "DateTimeFormatItem_new fmt = DateTimeFormatItem (if fmt = [] then ''%Y-%m-%d %H:%M:%S'' else fmt)"

definition s_format_items :: "(string \<times> (string \<Rightarrow> FormatItem)) list" where
  "s_format_items =
     [(''m'', \<lambda>_. MessageFormatItem), (''p'', \<lambda>_. LevelFormatItem), (''r'', \<lambda>_. ElapseFormatItem),
      (''c'', \<lambda>_. NameFormatItem), (''t'', \<lambda>_. ThreadIdFormatItem), (''n'', \<lambda>_. NewLineFormatItem),
      (''d'', DateTimeFormatItem_new), (''f'', \<lambda>_. FilenameFormatItem), (''l'', \<lambda>_. LineFormatItem),
      (''T'', \<lambda>_. TabFormatItem), (''F'', \<lambda>_. FiberIdFormatItem), (''N'', \<lambda>_. ThreadNameFormatItem)]"

definition is_alpha :: "char \<Rightarrow> bool" where
  "is_alpha c = (let n = of_char c :: nat in 65 \<le> n \<and> n \<le> 90 \<or> 97 \<le> n \<and> n \<le> 122)"

definition substr :: "string \<Rightarrow> nat \<Rightarrow> nat \<Rightarrow> string" where
  "substr s pos len = take len (drop pos s)"

text \<open>
  The inner loop of \<open>init\<close> at position \<open>n\<close>, for the percent sign at \<open>i\<close>: \<open>n\<close>, \<open>fmt_status\<close> (\<open>1\<close> is \<^const>\<open>True\<close>),
  \<open>fmt_begin\<close>, \<open>str\<close> and \<open>fmt\<close> are its variables.
\<close>

function scan_item :: "string \<Rightarrow> nat \<Rightarrow> nat \<Rightarrow> bool \<Rightarrow> nat \<Rightarrow> string \<Rightarrow> string \<Rightarrow> nat \<times> bool \<times> string \<times> string" where
  "scan_item pattern i n status start str fmt =
     (if length pattern \<le> n then (n, status, str, fmt)
      else
        let c = pattern ! n;
            advance = (\<lambda>str.
              scan_item pattern i (n + 1) status start
                (if n + 1 = length pattern \<and> str = [] then drop (i + 1) pattern else str) fmt) in
        if \<not> status \<and> \<not> is_alpha c \<and> c \<noteq> CHR ''{'' \<and> c \<noteq> CHR ''}''
        then (n, status, substr pattern (i + 1) (n - i - 1), fmt)
        else if \<not> status then
          (if c = CHR ''{'' then scan_item pattern i (n + 1) True n (substr pattern (i + 1) (n - i - 1)) fmt else advance str)
        else if c = CHR ''}'' then (n + 1, False, str, substr pattern (start + 1) (n - start - 1))
        else advance str)"
  by pat_completeness auto
termination
  by (relation "measure (\<lambda>(pattern, i, n, status, start, str, fmt). length pattern - n)") auto

declare scan_item.simps [simp del]

lemma scan_item_advances: "scan_item pattern i n status start str fmt = (n', r) \<Longrightarrow> n \<le> n'"
proof (induction "length pattern - n" arbitrary: n status start str fmt rule: less_induct)
  case less
  show ?case
  proof (cases "length pattern \<le> n")
    case False
    then have step: "Suc n \<le> n'" if "scan_item pattern i (Suc n) st b x y = (n', r)" for st b x y
      using less.hyps [OF _ that] by simp
    from less.prems [unfolded scan_item.simps [of pattern i n]] False show ?thesis
      by (auto simp: Let_def scan_item.simps [of pattern i "length pattern"] split: if_splits dest!: step)
  qed (use less.prems in \<open>simp add: scan_item.simps\<close>)
qed

text \<open>The triples of the vector: the text, the format, and whether it is a conversion.\<close>

function init_loop ::
    "string \<Rightarrow> nat \<Rightarrow> string \<Rightarrow> (string \<times> string \<times> bool) list \<Rightarrow> bool \<Rightarrow> (string \<times> string \<times> bool) list \<times> bool" where
  "init_loop pattern i nstr vec error =
     (if length pattern \<le> i then (if nstr \<noteq> [] then vec @ [(nstr, [], False)] else vec, error)
      else if pattern ! i \<noteq> CHR ''%'' then init_loop pattern (i + 1) (nstr @ [pattern ! i]) vec error
      else if i + 1 < length pattern \<and> pattern ! (i + 1) = CHR ''%'' then init_loop pattern (i + 1) (nstr @ ''%'') vec error
      else
        case scan_item pattern i (i + 1) False 0 [] [] of (n, status, str, fmt) \<Rightarrow>
          if \<not> status then
            init_loop pattern n [] (vec @ (if nstr \<noteq> [] then [(nstr, [], False)] else []) @ [(str, fmt, True)]) error
          else init_loop pattern (i + 1) nstr (vec @ [(''<<pattern_error>>'', fmt, False)]) True)"
  by pat_completeness auto
termination
  by (relation "measure (\<lambda>(pattern, i, nstr, vec, error). length pattern - i)")
     (auto dest!: scan_item_advances [OF sym])

declare init_loop.simps [simp del]

fun make_items :: "(string \<times> string \<times> bool) list \<Rightarrow> FormatItem list \<Rightarrow> bool \<Rightarrow> FormatItem list \<times> bool" where
  "make_items [] items error = (items, error)"
| "make_items ((str, fmt, conv) # vec) items error =
     (if \<not> conv then make_items vec (items @ [StringFormatItem str]) error
      else
        case map_of s_format_items str of
          None \<Rightarrow> make_items vec (items @ [StringFormatItem (''<<error_format %'' @ str @ ''>>'')]) True
        | Some f \<Rightarrow> make_items vec (items @ [f fmt]) error)"

record LogFormatter =
  lf_pattern :: string
  lf_items :: "FormatItem list"
  lf_error :: bool

definition LogFormatter_new :: "string \<Rightarrow> LogFormatter" where
  "LogFormatter_new pattern =
     (case init_loop pattern 0 [] [] False of (vec, error) \<Rightarrow>
        case make_items vec [] error of (items, error) \<Rightarrow>
          \<lparr>lf_pattern = pattern, lf_items = items, lf_error = error\<rparr>)"

definition LogFormatter_format :: "(string \<Rightarrow> u64 \<Rightarrow> string) \<Rightarrow> LogFormatter \<Rightarrow> LogLevel \<Rightarrow> LogEvent \<Rightarrow> string" where
  "LogFormatter_format strftime fm level ev = concat (map (FormatItem_format strftime level ev) (lf_items fm))"

section \<open>The pattern language\<close>

text \<open>
  A pattern is a sequence of literal texts and of conversions, a conversion being a name with or without a format in
  braces. \<open>pieces_ok\<close> are the sequences that can be told apart in their text: no percent sign in a literal, no two
  literals in a row, no letter or brace behind a name without a format, no closing brace inside a format.
\<close>

datatype piece = Lit string | Conv string "string option"

fun piece_text :: "piece \<Rightarrow> string" where
  "piece_text (Lit s) = s"
| "piece_text (Conv k None) = CHR ''%'' # k"
| "piece_text (Conv k (Some f)) = CHR ''%'' # k @ ''{'' @ f @ ''}''"

fun piece_triple :: "piece \<Rightarrow> string \<times> string \<times> bool" where
  "piece_triple (Lit s) = (s, [], False)"
| "piece_triple (Conv k f) = (k, case f of None \<Rightarrow> [] | Some f \<Rightarrow> f, True)"

abbreviation is_plain :: "char \<Rightarrow> bool" where
  "is_plain c \<equiv> \<not> is_alpha c \<and> c \<noteq> CHR ''{'' \<and> c \<noteq> CHR ''}''"

fun pieces_ok :: "piece list \<Rightarrow> bool" where
  "pieces_ok [] \<longleftrightarrow> True"
| "pieces_ok (Lit s # ps) \<longleftrightarrow>
     s \<noteq> [] \<and> CHR ''%'' \<notin> set s \<and> (case ps of Lit _ # _ \<Rightarrow> False | _ \<Rightarrow> True) \<and> pieces_ok ps"
| "pieces_ok (Conv k (Some f) # ps) \<longleftrightarrow>
     k \<noteq> [] \<and> list_all is_alpha k \<and> CHR ''}'' \<notin> set f \<and> pieces_ok ps"
| "pieces_ok (Conv k None # ps) \<longleftrightarrow>
     k \<noteq> [] \<and> list_all is_alpha k \<and> (case ps of Lit s # _ \<Rightarrow> is_plain (hd s) | _ \<Rightarrow> True) \<and> pieces_ok ps"

abbreviation pattern_text :: "piece list \<Rightarrow> string" where
  "pattern_text ps \<equiv> concat (map piece_text ps)"

lemma not_alpha: "\<not> is_alpha (CHR ''%'')" "\<not> is_alpha (CHR ''{'')" "\<not> is_alpha (CHR ''}'')"
  by (simp_all add: is_alpha_def)

text \<open>The inner loop over a name: one that is followed by something, one at the end of the pattern.\<close>

lemma scan_name:
  "list_all is_alpha k \<Longrightarrow> rest \<noteq> [] \<Longrightarrow> pattern = xs @ k @ rest \<Longrightarrow>
   scan_item pattern i (length xs) False b [] fmt = scan_item pattern i (length xs + length k) False b [] fmt"
proof (induction k arbitrary: xs)
  case (Cons c k)
  have c: "pattern ! length xs = c" "length xs < length pattern" "Suc (length xs) \<noteq> length pattern"
    using Cons.prems(2,3) by (simp_all add: nth_append)
  have "scan_item pattern i (length xs) False b [] fmt = scan_item pattern i (length (xs @ [c])) False b [] fmt"
    using Cons.prems(1) c not_alpha by (subst scan_item.simps) (auto simp: Let_def)
  also have "\<dots> = scan_item pattern i (length (xs @ [c]) + length k) False b [] fmt"
    using Cons.prems by (intro Cons.IH) auto
  finally show ?case by simp
qed simp

lemma scan_name_end:
  "list_all is_alpha k \<Longrightarrow> k \<noteq> [] \<Longrightarrow> pattern = xs @ k \<Longrightarrow>
   scan_item pattern i (length xs) False b [] fmt = (length pattern, False, drop (i + 1) pattern, fmt)"
proof (induction k arbitrary: xs)
  case (Cons c k)
  have c: "pattern ! length xs = c" "length xs < length pattern" using Cons.prems by auto
  show ?case
  proof (cases "k = []")
    case True
    then have "length pattern = Suc (length xs)" using Cons.prems by simp
    then show ?thesis
      using Cons.prems(1) c not_alpha by (subst scan_item.simps) (auto simp: Let_def scan_item.simps)
  next
    case False
    then have "Suc (length xs) \<noteq> length pattern" using Cons.prems by auto
    then have "scan_item pattern i (length xs) False b [] fmt = scan_item pattern i (length (xs @ [c])) False b [] fmt"
      using Cons.prems(1) c not_alpha by (subst scan_item.simps) (auto simp: Let_def)
    then show ?thesis using Cons.IH [of "xs @ [c]"] Cons.prems False by simp
  qed
qed simp

lemma scan_format:
  "CHR ''}'' \<notin> set f \<Longrightarrow> str \<noteq> [] \<Longrightarrow> pattern = xs @ f @ ''}'' @ rest \<Longrightarrow>
   scan_item pattern i (length xs) True b str fmt =
     (length xs + length f + 1, False, str, substr pattern (b + 1) (length xs + length f - b - 1))"
proof (induction f arbitrary: xs)
  case Nil
  then show ?case by (subst scan_item.simps) (simp add: Let_def)
next
  case (Cons c f)
  have "pattern ! length xs = c" "length xs < length pattern" "c \<noteq> CHR ''}''" using Cons.prems by auto
  then have "scan_item pattern i (length xs) True b str fmt = scan_item pattern i (length (xs @ [c])) True b str fmt"
    using Cons.prems(2) by (subst scan_item.simps) (auto simp: Let_def)
  then show ?case using Cons.IH [of "xs @ [c]"] Cons.prems by simp
qed

lemma scan_conv:
  assumes "pieces_ok (Conv k f # ps)" and pattern_def: "pattern = xs @ pattern_text (Conv k f # ps)"
  shows "scan_item pattern (length xs) (length xs + 1) False 0 [] [] =
    (length xs + length (piece_text (Conv k f)), False, k, case f of None \<Rightarrow> [] | Some f \<Rightarrow> f)"
proof -
  let ?i = "length xs" and ?ys = "xs @ ''%''"
  have k: "k \<noteq> []" "list_all is_alpha k" using assms(1) by (cases f; simp)+
  have name: "substr (xs @ CHR ''%'' # k @ rest) (?i + 1) (length k) = k" for rest by (simp add: substr_def)
  show ?thesis
  proof (cases f)
    case None
    show ?thesis
    proof (cases "pattern_text ps = []")
      case True
      then have "pattern = ?ys @ k" by (simp add: pattern_def None)
      from scan_name_end [OF k(2,1) this, of ?i 0 "[]"] show ?thesis
        by (simp add: None \<open>pattern = ?ys @ k\<close>)
    next
      case False
      then obtain c r where rest: "pattern_text ps = c # r" by (cases "pattern_text ps") auto
      have "is_plain c"
      proof (cases ps)
        case (Cons q qs)
        then show ?thesis using rest assms(1) not_alpha
          by (cases q rule: piece_text.cases) (auto simp: None append_eq_Cons_conv split: list.splits)
      qed (use rest in simp)
      have p: "pattern = ?ys @ k @ c # r" by (simp add: pattern_def None rest)
      from scan_name [OF k(2) _ p, of ?i 0 "[]"]
      have "scan_item pattern ?i (?i + 1) False 0 [] [] = scan_item pattern ?i (?i + 1 + length k) False 0 [] []" by simp
      also have "\<dots> = (?i + 1 + length k, False, k, [])"
        using \<open>is_plain c\<close> name [of "c # r"] by (subst scan_item.simps) (simp add: p Let_def nth_append)
      finally show ?thesis by (simp add: None)
    qed
  next
    case (Some g)
    let ?rest = "pattern_text ps"
    have g: "CHR ''}'' \<notin> set g" using assms(1) by (simp add: Some)
    have p: "pattern = ?ys @ k @ CHR ''{'' # g @ ''}'' @ ?rest" by (simp add: pattern_def Some)
    let ?zs = "?ys @ k @ ''{''"
    from scan_name [OF k(2) _ p, of ?i 0 "[]"]
    have "scan_item pattern ?i (?i + 1) False 0 [] [] = scan_item pattern ?i (?i + 1 + length k) False 0 [] []" by simp
    also have "\<dots> = scan_item pattern ?i (length ?zs) True (?i + 1 + length k) k []"
      using name [of "CHR ''{'' # g @ ''}'' @ ?rest"] by (subst scan_item.simps) (simp add: p Let_def nth_append)
    also have "\<dots> = (length ?zs + length g + 1, False, k, substr pattern (?i + 1 + length k + 1) (length ?zs + length g - (?i + 1 + length k) - 1))"
      by (rule scan_format [OF g k(1)]) (simp add: p)
    also have "substr pattern (?i + 1 + length k + 1) (length ?zs + length g - (?i + 1 + length k) - 1) = g"
      by (simp add: p substr_def)
    finally show ?thesis by (simp add: Some)
  qed
qed

lemma init_literal:
  "CHR ''%'' \<notin> set s \<Longrightarrow> pattern = xs @ s @ rest \<Longrightarrow>
   init_loop pattern (length xs) nstr vec error = init_loop pattern (length xs + length s) (nstr @ s) vec error"
proof (induction s arbitrary: xs nstr)
  case (Cons c s)
  have "pattern ! length xs = c" "length xs < length pattern" "c \<noteq> CHR ''%''" using Cons.prems by auto
  then have "init_loop pattern (length xs) nstr vec error = init_loop pattern (length (xs @ [c])) (nstr @ [c]) vec error"
    by (subst init_loop.simps) simp
  also have "\<dots> = init_loop pattern (length (xs @ [c]) + length s) ((nstr @ [c]) @ s) vec error"
    using Cons.prems by (intro Cons.IH) auto
  finally show ?case by simp
qed simp

lemma init_pieces:
  "pieces_ok ps \<Longrightarrow> (nstr \<noteq> [] \<Longrightarrow> case ps of Lit _ # _ \<Rightarrow> False | _ \<Rightarrow> True) \<Longrightarrow> pattern = xs @ pattern_text ps \<Longrightarrow>
   init_loop pattern (length xs) nstr vec error =
     (vec @ (if nstr \<noteq> [] then [(nstr, [], False)] else []) @ map piece_triple ps, error)"
proof (induction ps arbitrary: nstr xs vec)
  case Nil
  then show ?case by (subst init_loop.simps) simp
next
  case (Cons p ps)
  show ?case
  proof (cases p)
    case (Lit s)
    then have nstr: "nstr = []" using Cons.prems(2) by auto
    have s: "s \<noteq> []" "CHR ''%'' \<notin> set s" "pieces_ok ps" "case ps of Lit _ # _ \<Rightarrow> False | _ \<Rightarrow> True"
      using Cons.prems(1) by (auto simp: Lit)
    have "init_loop pattern (length xs) nstr vec error = init_loop pattern (length (xs @ s)) (nstr @ s) vec error"
      using init_literal [OF s(2), of pattern xs] Cons.prems(3) by (simp add: Lit)
    then show ?thesis
      using Cons.IH [of s "xs @ s" vec] s Cons.prems(3) by (simp add: Lit nstr)
  next
    case (Conv k f)
    have ok: "pieces_ok ps" "k \<noteq> []" "list_all is_alpha k" using Cons.prems(1) by (cases f; simp add: Conv)+
    then have "hd k \<noteq> CHR ''%''" using not_alpha(1) by (cases k) auto
    then have at: "length xs < length pattern" "pattern ! length xs = CHR ''%''" "pattern ! (length xs + 1) \<noteq> CHR ''%''"
      using Cons.prems(3) ok(2) by (cases f; cases k; auto simp: Conv nth_append)+
    have "init_loop pattern (length xs) nstr vec error =
        init_loop pattern (length (xs @ piece_text p)) []
          (vec @ (if nstr \<noteq> [] then [(nstr, [], False)] else []) @ [piece_triple p]) error"
      using at scan_conv [OF Cons.prems(1) [unfolded Conv] Cons.prems(3) [unfolded Conv]]
      by (subst init_loop.simps) (simp add: Conv)
    then show ?thesis
      using Cons.IH [of "[]" "xs @ piece_text p"] ok(1) Cons.prems(3) by simp
  qed
qed

fun piece_item :: "piece \<Rightarrow> FormatItem" where
  "piece_item (Lit s) = StringFormatItem s"
| "piece_item (Conv k f) =
     (case map_of s_format_items k of
        None \<Rightarrow> StringFormatItem (''<<error_format %'' @ k @ ''>>'')
      | Some g \<Rightarrow> g (case f of None \<Rightarrow> [] | Some f \<Rightarrow> f))"

fun piece_unknown :: "piece \<Rightarrow> bool" where
  "piece_unknown (Lit s) \<longleftrightarrow> False"
| "piece_unknown (Conv k f) \<longleftrightarrow> map_of s_format_items k = None"

lemma make_items_pieces:
  "make_items (map piece_triple ps) items error = (items @ map piece_item ps, error \<or> list_ex piece_unknown ps)"
proof (induction ps arbitrary: items error)
  case (Cons p ps)
  then show ?case by (cases p) (auto split: option.splits)
qed simp

section \<open>Appenders and loggers\<close>

datatype appender_kind = StdoutLogAppender | FileLogAppender string

record LogAppender =
  ap_kind :: appender_kind
  ap_level :: LogLevel
  ap_hasFormatter :: bool
  ap_formatter :: "LogFormatter option"
  ap_lastTime :: u64

record Logger =
  lg_name :: string
  lg_level :: LogLevel
  lg_appenders :: "nat list"
  lg_formatter :: "LogFormatter option"
  lg_root :: "nat option"

text \<open>The objects, the text on the console and the contents of the files.\<close>

record log_state =
  st_appenders :: "nat \<Rightarrow> LogAppender"
  st_loggers :: "nat \<Rightarrow> Logger"
  st_out :: string
  st_files :: "string \<Rightarrow> string"

datatype log_error = Null_formatter

abbreviation set_appender :: "nat \<Rightarrow> LogAppender \<Rightarrow> log_state \<Rightarrow> log_state" where
  "set_appender a ap st \<equiv> st\<lparr>st_appenders := (st_appenders st)(a := ap)\<rparr>"

abbreviation set_logger :: "nat \<Rightarrow> Logger \<Rightarrow> log_state \<Rightarrow> log_state" where
  "set_logger l lg st \<equiv> st\<lparr>st_loggers := (st_loggers st)(l := lg)\<rparr>"

definition LogAppender_setFormatter :: "nat \<Rightarrow> LogFormatter option \<Rightarrow> log_state \<Rightarrow> log_state" where
  "LogAppender_setFormatter a val st =
     set_appender a ((st_appenders st a)\<lparr>ap_formatter := val, ap_hasFormatter := (val \<noteq> None)\<rparr>) st"

text \<open>\<open>reopen\<close>: opening an \<open>std::ofstream\<close> without a mode empties the file.\<close>

definition FileLogAppender_reopen :: "string \<Rightarrow> log_state \<Rightarrow> log_state" where
  "FileLogAppender_reopen filename st = st\<lparr>st_files := (st_files st)(filename := [])\<rparr>"

definition StdoutLogAppender_new :: LogAppender where
  "StdoutLogAppender_new = \<lparr>ap_kind = StdoutLogAppender, ap_level = DEBUG, ap_hasFormatter = False, ap_formatter = None, ap_lastTime = 0\<rparr>"

definition FileLogAppender_new :: "string \<Rightarrow> log_state \<Rightarrow> LogAppender \<times> log_state" where
  "FileLogAppender_new filename st =
     (\<lparr>ap_kind = FileLogAppender filename, ap_level = DEBUG, ap_hasFormatter = False, ap_formatter = None, ap_lastTime = 0\<rparr>,
      FileLogAppender_reopen filename st)"

definition LogAppender_log ::
    "(string \<Rightarrow> u64 \<Rightarrow> string) \<Rightarrow> nat \<Rightarrow> LogLevel \<Rightarrow> LogEvent \<Rightarrow> log_state \<Rightarrow> log_error + log_state" where
  "LogAppender_log strftime a level ev st =
     (let ap = st_appenders st a in
      if level < ap_level ap then Inr st
      else
        case ap_kind ap of
          StdoutLogAppender \<Rightarrow>
            (case ap_formatter ap of
               None \<Rightarrow> Inl Null_formatter
             | Some fm \<Rightarrow> Inr (st\<lparr>st_out := st_out st @ LogFormatter_format strftime fm level ev\<rparr>))
        | FileLogAppender filename \<Rightarrow>
            (let st = (if ap_lastTime ap + 3 \<le> ev_time ev
                       then set_appender a (ap\<lparr>ap_lastTime := ev_time ev\<rparr>) (FileLogAppender_reopen filename st) else st) in
             case ap_formatter ap of
               None \<Rightarrow> Inl Null_formatter
             | Some fm \<Rightarrow>
                 Inr (st\<lparr>st_files := (st_files st)(filename := st_files st filename @ LogFormatter_format strftime fm level ev)\<rparr>)))"

fun log_all ::
    "(string \<Rightarrow> u64 \<Rightarrow> string) \<Rightarrow> nat list \<Rightarrow> LogLevel \<Rightarrow> LogEvent \<Rightarrow> log_state \<Rightarrow> log_error + log_state" where
  "log_all strftime [] level ev st = Inr st"
| "log_all strftime (a # as) level ev st = bindE (LogAppender_log strftime a level ev st) (log_all strftime as level ev)"

text \<open>\<open>Logger::log\<close> follows the chain of the main loggers; it would not return on a cyclic one.\<close>

partial_function (option) Logger_log ::
    "(string \<Rightarrow> u64 \<Rightarrow> string) \<Rightarrow> nat \<Rightarrow> LogLevel \<Rightarrow> LogEvent \<Rightarrow> log_state \<Rightarrow> (log_error + log_state) option" where
  "Logger_log strftime l level ev st =
     (if level < lg_level (st_loggers st l) then Some (Inr st)
      else if lg_appenders (st_loggers st l) \<noteq> [] then Some (log_all strftime (lg_appenders (st_loggers st l)) level ev st)
      else case lg_root (st_loggers st l) of None \<Rightarrow> Some (Inr st) | Some r \<Rightarrow> Logger_log strftime r level ev st)"

definition default_pattern :: string where
  "default_pattern = ''%d{%Y-%m-%d %H:%M:%S}%T%t%T%N%T%F%T[%p]%T[%c]%T%f:%l%T%m%n''"

definition Logger_new :: "string \<Rightarrow> Logger" where
  "Logger_new name =
     \<lparr>lg_name = name, lg_level = DEBUG, lg_appenders = [], lg_formatter = Some (LogFormatter_new default_pattern), lg_root = None\<rparr>"

definition Logger_addAppender :: "nat \<Rightarrow> nat \<Rightarrow> log_state \<Rightarrow> log_state" where
  "Logger_addAppender l a st =
     (let st = (if ap_formatter (st_appenders st a) = None
                then set_appender a ((st_appenders st a)\<lparr>ap_formatter := lg_formatter (st_loggers st l)\<rparr>) st else st) in
      set_logger l ((st_loggers st l)\<lparr>lg_appenders := lg_appenders (st_loggers st l) @ [a]\<rparr>) st)"

definition Logger_delAppender :: "nat \<Rightarrow> nat \<Rightarrow> log_state \<Rightarrow> log_state" where
  "Logger_delAppender l a st =
     set_logger l ((st_loggers st l)\<lparr>lg_appenders := remove1 a (lg_appenders (st_loggers st l))\<rparr>) st"

definition Logger_clearAppenders :: "nat \<Rightarrow> log_state \<Rightarrow> log_state" where
  "Logger_clearAppenders l st = set_logger l ((st_loggers st l)\<lparr>lg_appenders := []\<rparr>) st"

definition Logger_setFormatter :: "nat \<Rightarrow> LogFormatter option \<Rightarrow> log_state \<Rightarrow> log_state" where
  "Logger_setFormatter l val st =
     fold (\<lambda>a st. if \<not> ap_hasFormatter (st_appenders st a)
                  then set_appender a ((st_appenders st a)\<lparr>ap_formatter := val\<rparr>) st else st)
       (lg_appenders (st_loggers st l))
       (set_logger l ((st_loggers st l)\<lparr>lg_formatter := val\<rparr>) st)"

text \<open>The messages that this overload writes to the console are part of the output.\<close>

definition Logger_setFormatter_str :: "nat \<Rightarrow> string \<Rightarrow> log_state \<Rightarrow> log_state" where
  "Logger_setFormatter_str l val st =
     (let nl = [CHR 0x0A];
          st = st\<lparr>st_out := st_out st @ ''---'' @ val @ nl\<rparr>;
          new_val = LogFormatter_new val in
      if lf_error new_val
      then st\<lparr>st_out := st_out st @ ''Logger setFormatter name = '' @ lg_name (st_loggers st l) @ ''value = '' @ val @
                ''invalid formatter'' @ nl\<rparr>
      else Logger_setFormatter l (Some new_val) st)"

section \<open>The manager\<close>

record LoggerManager =
  lm_loggers :: "(string \<times> nat) list"
  lm_root :: nat

text \<open>\<open>getLogger\<close>: \<open>fresh\<close> is the number of the object that would be created.\<close>

definition LoggerManager_getLogger :: "nat \<Rightarrow> LoggerManager \<Rightarrow> string \<Rightarrow> log_state \<Rightarrow> nat \<times> LoggerManager \<times> log_state" where
  "LoggerManager_getLogger fresh m name st =
     (case map_of (lm_loggers m) name of
        Some l \<Rightarrow> (l, m, st)
      | None \<Rightarrow>
          (fresh, m\<lparr>lm_loggers := (name, fresh) # lm_loggers m\<rparr>,
           set_logger fresh ((Logger_new name)\<lparr>lg_root := Some (lm_root m)\<rparr>) st))"

definition LoggerManager_new :: "log_state \<Rightarrow> LoggerManager \<times> log_state" where
  "LoggerManager_new st =
     (let st = set_appender 0 StdoutLogAppender_new (set_logger 0 (Logger_new ''root'') st) in
      (\<lparr>lm_loggers = [(''root'', 0)], lm_root = 0\<rparr>, Logger_addAppender 0 0 st))"

section \<open>What the formatter parses\<close>

text \<open>
  C34. Pattern language: for every sequence of literals and conversions that can be told apart in its text, the constructor
  of the formatter turns the text back into exactly this sequence of items, with the text of an unknown conversion
  replaced by an error mark, and raises the error flag exactly when a conversion is unknown.
\<close>

theorem LogFormatter_pattern:
  assumes "pieces_ok ps"
  shows "LogFormatter_new (pattern_text ps) =
    \<lparr>lf_pattern = pattern_text ps, lf_items = map piece_item ps, lf_error = list_ex piece_unknown ps\<rparr>"
  using init_pieces [OF assms, of "[]" "pattern_text ps" "[]" "[]" False]
  by (simp add: LogFormatter_new_def make_items_pieces)

theorem LogFormatter_pattern_witness:
  "LogFormatter_new ''at %d{%H:%M} [%p]%q'' =
    \<lparr>lf_pattern = ''at %d{%H:%M} [%p]%q'',
     lf_items = [StringFormatItem ''at '', DateTimeFormatItem ''%H:%M'', StringFormatItem '' ['', LevelFormatItem,
       StringFormatItem '']'', StringFormatItem ''<<error_format %q>>''],
     lf_error = True\<rparr>"
  using LogFormatter_pattern
      [of "[Lit ''at '', Conv ''d'' (Some ''%H:%M''), Lit '' ['', Conv ''p'' None, Lit '']'', Conv ''q'' None]"]
  by (simp add: is_alpha_def s_format_items_def DateTimeFormatItem_new_def)

text \<open>The two percent signs that should stand for one are read as one and the start of a conversion.\<close>

lemma LogFormatter_double_percent:
  assumes "CHR ''%'' \<notin> set s"
  shows "lf_items (LogFormatter_new (s @ ''%%'')) = [StringFormatItem (s @ ''%''), StringFormatItem ''<<error_format %>>'']"
    and "lf_error (LogFormatter_new (s @ ''%%''))"
proof -
  let ?p = "s @ ''%%''"
  have "init_loop ?p 0 [] [] False = init_loop ?p (length s) s [] False"
    using init_literal [OF assms, of ?p "[]" "''%%''" "[]" "[]" False] by simp
  also have "\<dots> = init_loop ?p (Suc (length s)) (s @ ''%'') [] False"
    by (subst init_loop.simps) (simp add: nth_append)
  also have "\<dots> = init_loop ?p (length ?p) [] [(s @ ''%'', [], False), ([], [], True)] False"
    by (subst init_loop.simps) (simp add: nth_append scan_item.simps)
  also have "\<dots> = ([(s @ ''%'', [], False), ([], [], True)], False)"
    by (subst init_loop.simps) simp
  finally show "lf_items (LogFormatter_new ?p) = [StringFormatItem (s @ ''%''), StringFormatItem ''<<error_format %>>'']"
    and "lf_error (LogFormatter_new ?p)"
    by (simp_all add: LogFormatter_new_def s_format_items_def)
qed

lemma LogLevel_round_trip: "LogLevel_FromString (LogLevel_ToString l) = l"
  by (cases l) (simp_all add: LogLevel_ToString_def LogLevel_FromString_def)

section \<open>What the loggers write\<close>

definition default_pieces :: "piece list" where
  "default_pieces =
     [Conv ''d'' (Some ''%Y-%m-%d %H:%M:%S''), Conv ''T'' None, Conv ''t'' None, Conv ''T'' None, Conv ''N'' None, Conv ''T'' None,
      Conv ''F'' None, Conv ''T'' None, Lit ''['', Conv ''p'' None, Lit '']'', Conv ''T'' None, Lit ''['', Conv ''c'' None, Lit '']'',
      Conv ''T'' None, Conv ''f'' None, Lit '':'', Conv ''l'' None, Conv ''T'' None, Conv ''m'' None, Conv ''n'' None]"

lemma default_formatter:
  "lf_items (LogFormatter_new default_pattern) = map piece_item default_pieces" (is ?items)
  "\<not> lf_error (LogFormatter_new default_pattern)" (is ?error)
proof -
  have ok: "pieces_ok default_pieces" by (simp add: default_pieces_def is_alpha_def)
  have parts: "default_pattern = pattern_text default_pieces" by (simp add: default_pattern_def default_pieces_def)
  have no_error: "\<not> list_ex piece_unknown default_pieces" by (simp add: default_pieces_def s_format_items_def)
  from init_pieces [OF ok, of "[]" "pattern_text default_pieces" "[]" "[]" False] no_error
  show ?items ?error by (simp_all add: LogFormatter_new_def make_items_pieces parts)
qed

definition default_line :: "(string \<Rightarrow> u64 \<Rightarrow> string) \<Rightarrow> LogLevel \<Rightarrow> LogEvent \<Rightarrow> string" where
  "default_line strftime level ev =
     (let tab = [CHR 0x09] in
      strftime ''%Y-%m-%d %H:%M:%S'' (ev_time ev) @ tab @ show_dec (unat (ev_threadId ev)) @ tab @ ev_threadName ev @ tab @
      show_dec (unat (ev_fiberId ev)) @ tab @ ''['' @ LogLevel_ToString level @ '']'' @ tab @ ''['' @ ev_name ev @ '']'' @ tab @
      ev_file ev @ '':'' @ show_int (ev_line ev) @ tab @ ev_content ev @ [CHR 0x0A])"

lemma default_format: "LogFormatter_format strftime (LogFormatter_new default_pattern) level ev = default_line strftime level ev"
  unfolding LogFormatter_format_def default_formatter(1)
  by (simp add: default_pieces_def default_line_def s_format_items_def FormatItem_format_def DateTimeFormatItem_new_def Let_def)

text \<open>
  The states of the manager of loggers that are reached by creating it, by asking it for loggers and by logging through
  the loggers it gave out.
\<close>

inductive manager_reach :: "(string \<Rightarrow> u64 \<Rightarrow> string) \<Rightarrow> LoggerManager \<Rightarrow> log_state \<Rightarrow> bool" for strftime where
  new: "LoggerManager_new st = (m, st') \<Longrightarrow> manager_reach strftime m st'"
| get: "manager_reach strftime m st \<Longrightarrow> fresh \<notin> snd ` set (lm_loggers m) \<Longrightarrow>
    LoggerManager_getLogger fresh m name st = (l, m', st') \<Longrightarrow> manager_reach strftime m' st'"
| log: "manager_reach strftime m st \<Longrightarrow> l \<in> snd ` set (lm_loggers m) \<Longrightarrow>
    Logger_log strftime l level ev st = Some (Inr st') \<Longrightarrow> manager_reach strftime m st'"

definition root_appender :: LogAppender where
  "root_appender = StdoutLogAppender_new\<lparr>ap_formatter := Some (LogFormatter_new default_pattern)\<rparr>"

definition manager_inv :: "LoggerManager \<Rightarrow> log_state \<Rightarrow> bool" where
  "manager_inv m st \<longleftrightarrow>
     lm_root m = 0 \<and> 0 \<in> snd ` set (lm_loggers m) \<and> st_appenders st 0 = root_appender \<and>
     (\<forall>l \<in> snd ` set (lm_loggers m). lg_level (st_loggers st l) = DEBUG \<and>
        lg_appenders (st_loggers st l) = (if l = 0 then [0] else []) \<and> (l \<noteq> 0 \<longrightarrow> lg_root (st_loggers st l) = Some 0))"

lemma manager_log:
  assumes "manager_inv m st" and "l \<in> snd ` set (lm_loggers m)"
  shows "Logger_log strftime l level ev st =
    Some (Inr (if level = UNKNOW then st else st\<lparr>st_out := st_out st @ default_line strftime level ev\<rparr>))"
proof -
  note low = level_below_DEBUG [of level]
  have log: "log_all strftime [0] level ev st = Inr (st\<lparr>st_out := st_out st @ default_line strftime level ev\<rparr>)" if "level \<noteq> UNKNOW"
    using assms(1) low that
    by (simp add: manager_inv_def LogAppender_log_def root_appender_def StdoutLogAppender_new_def Let_def default_format)
  have root: "lg_level (st_loggers st 0) = DEBUG" "lg_appenders (st_loggers st 0) = [0]"
    using assms(1) by (auto simp: manager_inv_def)
  have at_root: "Logger_log strftime 0 level ev st =
      Some (Inr (if level = UNKNOW then st else st\<lparr>st_out := st_out st @ default_line strftime level ev\<rparr>))"
    by (subst Logger_log.simps) (use log in \<open>simp add: root low\<close>)
  show ?thesis
  proof (cases "l = 0")
    case False
    then have "lg_level (st_loggers st l) = DEBUG" "lg_appenders (st_loggers st l) = []" "lg_root (st_loggers st l) = Some 0"
      using assms by (auto simp: manager_inv_def)
    then show ?thesis by (subst Logger_log.simps) (simp add: low at_root)
  qed (simp add: at_root)
qed

lemma manager_reach_inv: "manager_reach strftime m st \<Longrightarrow> manager_inv m st"
proof (induction rule: manager_reach.induct)
  case (new st m st')
  then show ?case
    by (auto simp: LoggerManager_new_def manager_inv_def Logger_addAppender_def Logger_new_def StdoutLogAppender_new_def
          root_appender_def Let_def)
next
  case (get m st fresh name l m' st')
  then have "fresh \<noteq> 0" unfolding manager_inv_def by metis
  with get show ?case
    unfolding manager_inv_def LoggerManager_getLogger_def
    by (fastforce simp: Logger_new_def split: option.splits)
next
  case (log m st l level ev st')
  then show ?case using manager_log [OF log.IH log.hyps(2), of strftime level ev] by (auto simp: manager_inv_def)
qed



text \<open>
  File appenders lose what they wrote: an event whose time is three seconds or more after the last reopening leaves
  only its own line in the file, whatever the file held; events within the three seconds are appended.
\<close>

theorem FileLogAppender_log_file:
  assumes "ap_kind (st_appenders st a) = FileLogAppender filename" and "ap_formatter (st_appenders st a) = Some fm"
    and "ap_level (st_appenders st a) \<le> level"
  shows "\<exists>st'. LogAppender_log strftime a level ev st = Inr st' \<and>
    st_files st' filename =
      (if ap_lastTime (st_appenders st a) + 3 \<le> ev_time ev then [] else st_files st filename) @ LogFormatter_format strftime fm level ev"
  using assms by (simp add: LogAppender_log_def FileLogAppender_reopen_def Let_def not_less [symmetric])

theorem FileLogAppender_log_file_witness:
  "map_sum (\<lambda>_. ()) (\<lambda>st. st_files st ''f'') (LogAppender_log (\<lambda>_ _. []) 0 INFO
      \<lparr>ev_name = [], ev_level = INFO, ev_file = [], ev_line = 0, ev_elapse = 0, ev_threadId = 0, ev_fiberId = 0, ev_time = 103,
       ev_threadName = [], ev_content = ''new''\<rparr>
      \<lparr>st_appenders = \<lambda>_. \<lparr>ap_kind = FileLogAppender ''f'', ap_level = DEBUG, ap_hasFormatter = True,
         ap_formatter = Some \<lparr>lf_pattern = ''%m'', lf_items = [MessageFormatItem], lf_error = False\<rparr>, ap_lastTime = 100\<rparr>,
       st_loggers = \<lambda>_. Logger_new [], st_out = [], st_files = \<lambda>_. ''old''\<rparr>) = Inr ''new''"
  using FileLogAppender_log_file [of "\<lparr>st_appenders = \<lambda>_. \<lparr>ap_kind = FileLogAppender ''f'', ap_level = DEBUG, ap_hasFormatter = True,
         ap_formatter = Some \<lparr>lf_pattern = ''%m'', lf_items = [MessageFormatItem], lf_error = False\<rparr>, ap_lastTime = 100\<rparr>,
       st_loggers = \<lambda>_. Logger_new [], st_out = [], st_files = \<lambda>_. ''old''\<rparr>" 0 "''f''"
      "\<lparr>lf_pattern = ''%m'', lf_items = [MessageFormatItem], lf_error = False\<rparr>" INFO "\<lambda>_ _. []"
      "\<lparr>ev_name = [], ev_level = INFO, ev_file = [], ev_line = 0, ev_elapse = 0, ev_threadId = 0, ev_fiberId = 0, ev_time = 103,
       ev_threadName = [], ev_content = ''new''\<rparr>"]
  by (auto simp: less_eq_LogLevel_def level_num_def LogFormatter_format_def FormatItem_format_def)

end
