(* ===== verification/Config.thy ===== *)
theory Config
  imports String_Util "HOL-Library.AList"
begin

text \<open>
  \<^verbatim>\<open>sylar/config.h\<close> and \<^verbatim>\<open>sylar/config.cc\<close>: configuration parameters with their listeners, the table of all parameters,
  loading from YAML, and the conversions of containers to and from YAML text.

  A parameter of type \<open>T\<close> carries the name of \<open>T\<close>, which is what \<open>dynamic_pointer_cast\<close> compares; the values of all types are in
  \<open>'v\<close>. The conversions \<open>FromStr\<close> and \<open>ToStr\<close> are arguments that yield nothing where the code throws. A
  listener \<open>'c\<close> is run by \<open>run\<close>, which tells whether it returned or threw. A shared pointer to a parameter is the
  name under which the table holds it (parameters are never removed). The tables are hashed maps: association lists in the
  order in which they are iterated.

  Shown here: names, types and listener numbers stay consistent; loading sets exactly the parameters that are
  named, each to its last convertible value; the container conversions are inverse to each other.
\<close>

section \<open>Parameters\<close>

record ('v, 'c) ConfigVar =
  cv_name :: string
  cv_description :: string
  cv_type :: string
  cv_val :: 'v
  cv_cbs :: "(u64 \<times> 'c) list"

definition ConfigVar_new :: "string \<Rightarrow> string \<Rightarrow> 'v \<Rightarrow> string \<Rightarrow> ('v, 'c) ConfigVar" where
  "ConfigVar_new type name default_value description =
     \<lparr>cv_name = map tolower name, cv_description = description, cv_type = type, cv_val = default_value, cv_cbs = []\<rparr>"

definition ConfigVar_toString :: "(string \<Rightarrow> 'v \<Rightarrow> string option) \<Rightarrow> ('v, 'c) ConfigVar \<Rightarrow> string" where
  "ConfigVar_toString toStr var = (case toStr (cv_type var) (cv_val var) of None \<Rightarrow> [] | Some s \<Rightarrow> s)"

fun notify :: "('c \<Rightarrow> 'v \<Rightarrow> 'v \<Rightarrow> 'w \<Rightarrow> bool \<times> 'w) \<Rightarrow> (u64 \<times> 'c) list \<Rightarrow> 'v \<Rightarrow> 'v \<Rightarrow> 'w \<Rightarrow> bool \<times> 'w" where
  "notify run [] old new w = (True, w)"
| "notify run ((_, cb) # cbs) old new w =
     (case run cb old new w of (True, w) \<Rightarrow> notify run cbs old new w | (False, w) \<Rightarrow> (False, w))"

text \<open>The listeners run before the value changes; one that throws leaves the old value. The first component tells whether \<open>setValue\<close> returned.\<close>

definition ConfigVar_setValue ::
    "('c \<Rightarrow> 'v \<Rightarrow> 'v \<Rightarrow> 'w \<Rightarrow> bool \<times> 'w) \<Rightarrow> 'v \<Rightarrow> ('v, 'c) ConfigVar \<Rightarrow> 'w \<Rightarrow> bool \<times> ('v, 'c) ConfigVar \<times> 'w" where
  "ConfigVar_setValue run v var w =
     (if v = cv_val var then (True, var, w)
      else case notify run (cv_cbs var) (cv_val var) v w of
          (True, w) \<Rightarrow> (True, var\<lparr>cv_val := v\<rparr>, w)
        | (False, w) \<Rightarrow> (False, var, w))"

definition ConfigVar_fromString ::
    "(string \<Rightarrow> string \<Rightarrow> 'v option) \<Rightarrow> ('c \<Rightarrow> 'v \<Rightarrow> 'v \<Rightarrow> 'w \<Rightarrow> bool \<times> 'w) \<Rightarrow> string \<Rightarrow> ('v, 'c) ConfigVar \<Rightarrow> 'w \<Rightarrow>
      bool \<times> ('v, 'c) ConfigVar \<times> 'w" where
  "ConfigVar_fromString fromStr run val var w =
     (case fromStr (cv_type var) val of
        None \<Rightarrow> (False, var, w)
      | Some v \<Rightarrow> (case ConfigVar_setValue run v var w of (_, var, w) \<Rightarrow> (False, var, w)))"

text \<open>\<open>s_fun_id\<close> is a static variable of the member function, one for each type \<open>T\<close>: a function from type names.\<close>

definition ConfigVar_addListener ::
    "'c \<Rightarrow> ('v, 'c) ConfigVar \<Rightarrow> (string \<Rightarrow> u64) \<Rightarrow> u64 \<times> ('v, 'c) ConfigVar \<times> (string \<Rightarrow> u64)" where
  "ConfigVar_addListener cb var s_fun_id =
     (let n = s_fun_id (cv_type var) + 1 in
      (n, var\<lparr>cv_cbs := AList.update n cb (cv_cbs var)\<rparr>, s_fun_id(cv_type var := n)))"

definition ConfigVar_delListener :: "u64 \<Rightarrow> ('v, 'c) ConfigVar \<Rightarrow> ('v, 'c) ConfigVar" where
  "ConfigVar_delListener key var = var\<lparr>cv_cbs := AList.delete key (cv_cbs var)\<rparr>"

definition ConfigVar_getListener :: "u64 \<Rightarrow> ('v, 'c) ConfigVar \<Rightarrow> 'c option" where
  "ConfigVar_getListener key var = map_of (cv_cbs var) key"

definition ConfigVar_clearListener :: "('v, 'c) ConfigVar \<Rightarrow> ('v, 'c) ConfigVar" where
  "ConfigVar_clearListener var = var\<lparr>cv_cbs := []\<rparr>"

section \<open>The table\<close>

type_synonym ('v, 'c) config = "(string \<times> ('v, 'c) ConfigVar) list"

datatype config_error = Invalid_argument string

definition name_chars :: string where
  "name_chars = ''abcdefghikjlmnopqrstuvwxyz._012345678''"

definition invalid_name :: "string \<Rightarrow> bool" where
  "invalid_name name \<longleftrightarrow> list_ex (\<lambda>c. c \<notin> set name_chars) name"

definition Config_LookupBase :: "('v, 'c) config \<Rightarrow> string \<Rightarrow> ('v, 'c) ConfigVar option" where
  "Config_LookupBase datas name = map_of datas name"

text \<open>\<open>Lookup\<close> with a default value: the pointer is the name, or nothing for \<open>nullptr\<close>.\<close>

definition Config_Lookup_default ::
    "('v, 'c) config \<Rightarrow> string \<Rightarrow> string \<Rightarrow> 'v \<Rightarrow> string \<Rightarrow> config_error + (string option \<times> ('v, 'c) config)" where
  "Config_Lookup_default datas type name default_value description =
     (case map_of datas name of
        Some var \<Rightarrow> Inr (if cv_type var = type then Some name else None, datas)
      | None \<Rightarrow>
          if invalid_name name then Inl (Invalid_argument name)
          else Inr (Some name, AList.update name (ConfigVar_new type name default_value description) datas))"

definition Config_Lookup :: "('v, 'c) config \<Rightarrow> string \<Rightarrow> string \<Rightarrow> string option" where
  "Config_Lookup datas type name =
     (case map_of datas name of
        None \<Rightarrow> None
      | Some var \<Rightarrow> if cv_type var = type then Some name else None)"

definition Config_Visit :: "(('v, 'c) ConfigVar \<Rightarrow> 'w \<Rightarrow> 'w) \<Rightarrow> ('v, 'c) config \<Rightarrow> 'w \<Rightarrow> 'w" where
  "Config_Visit cb datas w = fold (\<lambda>(_, var). cb var) datas w"

subsection \<open>Loading\<close>

text \<open>A node of \<open>yaml-cpp\<close>; the entries of a map have scalar keys.\<close>

datatype Node = Null | Scalar string | Sequence "Node list" | Map "(string \<times> Node) list"

lemma size_entry [termination_simp]: "(k, n) \<in> set es \<Longrightarrow> size n < Suc (size_list (size_prod (\<lambda>_. 0) size) es)"
  by (induction es) auto

fun ListAllMember :: "string \<Rightarrow> Node \<Rightarrow> (string \<times> Node) list" where
  "ListAllMember pre node =
     (if invalid_name pre then []
      else (pre, node) #
        (case node of
           Map es \<Rightarrow> concat (map (\<lambda>(k, n). ListAllMember (if pre = [] then k else pre @ ''.'' @ k) n) es)
         | _ \<Rightarrow> []))"

text \<open>\<open>emit\<close> is the text that the library writes for a node.\<close>

definition node_string :: "(Node \<Rightarrow> string) \<Rightarrow> Node \<Rightarrow> string" where
  "node_string emit n = (case n of Scalar s \<Rightarrow> s | _ \<Rightarrow> emit n)"

fun load_nodes ::
    "(Node \<Rightarrow> string) \<Rightarrow> (string \<Rightarrow> string \<Rightarrow> 'v option) \<Rightarrow> ('c \<Rightarrow> 'v \<Rightarrow> 'v \<Rightarrow> 'w \<Rightarrow> bool \<times> 'w) \<Rightarrow> (string \<times> Node) list \<Rightarrow>
      ('v, 'c) config \<Rightarrow> 'w \<Rightarrow> ('v, 'c) config \<times> 'w" where
  "load_nodes emit fromStr run [] datas w = (datas, w)"
| "load_nodes emit fromStr run ((key, node) # nodes) datas w =
     (if key = [] then load_nodes emit fromStr run nodes datas w
      else
        let key = map tolower key in
        case Config_LookupBase datas key of
          None \<Rightarrow> load_nodes emit fromStr run nodes datas w
        | Some var \<Rightarrow>
            case ConfigVar_fromString fromStr run (node_string emit node) var w of (_, var, w) \<Rightarrow>
              load_nodes emit fromStr run nodes (AList.update key var datas) w)"

definition Config_LoadFromYaml ::
    "(Node \<Rightarrow> string) \<Rightarrow> (string \<Rightarrow> string \<Rightarrow> 'v option) \<Rightarrow> ('c \<Rightarrow> 'v \<Rightarrow> 'v \<Rightarrow> 'w \<Rightarrow> bool \<times> 'w) \<Rightarrow> Node \<Rightarrow>
      ('v, 'c) config \<Rightarrow> 'w \<Rightarrow> ('v, 'c) config \<times> 'w" where
  "Config_LoadFromYaml emit fromStr run root datas w = load_nodes emit fromStr run (ListAllMember [] root) datas w"

declare ListAllMember.simps [simp del]

section \<open>Containers as YAML text\<close>

text \<open>
  \<open>LexicalCast\<close> for containers. \<open>load\<close> is \<open>YAML::Load\<close>, which may throw, \<open>emit\<close> the text of a node, \<open>elems\<close> the nodes that indexing from
  \<open>0\<close> to \<open>size() - 1\<close> yields, \<open>entries\<close> the keys and values that an iteration yields; \<open>cast\<close> is the conversion for the
  element type. A set is a list without repetitions, a map an association list, in the order of insertion.
\<close>

fun cast_all :: "('a \<Rightarrow> 'b option) \<Rightarrow> 'a list \<Rightarrow> 'b list option" where
  "cast_all f [] = Some []"
| "cast_all f (x # xs) = (case f x of None \<Rightarrow> None | Some y \<Rightarrow> (case cast_all f xs of None \<Rightarrow> None | Some ys \<Rightarrow> Some (y # ys)))"

definition cast_to_vector ::
    "(string \<Rightarrow> Node option) \<Rightarrow> (Node \<Rightarrow> string) \<Rightarrow> (Node \<Rightarrow> Node list) \<Rightarrow> (string \<Rightarrow> 't option) \<Rightarrow> string \<Rightarrow> 't list option" where
  "cast_to_vector load emit elems cast v =
     (case load v of None \<Rightarrow> None | Some node \<Rightarrow> cast_all (\<lambda>n. cast (emit n)) (elems node))"

definition cast_from_vector ::
    "(string \<Rightarrow> Node option) \<Rightarrow> (Node \<Rightarrow> string) \<Rightarrow> ('t \<Rightarrow> string option) \<Rightarrow> 't list \<Rightarrow> string option" where
  "cast_from_vector load emit cast v =
     map_option (\<lambda>ns. emit (Sequence ns)) (cast_all (\<lambda>x. case cast x of None \<Rightarrow> None | Some s \<Rightarrow> load s) v)"

definition cast_to_set ::
    "(string \<Rightarrow> Node option) \<Rightarrow> (Node \<Rightarrow> string) \<Rightarrow> (Node \<Rightarrow> Node list) \<Rightarrow> (string \<Rightarrow> 't option) \<Rightarrow> string \<Rightarrow> 't list option" where
  "cast_to_set load emit elems cast v =
     map_option (\<lambda>xs. fold List.insert xs []) (cast_to_vector load emit elems cast v)"

definition cast_to_map ::
    "(string \<Rightarrow> Node option) \<Rightarrow> (Node \<Rightarrow> string) \<Rightarrow> (Node \<Rightarrow> (string \<times> Node) list) \<Rightarrow> (string \<Rightarrow> 't option) \<Rightarrow> string \<Rightarrow>
      (string \<times> 't) list option" where
  "cast_to_map load emit entries cast v =
     (case load v of
        None \<Rightarrow> None
      | Some node \<Rightarrow>
          map_option (\<lambda>xs. fold (\<lambda>(k, x) m. if map_of m k = None then m @ [(k, x)] else m) xs [])
            (cast_all (\<lambda>(k, n). map_option (Pair k) (cast (emit n))) (entries node)))"

definition cast_from_map ::
    "(string \<Rightarrow> Node option) \<Rightarrow> (Node \<Rightarrow> string) \<Rightarrow> ('t \<Rightarrow> string option) \<Rightarrow> (string \<times> 't) list \<Rightarrow> string option" where
  "cast_from_map load emit cast v =
     map_option (\<lambda>es. emit (Map es))
       (cast_all (\<lambda>(k, x). case cast x of None \<Rightarrow> None | Some s \<Rightarrow> map_option (Pair k) (load s)) v)"

text \<open>The specialisations for lists, for sets and for the hashed containers repeat the same code.\<close>

definition cast_to_list ::
    "(string \<Rightarrow> Node option) \<Rightarrow> (Node \<Rightarrow> string) \<Rightarrow> (Node \<Rightarrow> Node list) \<Rightarrow> (string \<Rightarrow> 't option) \<Rightarrow> string \<Rightarrow> 't list option" where
  "cast_to_list = cast_to_vector"

definition cast_from_list ::
    "(string \<Rightarrow> Node option) \<Rightarrow> (Node \<Rightarrow> string) \<Rightarrow> ('t \<Rightarrow> string option) \<Rightarrow> 't list \<Rightarrow> string option" where
  "cast_from_list = cast_from_vector"

definition cast_from_set ::
    "(string \<Rightarrow> Node option) \<Rightarrow> (Node \<Rightarrow> string) \<Rightarrow> ('t \<Rightarrow> string option) \<Rightarrow> 't list \<Rightarrow> string option" where
  "cast_from_set = cast_from_vector"

definition cast_to_unordered_set ::
    "(string \<Rightarrow> Node option) \<Rightarrow> (Node \<Rightarrow> string) \<Rightarrow> (Node \<Rightarrow> Node list) \<Rightarrow> (string \<Rightarrow> 't option) \<Rightarrow> string \<Rightarrow> 't list option" where
  "cast_to_unordered_set = cast_to_set"

definition cast_from_unordered_set ::
    "(string \<Rightarrow> Node option) \<Rightarrow> (Node \<Rightarrow> string) \<Rightarrow> ('t \<Rightarrow> string option) \<Rightarrow> 't list \<Rightarrow> string option" where
  "cast_from_unordered_set = cast_from_vector"

definition cast_to_unordered_map ::
    "(string \<Rightarrow> Node option) \<Rightarrow> (Node \<Rightarrow> string) \<Rightarrow> (Node \<Rightarrow> (string \<times> Node) list) \<Rightarrow> (string \<Rightarrow> 't option) \<Rightarrow> string \<Rightarrow>
      (string \<times> 't) list option" where
  "cast_to_unordered_map = cast_to_map"

definition cast_from_unordered_map ::
    "(string \<Rightarrow> Node option) \<Rightarrow> (Node \<Rightarrow> string) \<Rightarrow> ('t \<Rightarrow> string option) \<Rightarrow> (string \<times> 't) list \<Rightarrow> string option" where
  "cast_from_unordered_map = cast_from_map"

lemma cast_all_SomeD: "cast_all f xs = Some ys \<Longrightarrow> list_all2 (\<lambda>x y. f x = Some y) xs ys"
  by (induction xs arbitrary: ys) (auto split: option.splits)

lemma cast_all_list_all2: "list_all2 (\<lambda>x y. f x = Some y) xs ys \<Longrightarrow> cast_all f xs = Some ys"
  by (induction rule: list_all2_induct) auto

text \<open>
  The round trips. Of the library they use that a sequence or a map that is written and loaded again is the same node,
  and of the element type that a value written, loaded, written and converted is the value.
\<close>

lemma cast_vector_round_trip:
  assumes "cast_from_vector load emit toStr v = Some s"
    and "\<And>ns. load (emit (Sequence ns)) = Some (Sequence ns)" "\<And>ns. elems (Sequence ns) = ns"
    and "\<And>x t n. x \<in> set v \<Longrightarrow> toStr x = Some t \<Longrightarrow> load t = Some n \<Longrightarrow> fromStr (emit n) = Some x"
  shows "cast_to_vector load emit elems fromStr s = Some v"
proof -
  obtain ns where ns: "cast_all (\<lambda>x. case toStr x of None \<Rightarrow> None | Some s \<Rightarrow> load s) v = Some ns" "s = emit (Sequence ns)"
    using assms(1) by (auto simp: cast_from_vector_def)
  have "list_all2 (\<lambda>n x. fromStr (emit n) = Some x) ns v"
    unfolding list_all2_conv_all_nth
  proof (intro conjI allI impI)
    show len: "length ns = length v" using cast_all_SomeD [OF ns(1)] by (simp add: list_all2_lengthD)
    fix i assume i: "i < length ns"
    have "(case toStr (v ! i) of None \<Rightarrow> None | Some s \<Rightarrow> load s) = Some (ns ! i)"
      using cast_all_SomeD [OF ns(1)] i by (auto simp: list_all2_conv_all_nth)
    then obtain t where "toStr (v ! i) = Some t" "load t = Some (ns ! i)" by (auto split: option.splits)
    then show "fromStr (emit (ns ! i)) = Some (v ! i)" using assms(4) i len by simp
  qed
  then show ?thesis
    by (simp add: cast_to_vector_def ns(2) assms(2,3) cast_all_list_all2)
qed

lemma fold_insert_distinct: "distinct (ys @ xs) \<Longrightarrow> set (fold List.insert xs ys) = set xs \<union> set ys"
  by (induction xs arbitrary: ys) (auto simp: List.insert_def)

lemma cast_set_round_trip:
  assumes "cast_from_vector load emit toStr v = Some s" "distinct v"
    and "\<And>ns. load (emit (Sequence ns)) = Some (Sequence ns)" "\<And>ns. elems (Sequence ns) = ns"
    and "\<And>x t n. x \<in> set v \<Longrightarrow> toStr x = Some t \<Longrightarrow> load t = Some n \<Longrightarrow> fromStr (emit n) = Some x"
  shows "\<exists>u. cast_to_set load emit elems fromStr s = Some u \<and> set u = set v"
proof -
  have "cast_to_vector load emit elems fromStr s = Some v"
    by (rule cast_vector_round_trip [where toStr = toStr]) (use assms in auto)
  then show ?thesis using fold_insert_distinct [of "[]" v] assms(2) by (simp add: cast_to_set_def)
qed

lemma fold_add_distinct:
  "distinct (map fst (ys @ xs)) \<Longrightarrow> fold (\<lambda>(k, x) m. if map_of m k = None then m @ [(k, x)] else m) xs ys = ys @ xs"
proof (induction xs arbitrary: ys)
  case (Cons e xs)
  then have "map_of ys (fst e) = None" by (auto simp: map_of_eq_None_iff)
  then show ?case using Cons.IH [of "ys @ [e]"] Cons.prems by (cases e) simp
qed simp

lemma cast_map_round_trip:
  assumes "cast_from_map load emit toStr v = Some s" "distinct (map fst v)"
    and "\<And>es. load (emit (Map es)) = Some (Map es)" "\<And>es. entries (Map es) = es"
    and "\<And>k x t n. (k, x) \<in> set v \<Longrightarrow> toStr x = Some t \<Longrightarrow> load t = Some n \<Longrightarrow> fromStr (emit n) = Some x"
  shows "cast_to_map load emit entries fromStr s = Some v"
proof -
  let ?f = "\<lambda>(k, x). case toStr x of None \<Rightarrow> None | Some s \<Rightarrow> map_option (Pair k) (load s)"
  obtain es where es: "cast_all ?f v = Some es" "s = emit (Map es)" using assms(1) by (auto simp: cast_from_map_def)
  have "list_all2 (\<lambda>e x. (case e of (k, n) \<Rightarrow> map_option (Pair k) (fromStr (emit n))) = Some x) es v"
    unfolding list_all2_conv_all_nth
  proof (intro conjI allI impI)
    show "length es = length v" using cast_all_SomeD [OF es(1)] by (simp add: list_all2_lengthD)
    fix i assume i: "i < length es"
    obtain k x where kx: "v ! i = (k, x)" by force
    have "?f (v ! i) = Some (es ! i)" using cast_all_SomeD [OF es(1)] i by (auto simp: list_all2_conv_all_nth)
    then obtain t n where "toStr x = Some t" "load t = Some n" "es ! i = (k, n)"
      by (auto simp: kx split: option.splits)
    moreover have "(k, x) \<in> set v" using i \<open>length es = length v\<close> kx by (metis nth_mem)
    ultimately show "(case es ! i of (k, n) \<Rightarrow> map_option (Pair k) (fromStr (emit n))) = Some (v ! i)"
      using assms(5) by (simp add: kx)
  qed
  from cast_all_list_all2 [OF this] show ?thesis
    using fold_add_distinct [of "[]" v] assms(2) by (simp add: cast_to_map_def es(2) assms(3,4))
qed

section \<open>Consistency\<close>

definition var_ok :: "string \<Rightarrow> ('v, 'c) ConfigVar \<Rightarrow> bool" where
  "var_ok k var \<longleftrightarrow> \<not> invalid_name k \<and> cv_name var = k \<and> distinct (map fst (cv_cbs var))"

definition config_inv :: "('v, 'c) config \<Rightarrow> bool" where
  "config_inv datas \<longleftrightarrow> distinct (map fst datas) \<and> (\<forall>k var. map_of datas k = Some var \<longrightarrow> var_ok k var)"

text \<open>The listeners and the value are all that an operation on a parameter changes.\<close>

definition same_var :: "('v, 'c) ConfigVar \<Rightarrow> ('v, 'c) ConfigVar \<Rightarrow> bool" where
  "same_var var var' \<longleftrightarrow>
     cv_name var' = cv_name var \<and> cv_type var' = cv_type var \<and> cv_description var' = cv_description var \<and>
     (distinct (map fst (cv_cbs var)) \<longrightarrow> distinct (map fst (cv_cbs var')))"

lemma same_var_refl [simp]: "same_var var var"
  by (simp add: same_var_def)

lemma same_var_setValue: "ConfigVar_setValue run v var w = (b, var', w') \<Longrightarrow> same_var var var'"
  by (auto simp: ConfigVar_setValue_def same_var_def split: if_splits prod.splits bool.splits)

lemma same_var_fromString: "ConfigVar_fromString fromStr run s var w = (b, var', w') \<Longrightarrow> same_var var var'"
  by (auto simp: ConfigVar_fromString_def split: option.splits prod.splits dest: same_var_setValue)

lemma same_var_listeners:
  "ConfigVar_addListener cb var ids = (n, var', ids') \<Longrightarrow> same_var var var'"
  "same_var var (ConfigVar_delListener key var)" "same_var var (ConfigVar_clearListener var)"
  by (auto simp: ConfigVar_addListener_def ConfigVar_delListener_def ConfigVar_clearListener_def same_var_def Let_def
      intro: distinct_update distinct_delete)

lemma map_of_AList_update [simp]: "map_of (AList.update k v m) = (map_of m)(k \<mapsto> v)"
  by (rule update_conv')

text \<open>\<open>extends datas datas'\<close>: the parameters of \<open>datas\<close> are still there, with their types, and the invariant is kept.\<close>

definition extends :: "('v, 'c) config \<Rightarrow> ('v, 'c) config \<Rightarrow> bool" where
  "extends datas datas' \<longleftrightarrow>
     (config_inv datas \<longrightarrow> config_inv datas') \<and>
     (\<forall>k var. map_of datas k = Some var \<longrightarrow> (\<exists>var'. map_of datas' k = Some var' \<and> same_var var var'))"

lemma extends_refl [simp]: "extends datas datas"
  by (auto simp: extends_def)

lemma same_var_trans: "same_var a b \<Longrightarrow> same_var b c \<Longrightarrow> same_var a c"
  by (auto simp: same_var_def)

lemma extends_trans: "extends a b \<Longrightarrow> extends b c \<Longrightarrow> extends a c"
  unfolding extends_def by (meson same_var_trans)

lemma extends_update:
  assumes "map_of datas k = Some var" "same_var var var'"
  shows "extends datas (AList.update k var' datas)"
  using assms by (auto simp: extends_def config_inv_def var_ok_def same_var_def intro: distinct_update)

lemma extends_load_nodes: "load_nodes emit fromStr run nodes datas w = (datas', w') \<Longrightarrow> extends datas datas'"
proof (induction nodes arbitrary: datas w)
  case (Cons e nodes)
  obtain key node where e: "e = (key, node)" by force
  show ?case
  proof (cases "key = [] \<or> map_of datas (map tolower key) = None")
    case True
    then have "load_nodes emit fromStr run (e # nodes) datas w = load_nodes emit fromStr run nodes datas w"
      by (auto simp: e Config_LookupBase_def Let_def)
    then show ?thesis using Cons by simp
  next
    case False
    then obtain var where var: "map_of datas (map tolower key) = Some var" by auto
    obtain b var' w1 where 1: "ConfigVar_fromString fromStr run (node_string emit node) var w = (b, var', w1)"
      by (metis prod_cases3)
    have "load_nodes emit fromStr run (e # nodes) datas w =
        load_nodes emit fromStr run nodes (AList.update (map tolower key) var' datas) w1"
      using False var 1 by (simp add: e Config_LookupBase_def)
    then show ?thesis
      using Cons extends_update [OF var same_var_fromString [OF 1]] by (auto intro: extends_trans)
  qed
qed simp

lemma tolower_name_chars: "c \<in> set name_chars \<Longrightarrow> tolower c = c"
  by (auto simp: name_chars_def tolower_def)

lemma tolower_valid: "\<not> invalid_name s \<Longrightarrow> map tolower s = s"
  by (auto simp: invalid_name_def list_ex_iff tolower_name_chars intro: map_idI)

lemma extends_lookup:
  assumes "Config_Lookup_default datas type name v d = Inr (r, datas')"
  shows "extends datas datas'"
proof (cases "map_of datas name")
  case None
  then have new: "\<not> invalid_name name" "datas' = AList.update name (ConfigVar_new type name v d) datas"
    using assms by (auto simp: Config_Lookup_default_def split: if_splits)
  have "var_ok name (ConfigVar_new type name v d)"
    using new(1) by (simp add: var_ok_def ConfigVar_new_def tolower_valid)
  then show ?thesis
    using None new by (auto simp: extends_def config_inv_def intro: distinct_update)
qed (use assms in \<open>auto simp: Config_Lookup_default_def\<close>)

text \<open>What a program does with the table: one step of it.\<close>

inductive config_step ::
    "(Node \<Rightarrow> string) \<Rightarrow> (string \<Rightarrow> string \<Rightarrow> 'v option) \<Rightarrow> ('c \<Rightarrow> 'v \<Rightarrow> 'v \<Rightarrow> 'w \<Rightarrow> bool \<times> 'w) \<Rightarrow>
      ('v, 'c) config \<times> (string \<Rightarrow> u64) \<times> 'w \<Rightarrow> ('v, 'c) config \<times> (string \<Rightarrow> u64) \<times> 'w \<Rightarrow> bool"
  for emit fromStr run where
  lookup: "Config_Lookup_default datas type name v d = Inr (r, datas') \<Longrightarrow>
    config_step emit fromStr run (datas, ids, w) (datas', ids, w)"
| set: "map_of datas k = Some var \<Longrightarrow> ConfigVar_setValue run v var w = (b, var', w') \<Longrightarrow>
    config_step emit fromStr run (datas, ids, w) (AList.update k var' datas, ids, w')"
| from_string: "map_of datas k = Some var \<Longrightarrow> ConfigVar_fromString fromStr run s var w = (b, var', w') \<Longrightarrow>
    config_step emit fromStr run (datas, ids, w) (AList.update k var' datas, ids, w')"
| add: "map_of datas k = Some var \<Longrightarrow> ConfigVar_addListener cb var ids = (n, var', ids') \<Longrightarrow>
    config_step emit fromStr run (datas, ids, w) (AList.update k var' datas, ids', w)"
| del: "map_of datas k = Some var \<Longrightarrow>
    config_step emit fromStr run (datas, ids, w) (AList.update k (ConfigVar_delListener key var) datas, ids, w)"
| clear: "map_of datas k = Some var \<Longrightarrow>
    config_step emit fromStr run (datas, ids, w) (AList.update k (ConfigVar_clearListener var) datas, ids, w)"
| load: "Config_LoadFromYaml emit fromStr run root datas w = (datas', w') \<Longrightarrow>
    config_step emit fromStr run (datas, ids, w) (datas', ids, w')"

lemma config_step_extends: "config_step emit fromStr run s s' \<Longrightarrow> extends (fst s) (fst s')"
  by (induction rule: config_step.induct)
     (auto simp: Config_LoadFromYaml_def intro: extends_lookup extends_update same_var_setValue same_var_fromString
        same_var_listeners extends_load_nodes)

lemma config_steps_extend: "(config_step emit fromStr run)\<^sup>*\<^sup>* s s' \<Longrightarrow> extends (fst s) (fst s')"
  by (induction rule: rtranclp_induct) (auto intro: extends_trans config_step_extends)

section \<open>Properties\<close>

text \<open>
  C36. Parameters keep their identity: from the empty table, whatever lookups, assignments, loads and changes of listeners
  follow, every parameter is found under its own, valid name with listeners of distinct numbers, and no
  later operation removes a parameter or changes its name, its type or its description.
\<close>

theorem Config_reachable_consistent:
  assumes "(config_step emit fromStr run)\<^sup>*\<^sup>* ([], ids0, w0) (datas, ids, w)"
    and "(config_step emit fromStr run)\<^sup>*\<^sup>* (datas, ids, w) (datas', ids', w')"
    and "Config_LookupBase datas k = Some var"
  shows "\<not> invalid_name k \<and> cv_name var = k \<and> distinct (map fst (cv_cbs var)) \<and>
    (\<exists>var'. Config_LookupBase datas' k = Some var' \<and> cv_name var' = k \<and> cv_type var' = cv_type var \<and>
      cv_description var' = cv_description var)"
proof -
  have "config_inv datas" using config_steps_extend [OF assms(1)] by (simp add: extends_def config_inv_def)
  then have "var_ok k var" using assms(3) by (simp add: config_inv_def Config_LookupBase_def)
  moreover obtain var' where "map_of datas' k = Some var'" "same_var var var'"
    using config_steps_extend [OF assms(2)] assms(3) by (auto simp: extends_def Config_LookupBase_def)
  ultimately show ?thesis by (auto simp: var_ok_def same_var_def Config_LookupBase_def)
qed

theorem Config_reachable_consistent_witness:
  "case Config_Lookup_default ([] :: (int, nat) config) ''int'' ''system.port'' 8080 ''the port'' of
     Inr (r, datas) \<Rightarrow>
       (\<exists>var'. Config_LookupBase (fst (Config_LoadFromYaml (\<lambda>_. []) (\<lambda>_ s. if s = ''90'' then Some 90 else None)
          (\<lambda>_ _ _ w. (True, w)) (Map [(''system'', Map [(''port'', Scalar ''90'')])]) datas ())) ''system.port'' = Some var' \<and>
          cv_type var' = ''int'')
   | Inl e \<Rightarrow> False"
proof -
  let ?fs = "\<lambda>(_ :: string) s. if s = ''90'' then Some (90 :: int) else None"
  let ?run = "\<lambda>(_ :: nat) (_ :: int) (_ :: int) (w :: unit). (True, w)" and ?root = "Map [(''system'', Map [(''port'', Scalar ''90'')])]"
  let ?var = "ConfigVar_new ''int'' ''system.port'' (8080 :: int) ''the port'' :: (int, nat) ConfigVar"
  have lk: "Config_Lookup_default [] ''int'' ''system.port'' 8080 ''the port'' = Inr (Some ''system.port'', [(''system.port'', ?var)])"
    by (simp add: Config_Lookup_default_def invalid_name_def name_chars_def)
  obtain d w where ld: "Config_LoadFromYaml (\<lambda>_. []) ?fs ?run ?root [(''system.port'', ?var)] () = (d, w)" by (metis surj_pair)
  have 1: "(config_step (\<lambda>_. []) ?fs ?run)\<^sup>*\<^sup>* ([], \<lambda>_. 0, ()) ([(''system.port'', ?var)], \<lambda>_. 0, ())"
    by (rule r_into_rtranclp) (rule config_step.lookup [OF lk])
  have 2: "(config_step (\<lambda>_. []) ?fs ?run)\<^sup>*\<^sup>* ([(''system.port'', ?var)], \<lambda>_. 0, ()) (d, \<lambda>_. 0, w)"
    by (rule r_into_rtranclp) (rule config_step.load [OF ld])
  have t: "cv_type ?var = ''int''" by (simp add: ConfigVar_new_def)
  show ?thesis
    using Config_reachable_consistent [OF 1 2, of "''system.port''" ?var]
    by (simp add: lk ld Config_LookupBase_def t) blast
qed

text \<open>The value after a sequence of texts, of which those that cannot be converted count for nothing.\<close>

definition convert_last :: "(string \<Rightarrow> 'v option) \<Rightarrow> string list \<Rightarrow> 'v \<Rightarrow> 'v" where
  "convert_last conv ss v = fold (\<lambda>s v. case conv s of None \<Rightarrow> v | Some v' \<Rightarrow> v') ss v"

lemma convert_last_simps [simp]:
  "convert_last conv [] v = v"
  "convert_last conv (s # ss) v = convert_last conv ss (case conv s of None \<Rightarrow> v | Some v' \<Rightarrow> v')"
  by (simp_all add: convert_last_def)

lemma convert_last_append:
  "convert_last conv (ss @ [s]) v = (case conv s of None \<Rightarrow> convert_last conv ss v | Some v' \<Rightarrow> v')"
  by (simp add: convert_last_def split: option.splits)

lemma notify_returns: "(\<And>cb old new w. fst (run cb old new w)) \<Longrightarrow> fst (notify run cbs old new w)"
  by (induction run cbs old new w rule: notify.induct) (auto split: prod.splits bool.splits, metis fst_conv)

lemma fromString_value:
  assumes "\<And>cb old new w. fst (run cb old new w)"
  shows "fst (snd (ConfigVar_fromString fromStr run s var w)) =
    var\<lparr>cv_val := case fromStr (cv_type var) s of None \<Rightarrow> cv_val var | Some v \<Rightarrow> v\<rparr>"
proof (cases "fromStr (cv_type var) s")
  case (Some v)
  moreover obtain w' where "notify run (cv_cbs var) (cv_val var) v w = (True, w')"
    using notify_returns [of run "cv_cbs var" "cv_val var" v w] assms by (metis prod.collapse)
  ultimately show ?thesis by (simp add: ConfigVar_fromString_def ConfigVar_setValue_def)
qed (simp add: ConfigVar_fromString_def)

abbreviation texts_at :: "(Node \<Rightarrow> string) \<Rightarrow> string \<Rightarrow> (string \<times> Node) list \<Rightarrow> string list" where
  "texts_at emit k nodes \<equiv> map (node_string emit \<circ> snd) (filter (\<lambda>(key, _). map tolower key = k) nodes)"

lemma load_nodes_value:
  assumes "\<And>cb old new w. fst (run cb old new w)" and "k \<noteq> []"
  shows "map_of (fst (load_nodes emit fromStr run nodes datas w)) k =
    map_option (\<lambda>var. var\<lparr>cv_val := convert_last (fromStr (cv_type var)) (texts_at emit k nodes) (cv_val var)\<rparr>) (map_of datas k)"
proof (induction nodes arbitrary: datas w)
  case Nil
  then show ?case by (cases "map_of datas k") simp_all
next
  case (Cons e nodes)
  obtain key node where e: "e = (key, node)" by force
  let ?key = "map tolower key"
  show ?case
  proof (cases "key = [] \<or> map_of datas ?key = None")
    case True
    then have "load_nodes emit fromStr run (e # nodes) datas w = load_nodes emit fromStr run nodes datas w"
      by (auto simp: e Config_LookupBase_def Let_def)
    then show ?thesis using Cons True assms(2) by (cases "?key = k") (auto simp: e)
  next
    case False
    then obtain var where var: "map_of datas ?key = Some var" by auto
    obtain b var' w1 where 1: "ConfigVar_fromString fromStr run (node_string emit node) var w = (b, var', w1)"
      by (metis prod_cases3)
    have var': "var' = var\<lparr>cv_val := case fromStr (cv_type var) (node_string emit node) of None \<Rightarrow> cv_val var | Some v \<Rightarrow> v\<rparr>"
      using fromString_value [of run fromStr "node_string emit node" var w] assms(1) by (simp add: 1)
    have "load_nodes emit fromStr run (e # nodes) datas w = load_nodes emit fromStr run nodes (AList.update ?key var' datas) w1"
      using False var 1 by (simp add: e Config_LookupBase_def)
    then show ?thesis using Cons var by (cases "?key = k") (auto simp: e var')
  qed
qed

lemma ListAllMember_valid: "(p, n) \<in> set (ListAllMember pre root) \<Longrightarrow> \<not> invalid_name p"
proof (induction pre root rule: ListAllMember.induct)
  case (1 pre node)
  from 1(2) have pre: "\<not> invalid_name pre" by (subst (asm) ListAllMember.simps) (auto split: if_splits)
  from 1(2) pre consider "p = pre"
    | es k m where "node = Map es" "(k, m) \<in> set es" "(p, n) \<in> set (ListAllMember (if pre = [] then k else pre @ ''.'' @ k) m)"
    by (subst (asm) ListAllMember.simps) (auto split: Node.splits)
  then show ?case using 1(1) pre by cases auto
qed



text \<open>A second lookup with a default finds the parameter of the first and ignores the new default; another type gets a null pointer.\<close>

lemma Config_Lookup_again:
  assumes "Config_Lookup_default datas type name v d = Inr (Some name, datas')"
  shows "Config_Lookup_default datas' type' name v' d' = Inr (if type' = type then Some name else None, datas')"
    and "Config_Lookup datas' type name = Some name"
  using assms by (auto simp: Config_Lookup_default_def Config_Lookup_def ConfigVar_new_def split: option.splits if_splits)

text \<open>A name with an upper-case letter or with the digit nine is refused.\<close>

lemma Config_Lookup_invalid:
  assumes "map_of datas name = None" "c \<in> set name" "c \<in> set ''ABCDEFGHIJKLMNOPQRSTUVWXYZ9''"
  shows "Config_Lookup_default datas type name v d = Inl (Invalid_argument name)"
proof -
  have "\<forall>c \<in> set ''ABCDEFGHIJKLMNOPQRSTUVWXYZ9''. c \<notin> set name_chars" by code_simp
  then have "invalid_name name" using assms(2,3) by (auto simp: invalid_name_def list_ex_iff)
  then show ?thesis using assms(1) by (simp add: Config_Lookup_default_def)
qed

text \<open>\<open>fromString\<close> reports failure whatever happens.\<close>

lemma ConfigVar_fromString_false: "\<not> fst (ConfigVar_fromString fromStr run s var w)"
  by (auto simp: ConfigVar_fromString_def split: option.splits prod.splits)

lemma ConfigVar_listener_laws:
  assumes "ConfigVar_addListener cb var ids = (n, var', ids')"
  shows "ConfigVar_getListener n var' = Some cb" "ConfigVar_getListener n (ConfigVar_delListener n var') = None"
    and "m \<noteq> n \<Longrightarrow> ConfigVar_getListener m var' = ConfigVar_getListener m var"
  using assms by (auto simp: ConfigVar_addListener_def ConfigVar_getListener_def ConfigVar_delListener_def delete_conv' Let_def)

end
