(* ===== verification/Json_Util.thy ===== *)
theory Json_Util
  imports Config Ordered_Map
begin

text \<open>
  \<^verbatim>\<open>sylar/util/json_util.cc\<close>: escaping of strings and typed access to the members of a JSON object; and the
  conversions between YAML and JSON trees of \<^verbatim>\<open>sylar/util.cc\<close>.

  \<open>Value\<close> is the value type of the library \<open>jsoncpp\<close>: an integer value lies between \<open>-2^63\<close> and \<open>2^64 - 1\<close>, the members of an
  object are ordered by name. Its real numbers \<open>'r\<close> come with arguments: \<open>integral r\<close> is the integer that \<open>r\<close> equals, if
  any, \<open>real_of\<close> converts an integer, \<open>atof\<close> a text, and \<open>show_real\<close> prints. \<open>isMember\<close> of a value that is neither null
  nor an object throws. \<open>FromString\<close> and \<open>ToString\<close> are calls of the library.

  Shown here: what \<open>Escape\<close> returns, the ranges of the accessors, and that a YAML tree converted to JSON and back is the same tree.
\<close>

section \<open>Escaping\<close>

definition escape_char :: "char \<Rightarrow> string" where
  "escape_char c =
     (if c = CHR 0x0C then [CHR 0x5C, CHR ''f''] else if c = CHR 0x09 then [CHR 0x5C, CHR ''t'']
      else if c = CHR 0x0D then [CHR 0x5C, CHR ''r''] else if c = CHR 0x0A then [CHR 0x5C, CHR ''n'']
      else if c = CHR 0x08 then [CHR 0x5C, CHR ''b''] else if c = CHR 0x22 then [CHR 0x5C, CHR 0x22]
      else if c = CHR 0x5C then [CHR 0x5C, CHR 0x5C] else [c])"

definition needs_escape :: "char \<Rightarrow> bool" where
  "needs_escape c \<longleftrightarrow> c \<in> set [CHR 0x0C, CHR 0x09, CHR 0x0D, CHR 0x0A, CHR 0x08, CHR 0x22, CHR 0x5C]"

definition JsonUtil_NeedEscape :: "string \<Rightarrow> bool" where
  "JsonUtil_NeedEscape v = list_ex needs_escape v"

text \<open>\<open>resize\<close> fills the result with NUL characters, behind which the characters are appended.\<close>

definition JsonUtil_Escape :: "string \<Rightarrow> string" where
  "JsonUtil_Escape v =
     (let size = sum_list (map (\<lambda>c. if needs_escape c then 2 else 1) v) in
      if size = length v then v
      else foldl (\<lambda>rt c. rt @ escape_char c) (replicate size (CHR 0x00)) v)"

section \<open>Values\<close>

datatype 'r Value =
    Null_value
  | Int_value int
  | Real_value 'r
  | Bool_value bool
  | String_value string
  | Array_value "'r Value list"
  | Object_value "(string \<times> 'r Value) list"

datatype json_error = Logic_error

definition json_member :: "'r Value \<Rightarrow> string \<Rightarrow> json_error + 'r Value option" where
  "json_member json name =
     (case json of
        Null_value \<Rightarrow> Inr None
      | Object_value ms \<Rightarrow> Inr (omap_find string_less name ms)
      | _ \<Rightarrow> Inl Logic_error)"

text \<open>\<open>isInt\<close> and its relatives with the conversion: the integer between the bounds that the value is.\<close>

definition as_integer :: "('r \<Rightarrow> int option) \<Rightarrow> int \<Rightarrow> int \<Rightarrow> 'r Value \<Rightarrow> int option" where
  "as_integer integral lo hi v =
     (case (case v of Int_value i \<Rightarrow> Some i | Real_value r \<Rightarrow> integral r | _ \<Rightarrow> None) of
        None \<Rightarrow> None
      | Some i \<Rightarrow> if lo \<le> i \<and> i \<le> hi then Some i else None)"

definition JsonUtil_GetString :: "'r Value \<Rightarrow> string \<Rightarrow> string \<Rightarrow> json_error + string" where
  "JsonUtil_GetString json name default_value =
     bindE (json_member json name) (\<lambda>m. Inr (case m of Some (String_value s) \<Rightarrow> s | _ \<Rightarrow> default_value))"

definition JsonUtil_GetDouble ::
    "(int \<Rightarrow> 'r) \<Rightarrow> (string \<Rightarrow> 'r) \<Rightarrow> 'r Value \<Rightarrow> string \<Rightarrow> 'r \<Rightarrow> json_error + 'r" where
  "JsonUtil_GetDouble real_of atof json name default_value =
     bindE (json_member json name) (\<lambda>m. Inr (case m of
        Some (Real_value r) \<Rightarrow> r
      | Some (Int_value i) \<Rightarrow> real_of i
      | Some (String_value s) \<Rightarrow> if s = [] then real_of 0 else atof s
      | _ \<Rightarrow> default_value))"

definition JsonUtil_GetInt32 :: "('r \<Rightarrow> int option) \<Rightarrow> 'r Value \<Rightarrow> string \<Rightarrow> int \<Rightarrow> json_error + int" where
  "JsonUtil_GetInt32 integral json name default_value =
     bindE (json_member json name) (\<lambda>m. Inr (case m of
        None \<Rightarrow> default_value
      | Some v \<Rightarrow>
          (case as_integer integral (- (2 ^ 31)) (2 ^ 31 - 1) v of
             Some i \<Rightarrow> i
           | None \<Rightarrow> (case v of String_value s \<Rightarrow> sint (ucast (TypeUtil_Atoi s) :: u32) | _ \<Rightarrow> default_value))))"

definition JsonUtil_GetUint32 :: "('r \<Rightarrow> int option) \<Rightarrow> 'r Value \<Rightarrow> string \<Rightarrow> int \<Rightarrow> json_error + int" where
  "JsonUtil_GetUint32 integral json name default_value =
     bindE (json_member json name) (\<lambda>m. Inr (case m of
        None \<Rightarrow> default_value
      | Some v \<Rightarrow>
          (case as_integer integral 0 (2 ^ 32 - 1) v of
             Some i \<Rightarrow> i
           | None \<Rightarrow> (case v of String_value s \<Rightarrow> uint (ucast (TypeUtil_Atoi s) :: u32) | _ \<Rightarrow> default_value))))"

definition JsonUtil_GetInt64 :: "('r \<Rightarrow> int option) \<Rightarrow> 'r Value \<Rightarrow> string \<Rightarrow> int \<Rightarrow> json_error + int" where
  "JsonUtil_GetInt64 integral json name default_value =
     bindE (json_member json name) (\<lambda>m. Inr (case m of
        None \<Rightarrow> default_value
      | Some v \<Rightarrow>
          (case as_integer integral (- (2 ^ 63)) (2 ^ 63 - 1) v of
             Some i \<Rightarrow> i
           | None \<Rightarrow> (case v of String_value s \<Rightarrow> sint (TypeUtil_Atoi s) | _ \<Rightarrow> default_value))))"

definition JsonUtil_GetUint64 :: "('r \<Rightarrow> int option) \<Rightarrow> 'r Value \<Rightarrow> string \<Rightarrow> int \<Rightarrow> json_error + int" where
  "JsonUtil_GetUint64 integral json name default_value =
     bindE (json_member json name) (\<lambda>m. Inr (case m of
        None \<Rightarrow> default_value
      | Some v \<Rightarrow>
          (case as_integer integral 0 (2 ^ 64 - 1) v of
             Some i \<Rightarrow> i
           | None \<Rightarrow> (case v of String_value s \<Rightarrow> uint (TypeUtil_Atoi s) | _ \<Rightarrow> default_value))))"

section \<open>Trees\<close>

text \<open>
  The element operations of the two libraries, nothing where they throw: a null node becomes a sequence or a map with its first
  element.
\<close>

definition json_append :: "'r Value \<Rightarrow> 'r Value \<Rightarrow> 'r Value option" where
  "json_append j v = (case j of Null_value \<Rightarrow> Some (Array_value [v]) | Array_value vs \<Rightarrow> Some (Array_value (vs @ [v])) | _ \<Rightarrow> None)"

definition json_assign :: "'r Value \<Rightarrow> string \<Rightarrow> 'r Value \<Rightarrow> 'r Value option" where
  "json_assign j k v =
     (case j of
        Null_value \<Rightarrow> Some (Object_value [(k, v)])
      | Object_value ms \<Rightarrow> Some (Object_value (omap_set string_less k v ms))
      | _ \<Rightarrow> None)"

definition yaml_push :: "Node \<Rightarrow> Node \<Rightarrow> Node option" where
  "yaml_push y n = (case y of Null \<Rightarrow> Some (Sequence [n]) | Sequence ns \<Rightarrow> Some (Sequence (ns @ [n])) | _ \<Rightarrow> None)"

definition yaml_assign :: "Node \<Rightarrow> string \<Rightarrow> Node \<Rightarrow> Node option" where
  "yaml_assign y k n =
     (case y of Null \<Rightarrow> Some (Map [(k, n)]) | Map es \<Rightarrow> Some (Map (AList.update k n es)) | _ \<Rightarrow> None)"

text \<open>The conversions; the second component is what the output argument holds at the return.\<close>

fun YamlToJson :: "Node \<Rightarrow> 'r Value \<Rightarrow> bool \<times> 'r Value" and
  yaml_elements :: "Node list \<Rightarrow> 'r Value \<Rightarrow> bool \<times> 'r Value" and
  yaml_entries :: "(string \<times> Node) list \<Rightarrow> 'r Value \<Rightarrow> bool \<times> 'r Value" where
  "YamlToJson (Scalar s) jnode = (True, String_value s)"
| "YamlToJson (Sequence ns) jnode = yaml_elements ns jnode"
| "YamlToJson (Map es) jnode = yaml_entries es jnode"
| "YamlToJson Null jnode = (True, jnode)"
| "yaml_elements [] jnode = (True, jnode)"
| "yaml_elements (n # ns) jnode =
     (case YamlToJson n Null_value of
        (False, _) \<Rightarrow> (False, jnode)
      | (True, v) \<Rightarrow> (case json_append jnode v of None \<Rightarrow> (False, jnode) | Some jnode \<Rightarrow> yaml_elements ns jnode))"
| "yaml_entries [] jnode = (True, jnode)"
| "yaml_entries ((k, n) # es) jnode =
     (case YamlToJson n Null_value of
        (False, _) \<Rightarrow> (False, jnode)
      | (True, v) \<Rightarrow> (case json_assign jnode k v of None \<Rightarrow> (False, jnode) | Some jnode \<Rightarrow> yaml_entries es jnode))"

definition json_asString :: "('r \<Rightarrow> string) \<Rightarrow> 'r Value \<Rightarrow> string" where
  "json_asString show_real v =
     (case v of
        String_value s \<Rightarrow> s
      | Int_value i \<Rightarrow> show_int i
      | Real_value r \<Rightarrow> show_real r
      | Bool_value b \<Rightarrow> if b then ''true'' else ''false''
      | _ \<Rightarrow> [])"

fun JsonToYaml :: "('r \<Rightarrow> string) \<Rightarrow> 'r Value \<Rightarrow> Node \<Rightarrow> bool \<times> Node" and
  json_elements :: "('r \<Rightarrow> string) \<Rightarrow> 'r Value list \<Rightarrow> Node \<Rightarrow> bool \<times> Node" and
  json_entries :: "('r \<Rightarrow> string) \<Rightarrow> (string \<times> 'r Value) list \<Rightarrow> Node \<Rightarrow> bool \<times> Node" where
  "JsonToYaml show_real (Array_value vs) ynode = json_elements show_real vs ynode"
| "JsonToYaml show_real (Object_value ms) ynode = json_entries show_real ms ynode"
| "JsonToYaml show_real v ynode = (True, Scalar (json_asString show_real v))"
| "json_elements show_real [] ynode = (True, ynode)"
| "json_elements show_real (v # vs) ynode =
     (case JsonToYaml show_real v Null of
        (False, _) \<Rightarrow> (False, ynode)
      | (True, n) \<Rightarrow> (case yaml_push ynode n of None \<Rightarrow> (False, ynode) | Some ynode \<Rightarrow> json_elements show_real vs ynode))"
| "json_entries show_real [] ynode = (True, ynode)"
| "json_entries show_real ((k, v) # ms) ynode =
     (case JsonToYaml show_real v Null of
        (False, _) \<Rightarrow> (False, ynode)
      | (True, n) \<Rightarrow> (case yaml_assign ynode k n of None \<Rightarrow> (False, ynode) | Some ynode \<Rightarrow> json_entries show_real ms ynode))"

section \<open>What the accessors return\<close>

lemma as_integer_range: "as_integer integral lo hi v = Some i \<Longrightarrow> lo \<le> i \<and> i \<le> hi"
  by (auto simp: as_integer_def split: Value.splits option.splits if_splits)

text \<open>Every integer that is returned fits the type of the result, when the default does.\<close>

lemma JsonUtil_Get_signed_range:
  "JsonUtil_GetInt32 integral json name d = Inr i \<Longrightarrow> d \<in> {- (2 ^ 31) ..< 2 ^ 31} \<Longrightarrow> i \<in> {- (2 ^ 31) ..< 2 ^ 31}"
  "JsonUtil_GetInt64 integral json name d = Inr i \<Longrightarrow> d \<in> {- (2 ^ 63) ..< 2 ^ 63} \<Longrightarrow> i \<in> {- (2 ^ 63) ..< 2 ^ 63}"
proof -
  have s32: "- (2 ^ 31) \<le> sint w \<and> sint w < 2 ^ 31" for w :: u32
    using sint_greater_eq [of w] sint_less [of w] by simp
  have s64: "- (2 ^ 63) \<le> sint w \<and> sint w < 2 ^ 63" for w :: u64
    using sint_greater_eq [of w] sint_less [of w] by simp
  show "JsonUtil_GetInt32 integral json name d = Inr i \<Longrightarrow> d \<in> {- (2 ^ 31) ..< 2 ^ 31} \<Longrightarrow> i \<in> {- (2 ^ 31) ..< 2 ^ 31}"
    unfolding JsonUtil_GetInt32_def bindE_eq_Inr using s32
    by (fastforce split: option.splits Value.splits dest!: as_integer_range)
  show "JsonUtil_GetInt64 integral json name d = Inr i \<Longrightarrow> d \<in> {- (2 ^ 63) ..< 2 ^ 63} \<Longrightarrow> i \<in> {- (2 ^ 63) ..< 2 ^ 63}"
    unfolding JsonUtil_GetInt64_def bindE_eq_Inr using s64
    by (fastforce split: option.splits Value.splits dest!: as_integer_range)
qed

section \<open>Properties\<close>

text \<open>Reading an escaped text back.\<close>

definition unescape_char :: "char \<Rightarrow> char" where
  "unescape_char c =
     (if c = CHR ''f'' then CHR 0x0C else if c = CHR ''t'' then CHR 0x09 else if c = CHR ''r'' then CHR 0x0D
      else if c = CHR ''n'' then CHR 0x0A else if c = CHR ''b'' then CHR 0x08 else c)"

fun unescape :: "string \<Rightarrow> string" where
  "unescape [] = []"
| "unescape [c] = [c]"
| "unescape (c # d # s) = (if c = CHR 0x5C then unescape_char d # unescape s else c # unescape (d # s))"

lemma unescape_Cons: "c \<noteq> CHR 0x5C \<Longrightarrow> unescape (c # s) = c # unescape s"
  by (cases s) simp_all

lemma unescape_escape: "unescape (concat (map escape_char v)) = v"
  by (induction v) (auto simp: escape_char_def unescape_char_def unescape_Cons)

lemma length_escape: "length (concat (map escape_char v)) = sum_list (map (\<lambda>c. if needs_escape c then 2 else 1) v)"
  by (induction v) (auto simp: escape_char_def needs_escape_def)

lemma foldl_append_escape: "foldl (\<lambda>rt c. rt @ escape_char c) acc v = acc @ concat (map escape_char v)"
  by (induction v arbitrary: acc) simp_all

lemma escape_grows:
  fixes v :: string
  shows "length v \<le> sum_list (map (\<lambda>c. if needs_escape c then 2 else 1) v)"
    and "sum_list (map (\<lambda>c. if needs_escape c then 2 else 1) v) = length v \<longleftrightarrow> \<not> list_ex needs_escape v"
proof -
  show *: "length v \<le> sum_list (map (\<lambda>c. if needs_escape c then 2 else 1) v)" for v :: string by (induction v) auto
  show "sum_list (map (\<lambda>c. if needs_escape c then 2 else 1) v) = length v \<longleftrightarrow> \<not> list_ex needs_escape v"
  proof (induction v)
    case (Cons c v)
    then show ?case using * [of v] by auto
  qed simp
qed

text \<open>
  Escaping: a string without characters to escape is returned as it is; any other is returned with its escaped form, which
  stands for the string, behind as many NUL characters as that form is long.
\<close>

theorem JsonUtil_Escape_result:
  "\<exists>e. unescape e = v \<and>
     JsonUtil_Escape v = (if JsonUtil_NeedEscape v then replicate (length e) (CHR 0x00) @ e else v)"
  by (intro exI [of _ "concat (map escape_char v)"])
     (auto simp: JsonUtil_Escape_def JsonUtil_NeedEscape_def unescape_escape foldl_append_escape length_escape escape_grows(2) Let_def)

subsection \<open>YAML and JSON\<close>

text \<open>Trees of scalars, non-empty sequences and non-empty maps with their keys in order, as JSON values.\<close>

fun yaml_ok :: "Node \<Rightarrow> bool" where
  "yaml_ok Null \<longleftrightarrow> False"
| "yaml_ok (Scalar s) \<longleftrightarrow> True"
| "yaml_ok (Sequence ns) \<longleftrightarrow> ns \<noteq> [] \<and> (\<forall>n \<in> set ns. yaml_ok n)"
| "yaml_ok (Map es) \<longleftrightarrow> es \<noteq> [] \<and> omap_ok string_less es \<and> (\<forall>n \<in> snd ` set es. yaml_ok n)"

fun to_value :: "Node \<Rightarrow> 'r Value" where
  "to_value Null = Null_value"
| "to_value (Scalar s) = String_value s"
| "to_value (Sequence ns) = Array_value (map to_value ns)"
| "to_value (Map es) = Object_value (map (\<lambda>(k, n). (k, to_value n)) es)"

lemma omap_set_last: "\<forall>e \<in> set m. lt (fst e) k \<Longrightarrow> omap_set lt k v m = m @ [(k, v)]"
  by (induction m) auto

lemma AList_update_last: "k \<notin> fst ` set m \<Longrightarrow> AList.update k v m = m @ [(k, v)]"
  by (induction m) auto

lemma yaml_elements_value:
  fixes vs :: "'r Value list"
  shows "(\<And>n. n \<in> set ns \<Longrightarrow> YamlToJson n Null_value = (True, to_value n :: 'r Value)) \<Longrightarrow>
   yaml_elements ns (Array_value vs) = (True, Array_value (vs @ map to_value ns))"
  by (induction ns arbitrary: vs) (simp_all add: json_append_def)

lemma yaml_entries_value:
  fixes ms :: "(string \<times> 'r Value) list"
  shows "(\<And>k n. (k, n) \<in> set es \<Longrightarrow> YamlToJson n Null_value = (True, to_value n :: 'r Value)) \<Longrightarrow>
   sorted_wrt string_less (map fst ms @ map fst es) \<Longrightarrow>
   yaml_entries es (Object_value ms) = (True, Object_value (ms @ map (\<lambda>(k, n). (k, to_value n)) es))"
proof (induction es arbitrary: ms)
  case (Cons e es)
  obtain k n where e: "e = (k, n)" by force
  have "omap_set string_less k (to_value n) ms = ms @ [(k, to_value n)]"
    using Cons.prems(2) by (intro omap_set_last) (auto simp: e sorted_wrt_append)
  moreover have "YamlToJson n Null_value = (True, to_value n :: 'r Value)" using Cons.prems(1) [of k n] by (simp add: e)
  moreover have "yaml_entries es (Object_value (ms @ [(k, to_value n)])) =
      (True, Object_value ((ms @ [(k, to_value n)]) @ map (\<lambda>(k, n). (k, to_value n)) es))"
    using Cons.prems by (intro Cons.IH) (auto simp: e)
  ultimately show ?case by (simp add: e json_assign_def)
qed simp

lemma omap_ok_keys: "omap_ok lt es \<longleftrightarrow> sorted_wrt lt (map fst es)"
  by (simp add: omap_ok_def sorted_wrt_map)

lemma YamlToJson_value: "yaml_ok y \<Longrightarrow> YamlToJson y Null_value = (True, to_value y :: 'r Value)"
proof (induction y)
  case (Sequence ns)
  then obtain n ns' where ns: "ns = n # ns'" by (cases ns) auto
  then show ?case
    using Sequence yaml_elements_value [of ns' "[to_value n :: 'r Value]"] by (simp add: json_append_def)
next
  case (Map es)
  then obtain k n es' where es: "es = (k, n) # es'" by (cases es) auto
  have all: "YamlToJson m Null_value = (True, to_value m :: 'r Value)" if "(q, m) \<in> set es" for q m
    using Map that by (force simp: snds.simps)
  have "yaml_entries es' (Object_value [(k, to_value n :: 'r Value)]) =
      (True, Object_value ([(k, to_value n)] @ map (\<lambda>(k, n). (k, to_value n)) es'))"
    using Map.prems all by (intro yaml_entries_value) (auto simp: es omap_ok_keys)
  then show ?case using all [of k n] by (simp add: es json_assign_def)
qed simp_all

lemma json_elements_value:
  "(\<And>n. n \<in> set ns \<Longrightarrow> JsonToYaml (show_real :: 'r \<Rightarrow> string) (to_value n) Null = (True, n)) \<Longrightarrow>
   json_elements show_real (map to_value ns) (Sequence ms) = (True, Sequence (ms @ ns))"
  by (induction ns arbitrary: ms) (simp_all add: yaml_push_def)

lemma json_entries_value:
  "(\<And>k n. (k, n) \<in> set es \<Longrightarrow> JsonToYaml show_real (to_value n) Null = (True, n)) \<Longrightarrow> distinct (map fst (ms @ es)) \<Longrightarrow>
   json_entries show_real (map (\<lambda>(k, n). (k, to_value n)) es) (Map ms) = (True, Map (ms @ es))"
proof (induction es arbitrary: ms)
  case (Cons e es)
  obtain k n where e: "e = (k, n)" by force
  have "AList.update k n ms = ms @ [(k, n)]" using Cons.prems(2) by (intro AList_update_last) (auto simp: e)
  moreover have "JsonToYaml show_real (to_value n) Null = (True, n)" using Cons.prems(1) [of k n] by (simp add: e)
  moreover have "json_entries show_real (map (\<lambda>(k, n). (k, to_value n)) es) (Map (ms @ [(k, n)])) = (True, Map ((ms @ [(k, n)]) @ es))"
    using Cons.prems by (intro Cons.IH) (auto simp: e)
  ultimately show ?case by (simp add: e yaml_assign_def)
qed simp

lemma sorted_distinct_keys: "sorted_wrt string_less ks \<Longrightarrow> distinct ks"
  by (induction ks) (auto simp: string_less_irrefl)

lemma JsonToYaml_value: "yaml_ok y \<Longrightarrow> JsonToYaml show_real (to_value y) Null = (True, y)"
proof (induction y)
  case (Sequence ns)
  then obtain n ns' where ns: "ns = n # ns'" by (cases ns) auto
  then show ?case
    using Sequence json_elements_value [of ns' show_real "[n]"] by (simp add: yaml_push_def)
next
  case (Map es)
  then obtain k n es' where es: "es = (k, n) # es'" by (cases es) auto
  have all: "JsonToYaml show_real (to_value m) Null = (True, m)" if "(q, m) \<in> set es" for q m
    using Map that by (force simp: snds.simps)
  have "distinct (map fst es)" using Map.prems by (simp add: omap_ok_keys sorted_distinct_keys)
  then have "json_entries show_real (map (\<lambda>(k, n). (k, to_value n)) es') (Map [(k, n)]) = (True, Map ([(k, n)] @ es'))"
    using all by (intro json_entries_value) (auto simp: es)
  then show ?case using all [of k n] by (simp add: es yaml_assign_def)
qed (simp_all add: json_asString_def)

text \<open>
  C39. Trees: every YAML tree of scalars, non-empty sequences and non-empty maps with ordered keys is converted to JSON without
  failure, and the JSON value is converted back, without failure, to the same tree.
\<close>

theorem Yaml_Json_round_trip:
  assumes "yaml_ok y"
  shows "\<exists>j. YamlToJson y Null_value = (True, j) \<and> JsonToYaml show_real j Null = (True, y)"
  using YamlToJson_value [OF assms] JsonToYaml_value [OF assms] by blast

theorem Yaml_Json_round_trip_witness:
  "\<exists>j :: int Value. YamlToJson (Map [(''a'', Sequence [Scalar ''1'', Scalar ''2'']), (''b'', Map [(''c'', Scalar [])])]) Null_value = (True, j) \<and>
     JsonToYaml show_int j Null = (True, Map [(''a'', Sequence [Scalar ''1'', Scalar ''2'']), (''b'', Map [(''c'', Scalar [])])])"
  by (rule Yaml_Json_round_trip) (simp add: omap_ok_def byte_of_char_def)

text \<open>An empty sequence or map becomes null, and null comes back as the empty scalar.\<close>

lemma Yaml_Json_empty:
  "YamlToJson (Sequence []) Null_value = (True, Null_value)" "YamlToJson (Map []) Null_value = (True, Null_value)"
  "JsonToYaml show_real Null_value Null = (True, Scalar [])"
  by (simp_all add: json_asString_def)

end
