(* ===== verification/File_Util.thy ===== *)
theory File_Util
  imports String_Util
begin

text \<open>
  The file system and stream helpers of \<^verbatim>\<open>sylar/util.cc\<close>: \<open>FSUtil::ListAllFile\<close>, \<open>Mkdir\<close>, \<open>Unlink\<close>, \<open>Rm\<close>, \<open>Mv\<close>, \<open>Symlink\<close>,
  and the transfers of a fixed size over standard streams.

  What a path names is a tree: a directory with its entries, or a leaf with the kind of the file. \<open>may\<close> tells for which paths the
  system permits an operation (\<open>unlink\<close>, \<open>rmdir\<close>, \<open>opendir\<close>); apart from that \<open>rmdir\<close> succeeds on empty directories. The
  entries \<open>"."\<close> and \<open>".."\<close> that a directory lists besides its own are skipped by the code. The waiting of \<open>SpeedLimit\<close>
  only takes time and is left out.

  Shown here: which files are listed; \<open>Rm\<close> returns true exactly when nothing is left, although it forgets the results
  of all children but the last, and cannot remove a socket; when a write of fixed size is reported as complete.
\<close>

section \<open>The tree\<close>

datatype file_kind = REG | LNK | FIFO | CHAR_DEV | BLK_DEV | SOCK

datatype entry = Leaf file_kind | Dir "(string \<times> entry) list"

text \<open>\<open>st_mode\<close>: the bits of the file type.\<close>

definition st_mode :: "entry \<Rightarrow> u32" where
  "st_mode e =
     (case e of
        Dir _ \<Rightarrow> 0x4000
      | Leaf k \<Rightarrow> (case k of REG \<Rightarrow> 0x8000 | LNK \<Rightarrow> 0xA000 | FIFO \<Rightarrow> 0x1000 | CHAR_DEV \<Rightarrow> 0x2000 | BLK_DEV \<Rightarrow> 0x6000 | SOCK \<Rightarrow> 0xC000))"

definition S_IFDIR :: u32 where "S_IFDIR = 0x4000"

lemma size_dir_entry [termination_simp]: "(k, e) \<in> set es \<Longrightarrow> size e < Suc (size_list (size_prod (\<lambda>_. 0) size) es)"
  by (induction es) auto

definition path_join :: "string \<Rightarrow> string \<Rightarrow> string" where
  "path_join path name = path @ ''/'' @ name"

definition has_suffix :: "string \<Rightarrow> string \<Rightarrow> bool" where
  "has_suffix subfix filename \<longleftrightarrow> \<not> length filename < length subfix \<and> drop (length filename - length subfix) filename = subfix"

fun ListAllFile :: "(string \<Rightarrow> bool) \<Rightarrow> string \<Rightarrow> string \<Rightarrow> entry \<Rightarrow> string list" where
  "ListAllFile may subfix path (Leaf k) = []"
| "ListAllFile may subfix path (Dir es) =
     (if \<not> may path then []
      else concat (map (\<lambda>(d_name, e).
        case e of
          Dir _ \<Rightarrow> if d_name = ''.'' \<or> d_name = ''..'' then [] else ListAllFile may subfix (path_join path d_name) e
        | Leaf k \<Rightarrow>
            if k = REG \<and> (subfix = [] \<or> has_suffix subfix d_name) then [path_join path d_name] else []) es))"

section \<open>Removing\<close>

text \<open>\<open>Unlink\<close>: \<open>exist\<close> skips the test for existence. The result, and what the path names afterwards.\<close>

definition FSUtil_Unlink :: "(string \<Rightarrow> bool) \<Rightarrow> string \<Rightarrow> bool \<Rightarrow> entry option \<Rightarrow> bool \<times> entry option" where
  "FSUtil_Unlink may filename exist node =
     (if \<not> exist \<and> node = None then (True, node)
      else case node of
        Some (Leaf k) \<Rightarrow> if may filename then (True, None) else (False, node)
      | _ \<Rightarrow> (False, node))"

definition sys_rmdir :: "(string \<Rightarrow> bool) \<Rightarrow> string \<Rightarrow> (string \<times> entry) list \<Rightarrow> bool \<times> entry option" where
  "sys_rmdir may path es = (if may path \<and> es = [] then (True, None) else (False, Some (Dir es)))"

fun FSUtil_Rm :: "(string \<Rightarrow> bool) \<Rightarrow> (string \<Rightarrow> bool) \<Rightarrow> string \<Rightarrow> entry \<Rightarrow> bool \<times> entry option" and
  rm_loop :: "(string \<Rightarrow> bool) \<Rightarrow> (string \<Rightarrow> bool) \<Rightarrow> string \<Rightarrow> (string \<times> entry) list \<Rightarrow> bool \<Rightarrow> bool \<times> (string \<times> entry) list" where
  "FSUtil_Rm may opens path (Leaf k) =
     (if st_mode (Leaf k) AND S_IFDIR = 0 then FSUtil_Unlink may path False (Some (Leaf k)) else (False, Some (Leaf k)))"
| "FSUtil_Rm may opens path (Dir es) =
     (if \<not> opens path then (False, Some (Dir es))
      else case rm_loop may opens path es True of (ret, es) \<Rightarrow>
        case sys_rmdir may path es of
          (True, r) \<Rightarrow> (ret, r)
        | (False, r) \<Rightarrow> (False, r))"
| "rm_loop may opens path [] ret = (ret, [])"
| "rm_loop may opens path ((name, e) # es) ret =
     (case FSUtil_Rm may opens (path_join path name) e of (ret, r) \<Rightarrow>
        case rm_loop may opens path es ret of (ret, es) \<Rightarrow>
          (ret, (case r of None \<Rightarrow> es | Some e \<Rightarrow> (name, e) # es)))"

definition FSUtil_Rm_path :: "(string \<Rightarrow> bool) \<Rightarrow> (string \<Rightarrow> bool) \<Rightarrow> string \<Rightarrow> entry option \<Rightarrow> bool \<times> entry option" where
  "FSUtil_Rm_path may opens path node = (case node of None \<Rightarrow> (True, None) | Some e \<Rightarrow> FSUtil_Rm may opens path e)"

text \<open>\<open>Mv\<close> and \<open>Symlink\<close> clear the target; \<open>call\<close> tells whether \<open>rename\<close> or \<open>symlink\<close> succeeds and \<open>placed\<close> is what it puts there.\<close>

definition FSUtil_Mv ::
    "(string \<Rightarrow> bool) \<Rightarrow> (string \<Rightarrow> bool) \<Rightarrow> bool \<Rightarrow> entry option \<Rightarrow> string \<Rightarrow> entry option \<Rightarrow> bool \<times> entry option \<times> entry option" where
  "FSUtil_Mv may opens call from_node to to_node =
     (case FSUtil_Rm_path may opens to to_node of
        (False, r) \<Rightarrow> (False, from_node, r)
      | (True, r) \<Rightarrow> if call \<and> from_node \<noteq> None then (True, None, from_node) else (False, from_node, r))"

definition FSUtil_Symlink ::
    "(string \<Rightarrow> bool) \<Rightarrow> (string \<Rightarrow> bool) \<Rightarrow> bool \<Rightarrow> string \<Rightarrow> entry option \<Rightarrow> bool \<times> entry option" where
  "FSUtil_Symlink may opens call to to_node =
     (case FSUtil_Rm_path may opens to to_node of
        (False, r) \<Rightarrow> (False, r)
      | (True, r) \<Rightarrow> if call then (True, Some (Leaf LNK)) else (False, r))"

section \<open>Making directories\<close>

text \<open>
  \<open>access\<close> and \<open>mkdir\<close> are the calls of the system on a state \<open>'w\<close>. The loop visits the prefixes that end in front of a slash, the
  first character excepted, and then the whole path; for the empty path the code reads behind the end of its copy.
\<close>

datatype fs_error = Out_of_bounds

definition do_mkdir :: "(string \<Rightarrow> 'w \<Rightarrow> bool) \<Rightarrow> (string \<Rightarrow> 'w \<Rightarrow> bool \<times> 'w) \<Rightarrow> string \<Rightarrow> 'w \<Rightarrow> bool \<times> 'w" where
  "do_mkdir access mkdir dirname w = (if access dirname w then (True, w) else mkdir dirname w)"

fun mkdir_loop :: "(string \<Rightarrow> 'w \<Rightarrow> bool) \<Rightarrow> (string \<Rightarrow> 'w \<Rightarrow> bool \<times> 'w) \<Rightarrow> string list \<Rightarrow> 'w \<Rightarrow> bool \<times> 'w" where
  "mkdir_loop access mkdir [] w = (True, w)"
| "mkdir_loop access mkdir (p # ps) w =
     (case do_mkdir access mkdir p w of (True, w) \<Rightarrow> mkdir_loop access mkdir ps w | (False, w) \<Rightarrow> (False, w))"

definition slash_prefixes :: "string \<Rightarrow> string list" where
  "slash_prefixes path = map (\<lambda>i. take i path) (filter (\<lambda>i. path ! i = CHR ''/'') [1 ..< length path])"

definition FSUtil_Mkdir ::
    "(string \<Rightarrow> 'w \<Rightarrow> bool) \<Rightarrow> (string \<Rightarrow> 'w \<Rightarrow> bool) \<Rightarrow> (string \<Rightarrow> 'w \<Rightarrow> bool \<times> 'w) \<Rightarrow> string \<Rightarrow> 'w \<Rightarrow> fs_error + bool \<times> 'w" where
  "FSUtil_Mkdir lstat access mkdir dirname w =
     (let path = c_str dirname in
      if lstat path w then Inr (True, w)
      else if path = [] then Inl Out_of_bounds
      else case mkdir_loop access mkdir (slash_prefixes path) w of
          (False, w) \<Rightarrow> Inr (False, w)
        | (True, w) \<Rightarrow> Inr (do_mkdir access mkdir path w))"

section \<open>Streams\<close>

text \<open>
  \<open>per\<close> is \<open>max(ceil(speed / 100.0), 65536)\<close>; the quotient is exact below \<open>2^53\<close>. \<open>good\<close> is the state of the stream as a condition,
  \<open>put\<close> is \<open>os.write\<close> and \<open>get\<close> is \<open>is.read\<close> with what \<open>gcount\<close> reports.
\<close>

definition per_round :: "nat \<Rightarrow> nat" where
  "per_round speed = max ((speed + 99) div 100) (1024 * 64)"

lemma per_round_pos: "0 < per_round speed"
  by (simp add: per_round_def max_def)

function write_fix_loop :: "('s \<Rightarrow> bool) \<Rightarrow> (string \<Rightarrow> 's \<Rightarrow> 's) \<Rightarrow> nat \<Rightarrow> string \<Rightarrow> nat \<Rightarrow> 's \<Rightarrow> nat \<times> 's" where
  "write_fix_loop good put speed data offset os =
     (if good os \<and> offset < length data then
        let s = (if length data - offset > per_round speed then per_round speed else length data - offset) in
        write_fix_loop good put speed data (offset + s) (put (take s (drop offset data)) os)
      else (offset, os))"
  by pat_completeness auto
termination
proof (relation "measure (\<lambda>(good, put, speed, data, offset, os). length data - offset)", goal_cases)
  case (2 good put speed data offset os x)
  then show ?case using per_round_pos [of speed] by (auto split: if_splits)
qed simp

declare write_fix_loop.simps [simp del]

definition WriteFixToStreamWithSpeed :: "('s \<Rightarrow> bool) \<Rightarrow> (string \<Rightarrow> 's \<Rightarrow> 's) \<Rightarrow> string \<Rightarrow> nat \<Rightarrow> 's \<Rightarrow> bool \<times> 's" where
  "WriteFixToStreamWithSpeed good put data speed os =
     (case write_fix_loop good put speed data 0 os of (offset, os) \<Rightarrow> (offset = length data, os))"

text \<open>A read that delivers nothing from a good stream would repeat for ever: nothing is its result then.\<close>

partial_function (option) read_fix_loop ::
    "('s \<Rightarrow> bool) \<Rightarrow> (nat \<Rightarrow> 's \<Rightarrow> string \<times> 's) \<Rightarrow> nat \<Rightarrow> nat \<Rightarrow> string \<Rightarrow> 's \<Rightarrow> (string \<times> 's) option" where
  "read_fix_loop good get speed n data is =
     (if good is \<and> length data < n then
        let s = (if n - length data > per_round speed then per_round speed else n - length data) in
        case get s is of (bytes, is) \<Rightarrow> read_fix_loop good get speed n (data @ bytes) is
      else Some (data, is))"

definition ReadFixFromStreamWithSpeed ::
    "('s \<Rightarrow> bool) \<Rightarrow> (nat \<Rightarrow> 's \<Rightarrow> string \<times> 's) \<Rightarrow> nat \<Rightarrow> nat \<Rightarrow> 's \<Rightarrow> (bool \<times> string \<times> 's) option" where
  "ReadFixFromStreamWithSpeed good get n speed is =
     map_option (\<lambda>(data, is). (length data = n, data, is)) (read_fix_loop good get speed n [] is)"

section \<open>Properties\<close>

subsection \<open>Listing\<close>

text \<open>\<open>file_below path e names p\<close>: \<open>p\<close> is a regular file below the directory \<open>e\<close> at \<open>path\<close>, reached through directories that can be listed.\<close>

inductive file_below :: "(string \<Rightarrow> bool) \<Rightarrow> string \<Rightarrow> entry \<Rightarrow> string \<Rightarrow> string \<Rightarrow> bool" for may where
  here: "may path \<Longrightarrow> (name, Leaf REG) \<in> set es \<Longrightarrow> file_below may path (Dir es) name (path_join path name)"
| below: "may path \<Longrightarrow> (d, Dir ds) \<in> set es \<Longrightarrow> d \<noteq> ''.'' \<Longrightarrow> d \<noteq> ''..'' \<Longrightarrow> file_below may (path_join path d) (Dir ds) name p \<Longrightarrow>
    file_below may path (Dir es) name p"

inductive_cases file_below_DirE: "file_below may path (Dir es) name p"

inductive_cases file_below_LeafE: "file_below may path (Leaf k) name p"

lemma has_suffix_Nil [simp]: "has_suffix [] name"
  by (simp add: has_suffix_def)

lemma has_suffix_append: "has_suffix s name \<longleftrightarrow> (\<exists>t. name = t @ s)"
proof
  assume "has_suffix s name"
  then have "name = take (length name - length s) name @ s" by (metis append_take_drop_id has_suffix_def)
  then show "\<exists>t. name = t @ s" ..
qed (auto simp: has_suffix_def)

abbreviation listed :: "(string \<Rightarrow> bool) \<Rightarrow> string \<Rightarrow> string \<Rightarrow> string \<Rightarrow> entry \<Rightarrow> string list" where
  "listed may subfix path d_name e \<equiv>
     (case e of
        Dir _ \<Rightarrow> if d_name = ''.'' \<or> d_name = ''..'' then [] else ListAllFile may subfix (path_join path d_name) e
      | Leaf k \<Rightarrow> if k = REG \<and> (subfix = [] \<or> has_suffix subfix d_name) then [path_join path d_name] else [])"

lemma ListAllFile_Dir:
  "p \<in> set (ListAllFile may subfix path (Dir es)) \<longleftrightarrow> may path \<and> (\<exists>d e. (d, e) \<in> set es \<and> p \<in> set (listed may subfix path d e))"
proof -
  have "p \<in> set (concat (map (\<lambda>(d, e). f d e) es)) \<longleftrightarrow> (\<exists>d e. (d, e) \<in> set es \<and> p \<in> set (f d e))" for f :: "string \<Rightarrow> entry \<Rightarrow> string list"
    by force
  then show ?thesis by (cases "may path") (simp_all only: ListAllFile.simps if_True if_False not_True_eq_False not_False_eq_True simp_thms list.set empty_iff)
qed

declare ListAllFile.simps(2) [simp del]

lemma ListAllFile_below:
  "p \<in> set (ListAllFile may s path e) \<longleftrightarrow> (\<exists>name. file_below may path e name p \<and> (\<exists>t. name = t @ s))"
proof (induction may s path e rule: ListAllFile.induct)
  case (1 may subfix path k)
  then show ?case by (auto elim: file_below_LeafE)
next
  case (2 may subfix path es)
  show ?case (is "?l \<longleftrightarrow> ?r")
  proof
    assume ?l
    then obtain d e where e: "may path" "(d, e) \<in> set es" and p: "p \<in> set (listed may subfix path d e)"
      unfolding ListAllFile_Dir by blast
    show ?r
    proof (cases e)
      case (Leaf k)
      then show ?thesis using e p by (auto simp: has_suffix_append split: if_splits intro: file_below.here)
    next
      case (Dir ds)
      then have d: "d \<noteq> ''.''" "d \<noteq> ''..''" "p \<in> set (ListAllFile may subfix (path_join path d) e)"
        using p by (auto split: if_splits)
      obtain name where "file_below may (path_join path d) e name p" "\<exists>t. name = t @ subfix"
        using "2.IH" [OF _ e(2) refl Dir] e(1) d by blast
      then show ?thesis using e d Dir by (blast intro: file_below.below)
    qed
  next
    assume ?r
    then obtain name where f: "file_below may path (Dir es) name p" "\<exists>t. name = t @ subfix" by blast
    from f(1) consider (here) "p = path_join path name" "may path" "(name, Leaf REG) \<in> set es"
      | (below) d ds where "may path" "(d, Dir ds) \<in> set es" "d \<noteq> ''.''" "d \<noteq> ''..''"
          "file_below may (path_join path d) (Dir ds) name p"
      by (rule file_below_DirE) blast+
    then show ?l
    proof cases
      case here
      then have "p \<in> set (listed may subfix path name (Leaf REG))" using f(2) by (simp add: has_suffix_append)
      then show ?thesis using here unfolding ListAllFile_Dir by blast
    next
      case below
      have "p \<in> set (ListAllFile may subfix (path_join path d) (Dir ds))"
        using "2.IH" [OF _ below(2) refl refl] below f(2) by blast
      then have "p \<in> set (listed may subfix path d (Dir ds))" using below(3,4) by simp
      then show ?thesis using below(1,2) unfolding ListAllFile_Dir by blast
    qed
  qed
qed

subsection \<open>Removing\<close>

lemma leaf_modes: "st_mode (Leaf k) AND S_IFDIR = 0 \<longleftrightarrow> k \<noteq> SOCK \<and> k \<noteq> BLK_DEV"
  by (cases k) (simp_all add: st_mode_def S_IFDIR_def)

lemma rm_result:
  "fst (FSUtil_Rm may opens path e) \<longleftrightarrow> snd (FSUtil_Rm may opens path e) = None"
  "snd (rm_loop may opens path es ret) = [] \<Longrightarrow> fst (rm_loop may opens path es ret) = (ret \<or> es \<noteq> [])"
proof (induction may opens path e and may opens path es ret rule: FSUtil_Rm_rm_loop.induct)
  case (1 may opens path k)
  then show ?case by (simp add: FSUtil_Unlink_def)
next
  case (2 may opens path es)
  then show ?case by (auto simp: sys_rmdir_def split: prod.splits bool.splits)
next
  case (4 may opens path name e es ret)
  obtain b r where 1: "FSUtil_Rm may opens (path_join path name) e = (b, r)" by force
  obtain b' es' where 2: "rm_loop may opens path es b = (b', es')" by force
  have "b = (r = None)" using 4(1) by (simp add: 1)
  moreover have "es' = [] \<Longrightarrow> b' = (b \<or> es \<noteq> [])" using 4(2) [OF 1 [symmetric]] by (simp add: 2)
  moreover have "rm_loop may opens path ((name, e) # es) ret = (b', case r of None \<Rightarrow> es' | Some e \<Rightarrow> (name, e) # es')"
    by (simp add: 1 2)
  ultimately show ?case using 4(3) by (auto split: option.splits simp del: rm_loop.simps)
qed simp


text \<open>When the system refuses nothing, a tree without sockets and block devices is removed; a socket never is.\<close>

fun removable :: "entry \<Rightarrow> bool" where
  "removable (Leaf k) \<longleftrightarrow> k \<noteq> SOCK \<and> k \<noteq> BLK_DEV"
| "removable (Dir es) \<longleftrightarrow> (\<forall>e \<in> snd ` set es. removable e)"

lemma rm_removable:
  "removable e \<Longrightarrow> FSUtil_Rm (\<lambda>_. True) (\<lambda>_. True) path e = (True, None)"
  "(\<forall>e \<in> snd ` set es. removable e) \<Longrightarrow> snd (rm_loop (\<lambda>_. True) (\<lambda>_. True) path es ret) = []"
proof (induction "\<lambda>_ :: string. True" "\<lambda>_ :: string. True" path e and "\<lambda>_ :: string. True" "\<lambda>_ :: string. True" path es ret
    rule: FSUtil_Rm_rm_loop.induct)
  case (1 path k)
  then show ?case by (simp add: leaf_modes FSUtil_Unlink_def)
next
  case (2 path es)
  then have "snd (rm_loop (\<lambda>_. True) (\<lambda>_. True) path es True) = []" by simp
  then show ?case using rm_result(2) [of "\<lambda>_. True" "\<lambda>_. True" path es True] by (auto simp: sys_rmdir_def split: prod.splits)
next
  case (4 path name e es ret)
  then show ?case by (auto split: prod.splits option.splits)
qed simp

lemma FSUtil_Rm_socket: "FSUtil_Rm may opens path (Leaf SOCK) = (False, Some (Leaf SOCK))"
  by (simp add: st_mode_def S_IFDIR_def)

subsection \<open>Directories\<close>

lemma mkdir_loop_exists:
  assumes "\<And>p w w'. mkdir p w = (True, w') \<Longrightarrow> access p w' \<and> (\<forall>q. access q w \<longrightarrow> access q w')"
  shows "mkdir_loop access mkdir ps w = (True, w') \<Longrightarrow> (\<forall>p \<in> set ps. access p w') \<and> (\<forall>q. access q w \<longrightarrow> access q w')"
proof (induction ps arbitrary: w)
  case (Cons p ps)
  then obtain w1 where 1: "do_mkdir access mkdir p w = (True, w1)" "mkdir_loop access mkdir ps w1 = (True, w')"
    by (auto split: prod.splits bool.splits)
  have "access p w1 \<and> (\<forall>q. access q w \<longrightarrow> access q w1)"
    using 1(1) assms by (auto simp: do_mkdir_def split: if_splits)
  then show ?case using Cons.IH [OF 1(2)] by auto
qed simp

text \<open>
  \<open>Mkdir\<close> returning true for a path that did not exist: the path and every prefix in front of a slash exist. Of the
  system this uses that a directory that has been made exists and that making one removes nothing.
\<close>

lemma FSUtil_Mkdir_makes:
  assumes "\<And>p w w'. mkdir p w = (True, w') \<Longrightarrow> access p w' \<and> (\<forall>q. access q w \<longrightarrow> access q w')"
    and "FSUtil_Mkdir lstat access mkdir dirname w = Inr (True, w')" "\<not> lstat (c_str dirname) w"
  shows "access (c_str dirname) w' \<and> (\<forall>p \<in> set (slash_prefixes (c_str dirname)). access p w')"
proof -
  obtain w1 where 1: "mkdir_loop access mkdir (slash_prefixes (c_str dirname)) w = (True, w1)"
      "do_mkdir access mkdir (c_str dirname) w1 = (True, w')"
    using assms(2,3) by (auto simp: FSUtil_Mkdir_def Let_def split: if_splits prod.splits bool.splits)
  have "access (c_str dirname) w' \<and> (\<forall>q. access q w1 \<longrightarrow> access q w')"
    using 1(2) assms(1) by (auto simp: do_mkdir_def split: if_splits)
  then show ?thesis using mkdir_loop_exists [OF assms(1) 1(1)] by auto
qed

subsection \<open>Streams\<close>

lemma write_fix_loop_good:
  assumes "\<And>s os. good os \<Longrightarrow> good (put s os) \<and> out (put s os) = out os @ s"
  shows "good os \<Longrightarrow> offset \<le> length data \<Longrightarrow>
    \<exists>os'. write_fix_loop good put speed data offset os = (length data, os') \<and> good os' \<and> out os' = out os @ drop offset data"
proof (induction "length data - offset" arbitrary: offset os rule: less_induct)
  case less
  show ?case
  proof (cases "offset = length data")
    case False
    define s where "s = (if length data - offset > per_round speed then per_round speed else length data - offset)"
    have s: "0 < s" "offset + s \<le> length data" using False less.prems(2) per_round_pos [of speed] by (auto simp: s_def)
    have "write_fix_loop good put speed data offset os = write_fix_loop good put speed data (offset + s) (put (take s (drop offset data)) os)"
      using False less.prems by (subst write_fix_loop.simps) (simp add: s_def Let_def)
    moreover have "take s (drop offset data) @ drop (offset + s) data = drop offset data"
      by (metis add.commute append_take_drop_id drop_drop)
    ultimately show ?thesis
      using less.hyps [of "offset + s" "put (take s (drop offset data)) os"] s less.prems assms [of os "take s (drop offset data)"] by auto
  qed (use less.prems in \<open>auto simp: write_fix_loop.simps\<close>)
qed

text \<open>A stream that stays good gets all the data; one that fails with the last portion is reported as written all the same.\<close>

lemma WriteFixToStream_good:
  assumes "\<And>s os. good os \<Longrightarrow> good (put s os) \<and> out (put s os) = out os @ s" "good os"
  shows "\<exists>os'. WriteFixToStreamWithSpeed good put data speed os = (True, os') \<and> out os' = out os @ data"
  using write_fix_loop_good [of good put out os 0 data speed] assms by (auto simp: WriteFixToStreamWithSpeed_def)

lemma WriteFixToStream_lost:
  assumes "good os" "data \<noteq> []" "length data \<le> 65536" "\<not> good (put data os)"
  shows "WriteFixToStreamWithSpeed good put data speed os = (True, put data os)"
proof -
  have "\<not> length data > per_round speed" using assms(3) by (simp add: per_round_def max_def)
  then show ?thesis
    using assms by (simp add: WriteFixToStreamWithSpeed_def write_fix_loop.simps [of good put speed data 0 os]
        write_fix_loop.simps [of good put speed data "length data"] Let_def)
qed

text \<open>
  Reading ends: of a standard stream this uses that a read delivers at most what is asked for and that one that delivers less leaves
  the stream in a failed state.
\<close>

lemma ReadFixFromStream_returns:
  assumes "\<And>s is. length (fst (get s is)) \<le> s \<and> (length (fst (get s is)) < s \<longrightarrow> \<not> good (snd (get s is)))"
  shows "length data \<le> n \<Longrightarrow>
    \<exists>data' is'. read_fix_loop good get speed n data is = Some (data', is') \<and> length data' \<le> n \<and> (good is' \<longrightarrow> length data' = n)"
proof (induction "n - length data" arbitrary: data "is" rule: less_induct)
  case less
  show ?case
  proof (cases "good is \<and> length data < n")
    case False
    then show ?thesis using less.prems by (subst read_fix_loop.simps) auto
  next
    case True
    define s where "s = (if n - length data > per_round speed then per_round speed else n - length data)"
    obtain bytes is' where g: "get s is = (bytes, is')" by force
    have s: "0 < s" "length data + s \<le> n" using True per_round_pos [of speed] by (auto simp: s_def)
    have b: "length bytes \<le> s" "length bytes < s \<Longrightarrow> \<not> good is'" using assms [of s "is"] by (auto simp: g)
    have step: "read_fix_loop good get speed n data is = read_fix_loop good get speed n (data @ bytes) is'"
      using True g by (subst read_fix_loop.simps) (simp add: s_def Let_def)
    show ?thesis
    proof (cases "bytes = []")
      case True
      then have "\<not> good is'" using b(2) s(1) by simp
      then show ?thesis unfolding step using True less.prems by (subst read_fix_loop.simps) auto
    next
      case False
      then have "0 < length bytes" by simp
      then have "n - length (data @ bytes) < n - length data" "length (data @ bytes) \<le> n"
        using b(1) s(2) unfolding length_append by linarith+
      then show ?thesis unfolding step by (rule less.hyps)
    qed
  qed
qed

end
