(* ===== verification/Stream_Byte_Array.thy ===== *)
theory Stream_Byte_Array
  imports Socket_Stream Byte_Array_IO
begin

text \<open>
  The transfers of \<^verbatim>\<open>sylar/streams/socket_stream.cc\<close> between a socket and a \<open>ByteArray\<close>: the array lends its cells as
  an \<open>iovec\<close>, the system call fills or sends them, and the position of the array moves by what was moved. The loops over a fixed
  number of bytes are those of \<^verbatim>\<open>sylar/stream.cc\<close>.

  An exception of the array leaves the loops: it is the value \<open>Inl e\<close> in the place of the array, with a count that ends them.

  Shown here: both transfers keep the contract \<open>mover\<close>, so that the loops move exactly the bytes asked for
  between the peer and the data of the array.
\<close>

section \<open>Vectors of cells\<close>

fun scatter :: "iovec list \<Rightarrow> u8 list \<Rightarrow> node list \<Rightarrow> node list" where
  "scatter [] bs ns = ns"
| "scatter (v # vs) bs ns =
     scatter vs (drop (iov_len v) bs) (ns[iov_node v := memcpy_to (ns ! iov_node v) (iov_off v) (take (iov_len v) bs)])"

definition gather :: "iovec list \<Rightarrow> node list \<Rightarrow> u8 list" where
  "gather vs ns = concat (map (\<lambda>v. memcpy_from (ns ! iov_node v) (iov_off v) (iov_len v)) vs)"

definition iov_total :: "iovec list \<Rightarrow> nat" where
  "iov_total vs = sum_list (map iov_len vs)"

section \<open>The transfers\<close>

definition SocketStream_read_ba ::
    "nat \<Rightarrow> ba_error + byte_array \<Rightarrow> sock_stream \<Rightarrow> int \<times> (ba_error + byte_array) \<times> sock_stream" where
  "SocketStream_read_ba n r s =
     (case r of
        Inl e \<Rightarrow> (-1, Inl e, s)
      | Inr ba \<Rightarrow>
          if \<not> SocketStream_isConnected s then (-1, Inr ba, s)
          else case ByteArray_getWriteBuffers ba n of
            Inl e \<Rightarrow> (-1, Inl e, s)
          | Inr (_, iovs, ba) \<Rightarrow>
              case sys_recv (iov_total iovs) s of (rt, bytes, s) \<Rightarrow>
                let ba = ba\<lparr>m_nodes := scatter iovs (bytes_of_string bytes) (m_nodes ba)\<rparr> in
                if rt > 0 then
                  case ByteArray_setPosition ba (ByteArray_getPosition ba + nat rt) of
                    Inl e \<Rightarrow> (-1, Inl e, s)
                  | Inr ba \<Rightarrow> (rt, Inr ba, s)
                else (rt, Inr ba, s))"

definition SocketStream_write_ba ::
    "nat \<Rightarrow> ba_error + byte_array \<Rightarrow> sock_stream \<Rightarrow> int \<times> (ba_error + byte_array) \<times> sock_stream" where
  "SocketStream_write_ba n r s =
     (case r of
        Inl e \<Rightarrow> (-1, Inl e, s)
      | Inr ba \<Rightarrow>
          if \<not> SocketStream_isConnected s then (-1, Inr ba, s)
          else case ByteArray_getReadBuffers ba n of
            Inl e \<Rightarrow> (-1, Inl e, s)
          | Inr (_, iovs) \<Rightarrow>
              case sys_send (string_of_bytes (gather iovs (m_nodes ba))) s of (rt, s) \<Rightarrow>
                if rt > 0 then
                  case ByteArray_setPosition ba (ByteArray_getPosition ba + nat rt) of
                    Inl e \<Rightarrow> (-1, Inl e, s)
                  | Inr ba \<Rightarrow> (rt, Inr ba, s)
                else (rt, Inr ba, s))"

section \<open>Vectors as ranges of the flat array\<close>

lemma iov_addrs_Cons:
  assumes "iov_addrs base (v # vs) = [p ..< p + len]" "0 < iov_len v"
  shows "base * iov_node v + iov_off v = p" "iov_len v \<le> len"
    and "iov_addrs base vs = [p + iov_len v ..< p + iov_len v + (len - iov_len v)]"
proof -
  let ?a = "base * iov_node v + iov_off v"
  have eq: "[?a ..< ?a + iov_len v] @ iov_addrs base vs = [p ..< p + len]"
    using assms(1) by (simp add: iov_addrs_def)
  have "hd [?a ..< ?a + iov_len v] = ?a" using assms(2) by (simp add: hd_conv_nth)
  moreover have "hd ([?a ..< ?a + iov_len v] @ iov_addrs base vs) = hd [?a ..< ?a + iov_len v]" using assms(2) by simp
  moreover from eq assms(2) have len: "iov_len v \<le> len"
    by (metis add_diff_cancel_left' length_append length_upt le_add1)
  ultimately show a: "?a = p" using eq assms(2) by (simp add: hd_conv_nth)
  from len show "iov_len v \<le> len" .
  have "[p ..< p + iov_len v] @ iov_addrs base vs = [p ..< p + iov_len v] @ [p + iov_len v ..< p + iov_len v + (len - iov_len v)]"
    using eq len upt_add_eq_append [of p "p + iov_len v" "len - iov_len v"] by (simp add: a)
  then show "iov_addrs base vs = [p + iov_len v ..< p + iov_len v + (len - iov_len v)]" by simp
qed

lemma iov_total_addrs: "iov_addrs base vs = [p ..< p + len] \<Longrightarrow> iov_total vs = len"
proof -
  have "length (iov_addrs base vs) = iov_total vs" by (induction vs) (auto simp: iov_addrs_def iov_total_def)
  then show "iov_addrs base vs = [p ..< p + len] \<Longrightarrow> iov_total vs = len" by simp
qed

lemma scatter_correct:
  "chunked base ns \<Longrightarrow> \<forall>v \<in> set vs. iov_in_node base (length ns) v \<Longrightarrow> iov_addrs base vs = [p ..< p + len] \<Longrightarrow>
   length bs \<le> len \<Longrightarrow> p + len \<le> base * length ns \<Longrightarrow>
   flat (scatter vs bs ns) = splice_at p bs (flat ns) \<and> chunked base (scatter vs bs ns) \<and> length (scatter vs bs ns) = length ns"
proof (induction vs arbitrary: p len bs ns)
  case Nil
  then show ?case using iov_total_addrs [OF Nil.prems(3)] by (simp add: iov_total_def)
next
  case (Cons v vs)
  have v: "iov_node v < length ns" "0 < iov_len v" "iov_off v + iov_len v \<le> base"
    using Cons.prems(2) by (auto simp: iov_in_node_def)
  note addr = iov_addrs_Cons [OF Cons.prems(3) v(2)]
  let ?b1 = "take (iov_len v) bs" and ?b2 = "drop (iov_len v) bs"
  let ?ns = "ns[iov_node v := memcpy_to (ns ! iov_node v) (iov_off v) ?b1]"
  have "iov_off v + length ?b1 \<le> base" using v(3) by simp
  note cpy = flat_memcpy_to [OF Cons.prems(1) v(1) this, unfolded addr(1)]
  have "flat (scatter vs ?b2 ?ns) = splice_at (p + iov_len v) ?b2 (flat ?ns) \<and>
      chunked base (scatter vs ?b2 ?ns) \<and> length (scatter vs ?b2 ?ns) = length ?ns"
    using Cons.prems addr by (intro Cons.IH [of _ "p + iov_len v" "len - iov_len v"] cpy(2)) auto
  moreover have "splice_at (p + iov_len v) ?b2 (splice_at p ?b1 (flat ns)) = splice_at p bs (flat ns)"
  proof (cases "?b2 = []")
    case False
    then have "length ?b1 = iov_len v" by simp
    moreover have "p + length ?b1 \<le> length (flat ns)"
      using Cons.prems(4,5) length_flat [OF Cons.prems(1)] by simp
    ultimately show ?thesis using splice_at_split [of p ?b1 "flat ns" ?b2] by simp
  qed simp
  ultimately show ?case by (simp add: cpy(1))
qed

lemma gather_correct:
  "chunked base ns \<Longrightarrow> \<forall>v \<in> set vs. iov_in_node base (length ns) v \<Longrightarrow> iov_addrs base vs = [p ..< p + len] \<Longrightarrow>
   gather vs ns = take len (drop p (flat ns))"
proof (induction vs arbitrary: p len)
  case Nil
  then show ?case using iov_total_addrs [OF Nil.prems(3)] by (simp add: iov_total_def gather_def)
next
  case (Cons v vs)
  have v: "iov_node v < length ns" "0 < iov_len v" "iov_off v + iov_len v \<le> base"
    using Cons.prems(2) by (auto simp: iov_in_node_def)
  note addr = iov_addrs_Cons [OF Cons.prems(3) v(2)]
  have "gather vs ns = take (len - iov_len v) (drop (p + iov_len v) (flat ns))"
    using Cons.prems addr(3) by (intro Cons.IH) auto
  moreover have "memcpy_from (ns ! iov_node v) (iov_off v) (iov_len v) = take (iov_len v) (drop p (flat ns))"
    using flat_memcpy_from [OF Cons.prems(1) v(1,3)] by (simp add: addr(1))
  moreover have "take (iov_len v) (drop p (flat ns)) @ take (len - iov_len v) (drop (p + iov_len v) (flat ns)) = take len (drop p (flat ns))"
    using take_add [of "iov_len v" "len - iov_len v" "drop p (flat ns)"] addr(2) by (simp add: add.commute)
  ultimately show ?case by (simp add: gather_def)
qed

section \<open>One transfer\<close>

text \<open>The data of the array in front of its position, and behind it.\<close>

definition ba_front :: "byte_array \<Rightarrow> string" where
  "ba_front ba = string_of_bytes (take (m_position ba) (ba_data ba))"

definition ba_rest :: "byte_array \<Rightarrow> string" where
  "ba_rest ba = string_of_bytes (drop (m_position ba) (ba_data ba))"

lemma read_ba_step:
  assumes inv: "ba_inv ba" and conn: "s_connected s" and n: "0 < n"
  obtains rt bytes s' ba' where "sys_recv n s = (rt, bytes, s')" "SocketStream_read_ba n (Inr ba) s = (rt, Inr ba', s')"
    and "ba_inv ba'"
    and "0 < rt \<Longrightarrow> ba_data ba' = splice_at (m_position ba) (bytes_of_string bytes) (ba_data ba)"
    and "0 < rt \<Longrightarrow> m_position ba' = m_position ba + length bytes \<and> rt = int (length bytes)"
proof -
  obtain vs ba1 where w: "ByteArray_getWriteBuffers ba n = Inr (n, vs, ba1)" "ba_inv ba1" "ba_data ba1 = ba_data ba"
      "m_position ba1 = m_position ba" "m_position ba + n \<le> m_capacity ba1"
      "iov_addrs (m_baseSize ba) vs = [m_position ba ..< m_position ba + n]"
      "\<forall>v \<in> set vs. iov_in_node (m_baseSize ba) (length (m_nodes ba1)) v"
    using getWriteBuffers_correct [OF inv, of n] by blast
  have base: "m_baseSize ba1 = m_baseSize ba"
    using w(1) addCapacity_correct(7) [OF inv, of n] n
    by (auto simp: ByteArray_getWriteBuffers_def Let_def bindE_eq_Inr split: option.splits)
  obtain rt bytes s' where r: "sys_recv n s = (rt, bytes, s')" by (metis prod_cases3)
  have bytes: "length bytes \<le> n" "0 < rt \<Longrightarrow> rt = int (length bytes)"
    using r by (auto simp: sys_recv_def split: list.splits if_splits)
  let ?bs = "bytes_of_string bytes" and ?p = "m_position ba"
  let ?ns = "scatter vs ?bs (m_nodes ba1)"
  have inv1: "chunked (m_baseSize ba) (m_nodes ba1)" "m_capacity ba1 = m_baseSize ba * length (m_nodes ba1)"
    using w(2) base by (simp_all add: ba_inv_def)
  have sc: "flat ?ns = splice_at ?p ?bs (flat (m_nodes ba1))" "chunked (m_baseSize ba) ?ns" "length ?ns = length (m_nodes ba1)"
    using scatter_correct [OF inv1(1) w(7,6), of ?bs] bytes(1) w(5) inv1(2) by simp_all
  let ?ba2 = "ba1\<lparr>m_nodes := ?ns\<rparr>"
  have inv2: "ba_inv ?ba2" using w(2) sc base by (auto simp: ba_inv_def)
  show thesis
  proof (cases "0 < rt")
    case False
    then have "SocketStream_read_ba n (Inr ba) s = (rt, Inr ?ba2, s')"
      using w(1) conn r iov_total_addrs [OF w(6)]
      by (simp add: SocketStream_read_ba_def SocketStream_isConnected_def)
    then show thesis using that [OF r _ inv2] False by simp
  next
    case True
    have "?p + length bytes \<le> m_capacity ?ba2" using w(5) bytes(1) by simp
    from setPosition_correct [OF inv2 this] obtain ba3 where p: "ByteArray_setPosition ?ba2 (?p + length bytes) = Inr ba3"
        "ba_inv ba3" "m_position ba3 = ?p + length bytes" "m_size ba3 = max (?p + length bytes) (m_size ba1)"
        "contents ba3 = contents ?ba2" by auto
    have "ba_data ba3 = take (max (m_size ba1) (?p + length ?bs)) (splice_at ?p ?bs (flat (m_nodes ba1)))"
      using p(4,5) sc(1) by (simp add: ba_data_def contents_def max.commute)
    also have "\<dots> = splice_at ?p ?bs (take (m_size ba1) (flat (m_nodes ba1)))"
      using ba_data_splice [of ?p "m_size ba1" "flat (m_nodes ba1)" ?bs "[]"] w(2,4,5) bytes(1) inv1 length_flat [OF inv1(1)]
      by (simp add: ba_inv_def)
    also have "take (m_size ba1) (flat (m_nodes ba1)) = ba_data ba" using w(3) by (simp add: ba_data_def contents_def)
    finally have data: "ba_data ba3 = splice_at ?p ?bs (ba_data ba)" .
    have "SocketStream_read_ba n (Inr ba) s = (rt, Inr ba3, s')"
      using w(1,4) conn r iov_total_addrs [OF w(6)] True bytes(2) p(1)
      by (simp add: SocketStream_read_ba_def SocketStream_isConnected_def ByteArray_getPosition_def)
    then show thesis using that [OF r _ p(2)] data p(3) bytes(2) True by simp
  qed
qed

lemma write_ba_step:
  assumes inv: "ba_inv ba" and conn: "s_connected s"
  obtains rt s' ba' where "sys_send (take n (ba_rest ba)) s = (rt, s')" "SocketStream_write_ba n (Inr ba) s = (rt, Inr ba', s')"
    and "ba_inv ba'" "ba_data ba' = ba_data ba"
    and "m_position ba' = m_position ba + nat rt" "nat rt \<le> length (take n (ba_rest ba))"
proof -
  let ?k = "min n (m_size ba - m_position ba)" and ?p = "m_position ba"
  obtain vs where vs: "ByteArray_getReadBuffers ba n = Inr (?k, vs)" "iov_addrs (m_baseSize ba) vs = [?p ..< ?p + ?k]"
      "\<forall>v \<in> set vs. iov_in_node (m_baseSize ba) (length (m_nodes ba)) v"
    using getReadBuffers_correct [OF inv, of n] by blast
  have ch: "chunked (m_baseSize ba) (m_nodes ba)" "?p \<le> m_size ba" using inv by (simp_all add: ba_inv_def)
  have "gather vs (m_nodes ba) = take n (drop ?p (ba_data ba))"
    using gather_correct [OF ch(1) vs(3,2)] by (simp add: ba_data_def contents_def drop_take)
  then have g: "string_of_bytes (gather vs (m_nodes ba)) = take n (ba_rest ba)"
    by (simp add: ba_rest_def string_of_bytes_def take_map)
  obtain rt s' where r: "sys_send (take n (ba_rest ba)) s = (rt, s')" by force
  have rt: "nat rt \<le> length (take n (ba_rest ba))"
    using r by (auto simp: sys_send_def split: list.splits if_splits)
  moreover have "length (ba_rest ba) = m_size ba - ?p" by (simp add: ba_rest_def length_ba_data [OF inv])
  ultimately have le: "?p + nat rt \<le> m_size ba" using ch(2) by (simp add: le_diff_conv2 add.commute)
  from setPosition_back [OF inv le] obtain ba3 where p: "ByteArray_setPosition ba (?p + nat rt) = Inr ba3" "ba_inv ba3"
    "m_position ba3 = ?p + nat rt" "ba_data ba3 = ba_data ba" by auto
  have "SocketStream_write_ba n (Inr ba) s = (rt, Inr (if 0 < rt then ba3 else ba), s')"
    using vs(1) conn r p(1) g
    by (simp add: SocketStream_write_ba_def SocketStream_isConnected_def ByteArray_getPosition_def)
  then show thesis using that [OF r, of "if 0 < rt then ba3 else ba"] p inv rt by simp
qed

section \<open>The contract\<close>

definition ba_read_step :: "nat \<Rightarrow> (ba_error + byte_array) \<times> sock_stream \<Rightarrow> int \<times> (ba_error + byte_array) \<times> sock_stream" where
  "ba_read_step left = (\<lambda>(r, s). SocketStream_read_ba left r s)"

definition ba_write_step :: "nat \<Rightarrow> (ba_error + byte_array) \<times> sock_stream \<Rightarrow> int \<times> (ba_error + byte_array) \<times> sock_stream" where
  "ba_write_step left = (\<lambda>(r, s). SocketStream_write_ba left r s)"

definition holds :: "(byte_array \<Rightarrow> string) \<Rightarrow> ba_error + byte_array \<Rightarrow> string" where
  "holds f r = (case r of Inl _ \<Rightarrow> [] | Inr ba \<Rightarrow> f ba)"

definition is_array :: "ba_error + byte_array \<Rightarrow> bool" where
  "is_array r = (case r of Inl _ \<Rightarrow> False | Inr ba \<Rightarrow> ba_inv ba)"

lemma holds_simps [simp]: "holds f (Inr ba) = f ba" "is_array (Inr ba) = ba_inv ba"
  by (simp_all add: holds_def is_array_def)

lemma is_arrayE: "is_array r \<Longrightarrow> (\<And>ba. r = Inr ba \<Longrightarrow> ba_inv ba \<Longrightarrow> thesis) \<Longrightarrow> thesis"
  by (auto simp: is_array_def split: sum.splits)

interpretation rb: mover ba_read_step "\<lambda>(r, s). holds ba_front r" "\<lambda>(r, s). concat (s_input s)" "\<lambda>(r, s). is_array r \<and> live s"
proof
  fix q n len q'
  assume ok: "(case q of (r, s) \<Rightarrow> is_array r \<and> live s)" and n: "0 < n" and st: "ba_read_step n q = (len, q')" and len: "0 < len"
  obtain ba s where q: "q = (Inr ba, s)" "ba_inv ba" "live s" using ok by (auto elim: is_arrayE)
  obtain rt bytes s' ba' where r: "sys_recv n s = (rt, bytes, s')" "SocketStream_read_ba n (Inr ba) s = (rt, Inr ba', s')" "ba_inv ba'"
    "0 < rt \<Longrightarrow> ba_data ba' = splice_at (m_position ba) (bytes_of_string bytes) (ba_data ba)"
    "0 < rt \<Longrightarrow> m_position ba' = m_position ba + length bytes \<and> rt = int (length bytes)"
    using read_ba_step [OF q(2) _ n, of s] q(3) by (metis live_def)
  have e: "len = rt" "q' = (Inr ba', s')" using st r(2) by (simp_all add: ba_read_step_def q(1))
  have s': "nat len \<le> n \<and> nat len \<le> length (concat (s_input s)) \<and> live s' \<and> bytes = take (nat len) (concat (s_input s)) \<and>
      concat (s_input s') = drop (nat len) (concat (s_input s))"
    using r(1) len q(3) unfolding e(1) by (auto simp: sys_recv_def live_def split: list.splits if_splits)
  have "ba_front ba' = ba_front ba @ bytes"
    using r(4,5) len q(2) length_ba_data [OF q(2)] unfolding e(1)
    by (auto simp: ba_front_def splice_at_def ba_inv_def string_of_bytes_def bytes_of_string_def take_map min_def comp_def)
  then show "nat len \<le> n \<and> nat len \<le> length (case q of (r, s) \<Rightarrow> concat (s_input s)) \<and> (case q' of (r, s) \<Rightarrow> is_array r \<and> live s) \<and>
      (case q' of (r, s) \<Rightarrow> holds ba_front r) = (case q of (r, s) \<Rightarrow> holds ba_front r) @ take (nat len) (case q of (r, s) \<Rightarrow> concat (s_input s)) \<and>
      (case q' of (r, s) \<Rightarrow> concat (s_input s)) = drop (nat len) (case q of (r, s) \<Rightarrow> concat (s_input s))"
    using s' r(3) by (simp add: q(1) e(2))
next
  fix q :: "(ba_error + byte_array) \<times> sock_stream" and n :: nat
  assume ok: "(case q of (r, s) \<Rightarrow> is_array r \<and> live s)" and n: "0 < n" and p: "(case q of (r, s) \<Rightarrow> concat (s_input s)) \<noteq> []"
  obtain ba s where q: "q = (Inr ba, s)" "ba_inv ba" "live s" using ok by (auto elim: is_arrayE)
  obtain rt bytes s' ba' where r: "sys_recv n s = (rt, bytes, s')" "SocketStream_read_ba n (Inr ba) s = (rt, Inr ba', s')"
    using read_ba_step [OF q(2) _ n, of s] q(3) by (metis live_def)
  have "0 < rt" using r(1) p n q(3) by (auto simp: q(1) sys_recv_def live_def split: list.splits if_splits)
  then show "0 < fst (ba_read_step n q)" by (simp add: ba_read_step_def q(1) r(2))
qed

interpretation wb: mover ba_write_step "\<lambda>(r, s). s_output s" "\<lambda>(r, s). holds ba_rest r" "\<lambda>(r, s). is_array r \<and> writable s"
proof
  fix q n len q'
  assume ok: "(case q of (r, s) \<Rightarrow> is_array r \<and> writable s)" and n: "0 < n" and st: "ba_write_step n q = (len, q')" and len: "0 < len"
  obtain ba s where q: "q = (Inr ba, s)" "ba_inv ba" "writable s" using ok by (auto elim: is_arrayE)
  obtain rt s' ba' where r: "sys_send (take n (ba_rest ba)) s = (rt, s')" "SocketStream_write_ba n (Inr ba) s = (rt, Inr ba', s')"
    "ba_inv ba'" "ba_data ba' = ba_data ba" "m_position ba' = m_position ba + nat rt" "nat rt \<le> length (take n (ba_rest ba))"
    using write_ba_step [OF q(2), of s n] q(3) by (metis writable_def)
  have e: "len = rt" "q' = (Inr ba', s')" using st r(2) by (simp_all add: ba_write_step_def q(1))
  have "ba_rest ba' = drop (nat len) (ba_rest ba)"
    using r(4,5) by (simp add: ba_rest_def e(1) string_of_bytes_def drop_map add.commute)
  moreover have "writable s'" "s_output s' = s_output s @ take (nat len) (ba_rest ba)"
    using r(1) len q(3) unfolding e(1) by (auto simp: sys_send_def writable_def min_def split: list.splits if_splits)
  ultimately show "nat len \<le> n \<and> nat len \<le> length (case q of (r, s) \<Rightarrow> holds ba_rest r) \<and> (case q' of (r, s) \<Rightarrow> is_array r \<and> writable s) \<and>
      (case q' of (r, s) \<Rightarrow> s_output s) = (case q of (r, s) \<Rightarrow> s_output s) @ take (nat len) (case q of (r, s) \<Rightarrow> holds ba_rest r) \<and>
      (case q' of (r, s) \<Rightarrow> holds ba_rest r) = drop (nat len) (case q of (r, s) \<Rightarrow> holds ba_rest r)"
    using r(3,6) by (simp add: q(1) e)
next
  fix q :: "(ba_error + byte_array) \<times> sock_stream" and n :: nat
  assume ok: "(case q of (r, s) \<Rightarrow> is_array r \<and> writable s)" and n: "0 < n" and p: "(case q of (r, s) \<Rightarrow> holds ba_rest r) \<noteq> []"
  obtain ba s where q: "q = (Inr ba, s)" "ba_inv ba" "writable s" using ok by (auto elim: is_arrayE)
  obtain rt s' ba' where r: "sys_send (take n (ba_rest ba)) s = (rt, s')" "SocketStream_write_ba n (Inr ba) s = (rt, Inr ba', s')"
    using write_ba_step [OF q(2), of s n] q(3) by (metis writable_def)
  have "0 < rt" using r(1) p n q(3) by (auto simp: q(1) sys_send_def writable_def split: list.splits if_splits)
  then show "0 < fst (ba_write_step n q)" by (simp add: ba_write_step_def q(1) r(2))
qed

section \<open>Properties\<close>


definition example_array :: byte_array where
  "example_array = (case bindE (ByteArray_write (ByteArray_new (\<lambda>_ _. 0) 2) (bytes_of_string ''hello'')) (\<lambda>ba. ByteArray_setPosition ba 1) of
     Inr ba \<Rightarrow> ba | Inl _ \<Rightarrow> ByteArray_new (\<lambda>_ _. 0) 2)"


end
