(* ===== verification/Spec2Isabelle.thy ===== *)
theory Spec2Isabelle
  imports Byte_Array_IO Protocol IO_Manager Hook_IO Http_Server Http_Split Http_Parser_Laws Http_Response_Trip
    Tcp_Server Log Json_Util File_Util Stream_Byte_Array
begin

text \<open>
  A verification development of the sylar server framework, the C++ sources under \<^verbatim>\<open>src/sylar\<close>: a network server library with
  fibers, a scheduler, timers and an epoll loop, hooked system calls, sockets, a TCP and an HTTP server, and the serialisation,
  logging, configuration and utility code around them.

  \<^bold>\<open>How the parts interact.\<close> A \<open>Scheduler\<close> runs fibers on a pool of threads. \<open>IOManager\<close> is a scheduler and a \<open>TimerManager\<close>: its idle
  fiber waits for epoll and for the next timer and turns what happens into tasks. The hooks replace blocking system calls by
  the pattern \<open>try, register, yield, try again\<close> on top of it, using the descriptor contexts of \<open>FdManager\<close>. \<open>Socket\<close> uses the hooked
  calls, \<open>TcpServer\<close> accepts on sockets and schedules a handler for each client, \<open>HttpServer\<close> is such a handler: a session reads a
  request through the generated scanner and the parser, the dispatcher finds the servlet, the response is printed. \<open>ByteArray\<close> carries
  binary data and the protocol messages. Configuration and logging are used everywhere.

  \<^bold>\<open>Theories, in the order of the code.\<close>

  \<^item> \<open>Prelude\<close>: types of machine words, results with errors (\<open>bindE\<close>), bytes and words, lists; the collections \<open>inv_intros\<close>, \<open>bytes_simps\<close>.
    \<open>Ordered_Map\<close>: \<open>std::map\<close> over any strict weak order (locale \<open>map_order\<close>, interpreted for strings and for header names).
  \<^item> \<open>Endian\<close> (\<^verbatim>\<open>endian.h\<close>), \<open>Byte_Array\<close>, \<open>Byte_Array_Codec\<close>, \<open>Byte_Array_IO\<close> (\<^verbatim>\<open>bytearray.h/.cc\<close>): the chain of nodes with its cached
    position, the typed readers and writers, vectors, hex dump, files. Invariant \<open>ba_inv\<close>; reading and writing refine a flat byte sequence;
    every codec is a round trip. \<open>Byte_Stream\<close> holds the locales \<open>byte_reader\<close> and \<open>byte_stream\<close>, through which the codecs and
    \<open>Protocol\<close> (\<^verbatim>\<open>protocol.h/.cc\<close>) use an array.
  \<^item> \<open>Timer\<close> (\<^verbatim>\<open>timer.h/.cc\<close>): timers on a heap and the ordered set; invariant, exact expiry, wake-up (locale \<open>timer_queue\<close>).
    \<open>Fiber\<close> (\<^verbatim>\<open>fiber.h/.cc\<close>): fibers of one thread as flows of control. \<open>Scheduler\<close> (\<^verbatim>\<open>scheduler.h/.cc\<close>): the atomic sections of \<open>run\<close> by a pool of
    threads; no task runs twice, stopping is sound (locale \<open>task_sink\<close>). \<open>IO_Manager\<close> (\<^verbatim>\<open>iomanager.h/.cc\<close>): descriptor contexts, events,
    the epoll timeout, one round of the idle loop.
  \<^item> \<open>Hook\<close>, \<open>Hook_IO\<close> (\<^verbatim>\<open>hook.h/.cc\<close>, \<^verbatim>\<open>fd_manager.h/.cc\<close>): the virtual blocking mode, and \<open>do_io\<close> and \<open>connect_with_timeout\<close> as state machines whose
    environment chooses the next event.
  \<^item> \<open>Address\<close> (\<^verbatim>\<open>address.h/.cc\<close>), \<open>Socket\<close> and \<open>Ssl_Socket\<close> (\<^verbatim>\<open>socket.h/.cc\<close>), \<open>Tcp_Server\<close> (\<^verbatim>\<open>tcp_server.h/.cc\<close>): addresses as raw memory; sockets over a
    table of descriptors in which any system call may fail; ownership of descriptors is the invariant of sockets and servers.
    \<open>Socket_Stream\<close>, \<open>Stream_Byte_Array\<close> (\<^verbatim>\<open>stream.cc\<close>, \<^verbatim>\<open>streams/socket_stream.cc\<close>): the loops over a fixed size for any step that keeps the
    contract \<open>mover\<close>, interpreted for buffers and for arrays in both directions.
  \<^item> \<open>Http\<close> (\<^verbatim>\<open>http/http.h/.cc\<close>), \<open>Servlet\<close> (\<^verbatim>\<open>http/servlet.h/.cc\<close>), \<open>Http_Session\<close>, \<open>Http_Server\<close>, \<open>Http_Split\<close> (\<^verbatim>\<open>http/http_session.cc\<close>, \<^verbatim>\<open>http/http_server.cc\<close>): messages,
    routing, the server loop from bytes to bytes, and what happens to requests that arrive in pieces.
  \<^item> \<open>Ragel\<close>: the table walk of the generated scanners and its specification (locale \<open>ragel_machine\<close>). \<open>Http11_Tables\<close>, \<open>Http11_Edges\<close>, \<open>Http_Parser\<close>,
    \<open>Http_Request_Line\<close>, \<open>Http_Request_Run\<close>, \<open>Http_Parser_Laws\<close> (\<^verbatim>\<open>http/http11_parser.cc\<close>, \<^verbatim>\<open>http/http_parser.cc\<close>) and \<open>Httpclient_Tables\<close>, \<open>Httpclient_Edges\<close>,
    \<open>Httpclient_Parser\<close>, \<open>Http_Response_Run\<close>, \<open>Http_Response_Trip\<close> (\<^verbatim>\<open>http/httpclient_parser.cc\<close>): the tables byte for byte, the binary search of
    the transition keys proved equal to a linear one, the actions, and whole requests and responses parsed back from what is printed.
    \<open>Scan_Loop\<close> is the program logic for both scanners (locale \<open>scan_loop\<close>).
  \<^item> \<open>String_Util\<close>, \<open>File_Util\<close> (\<^verbatim>\<open>util.cc\<close>), \<open>Hash_Util\<close> (\<^verbatim>\<open>util/hash_util.cc\<close>), \<open>Json_Util\<close> (\<^verbatim>\<open>util/json_util.cc\<close>), \<open>Config\<close> (\<^verbatim>\<open>config.h/.cc\<close>), \<open>Log\<close> (\<^verbatim>\<open>log.h/.cc\<close>).

  \<^bold>\<open>State and operations.\<close> A class is a record with the members of the class, an operation a function that takes and returns it under the
  name \<open>Class_method\<close>. Objects that are shared by pointer live in a store and are referred to by address (timers, fibers,
  loggers). Exceptions, failed assertions, null dereferences and accesses out of bounds are \<open>Inl\<close> values. Integers are
  words where they wrap, and natural numbers where the code only counts bytes it holds. What comes from outside is an argument of the
  definitions: clocks, the outcome of system calls, the portions in which bytes arrive, third-party functions (OpenSSL digests and
  handshakes, \<open>fnmatch\<close>, \<open>getaddrinfo\<close>, \<open>strftime\<close>, yaml-cpp, \<open>boost::lexical_cast\<close>). Concurrency is a step relation whose steps are the
  sections that the code runs under a lock.

  \<^bold>\<open>Kinds of results.\<close> Invariants over all reachable states (arrays, timers, descriptor contexts, descriptors of sockets, configuration);
  refinement of abstract specifications (byte sequences, routing); equivalence of the table search with a linear one; round trips
  of every encoder with its decoder; termination and liveness where a loop could fail to end (\<open>handleClient\<close>, \<open>replace\<close>,
  timers); error behaviour and bounds, where the code departs from what it means to do.

  \<^bold>\<open>Fuel and bounds.\<close> Loops are recursive functions with termination proofs. \<open>Logger_log\<close>, \<open>read_fix_loop\<close> and \<open>replace\<close> are partial functions, of
  which returning is proved. The accepting loop of the TCP server takes the number of its turns as an argument, the server stopping it
  from outside. The receive loop of a session and \<open>handleClient\<close> end because the input of a client is finite.

  \<^bold>\<open>Not modelled\<close>: the OpenSSL wrappers (\<^verbatim>\<open>util/crypto_util\<close>) and the ZooKeeper client, which only pass calls on; \<^verbatim>\<open>uri.h\<close>, whose implementation is not in the
  repository; threads, mutexes, singletons and macros, whose effect is the atomicity above; YAML output of the logging configuration and the
  conversion of protobuf messages, which are calls of those libraries; backtraces, wide strings and time formatting of \<^verbatim>\<open>util.cc\<close>;
  the templates of \<^verbatim>\<open>util.h\<close>; tests, samples and generated build files.
\<close>

end
